(* ===== verification/Prelude.thy ===== *)
theory Prelude
  imports Main
begin

text \<open>
  Shared vocabulary of the development: results that may fail, the string functions of the
  host language the sources call, the identifier grammars several components share, and
  association-list stores (a directory of files as a list of named entries).

  A string is a list of characters; a character is one UTF-16 code unit below 256.
  \<^verbatim>\<open>String.length\<close> is then \<open>length\<close>, and \<^verbatim>\<open>Buffer.byteLength\<close> is \<open>utf8_bytes\<close>.
  An instant is the number of milliseconds since 1970 that \<^verbatim>\<open>Date.parse\<close> gives for the
  ISO text the code stores; comparing instants is comparing those numbers.
\<close>

section \<open>Results\<close>

type_synonym ms = int

text \<open>Collections the component theories fill: rewrite rules of operations, invariants, frames.\<close>

named_theorems op_simps \<open>defining equations of the operations\<close>
named_theorems frame_simps \<open>what an operation leaves unchanged\<close>
named_theorems inv_intros \<open>preservation of invariants\<close>

definition rbind :: "'e + 'a \<Rightarrow> ('a \<Rightarrow> 'e + 'b) \<Rightarrow> 'e + 'b" where
  "rbind m f = (case m of Inl e \<Rightarrow> Inl e | Inr x \<Rightarrow> f x)"

lemma rbind_simps [simp]:
  "rbind (Inl e) f = Inl e"
  "rbind (Inr x) f = f x"
  by (simp_all add: rbind_def)

lemma rbind_Inr_iff: "rbind m f = Inr y \<longleftrightarrow> (\<exists>x. m = Inr x \<and> f x = Inr y)"
  by (cases m) auto

lemma rbind_Inl_iff: "rbind m f = Inl e \<longleftrightarrow> m = Inl e \<or> (\<exists>x. m = Inr x \<and> f x = Inl e)"
  by (cases m) auto

definition guard :: "bool \<Rightarrow> 'e \<Rightarrow> 'e + unit" where
  "guard b e = (if b then Inr () else Inl e)"

lemma guard_simps [simp]:
  "guard True e = Inr ()"
  "guard False e = Inl e"
  "guard b e = Inr u \<longleftrightarrow> b"
  "guard b e = Inl e' \<longleftrightarrow> \<not> b \<and> e' = e"
  by (auto simp: guard_def)

definition is_ok :: "'e + 'a \<Rightarrow> bool" where
  "is_ok m = (case m of Inl _ \<Rightarrow> False | Inr _ \<Rightarrow> True)"

lemma is_ok_simps [simp]: "is_ok (Inr x)" "\<not> is_ok (Inl e)"
  by (simp_all add: is_ok_def)

lemma is_ok_iff: "is_ok m \<longleftrightarrow> (\<exists>x. m = Inr x)"
  by (cases m) auto

definition opt_default :: "'a \<Rightarrow> 'a option \<Rightarrow> 'a" where
  \<comment> \<open>the \<^verbatim>\<open>x ?? d\<close> of the sources\<close>
  "opt_default d x = (case x of None \<Rightarrow> d | Some v \<Rightarrow> v)"

lemma opt_default_simps [simp]: "opt_default d None = d" "opt_default d (Some v) = v"
  by (simp_all add: opt_default_def)

fun opt_all :: "('a \<Rightarrow> bool) \<Rightarrow> 'a option \<Rightarrow> bool" where
  \<comment> \<open>an absent optional member passes every check\<close>
  "opt_all P None = True"
| "opt_all P (Some x) = P x"

lemma opt_all_iff: "opt_all P x \<longleftrightarrow> (\<forall>y. x = Some y \<longrightarrow> P y)"
  by (cases x) auto

section \<open>Strings\<close>

definition is_ws :: "char \<Rightarrow> bool" where
  \<comment> \<open>white space of \<^verbatim>\<open>String.prototype.trim\<close> and of \<^verbatim>\<open>\s\<close> below 256\<close>
  "is_ws c = (let n = (of_char c :: nat) in (9 \<le> n \<and> n \<le> 13) \<or> n = 32 \<or> n = 160)"

definition ltrim :: "string \<Rightarrow> string" where
  "ltrim s = dropWhile is_ws s"

definition trim :: "string \<Rightarrow> string" where
  "trim s = rev (ltrim (rev (ltrim s)))"

definition blank :: "string \<Rightarrow> bool" where
  "blank s = (trim s = [])"

definition starts_with :: "string \<Rightarrow> string \<Rightarrow> bool" where
  \<comment> \<open>\<^verbatim>\<open>s.startsWith(p)\<close>\<close>
  "starts_with p s = (take (length p) s = p)"

definition ends_with :: "string \<Rightarrow> string \<Rightarrow> bool" where
  "ends_with p s = starts_with (rev p) (rev s)"

fun str_includes :: "string \<Rightarrow> string \<Rightarrow> bool" where
  \<comment> \<open>\<^verbatim>\<open>s.includes(p)\<close>\<close>
  "str_includes p [] = (p = [])"
| "str_includes p (c # s) = (starts_with p (c # s) \<or> str_includes p s)"

fun join :: "string \<Rightarrow> string list \<Rightarrow> string" where
  "join sep [] = []"
| "join sep [x] = x"
| "join sep (x # y # xs) = x @ sep @ join sep (y # xs)"

lemma set_join: "set (join sep xs) \<subseteq> set sep \<union> \<Union> (set ` set xs)"
  by (induction sep xs rule: join.induct) auto

definition to_lower_char :: "char \<Rightarrow> char" where
  "to_lower_char c = (let n = (of_char c :: nat) in
     if (65 \<le> n \<and> n \<le> 90) \<or> (192 \<le> n \<and> n \<le> 222 \<and> n \<noteq> 215) then char_of (n + 32) else c)"

definition to_lower :: "string \<Rightarrow> string" where
  "to_lower s = map to_lower_char s"

definition utf8_bytes :: "string \<Rightarrow> nat" where
  "utf8_bytes s = sum_list (map (\<lambda>c. if (of_char c :: nat) < 128 then 1 else 2) s)"

lemma starts_with_append [simp]: "starts_with p (p @ s)"
  by (simp add: starts_with_def)

lemma starts_with_iff: "starts_with p s \<longleftrightarrow> (\<exists>t. s = p @ t)"
proof
  assume "starts_with p s"
  then have "s = p @ drop (length p) s"
    using append_take_drop_id [of "length p" s] by (simp add: starts_with_def)
  then show "\<exists>t. s = p @ t" ..
qed (auto simp: starts_with_def)

lemma trim_Nil [simp]: "trim [] = []"
  by (simp add: trim_def ltrim_def)

lemma ltrim_idem: "ltrim (ltrim s) = ltrim s"
  unfolding ltrim_def by (rule dropWhile_idem)

lemma ltrim_Nil_iff: "ltrim s = [] \<longleftrightarrow> (\<forall>c \<in> set s. is_ws c)"
  by (simp add: ltrim_def dropWhile_eq_Nil_conv)

lemma ltrim_snoc: "\<not> is_ws c \<Longrightarrow> ltrim (xs @ [c]) = ltrim xs @ [c]"
  by (induction xs) (auto simp: ltrim_def)

lemma ltrim_self_iff: "ltrim s = s \<longleftrightarrow> (s = [] \<or> \<not> is_ws (hd s))"
  by (simp add: ltrim_def dropWhile_eq_self_iff)

lemma last_dropWhile: "dropWhile P xs \<noteq> [] \<Longrightarrow> last (dropWhile P xs) = last xs"
  by (induction xs) auto

lemma trim_idem [simp]: "trim (trim s) = trim s"
proof -
  let ?t = "ltrim (rev (ltrim s))"
  have hd_t: "?t = [] \<or> \<not> is_ws (hd ?t)"
    using ltrim_idem ltrim_self_iff by blast
  have "?t \<noteq> [] \<Longrightarrow> last ?t = last (rev (ltrim s))"
    unfolding ltrim_def by (rule last_dropWhile)
  moreover have "?t \<noteq> [] \<Longrightarrow> ltrim s \<noteq> []"
    by (metis dropWhile.simps(1) ltrim_def rev.simps(1))
  ultimately have "?t \<noteq> [] \<Longrightarrow> last ?t = hd (ltrim s) \<and> \<not> is_ws (hd (ltrim s))"
    by (metis last_rev ltrim_idem ltrim_self_iff)
  then have "ltrim (rev ?t) = rev ?t"
    by (metis hd_rev ltrim_self_iff rev_is_Nil_conv)
  then show ?thesis
    by (simp add: trim_def ltrim_idem)
qed

section \<open>Sets in insertion order\<close>

definition js_set :: "'a list \<Rightarrow> 'a list" where
  \<comment> \<open>\<^verbatim>\<open>Array.from(new Set(xs))\<close>: first occurrences, in order\<close>
  "js_set xs = rev (remdups (rev xs))"

lemma set_js_set [simp]: "set (js_set xs) = set xs"
  by (simp add: js_set_def)

lemma distinct_js_set [simp]: "distinct (js_set xs)"
  by (simp add: js_set_def)

section \<open>Identifier grammars\<close>

definition is_digit :: "char \<Rightarrow> bool" where
  "is_digit c = (let n = (of_char c :: nat) in 48 \<le> n \<and> n \<le> 57)"

definition is_alnum :: "char \<Rightarrow> bool" where
  "is_alnum c = (let n = (of_char c :: nat) in
     (48 \<le> n \<and> n \<le> 57) \<or> (65 \<le> n \<and> n \<le> 90) \<or> (97 \<le> n \<and> n \<le> 122))"

definition is_key_char :: "char \<Rightarrow> bool" where
  "is_key_char c = (is_alnum c \<or> c = CHR ''.'' \<or> c = CHR ''_'' \<or> c = CHR ''-'')"

definition key_of_length :: "nat \<Rightarrow> string \<Rightarrow> bool" where
  \<comment> \<open>\<^verbatim>\<open>/^[A-Za-z0-9][A-Za-z0-9._-]{0,n}$/\<close>\<close>
  "key_of_length n s = (case s of [] \<Rightarrow> False
     | c # cs \<Rightarrow> is_alnum c \<and> length cs \<le> n \<and> list_all is_key_char cs)"

definition hex64 :: "string \<Rightarrow> bool" where
  \<comment> \<open>\<^verbatim>\<open>/^[a-f0-9]{64}$/\<close>\<close>
  "hex64 s = (length s = 64 \<and> list_all (\<lambda>c. is_digit c \<or>
     (let n = (of_char c :: nat) in 97 \<le> n \<and> n \<le> 102)) s)"

definition safe_integer :: "int \<Rightarrow> bool" where
  \<comment> \<open>\<^verbatim>\<open>Number.isSafeInteger\<close> on an integral number\<close>
  "safe_integer n = (\<bar>n\<bar> \<le> 9007199254740991)"

section \<open>Decimal numerals\<close>

definition digit :: "nat \<Rightarrow> char" where
  "digit n = char_of (48 + n)"

fun dec_nat :: "nat \<Rightarrow> string" where
  \<comment> \<open>\<^verbatim>\<open>String(n)\<close>\<close>
  "dec_nat n = (if n < 10 then [digit n] else dec_nat (n div 10) @ [digit (n mod 10)])"

declare dec_nat.simps [simp del]

definition dec_int :: "int \<Rightarrow> string" where
  "dec_int i = (if i < 0 then CHR ''-'' # dec_nat (nat (- i)) else dec_nat (nat i))"

definition undec_nat :: "string \<Rightarrow> nat" where
  "undec_nat s = foldl (\<lambda>acc c. 10 * acc + (of_char c - 48)) 0 s"

lemma of_char_digit: "n < 10 \<Longrightarrow> of_char (digit n) = 48 + n"
  by (simp add: digit_def)

lemma undec_dec_nat [simp]: "undec_nat (dec_nat n) = n"
proof (induction n rule: dec_nat.induct)
  case (1 n)
  show ?case
  proof (cases "n < 10")
    case True
    then show ?thesis
      by (simp add: dec_nat.simps [of n] undec_nat_def of_char_digit)
  next
    case False
    have "undec_nat (dec_nat (n div 10) @ [digit (n mod 10)]) =
        10 * undec_nat (dec_nat (n div 10)) + n mod 10"
      by (simp add: undec_nat_def of_char_digit)
    with False 1 show ?thesis
      by (simp add: dec_nat.simps [of n])
  qed
qed

lemma dec_nat_inject [simp]: "dec_nat m = dec_nat n \<longleftrightarrow> m = n"
  by (metis undec_dec_nat)

lemma dec_nat_digits: "list_all is_digit (dec_nat n)"
proof (induction n rule: dec_nat.induct)
  case (1 n)
  have "is_digit (digit k)" if "k < 10" for k
    using that by (simp add: is_digit_def of_char_digit Let_def)
  with 1 show ?case
    by (subst dec_nat.simps) simp
qed

lemma dec_nat_not_Nil [simp]: "dec_nat n \<noteq> []"
  by (subst dec_nat.simps) simp

section \<open>Directories as association lists\<close>

type_synonym 'a dir = "(string \<times> 'a) list"

fun dput :: "string \<Rightarrow> 'a \<Rightarrow> 'a dir \<Rightarrow> 'a dir" where
  \<comment> \<open>write the file of that name: in place when it exists, else as a new entry\<close>
  "dput k v [] = [(k, v)]"
| "dput k v ((k', v') # d) = (if k = k' then (k, v) # d else (k', v') # dput k v d)"

definition dget :: "'a dir \<Rightarrow> string \<Rightarrow> 'a option" where
  "dget d k = map_of d k"

definition ddel :: "string \<Rightarrow> 'a dir \<Rightarrow> 'a dir" where
  "ddel k d = filter (\<lambda>(k', _). k' \<noteq> k) d"

definition dnames :: "'a dir \<Rightarrow> string list" where
  "dnames d = map fst d"

lemma dget_Nil [simp]: "dget [] k = None"
  by (simp add: dget_def)

lemma dget_Cons: "dget ((k', v) # d) k = (if k = k' then Some v else dget d k)"
  by (simp add: dget_def)

lemma dget_dput [simp]: "dget (dput k v d) k' = (if k' = k then Some v else dget d k')"
  by (induction k v d rule: dput.induct) (auto simp: dget_def)

lemma dget_ddel [simp]: "dget (ddel k d) k' = (if k' = k then None else dget d k')"
  by (induction d) (auto simp: dget_def ddel_def)

lemma set_dnames: "k \<in> set (dnames d) \<longleftrightarrow> dget d k \<noteq> None"
  by (auto simp: dnames_def dget_def map_of_eq_None_iff)

lemma set_dnames_dput [simp]: "set (dnames (dput k v d)) = insert k (set (dnames d))"
  by (auto simp: set_dnames split: if_splits)

lemma distinct_dput: "distinct (dnames d) \<Longrightarrow> distinct (dnames (dput k v d))"
proof (induction k v d rule: dput.induct)
  case (2 k v k' v' d)
  then show ?case
    using set_dnames_dput [of k v d] by (auto simp: dnames_def)
qed (simp add: dnames_def)

lemma distinct_ddel: "distinct (dnames d) \<Longrightarrow> distinct (dnames (ddel k d))"
  unfolding dnames_def ddel_def by (rule distinct_map_filter)

section \<open>Stateful operations\<close>

text \<open>
  An operation maps a state to a result and the state it leaves, also when it throws: what was
  written before the exception stays written.
\<close>

type_synonym ('s, 'e, 'a) act = "'s \<Rightarrow> ('e + 'a) \<times> 's"

definition ret :: "'a \<Rightarrow> ('s, 'e, 'a) act" where
  "ret x = (\<lambda>s. (Inr x, s))"

definition throw :: "'e \<Rightarrow> ('s, 'e, 'a) act" where
  "throw e = (\<lambda>s. (Inl e, s))"

definition andthen :: "('s, 'e, 'a) act \<Rightarrow> ('a \<Rightarrow> ('s, 'e, 'b) act) \<Rightarrow> ('s, 'e, 'b) act" where
  "andthen m f = (\<lambda>s. case m s of (Inl e, s') \<Rightarrow> (Inl e, s') | (Inr x, s') \<Rightarrow> f x s')"

definition attempt :: "('s, 'e, unit) act \<Rightarrow> ('s, 'e, unit) act" where
  \<comment> \<open>\<^verbatim>\<open>try { m } catch { }\<close>\<close>
  "attempt m = (\<lambda>s. (Inr (), snd (m s)))"

definition modify :: "('s \<Rightarrow> 's) \<Rightarrow> ('s, 'e, unit) act" where
  "modify f = (\<lambda>s. (Inr (), f s))"

datatype write_result =
    WriteOk
  | WriteFailed
  | WriteUnknown \<comment> \<open>the new file is in place, but the call throws: its durability is unknown\<close>

fun for_each :: "('a \<Rightarrow> ('s, 'e, unit) act) \<Rightarrow> 'a list \<Rightarrow> ('s, 'e, unit) act" where
  "for_each f [] = ret ()"
| "for_each f (x # xs) = andthen (f x) (\<lambda>_. for_each f xs)"

definition keeps :: "('s \<Rightarrow> bool) \<Rightarrow> ('s, 'e, 'a) act \<Rightarrow> bool" where
  \<comment> \<open>the operation preserves the predicate, whether it returns or throws\<close>
  "keeps I m \<longleftrightarrow> (\<forall>s. I s \<longrightarrow> I (snd (m s)))"

lemma act_simps [simp]:
  "ret x s = (Inr x, s)"
  "throw e s = (Inl e, s)"
  "modify f s = (Inr (), f s)"
  "attempt m s = (Inr (), snd (m s))"
  by (simp_all add: ret_def throw_def modify_def attempt_def)

lemma andthen_Inl: "m s = (Inl e, s') \<Longrightarrow> andthen m f s = (Inl e, s')"
  by (simp add: andthen_def)

lemma andthen_Inr: "m s = (Inr x, s') \<Longrightarrow> andthen m f s = f x s'"
  by (simp add: andthen_def)

lemma andthen_eq:
  "andthen m f s = (case m s of (r, s') \<Rightarrow> (case r of Inl e \<Rightarrow> (Inl e, s') | Inr x \<Rightarrow> f x s'))"
  by (simp add: andthen_def split: prod.splits sum.splits)

lemma andthen_InrE:
  assumes "andthen m f s = (Inr y, s'')"
  obtains x s' where "m s = (Inr x, s')" "f x s' = (Inr y, s'')"
  using assms by (auto simp: andthen_def split: prod.splits sum.splits)

lemma andthen_ret [simp]: "andthen (ret x) f = f x"
  by (simp add: andthen_def fun_eq_iff)

lemma andthen_throw [simp]: "andthen (throw e) f = throw e"
  by (simp add: andthen_def fun_eq_iff)

lemma keeps_ret [intro]: "keeps I (ret x)"
  by (simp add: keeps_def)

lemma keeps_throw [intro]: "keeps I (throw e)"
  by (simp add: keeps_def)

lemma keeps_andthen [intro]:
  assumes "keeps I m" and "\<And>x. keeps I (f x)"
  shows "keeps I (andthen m f)"
  using assms by (auto simp: keeps_def andthen_def split: prod.splits sum.splits)

lemma keeps_attempt [intro]: "keeps I m \<Longrightarrow> keeps I (attempt m)"
  by (simp add: keeps_def)

lemma keeps_for_each [intro]: "(\<And>x. keeps I (f x)) \<Longrightarrow> keeps I (for_each f xs)"
  by (induction xs) auto

lemma keepsD: "keeps I m \<Longrightarrow> I s \<Longrightarrow> I (snd (m s))"
  by (simp add: keeps_def)

lemma andthen_InlE:
  assumes "andthen m f s = (Inl e, s'')"
  obtains "m s = (Inl e, s'')" | x s' where "m s = (Inr x, s')" "f x s' = (Inl e, s'')"
  using assms by (auto simp: andthen_def split: prod.splits sum.splits)

text \<open>A check in an operation: throw unless the condition holds.\<close>

definition ensure :: "bool \<Rightarrow> 'e \<Rightarrow> ('s, 'e, unit) act" where
  "ensure b e = (if b then ret () else throw e)"

lemma ensure_simps [simp]:
  "ensure b e s = (if b then (Inr (), s) else (Inl e, s))"
  by (simp add: ensure_def)

lemma andthen_ensure: "andthen (ensure b e) f s = (if b then f () s else (Inl e, s))"
  by (simp add: andthen_def)

section \<open>Lists searched for the first match\<close>

lemma find_unique:
  assumes "\<And>x y. x \<in> set xs \<Longrightarrow> y \<in> set xs \<Longrightarrow> P x \<Longrightarrow> P y \<Longrightarrow> x = y"
  shows "find P xs = Some x \<longleftrightarrow> x \<in> set xs \<and> P x"
  using assms
proof (induction xs)
  case (Cons y xs)
  have "find P xs = Some x \<longleftrightarrow> x \<in> set xs \<and> P x" by (rule Cons.IH) (use Cons.prems in simp)
  with Cons.prems [of x y] show ?case by auto
qed simp

end
