(* ===== verification/Json.thy ===== *)
theory Json
  imports Prelude
begin

text \<open>
  JSON values as the sources receive them from \<^verbatim>\<open>JSON.parse\<close> and hand them to
  \<^verbatim>\<open>JSON.stringify\<close>, with the text \<^verbatim>\<open>JSON.stringify\<close> produces.  A number is
  an integral value or \<open>JFrac\<close>, a finite number that is no integer with its text: every source modelled
  here only asks of such a number that \<^verbatim>\<open>Number.isSafeInteger\<close> fails on it.
  Also the ISO text of an instant (\<^verbatim>\<open>Date.prototype.toISOString\<close>).
\<close>

datatype json =
    JNull
  | JBool bool
  | JNum int
  | JFrac string
  | JStr string
  | JArr "json list"
  | JObj "(string \<times> json) list"

section \<open>Property access\<close>

definition jget :: "json \<Rightarrow> string \<Rightarrow> json option" where
  \<comment> \<open>\<^verbatim>\<open>value.k\<close>; \<open>None\<close> is \<^verbatim>\<open>undefined\<close>.  A repeated member keeps its last value.\<close>
  "jget v k = (case v of JObj fs \<Rightarrow> map_of (rev fs) k | _ \<Rightarrow> None)"

definition is_jobj :: "json \<Rightarrow> bool" where
  "is_jobj v = (case v of JObj _ \<Rightarrow> True | _ \<Rightarrow> False)"

definition jstr :: "json option \<Rightarrow> string option" where
  \<comment> \<open>the string, when \<^verbatim>\<open>typeof\<close> says so\<close>
  "jstr v = (case v of Some (JStr s) \<Rightarrow> Some s | _ \<Rightarrow> None)"

definition jbool :: "json option \<Rightarrow> bool option" where
  "jbool v = (case v of Some (JBool b) \<Rightarrow> Some b | _ \<Rightarrow> None)"

definition jsafe_int :: "json option \<Rightarrow> int option" where
  \<comment> \<open>the number, when \<^verbatim>\<open>Number.isSafeInteger\<close> accepts it\<close>
  "jsafe_int v = (case v of Some (JNum n) \<Rightarrow> (if safe_integer n then Some n else None) | _ \<Rightarrow> None)"

definition has_keys :: "json \<Rightarrow> string set \<Rightarrow> bool" where
  \<comment> \<open>\<^verbatim>\<open>Object.keys(v).sort().join(',')\<close> against the sorted list; no name has a comma\<close>
  "has_keys v ks = (case v of JObj fs \<Rightarrow> fst ` set fs = ks | _ \<Rightarrow> False)"

lemma jstr_Some_iff: "jstr v = Some s \<longleftrightarrow> v = Some (JStr s)"
  by (auto simp: jstr_def split: option.splits json.splits)

lemma jbool_Some_iff: "jbool v = Some b \<longleftrightarrow> v = Some (JBool b)"
  by (auto simp: jbool_def split: option.splits json.splits)

lemma jsafe_int_Some_iff: "jsafe_int v = Some n \<longleftrightarrow> v = Some (JNum n) \<and> safe_integer n"
  by (auto simp: jsafe_int_def split: option.splits json.splits if_splits)

section \<open>JSON text\<close>

definition hex_digit :: "nat \<Rightarrow> char" where
  "hex_digit n = char_of (if n < 10 then 48 + n else 87 + n)"

definition escape_char :: "char \<Rightarrow> string" where
  "escape_char c = (let n = (of_char c :: nat) in
     if n = 34 then [CHR 0x5C, CHR 0x22]
     else if n = 92 then [CHR 0x5C, CHR 0x5C]
     else if n = 8 then [CHR 0x5C, CHR ''b'']
     else if n = 9 then [CHR 0x5C, CHR ''t'']
     else if n = 10 then [CHR 0x5C, CHR ''n'']
     else if n = 12 then [CHR 0x5C, CHR ''f'']
     else if n = 13 then [CHR 0x5C, CHR ''r'']
     else if n < 32 then [CHR 0x5C, CHR ''u'', CHR ''0'', CHR ''0'', hex_digit (n div 16), hex_digit (n mod 16)]
     else [c])"

definition quote :: "string \<Rightarrow> string" where
  "quote s = CHR 0x22 # concat (map escape_char s) @ [CHR 0x22]"

fun stringify :: "json \<Rightarrow> string"
and stringify_list :: "json list \<Rightarrow> string list"
and stringify_members :: "(string \<times> json) list \<Rightarrow> string list" where
  "stringify JNull = ''null''"
| "stringify (JBool b) = (if b then ''true'' else ''false'')"
| "stringify (JNum n) = dec_int n"
| "stringify (JFrac txt) = txt"
| "stringify (JStr s) = quote s"
| "stringify (JArr xs) = ''['' @ join '','' (stringify_list xs) @ '']''"
| "stringify (JObj fs) = ''{'' @ join '','' (stringify_members fs) @ ''}''"
| "stringify_list [] = []"
| "stringify_list (x # xs) = stringify x # stringify_list xs"
| "stringify_members [] = []"
| "stringify_members ((k, v) # fs) = (quote k @ '':'' @ stringify v) # stringify_members fs"

definition json_bytes :: "json \<Rightarrow> nat" where
  \<comment> \<open>\<^verbatim>\<open>Buffer.byteLength(JSON.stringify(v))\<close>\<close>
  "json_bytes v = utf8_bytes (stringify v)"

fun pretty :: "nat \<Rightarrow> json \<Rightarrow> string"
and pretty_list :: "nat \<Rightarrow> json list \<Rightarrow> string list"
and pretty_members :: "nat \<Rightarrow> (string \<times> json) list \<Rightarrow> string list" where
  \<comment> \<open>\<^verbatim>\<open>JSON.stringify(v, null, 2)\<close> at an indentation\<close>
  "pretty i (JArr xs) = (if xs = [] then ''[]''
     else [CHR ''['', CHR 0x0A] @ join [CHR '','', CHR 0x0A] (pretty_list (i + 2) xs) @ CHR 0x0A # replicate i (CHR '' '') @ '']'')"
| "pretty i (JObj fs) = (if fs = [] then ''{}''
     else [CHR ''{'', CHR 0x0A] @ join [CHR '','', CHR 0x0A] (pretty_members (i + 2) fs) @ CHR 0x0A # replicate i (CHR '' '') @ ''}'')"
| "pretty i v = stringify v"
| "pretty_list i [] = []"
| "pretty_list i (x # xs) = (replicate i (CHR '' '') @ pretty i x) # pretty_list i xs"
| "pretty_members i [] = []"
| "pretty_members i ((k, v) # fs) = (replicate i (CHR '' '') @ quote k @ '': '' @ pretty i v) # pretty_members i fs"

definition file_bytes :: "json \<Rightarrow> nat" where
  \<comment> \<open>the size of the file \<^verbatim>\<open>atomicWriteJson\<close> writes\<close>
  "file_bytes v = utf8_bytes (pretty 0 v @ [CHR 0x0A])"

lemma file_bytes_pos [simp]: "0 < file_bytes v" "Suc 0 \<le> file_bytes v"
  by (simp_all add: file_bytes_def utf8_bytes_def)

definition opt_member :: "string \<Rightarrow> ('a \<Rightarrow> json) \<Rightarrow> 'a option \<Rightarrow> (string \<times> json) list" where
  \<comment> \<open>a member that is left out when its value is \<^verbatim>\<open>undefined\<close>\<close>
  "opt_member k f v = (case v of None \<Rightarrow> [] | Some x \<Rightarrow> [(k, f x)])"

section \<open>ISO text of an instant\<close>

fun pad_left :: "nat \<Rightarrow> string \<Rightarrow> string" where
  "pad_left n s = (if length s < n then replicate (n - length s) (CHR ''0'') @ s else s)"

definition civil_of_days :: "int \<Rightarrow> int \<times> int \<times> int" where
  \<comment> \<open>year, month and day of the proleptic Gregorian calendar\<close>
  "civil_of_days d = (let
     z = d + 719468;
     era = z div 146097;
     doe = z mod 146097;
     yoe = (doe - doe div 1460 + doe div 36524 - doe div 146096) div 365;
     doy = doe - (365 * yoe + yoe div 4 - yoe div 100);
     mp = (5 * doy + 2) div 153;
     day = doy - (153 * mp + 2) div 5 + 1;
     month = (if mp < 10 then mp + 3 else mp - 9);
     year = yoe + era * 400 + (if month \<le> 2 then 1 else 0)
   in (year, month, day))"

definition iso_year :: "int \<Rightarrow> string" where
  "iso_year y = (if 0 \<le> y \<and> y \<le> 9999 then pad_left 4 (dec_nat (nat y))
     else (if y < 0 then ''-'' else ''+'') @ pad_left 6 (dec_nat (nat \<bar>y\<bar>)))"

definition iso :: "ms \<Rightarrow> string" where
  "iso t = (let
     days = t div 86400000; r = t mod 86400000;
     (y, m, d) = civil_of_days days
   in iso_year y @ ''-'' @ pad_left 2 (dec_nat (nat m)) @ ''-'' @ pad_left 2 (dec_nat (nat d)) @ ''T'' @
      pad_left 2 (dec_nat (nat (r div 3600000))) @ '':'' @
      pad_left 2 (dec_nat (nat (r div 60000 mod 60))) @ '':'' @
      pad_left 2 (dec_nat (nat (r div 1000 mod 60))) @ ''.'' @
      pad_left 3 (dec_nat (nat (r mod 1000))) @ ''Z'')"

definition jiso :: "ms \<Rightarrow> json" where
  "jiso t = JStr (iso t)"

lemma iso_examples:
  "iso 0 = ''1970-01-01T00:00:00.000Z''"
  "iso 951782400123 = ''2000-02-29T00:00:00.123Z''"
  by code_simp+

end
