(* ===== verification/TeamTask.thy ===== *)
theory TeamTask
  imports Json
begin

text \<open>
  The data of the team task store, \<^verbatim>\<open>src/team/tasks.ts\<close>: tasks, claims, journal events,
  the checks a task read from disk must pass (\<^verbatim>\<open>isClaim\<close>, \<^verbatim>\<open>isTeamTask\<close>), its
  normalisation, and the store of one team: the configuration file, one file per task, one journal
  per task, one file per pending reopen cascade.

  An optional member of the source is an \<open>option\<close>; a member that may be \<^verbatim>\<open>null\<close> or absent
  is an option of an option.  ISO texts are instants (a text no instant can be read from makes the
  file garbage).  SHA-256 is a parameter \<open>sha\<close> of the definitions that use it.
\<close>

section \<open>Statuses\<close>

datatype task_status = TPending | TBlocked | TInProgress | TCompleted | TFailed

fun status_text :: "task_status \<Rightarrow> string" where
  "status_text TPending = ''pending''"
| "status_text TBlocked = ''blocked''"
| "status_text TInProgress = ''in_progress''"
| "status_text TCompleted = ''completed''"
| "status_text TFailed = ''failed''"

fun task_transitions :: "task_status \<Rightarrow> task_status list" where
  "task_transitions TPending = [TInProgress, TBlocked]"
| "task_transitions TBlocked = [TPending, TInProgress]"
| "task_transitions TInProgress = [TCompleted, TFailed, TPending]"
| "task_transitions TCompleted = []"
| "task_transitions TFailed = []"

definition terminal :: "task_status \<Rightarrow> bool" where
  "terminal s = (s = TCompleted \<or> s = TFailed)"

definition can_transition :: "task_status \<Rightarrow> task_status \<Rightarrow> bool" where
  "can_transition from to = (to \<in> set (task_transitions from))"

definition CLAIM_LEASE_MS :: int where "CLAIM_LEASE_MS = 15 * 60 * 1000"
definition MAX_TOTAL_LEASE_MS :: int where "MAX_TOTAL_LEASE_MS = 24 * 60 * 60 * 1000"
definition MAX_TERMINAL_PAYLOAD_BYTES :: nat where "MAX_TERMINAL_PAYLOAD_BYTES = 48 * 1024"
definition MAX_TASK_JOURNAL_RECORD_BYTES :: nat where "MAX_TASK_JOURNAL_RECORD_BYTES = 64 * 1024"

section \<open>Claims, tasks, events\<close>

record proc_claim =
  pc_pid :: int
  pc_start_identity :: string
  pc_proven :: "bool option"
  pc_nonce_sha256 :: "string option"

record claim =
  c_owner :: string
  c_generation :: "int option"
  c_token_sha256 :: "string option"
  c_token :: "string option"
  c_process :: "proc_claim option"
  c_acquired_at :: "ms option"
  c_renewed_at :: "ms option"
  c_leased_until :: ms
  c_heartbeat :: "int option"
  c_workspace_generation :: "int option"

record task =
  t_id :: string
  t_subject :: string
  t_description :: string
  t_status :: task_status
  t_created_at :: ms
  t_version :: int
  t_last_gen :: "int option"
  t_request_id :: "string option"
  t_request_sha :: "string option"
  t_request_owner :: "string option option"
  t_owner :: "string option"
  t_blocked_by :: "string list option"
  t_claim :: "claim option"
  t_completed_at :: "ms option"
  t_result :: "string option"
  t_error :: "string option"

datatype task_event =
    Created task
  | Claimed task claim
  | Renewed task claim
  | Released task
  | Reclaimed task int int "string option"
  | Transitioned task task_status task_status
  | Reopened task "string option"

fun event_task :: "task_event \<Rightarrow> task" where
  "event_task (Created t) = t"
| "event_task (Claimed t _) = t"
| "event_task (Renewed t _) = t"
| "event_task (Released t) = t"
| "event_task (Reclaimed t _ _ _) = t"
| "event_task (Transitioned t _ _) = t"
| "event_task (Reopened t _) = t"

fun is_claim_event :: "task_event \<Rightarrow> bool" where
  "is_claim_event (Claimed _ _) = True"
| "is_claim_event (Reclaimed _ _ _ _) = True"
| "is_claim_event _ = False"

fun is_reopened :: "task_event \<Rightarrow> bool" where
  "is_reopened (Reopened _ _) = True"
| "is_reopened _ = False"

section \<open>Checks on what is read from disk\<close>

definition task_id_ok :: "string \<Rightarrow> bool" where
  \<comment> \<open>\<^verbatim>\<open>/^\d{1,20}$/\<close>\<close>
  "task_id_ok s = (s \<noteq> [] \<and> length s \<le> 20 \<and> list_all is_digit s)"

definition worker_name_ok :: "string \<Rightarrow> bool" where
  "worker_name_ok s = key_of_length 63 s"

definition is_request_id :: "string \<Rightarrow> bool" where
  "is_request_id s = (s \<noteq> [] \<and> length s \<le> 256 \<and>
     list_all (\<lambda>c. let n = (of_char c :: nat) in 32 \<le> n \<and> n \<noteq> 127) s)"

definition proc_claim_ok :: "proc_claim \<Rightarrow> bool" where
  "proc_claim_ok p = (safe_integer (pc_pid p) \<and> 0 < pc_pid p \<and> \<not> blank (pc_start_identity p)
     \<and> opt_all hex64 (pc_nonce_sha256 p))"

definition is_claim :: "claim \<Rightarrow> bool" where
  "is_claim c = (worker_name_ok (c_owner c)
     \<and> opt_all (\<lambda>g. safe_integer g \<and> 1 \<le> g) (c_generation c)
     \<and> opt_all hex64 (c_token_sha256 c)
     \<and> opt_all (\<lambda>t. \<not> blank t) (c_token c)
     \<and> (c_token_sha256 c \<noteq> None \<or> c_token c \<noteq> None)
     \<and> opt_all (\<lambda>h. 0 \<le> h \<and> h < 9007199254740991) (c_heartbeat c)
     \<and> opt_all (\<lambda>g. safe_integer g \<and> 1 \<le> g) (c_workspace_generation c)
     \<and> opt_all proc_claim_ok (c_process c))"

definition status_shape :: "task \<Rightarrow> bool" where
  \<comment> \<open>the branch on \<^verbatim>\<open>task.status\<close> at the end of \<^verbatim>\<open>isTeamTask\<close>\<close>
  "status_shape t = (case t_status t of
     TPending \<Rightarrow> t_claim t = None \<and> t_completed_at t = None \<and> t_result t = None \<and> t_error t = None
   | TBlocked \<Rightarrow> t_claim t = None \<and> t_completed_at t = None \<and> t_result t = None \<and> t_error t = None
       \<and> t_blocked_by t \<noteq> None \<and> t_blocked_by t \<noteq> Some []
   | TInProgress \<Rightarrow> t_claim t \<noteq> None \<and> t_owner t \<noteq> None
       \<and> map_option c_owner (t_claim t) = t_owner t
       \<and> t_completed_at t = None \<and> t_result t = None \<and> t_error t = None
   | TCompleted \<Rightarrow> t_claim t = None \<and> t_completed_at t \<noteq> None \<and> t_error t = None
   | TFailed \<Rightarrow> t_claim t = None \<and> t_completed_at t \<noteq> None \<and> t_result t = None)"

definition is_team_task :: "task \<Rightarrow> bool" where
  "is_team_task t = (task_id_ok (t_id t)
     \<and> length (t_subject t) \<le> 64 * 1024
     \<and> length (t_description t) \<le> 64 * 1024
     \<and> safe_integer (t_version t) \<and> 1 \<le> t_version t
     \<and> opt_all (\<lambda>g. safe_integer g \<and> 0 \<le> g) (t_last_gen t)
     \<and> opt_all is_request_id (t_request_id t)
     \<and> opt_all hex64 (t_request_sha t)
     \<and> opt_all (opt_all worker_name_ok) (t_request_owner t)
     \<and> (t_request_id t = None \<longleftrightarrow> t_request_sha t = None)
     \<and> (t_request_id t \<noteq> None \<longrightarrow> t_request_owner t \<noteq> None)
     \<and> \<not> (t_request_id t = None \<and> t_request_owner t = Some None)
     \<and> opt_all worker_name_ok (t_owner t)
     \<and> opt_all (list_all task_id_ok) (t_blocked_by t)
     \<and> opt_all is_claim (t_claim t)
     \<and> (case (t_last_gen t, t_claim t) of
          (Some n, Some c) \<Rightarrow> opt_all (\<lambda>g. g \<le> n) (c_generation c)
        | _ \<Rightarrow> True)
     \<and> opt_all (\<lambda>r. length r \<le> 64 * 1024) (t_result t)
     \<and> opt_all (\<lambda>r. length r \<le> 64 * 1024) (t_error t)
     \<and> status_shape t)"

section \<open>Normalisation\<close>

definition normalize_claim :: "(string \<Rightarrow> string) \<Rightarrow> task \<Rightarrow> claim \<Rightarrow> claim" where
  "normalize_claim sha t c0 = (let
     c1 = (case c_token c0 of None \<Rightarrow> c0
           | Some tok \<Rightarrow> c0\<lparr>c_token := None,
               c_token_sha256 := Some (opt_default (sha tok) (c_token_sha256 c0))\<rparr>);
     c2 = (if c_generation c1 = None then c1\<lparr>c_generation := Some 1\<rparr> else c1)
   in if c_acquired_at c2 = None
      then c2\<lparr>c_acquired_at :=
             Some (min (max (t_created_at t) (c_leased_until c2 - CLAIM_LEASE_MS)) (c_leased_until c2))\<rparr>
      else c2)"

definition normalize_task :: "(string \<Rightarrow> string) \<Rightarrow> task \<Rightarrow> task" where
  "normalize_task sha t = (let
     claim' = map_option (normalize_claim sha t) (t_claim t);
     t1 = t\<lparr>t_claim := claim'\<rparr>
   in if t_last_gen t1 = None
      then t1\<lparr>t_last_gen := (case claim' of None \<Rightarrow> Some 0 | Some c \<Rightarrow> c_generation c)\<rparr>
      else t1)"

section \<open>Claims in time\<close>

definition lease_expired :: "claim option \<Rightarrow> ms \<Rightarrow> bool" where
  "lease_expired c now = (case c of None \<Rightarrow> False | Some c \<Rightarrow> c_leased_until c \<le> now)"

definition verify_claim_token :: "(string \<Rightarrow> string) \<Rightarrow> claim \<Rightarrow> string \<Rightarrow> bool" where
  "verify_claim_token sha c candidate = (let s = trim candidate in
     s \<noteq> [] \<and> (c_token_sha256 c = Some (sha s) \<and> sha s \<noteq> [] \<or> c_token c = Some s))"

section \<open>Liveness of the worker process\<close>

datatype existence = Dead | Alive | ExAmbiguous string

datatype liveness = LDead | LStale | LActive | LAmbiguous string

record start_observation =
  so_value :: string
  so_proven :: bool
  so_unsupported :: bool

record probe =
  \<comment> \<open>what the operating system answers for a process: \<^verbatim>\<open>probePid\<close> and \<^verbatim>\<open>observeStartIdentity\<close>\<close>
  pr_exists :: "int \<Rightarrow> existence"
  pr_start :: "int \<Rightarrow> start_observation"

definition classify_liveness :: "probe \<Rightarrow> int \<Rightarrow> string \<Rightarrow> bool \<Rightarrow> liveness" where
  "classify_liveness pr pid start proven = (case pr_exists pr pid of
     Dead \<Rightarrow> LDead
   | ExAmbiguous r \<Rightarrow> LAmbiguous r
   | Alive \<Rightarrow> (let ob = pr_start pr pid in
       if \<not> proven \<or> \<not> so_proven ob
       then LAmbiguous (if so_unsupported ob then ''platform_identity_unsupported'' else ''start_identity_unproven'')
       else if start \<noteq> so_value ob then LStale else LActive))"

definition claim_liveness :: "probe \<Rightarrow> proc_claim \<Rightarrow> liveness" where
  "claim_liveness pr p = classify_liveness pr (pc_pid p) (pc_start_identity p) (opt_default False (pc_proven p))"

section \<open>JSON text of a journal record\<close>

text \<open>
  \<^verbatim>\<open>createTask\<close>, \<^verbatim>\<open>transitionTaskStatus\<close> and \<^verbatim>\<open>reopenTask\<close> refuse a task whose
  journal record would be too long, by rendering the record they are about to append.
\<close>

fun opt_null :: "string option \<Rightarrow> json" where
  "opt_null None = JNull"
| "opt_null (Some s) = JStr s"

definition proc_claim_json :: "proc_claim \<Rightarrow> json" where
  "proc_claim_json p = JObj ([(''pid'', JNum (pc_pid p)), (''start_identity'', JStr (pc_start_identity p))]
     @ opt_member ''start_identity_proven'' JBool (pc_proven p)
     @ opt_member ''nonce_sha256'' JStr (pc_nonce_sha256 p))"

definition claim_json :: "claim \<Rightarrow> json" where
  "claim_json c = JObj ([(''owner'', JStr (c_owner c))]
     @ opt_member ''generation'' JNum (c_generation c)
     @ opt_member ''token_sha256'' JStr (c_token_sha256 c)
     @ opt_member ''token'' JStr (c_token c)
     @ opt_member ''worker_process_identity'' proc_claim_json (c_process c)
     @ opt_member ''acquired_at'' jiso (c_acquired_at c)
     @ opt_member ''renewed_at'' jiso (c_renewed_at c)
     @ [(''leased_until'', jiso (c_leased_until c))]
     @ opt_member ''heartbeat_sequence'' JNum (c_heartbeat c)
     @ opt_member ''workspace_generation'' JNum (c_workspace_generation c))"

definition task_json :: "task \<Rightarrow> json" where
  "task_json t = JObj ([(''id'', JStr (t_id t)), (''subject'', JStr (t_subject t)),
       (''description'', JStr (t_description t)), (''status'', JStr (status_text (t_status t))),
       (''created_at'', jiso (t_created_at t)), (''version'', JNum (t_version t))]
     @ opt_member ''last_claim_generation'' JNum (t_last_gen t)
     @ opt_member ''request_id'' JStr (t_request_id t)
     @ opt_member ''request_payload_sha256'' JStr (t_request_sha t)
     @ opt_member ''request_owner'' opt_null (t_request_owner t)
     @ opt_member ''owner'' JStr (t_owner t)
     @ opt_member ''blocked_by'' (\<lambda>ds. JArr (map JStr ds)) (t_blocked_by t)
     @ opt_member ''claim'' claim_json (t_claim t)
     @ opt_member ''completed_at'' jiso (t_completed_at t)
     @ opt_member ''result'' JStr (t_result t)
     @ opt_member ''error'' JStr (t_error t))"

fun event_kind :: "task_event \<Rightarrow> string" where
  "event_kind (Created _) = ''created''"
| "event_kind (Claimed _ _) = ''claimed''"
| "event_kind (Renewed _ _) = ''renewed''"
| "event_kind (Released _) = ''released''"
| "event_kind (Reclaimed _ _ _ _) = ''reclaimed''"
| "event_kind (Transitioned _ _ _) = ''transitioned''"
| "event_kind (Reopened _ _) = ''reopened''"

fun event_extra :: "task_event \<Rightarrow> (string \<times> json) list" where
  "event_extra (Claimed _ c) = [(''claim'', claim_json c)]"
| "event_extra (Renewed _ c) = [(''claim'', claim_json c)]"
| "event_extra (Reclaimed _ p n r) = [(''previous_generation'', JNum p), (''new_generation'', JNum n)]
     @ opt_member ''reason'' JStr r"
| "event_extra (Transitioned _ f t) = [(''from'', JStr (status_text f)), (''to'', JStr (status_text t))]"
| "event_extra (Reopened _ r) = opt_member ''reason'' JStr r"
| "event_extra _ = []"

definition event_json :: "task_event \<Rightarrow> json" where
  "event_json e = JObj ([(''kind'', JStr (event_kind e)), (''task'', task_json (event_task e))] @ event_extra e)"

definition created_record_bytes :: "ms \<Rightarrow> task_event \<Rightarrow> nat" where
  \<comment> \<open>the record \<^verbatim>\<open>createTask\<close> simulates\<close>
  "created_record_bytes now e = json_bytes (JObj [(''kind'', JStr (event_kind e)),
     (''payload'', event_json e), (''at'', jiso now)])"

definition probe_record_bytes :: "string \<Rightarrow> string \<Rightarrow> ms \<Rightarrow> task_event \<Rightarrow> nat" where
  \<comment> \<open>the line \<^verbatim>\<open>transitionTaskStatus\<close> and \<^verbatim>\<open>reopenTask\<close> probe with, newline included\<close>
  "probe_record_bytes team tid now e = json_bytes (JObj [(''schema_version'', JNum 1),
     (''stream_id'', JStr (''team/'' @ team @ ''/task/'' @ tid)),
     (''sequence'', JNum 9007199254740991), (''kind'', JStr (event_kind e)),
     (''payload'', event_json e), (''at'', jiso now),
     (''previous_digest'', JStr (replicate 64 (CHR ''0''))),
     (''digest'', JStr (replicate 64 (CHR ''0'')))]) + 1"

end
