(* ===== verification/TeamStore.thy ===== *)
theory TeamStore
  imports TeamTask
begin

text \<open>
  The store of one team and its two primitive operations: reading a task
  (\<^verbatim>\<open>readTaskUnlocked\<close>, which repairs a missing or broken task file from the journal) and
  committing one (\<^verbatim>\<open>commitTaskWithJournal\<close>, journal first, then the file, with the
  compensation the code runs when the file write fails).  Input/output can fail: the outcomes of the
  writes of one commit are the fields of a \<open>faults\<close> record, an argument of the operation.
\<close>

section \<open>State\<close>

datatype team_error =
    E_TEAM_TASK_CORRUPT | E_TEAM_TASK_ID_INVALID | E_TEAM_WORKER_INVALID
  | E_TEAM_TASK_DEPENDENCY_CYCLE | E_TEAM_TASK_FIELDS_REQUIRED | E_TEAM_NOT_FOUND
  | E_TEAM_WORKER_NOT_FOUND | E_TEAM_BLOCKED_BY_NOT_FOUND | E_TEAM_TASK_IDEMPOTENCY_CONFLICT
  | E_TEAM_TASK_IDEMPOTENCY_CORRUPT | E_TEAM_TASK_TOO_LARGE | E_TEAM_TASK_REQUEST_ID_INVALID
  | E_TEAM_TASK_GENERATION_OVERFLOW | E_TEAM_TASK_HEARTBEAT_OVERFLOW
  | E_TEAM_TASK_PROCESS_IDENTITY_INVALID | E_PROCESS_NONCE_INVALID | E_TEAM_CONFIG_INVALID | E_TEAM_CONFIG_CORRUPT
  | E_TEAM_IO \<comment> \<open>a file or journal operation failed\<close>
  | E_TEAM_FUEL \<comment> \<open>of the model only: a search ran out of fuel, which the lemmas exclude\<close>

record team_config =
  tc_name :: string
  tc_worker_count :: int
  tc_workers :: "string list"
  tc_next_task_id :: int

datatype config_file = ConfigAbsent | ConfigBad team_error | ConfigOk team_config

datatype task_file = TaskFile task | Garbage

datatype task_log = Log "task_event list" | LogHeadless | LogUnreadable

record cascade_intent =
  ci_task_id :: string
  ci_created_at :: ms
  ci_reason :: "string option"

record team =
  tm_name :: string
  tm_config :: config_file
  tm_files :: "task_file dir"
  tm_logs :: "task_log dir"
  tm_intents :: "cascade_intent dir"

definition read_config :: "team \<Rightarrow> team_error + team_config option" where
  "read_config st = (case tm_config st of
     ConfigAbsent \<Rightarrow> Inr None | ConfigBad e \<Rightarrow> Inl e | ConfigOk c \<Rightarrow> Inr (Some c))"

definition all_task_ids :: "team \<Rightarrow> string list" where
  \<comment> \<open>\<^verbatim>\<open>enumerateAllTaskIds\<close>: a JavaScript set in insertion order\<close>
  "all_task_ids st = rev (remdups (rev (filter task_id_ok (dnames (tm_files st) @ dnames (tm_logs st)))))"

section \<open>Reading\<close>

definition rebuild_from_journal :: "team \<Rightarrow> string \<Rightarrow> team_error + task option" where
  "rebuild_from_journal st tid = (case dget (tm_logs st) tid of
     None \<Rightarrow> Inr None
   | Some LogUnreadable \<Rightarrow> Inl E_TEAM_TASK_CORRUPT
   | Some LogHeadless \<Rightarrow> Inl E_TEAM_TASK_CORRUPT
   | Some (Log evs) \<Rightarrow> (if evs = [] then Inr None
       else let t = event_task (last evs) in
         if is_team_task t \<and> t_id t = tid then Inr (Some t) else Inl E_TEAM_TASK_CORRUPT))"

definition file_task :: "team \<Rightarrow> string \<Rightarrow> task option" where
  \<comment> \<open>the task the file holds, when it passes \<^verbatim>\<open>isTeamTask\<close> and names itself\<close>
  "file_task st tid = (case dget (tm_files st) tid of
     Some (TaskFile t) \<Rightarrow> (if is_team_task t \<and> t_id t = tid then Some t else None)
   | _ \<Rightarrow> None)"

definition raw_task :: "team \<Rightarrow> string \<Rightarrow> team_error + task option" where
  "raw_task st tid = (if \<not> task_id_ok tid then Inl E_TEAM_TASK_ID_INVALID
     else case file_task st tid of Some t \<Rightarrow> Inr (Some t)
     | None \<Rightarrow> (case rebuild_from_journal st tid of
          Inl e \<Rightarrow> Inl e
        | Inr (Some t) \<Rightarrow> Inr (Some t)
        | Inr None \<Rightarrow> (if dget (tm_files st) tid = None then Inr None else Inl E_TEAM_TASK_CORRUPT)))"

definition read_task :: "(string \<Rightarrow> string) \<Rightarrow> team \<Rightarrow> string \<Rightarrow> team_error + task option" where
  \<comment> \<open>the value \<^verbatim>\<open>readTaskUnlocked\<close> returns or throws\<close>
  "read_task sha st tid = rbind (raw_task st tid) (\<lambda>t. Inr (map_option (normalize_task sha) t))"

definition read_effect :: "team \<Rightarrow> string \<Rightarrow> team" where
  \<comment> \<open>its effect: a task recovered from the journal is written back to its file\<close>
  "read_effect st tid = (case raw_task st tid of
     Inr (Some t) \<Rightarrow> (if file_task st tid = None
       then st\<lparr>tm_files := dput tid (TaskFile t) (tm_files st)\<rparr> else st)
   | _ \<Rightarrow> st)"

section \<open>Committing\<close>

record faults =
  fl_append :: bool
  fl_write :: write_result
  fl_append2 :: bool
  fl_write2 :: write_result
  fl_unlink :: bool

definition no_faults :: faults where
  "no_faults = \<lparr>fl_append = True, fl_write = WriteOk, fl_append2 = True, fl_write2 = WriteOk, fl_unlink = True\<rparr>"

definition append_log :: "bool \<Rightarrow> string \<Rightarrow> task_event \<Rightarrow> team \<Rightarrow> (team_error + unit) \<times> team" where
  "append_log ok tid ev st = (if \<not> ok then (Inl E_TEAM_IO, st)
     else case dget (tm_logs st) tid of
       None \<Rightarrow> (Inr (), st\<lparr>tm_logs := dput tid (Log [ev]) (tm_logs st)\<rparr>)
     | Some (Log evs) \<Rightarrow> (Inr (), st\<lparr>tm_logs := dput tid (Log (evs @ [ev])) (tm_logs st)\<rparr>)
     | Some _ \<Rightarrow> (Inl E_TEAM_IO, st))"

definition write_file :: "write_result \<Rightarrow> string \<Rightarrow> task \<Rightarrow> team \<Rightarrow> (team_error + unit) \<times> team" where
  "write_file w tid t st = (case w of
     WriteOk \<Rightarrow> (Inr (), st\<lparr>tm_files := dput tid (TaskFile t) (tm_files st)\<rparr>)
   | WriteUnknown \<Rightarrow> (Inl E_TEAM_IO, st\<lparr>tm_files := dput tid (TaskFile t) (tm_files st)\<rparr>)
   | WriteFailed \<Rightarrow> (Inl E_TEAM_IO, st))"

definition unlink_file :: "bool \<Rightarrow> string \<Rightarrow> team \<Rightarrow> team" where
  "unlink_file ok tid st = (if ok then st\<lparr>tm_files := ddel tid (tm_files st)\<rparr> else st)"

definition gen_of_claim :: "claim option \<Rightarrow> int" where
  \<comment> \<open>\<^verbatim>\<open>task.claim?.generation ?? 0\<close>\<close>
  "gen_of_claim c = (case c of None \<Rightarrow> 0 | Some c \<Rightarrow> opt_default 0 (c_generation c))"

definition fence :: "task \<Rightarrow> int" where
  \<comment> \<open>\<^verbatim>\<open>Math.max(task.last_claim_generation ?? 0, task.claim?.generation ?? 0)\<close>\<close>
  "fence t = max (opt_default 0 (t_last_gen t)) (gen_of_claim (t_claim t))"

definition preserved_owner :: "task \<Rightarrow> string option" where
  "preserved_owner prev = (case t_request_owner prev of
     Some (Some r) \<Rightarrow> Some r
   | _ \<Rightarrow> (if t_status prev = TPending \<and> t_claim prev = None then t_owner prev else None))"

definition reconciled_task :: "bool \<Rightarrow> task \<Rightarrow> task \<Rightarrow> task" where
  "reconciled_task claim_op t prev = (let g = max (fence t) (fence prev);
     base = prev\<lparr>t_version := t_version t + 1,
                 t_last_gen := (if 0 < g then Some g else t_last_gen prev)\<rparr>
   in if claim_op
      then base\<lparr>t_status := (if t_status prev = TInProgress then TPending else t_status prev),
                t_owner := preserved_owner prev, t_claim := None\<rparr>
      else base)"

definition commit_task :: "faults \<Rightarrow> string \<Rightarrow> task_event \<Rightarrow> task option \<Rightarrow> team \<Rightarrow> (team_error + unit) \<times> team" where
  "commit_task fl tid ev prev st = (let t = event_task ev in
     case append_log (fl_append fl) tid ev st of
       (Inl e, st1) \<Rightarrow> (Inl e, st1)
     | (Inr _, st1) \<Rightarrow> (case write_file (fl_write fl) tid t st1 of
         (Inr _, st2) \<Rightarrow> (Inr (), st2)
       | (Inl e, st2) \<Rightarrow> (case prev of
           None \<Rightarrow> (Inl e, unlink_file (fl_unlink fl) tid st2)
         | Some p \<Rightarrow> (let r = reconciled_task (is_claim_event ev) t p;
               st3 = snd (append_log (fl_append2 fl) tid (Released r) st2)
             in case write_file (fl_write2 fl) tid r st3 of
                  (Inr _, st4) \<Rightarrow> (Inl e, st4)
                | (Inl _, st4) \<Rightarrow> (Inl e, unlink_file (fl_unlink fl) tid st4)))))"

section \<open>Laws of reading\<close>

lemma raw_task_None_iff:
  "raw_task st tid = Inr None \<longleftrightarrow> task_id_ok tid \<and> dget (tm_files st) tid = None
     \<and> rebuild_from_journal st tid = Inr None"
  by (auto simp: raw_task_def file_task_def split: option.splits sum.splits if_splits task_file.splits)

lemma raw_task_SomeD:
  assumes "raw_task st tid = Inr (Some t)"
  shows "task_id_ok tid" "is_team_task t" "t_id t = tid"
  using assms
  by (auto simp: raw_task_def file_task_def rebuild_from_journal_def Let_def
      split: option.splits sum.splits if_splits task_file.splits task_log.splits)

lemma rebuild_read_effect [simp]:
  "rebuild_from_journal (read_effect st a) b = rebuild_from_journal st b"
  by (simp add: rebuild_from_journal_def read_effect_def split: option.splits sum.splits)

lemma read_effect_frame [frame_simps]:
  "tm_name (read_effect st a) = tm_name st"
  "tm_config (read_effect st a) = tm_config st"
  "tm_logs (read_effect st a) = tm_logs st"
  "tm_intents (read_effect st a) = tm_intents st"
  by (auto simp: read_effect_def split: option.splits sum.splits)

lemma file_task_read_effect:
  "file_task (read_effect st a) b =
     (case raw_task st a of Inr (Some t) \<Rightarrow> (if a = b then Some t else file_task st b) | _ \<Rightarrow> file_task st b)"
proof (cases "raw_task st a")
  case (Inr r)
  show ?thesis
  proof (cases r)
    case (Some t)
    note raw = Inr [unfolded Some]
    note t = raw_task_SomeD [OF raw]
    show ?thesis
    proof (cases "file_task st a")
      case None
      then show ?thesis using raw t by (auto simp: read_effect_def file_task_def)
    next
      case (Some u)
      with raw t have "u = t" by (simp add: raw_task_def)
      with Some raw show ?thesis by (auto simp: read_effect_def)
    qed
  qed (simp add: Inr read_effect_def)
qed (simp add: read_effect_def)

lemma dget_files_read_effect:
  "dget (tm_files (read_effect st a)) b = None \<longleftrightarrow>
     dget (tm_files st) b = None \<and> \<not> (a = b \<and> (\<exists>t. raw_task st a = Inr (Some t)))"
  by (auto simp: read_effect_def file_task_def split: sum.splits option.splits)

text \<open>Reading has no observable effect: recovery writes the file every later read would see.\<close>

lemma raw_task_read_effect [simp]: "raw_task (read_effect st a) b = raw_task st b"
proof (cases "a = b")
  case True
  then show ?thesis
  proof (cases "raw_task st a")
    case (Inl e)
    then have "read_effect st a = st" by (simp add: read_effect_def)
    then show ?thesis by simp
  next
    case (Inr r)
    show ?thesis
    proof (cases r)
      case None
      with Inr have "read_effect st a = st" by (simp add: read_effect_def)
      then show ?thesis by simp
    next
      case (Some t)
      then have "file_task (read_effect st a) b = Some t" and "task_id_ok b"
        using Inr True raw_task_SomeD(1) by (auto simp: file_task_read_effect)
      then show ?thesis using Inr Some True by (simp add: raw_task_def)
    qed
  qed
next
  case False
  have "file_task (read_effect st a) b = file_task st b"
    using False by (simp add: file_task_read_effect split: sum.splits option.splits)
  moreover have "dget (tm_files (read_effect st a)) b = None \<longleftrightarrow> dget (tm_files st) b = None"
    using False by (simp add: dget_files_read_effect)
  ultimately show ?thesis by (simp only: raw_task_def rebuild_read_effect)
qed

lemma read_task_read_effect [simp]: "read_task sha (read_effect st a) b = read_task sha st b"
  by (simp add: read_task_def)

section \<open>Laws of committing\<close>

lemma commit_no_faults:
  assumes "dget (tm_logs st) tid \<noteq> Some LogHeadless" "dget (tm_logs st) tid \<noteq> Some LogUnreadable"
  shows "\<exists>evs. commit_task no_faults tid ev prev st =
    (Inr (), st\<lparr>tm_logs := dput tid (Log evs) (tm_logs st),
               tm_files := dput tid (TaskFile (event_task ev)) (tm_files st)\<rparr>)"
  using assms
  by (auto simp: commit_task_def no_faults_def append_log_def write_file_def Let_def
      split: option.splits task_log.splits)

definition log_ok :: "team \<Rightarrow> string \<Rightarrow> bool" where
  \<comment> \<open>the journal of the task can be appended to\<close>
  "log_ok st tid = (dget (tm_logs st) tid \<notin> {Some LogHeadless, Some LogUnreadable})"

lemma commit_fst_no_faults:
  "fst (commit_task no_faults tid ev prev st) = (if log_ok st tid then Inr () else Inl E_TEAM_IO)"
  by (auto simp: commit_task_def no_faults_def append_log_def write_file_def Let_def log_ok_def
      split: option.splits task_log.splits)

lemma commit_frame [frame_simps]:
  "tm_name (snd (commit_task fl tid ev prev st)) = tm_name st"
  "tm_config (snd (commit_task fl tid ev prev st)) = tm_config st"
  "tm_intents (snd (commit_task fl tid ev prev st)) = tm_intents st"
  by (auto simp: commit_task_def append_log_def write_file_def unlink_file_def Let_def
      split: option.splits task_log.splits write_result.splits prod.splits sum.splits)

lemma raw_task_other:
  assumes "dget (tm_files st') b = dget (tm_files st) b" "dget (tm_logs st') b = dget (tm_logs st) b"
  shows "raw_task st' b = raw_task st b"
  by (simp only: raw_task_def file_task_def rebuild_from_journal_def assms)

text \<open>A commit, whatever fails in it, changes what is read of the committed task only.\<close>

lemma raw_task_commit_other:
  assumes "b \<noteq> tid"
  shows "raw_task (snd (commit_task fl tid ev prev st)) b = raw_task st b"
  by (rule raw_task_other)
    (use assms in \<open>auto simp: commit_task_def append_log_def write_file_def unlink_file_def Let_def
      split: option.splits task_log.splits write_result.splits prod.splits sum.splits\<close>)

lemma raw_task_commit_same:
  assumes "fst (commit_task no_faults tid ev prev st) = Inr ()"
    and "is_team_task (event_task ev)" "t_id (event_task ev) = tid"
  shows "raw_task (snd (commit_task no_faults tid ev prev st)) tid = Inr (Some (event_task ev))"
proof -
  have "log_ok st tid" using assms(1) by (simp add: commit_fst_no_faults split: if_splits)
  then obtain evs where "snd (commit_task no_faults tid ev prev st) =
      st\<lparr>tm_logs := dput tid (Log evs) (tm_logs st),
         tm_files := dput tid (TaskFile (event_task ev)) (tm_files st)\<rparr>"
    using commit_no_faults [of st tid ev prev] by (auto simp: log_ok_def)
  moreover have "task_id_ok tid" using assms(2,3) by (auto simp: is_team_task_def)
  ultimately show ?thesis using assms(2,3) by (simp add: raw_task_def file_task_def)
qed

end
