(* ===== verification/TeamCascade.thy ===== *)
theory TeamCascade
  imports TeamStore
begin

text \<open>
  Dependencies between the tasks of a team (\<^verbatim>\<open>src/team/tasks.ts\<close>): which dependencies of a
  task are incomplete, the cycle check of a new task, unblocking the dependents of a completed task,
  blocking again the transitive dependents of a reopened one, and the reopen intents that let an
  interrupted cascade be finished under the next dependency lock.

  What the world answers during one operation (clock, process probe, fresh token, outcome of each
  write) is the record \<open>env\<close>.  The locks of the code make each locked section one step, so an
  operation is a function of the state it starts from.
\<close>

record env =
  en_sha :: "string \<Rightarrow> string"
  en_now :: ms
  en_token :: string
  en_probe :: probe
  en_probe2 :: probe  \<comment> \<open>after \<^verbatim>\<open>killProcess\<close>\<close>
  en_faults :: "string \<Rightarrow> faults"  \<comment> \<open>of the commit of each task\<close>
  en_intent_write :: write_result
  en_unlink :: bool  \<comment> \<open>whether removing an intent file works\<close>
  en_config_write :: write_result

type_synonym 'a team_act = "(team, team_error, 'a) act"

section \<open>Actions\<close>

definition fetch :: "env \<Rightarrow> string \<Rightarrow> task option team_act" where
  \<comment> \<open>\<^verbatim>\<open>readTaskUnlocked\<close>\<close>
  "fetch en tid = (\<lambda>st. (read_task (en_sha en) st tid, read_effect st tid))"

definition commit :: "env \<Rightarrow> string \<Rightarrow> task_event \<Rightarrow> task option \<Rightarrow> unit team_act" where
  "commit en tid ev prev = commit_task (en_faults en tid) tid ev prev"

definition deps_of :: "task \<Rightarrow> string list" where
  "deps_of t = opt_default [] (t_blocked_by t)"

definition dep_complete :: "task option \<Rightarrow> bool" where
  "dep_complete d = (case d of None \<Rightarrow> False | Some t \<Rightarrow> t_status t = TCompleted)"

fun incomplete_deps :: "env \<Rightarrow> string list \<Rightarrow> string list team_act" where
  "incomplete_deps en [] = ret []"
| "incomplete_deps en (d # ds) = andthen (fetch en d) (\<lambda>r. andthen (incomplete_deps en ds)
     (\<lambda>rest. ret (if dep_complete r then rest else d # rest)))"

section \<open>Cycle check of a new task\<close>

text \<open>
  \<^verbatim>\<open>checkDependencyCycle\<close>: depth-first from each dependency, with the identifiers on the
  stack and the visited ones.  The result is the visited set.
\<close>

fun cycle_dfs :: "nat \<Rightarrow> env \<Rightarrow> string list \<Rightarrow> string list \<Rightarrow> string list \<Rightarrow> string list team_act" where
  "cycle_dfs fuel en stack visited [] = ret visited"
| "cycle_dfs 0 en stack visited (d # ds) = throw E_TEAM_FUEL"
| "cycle_dfs (Suc fuel) en stack visited (d # ds) =
     (if d \<in> set stack then throw E_TEAM_TASK_DEPENDENCY_CYCLE
      else if d \<in> set visited then cycle_dfs (Suc fuel) en stack visited ds
      else andthen (fetch en d) (\<lambda>r. andthen
        (cycle_dfs fuel en (d # stack) visited (case r of None \<Rightarrow> [] | Some t \<Rightarrow> deps_of t))
        (\<lambda>visited'. cycle_dfs (Suc fuel) en stack (d # visited') ds)))"

definition check_dependency_cycle :: "env \<Rightarrow> string \<Rightarrow> string list \<Rightarrow> unit team_act" where
  "check_dependency_cycle en candidate blocked_by = (\<lambda>st.
     andthen (cycle_dfs (length (all_task_ids st) + 2) en [candidate] [] blocked_by) (\<lambda>_. ret ()) st)"

section \<open>Unblocking\<close>

definition unblock_one :: "env \<Rightarrow> string \<Rightarrow> string \<Rightarrow> unit team_act" where
  "unblock_one en completed other = (if other = completed then ret () else
     andthen (fetch en other) (\<lambda>r. case r of
       None \<Rightarrow> ret ()
     | Some t \<Rightarrow>
         if t_status t = TBlocked \<and> completed \<in> set (deps_of t)
         then andthen (incomplete_deps en (deps_of t)) (\<lambda>inc.
           if inc = []
           then commit en other (Transitioned (t\<lparr>t_status := TPending, t_version := t_version t + 1\<rparr>) TBlocked TPending) (Some t)
           else ret ())
         else ret ()))"

definition unblock_dependents :: "env \<Rightarrow> string \<Rightarrow> unit team_act" where
  "unblock_dependents en completed = (\<lambda>st. for_each (unblock_one en completed) (all_task_ids st) st)"

section \<open>Blocking again\<close>

definition reblocked_task :: "task \<Rightarrow> task" where
  "reblocked_task t = t\<lparr>t_status := TBlocked, t_version := t_version t + 1,
     t_last_gen := (if 0 < fence t then Some (fence t) else t_last_gen t),
     t_owner := preserved_owner t, t_claim := None,
     t_completed_at := None, t_result := None, t_error := None\<rparr>"

definition reblock_event :: "string \<Rightarrow> task \<Rightarrow> task_event" where
  "reblock_event cur t = (if terminal (t_status t)
     then Reopened (reblocked_task t) (Some (''prerequisite_'' @ cur @ ''_reopened''))
     else Transitioned (reblocked_task t) (t_status t) TBlocked)"

definition set_add :: "'a \<Rightarrow> 'a list \<Rightarrow> 'a list" where
  \<comment> \<open>\<^verbatim>\<open>Set.add\<close> on a set kept in insertion order\<close>
  "set_add x xs = (if x \<in> set xs then xs else xs @ [x])"

fun reblock_scan :: "env \<Rightarrow> string \<Rightarrow> string list \<Rightarrow> string list \<Rightarrow> string list team_act" where
  "reblock_scan en cur [] todo = ret todo"
| "reblock_scan en cur (other # others) todo = (if other = cur then reblock_scan en cur others todo else
     andthen (fetch en other) (\<lambda>r. case r of
       None \<Rightarrow> reblock_scan en cur others todo
     | Some t \<Rightarrow>
         if t_status t \<noteq> TBlocked \<and> cur \<in> set (deps_of t)
         then andthen (commit en other (reblock_event cur t) (Some t))
                (\<lambda>_. reblock_scan en cur others (set_add other todo))
         else reblock_scan en cur others todo))"

fun reblock_loop :: "nat \<Rightarrow> env \<Rightarrow> string list \<Rightarrow> unit team_act" where
  "reblock_loop fuel en [] = ret ()"
| "reblock_loop 0 en (cur # todo) = throw E_TEAM_FUEL"
| "reblock_loop (Suc fuel) en (cur # todo) = (\<lambda>st.
     andthen (reblock_scan en cur (all_task_ids st) todo) (reblock_loop fuel en) st)"

definition reblock_dependents :: "env \<Rightarrow> string \<Rightarrow> unit team_act" where
  \<comment> \<open>every identifier enters the worklist at most once after the first, so this fuel is enough\<close>
  "reblock_dependents en reopened = (\<lambda>st. reblock_loop (Suc (length (all_task_ids st))) en [reopened] st)"

section \<open>Reopen intents\<close>

definition record_intent :: "env \<Rightarrow> string \<Rightarrow> string option \<Rightarrow> unit team_act" where
  "record_intent en tid reason = (let
     put = (\<lambda>st. st\<lparr>tm_intents := dput tid \<lparr>ci_task_id = tid, ci_created_at = en_now en, ci_reason = reason\<rparr>
                    (tm_intents st)\<rparr>)
   in case en_intent_write en of
        WriteOk \<Rightarrow> modify put
      | WriteUnknown \<Rightarrow> (\<lambda>st. (Inl E_TEAM_IO, put st))
      | WriteFailed \<Rightarrow> throw E_TEAM_IO)"

definition remove_intent :: "env \<Rightarrow> string \<Rightarrow> unit team_act" where
  "remove_intent en tid = modify (\<lambda>st. if en_unlink en then st\<lparr>tm_intents := ddel tid (tm_intents st)\<rparr> else st)"

definition has_intent :: "team \<Rightarrow> string \<Rightarrow> bool" where
  "has_intent st tid = (dget (tm_intents st) tid \<noteq> None)"

definition reconcile_one :: "env \<Rightarrow> string \<Rightarrow> unit team_act" where
  "reconcile_one en tid = attempt (andthen (fetch en tid) (\<lambda>r.
     andthen (case r of
         Some t \<Rightarrow> if t_status t \<noteq> TCompleted then reblock_dependents en tid else ret ()
       | None \<Rightarrow> ret ())
       (\<lambda>_. remove_intent en tid)))"

definition reconcile_intents :: "env \<Rightarrow> unit team_act" where
  "reconcile_intents en = (\<lambda>st. for_each (reconcile_one en) (filter task_id_ok (dnames (tm_intents st))) st)"

definition with_dependency_lock :: "env \<Rightarrow> 'a team_act \<Rightarrow> 'a team_act" where
  "with_dependency_lock en m = andthen (reconcile_intents en) (\<lambda>_. m)"

section \<open>Searching for dependents a cascade missed\<close>

fun unreconciled_scan :: "env \<Rightarrow> string \<Rightarrow> string list \<Rightarrow> string list \<Rightarrow> (bool \<times> string list) team_act" where
  "unreconciled_scan en cur [] todo = ret (False, todo)"
| "unreconciled_scan en cur (other # others) todo = (if other = cur then unreconciled_scan en cur others todo else
     andthen (fetch en other) (\<lambda>r. case r of
       None \<Rightarrow> unreconciled_scan en cur others todo
     | Some t \<Rightarrow>
         if cur \<in> set (deps_of t)
         then (if t_status t \<noteq> TBlocked then ret (True, todo)
               else unreconciled_scan en cur others (set_add other todo))
         else unreconciled_scan en cur others todo))"

fun unreconciled_loop :: "nat \<Rightarrow> env \<Rightarrow> string list \<Rightarrow> string list \<Rightarrow> bool team_act" where
  "unreconciled_loop fuel en visited [] = ret False"
| "unreconciled_loop 0 en visited (cur # todo) = throw E_TEAM_FUEL"
| "unreconciled_loop (Suc fuel) en visited (cur # todo) =
     (if cur \<in> set visited then unreconciled_loop fuel en visited todo
      else (\<lambda>st. andthen (unreconciled_scan en cur (all_task_ids st) todo)
        (\<lambda>(found, todo'). if found then ret True else unreconciled_loop fuel en (cur # visited) todo') st))"

definition has_unreconciled :: "env \<Rightarrow> string \<Rightarrow> bool team_act" where
  "has_unreconciled en tid = (\<lambda>st. let n = length (all_task_ids st) in
     unreconciled_loop ((n + 2) * (n + 2)) en [] [tid] st)"

definition was_reopened :: "team \<Rightarrow> string \<Rightarrow> bool" where
  "was_reopened st tid = (case dget (tm_logs st) tid of
     Some (Log evs) \<Rightarrow> list_ex is_reopened evs | _ \<Rightarrow> False)"

end
