(* ===== verification/TeamOps.thy ===== *)
theory TeamOps
  imports TeamCascade
begin

text \<open>
  The operations of \<^verbatim>\<open>src/team/tasks.ts\<close> that give out and keep a claim: claim, renew and
  reclaim, with the argument checks all operations share.  A result with \<^verbatim>\<open>ok: false\<close> is
  \<open>Refused\<close>, an exception is \<open>Inl\<close> of the action, and the guards stand in the order of the code.
\<close>

datatype refusal =
    Task_not_found | Claim_conflict | Worker_not_found | Already_terminal
  | Blocked_dependency "string list" | Worker_alive | Reconciliation_required string
  | Lease_expired | Lease_limit_exceeded | Process_dead | Process_ambiguous string | Process_stale
  | Not_in_progress | Lease_active | Generation_mismatch | Invalid_transition
  | Not_terminal | Payload_too_large

datatype 'a outcome = Done 'a | Refused refusal

abbreviation refuse :: "refusal \<Rightarrow> 'a outcome team_act" where
  "refuse r \<equiv> ret (Refused r)"

abbreviation finish :: "'a \<Rightarrow> 'a outcome team_act" where
  "finish x \<equiv> ret (Done x)"

section \<open>Arguments\<close>

definition LEADER_MAILBOX :: string where "LEADER_MAILBOX = ''leader-fixed''"

definition safe_worker_name :: "string \<Rightarrow> bool" where
  \<comment> \<open>\<^verbatim>\<open>assertSafeWorkerName\<close>; a name of that grammar has no directory part, so
    \<^verbatim>\<open>path.basename\<close> leaves it alone\<close>
  "safe_worker_name w = (w = LEADER_MAILBOX \<or> key_of_length 63 w)"

record proc_input =
  pi_pid :: int
  pi_start_identity :: string
  pi_proven :: "bool option"
  pi_nonce :: "string option"
  pi_nonce_sha256 :: "string option"

definition nonce_ok :: "string \<Rightarrow> bool" where
  \<comment> \<open>\<^verbatim>\<open>/^[A-Fa-f0-9]{32,256}$/\<close> of \<^verbatim>\<open>processNonceSha256\<close>\<close>
  "nonce_ok s = (32 \<le> length s \<and> length s \<le> 256 \<and> list_all (\<lambda>c. is_digit c \<or>
     (let n = (of_char c :: nat) in (97 \<le> n \<and> n \<le> 102) \<or> (65 \<le> n \<and> n \<le> 70))) s)"

definition to_proc_claim :: "(string \<Rightarrow> string) \<Rightarrow> proc_input \<Rightarrow> team_error + proc_claim" where
  "to_proc_claim sha p =
     (if \<not> (safe_integer (pi_pid p) \<and> 0 < pi_pid p) \<or> blank (pi_start_identity p)
         \<or> \<not> opt_all (\<lambda>n. \<not> blank n) (pi_nonce p) \<or> \<not> opt_all hex64 (pi_nonce_sha256 p)
      then Inl E_TEAM_TASK_PROCESS_IDENTITY_INVALID
      else if \<not> opt_all nonce_ok (pi_nonce p) then Inl E_PROCESS_NONCE_INVALID
      else Inr \<lparr>pc_pid = pi_pid p, pc_start_identity = pi_start_identity p, pc_proven = pi_proven p,
                pc_nonce_sha256 = (case pi_nonce p of Some n \<Rightarrow> Some (sha n) | None \<Rightarrow> pi_nonce_sha256 p)\<rparr>)"

definition lift_proc :: "env \<Rightarrow> proc_input option \<Rightarrow> proc_claim option team_act" where
  "lift_proc en p = (case p of None \<Rightarrow> ret None | Some p \<Rightarrow>
     (case to_proc_claim (en_sha en) p of Inl e \<Rightarrow> throw e | Inr c \<Rightarrow> ret (Some c)))"

definition clamp_lease :: "int option \<Rightarrow> int" where
  "clamp_lease l = min (max 1 (opt_default CLAIM_LEASE_MS l)) MAX_TOTAL_LEASE_MS"

section \<open>Task values the operations write\<close>

definition bare_task :: "task \<Rightarrow> task_status \<Rightarrow> string option \<Rightarrow> task" where
  \<comment> \<open>the next version of the task, with its request metadata and dependencies and nothing of the
    claim or the terminal data\<close>
  "bare_task t s ow = t\<lparr>t_status := s, t_version := t_version t + 1, t_owner := ow, t_claim := None,
     t_completed_at := None, t_result := None, t_error := None\<rparr>"

definition request_owner_of :: "task \<Rightarrow> string option" where
  "request_owner_of t = opt_default None (t_request_owner t)"

definition new_claim :: "env \<Rightarrow> string \<Rightarrow> int \<Rightarrow> int option \<Rightarrow> proc_claim option \<Rightarrow> claim" where
  "new_claim en w g lease p = \<lparr>c_owner = w, c_generation = Some g,
     c_token_sha256 = Some (en_sha en (en_token en)), c_token = None, c_process = p,
     c_acquired_at = Some (en_now en), c_renewed_at = None,
     c_leased_until = en_now en + clamp_lease lease,
     c_heartbeat = Some 0, c_workspace_generation = Some g\<rparr>"

definition claimed_task :: "task \<Rightarrow> string \<Rightarrow> int \<Rightarrow> claim \<Rightarrow> task" where
  "claimed_task t w g c = (bare_task t TInProgress (Some w))\<lparr>t_last_gen := Some g, t_claim := Some c\<rparr>"

section \<open>Claim\<close>

record claim_opts =
  co_expected_version :: "int option"
  co_lease_ms :: "int option"
  co_process :: "proc_input option"

definition claim_working :: "env \<Rightarrow> task \<Rightarrow> refusal + task" where
  \<comment> \<open>a task in progress is taken over only when its lease has expired and its worker is not alive\<close>
  "claim_working en t = (if t_status t \<noteq> TInProgress then Inr t
     else if \<not> lease_expired (t_claim t) (en_now en) then Inl Claim_conflict
     else let reset = bare_task t TPending (request_owner_of t) in
       case Option.bind (t_claim t) c_process of
         None \<Rightarrow> Inr reset
       | Some p \<Rightarrow> (case claim_liveness (en_probe en) p of
           LActive \<Rightarrow> Inl Worker_alive
         | LAmbiguous r \<Rightarrow> Inl (Reconciliation_required r)
         | _ \<Rightarrow> Inr reset))"

definition owner_conflict :: "task \<Rightarrow> string \<Rightarrow> bool" where
  "owner_conflict t w = (case t_owner t of None \<Rightarrow> False | Some x \<Rightarrow> x \<noteq> [] \<and> x \<noteq> w)"

definition claim_locked :: "env \<Rightarrow> string \<Rightarrow> string \<Rightarrow> claim_opts \<Rightarrow> (task \<times> string) outcome team_act" where
  "claim_locked en tid w co = andthen (fetch en tid) (\<lambda>r. case r of
     None \<Rightarrow> refuse Task_not_found
   | Some cur \<Rightarrow>
       if \<not> opt_all (\<lambda>v. t_version cur = v) (co_expected_version co) then refuse Claim_conflict
       else if terminal (t_status cur) then refuse Already_terminal
       else andthen (incomplete_deps en (deps_of cur)) (\<lambda>inc.
         if inc \<noteq> [] then refuse (Blocked_dependency inc)
         else case claim_working en cur of
           Inl ref \<Rightarrow> refuse ref
         | Inr working \<Rightarrow>
             if t_claim working \<noteq> None \<and> \<not> lease_expired (t_claim working) (en_now en) then refuse Claim_conflict
             else if owner_conflict working w then refuse Claim_conflict
             else let g = fence working + 1 in
               if \<not> safe_integer g then throw E_TEAM_TASK_GENERATION_OVERFLOW
               else andthen (lift_proc en (co_process co)) (\<lambda>p.
                 let c = new_claim en w g (co_lease_ms co) p; t' = claimed_task working w g c in
                 andthen (commit en tid (Claimed t' c) (Some working))
                   (\<lambda>_. finish (t', en_token en)))))"

definition with_worker :: "string \<Rightarrow> string \<Rightarrow> 'a outcome team_act \<Rightarrow> 'a outcome team_act" where
  \<comment> \<open>the checks \<^verbatim>\<open>claimTask\<close>, \<^verbatim>\<open>renewTaskClaim\<close> and \<^verbatim>\<open>reclaimTask\<close> begin with\<close>
  "with_worker tid w m = (if \<not> safe_worker_name w then throw E_TEAM_WORKER_INVALID
     else if \<not> task_id_ok tid then throw E_TEAM_TASK_ID_INVALID
     else (\<lambda>st. case read_config st of
         Inl e \<Rightarrow> throw e st
       | Inr None \<Rightarrow> refuse Task_not_found st
       | Inr (Some cfg) \<Rightarrow> if w \<in> set (tc_workers cfg) then m st else refuse Worker_not_found st))"

definition claim_task :: "env \<Rightarrow> string \<Rightarrow> string \<Rightarrow> claim_opts \<Rightarrow> (task \<times> string) outcome team_act" where
  "claim_task en tid w co = with_worker tid w (with_dependency_lock en (claim_locked en tid w co))"

section \<open>Renew\<close>

record renew_opts =
  ro_lease_ms :: "int option"
  ro_max_total :: "int option"
  ro_generation :: "int option"
  ro_heartbeat :: "int option"

definition MAX_SAFE_INTEGER :: int where "MAX_SAFE_INTEGER = 9007199254740991"

definition next_heartbeat :: "int \<Rightarrow> int option \<Rightarrow> (refusal + int) option" where
  \<comment> \<open>\<open>None\<close> is the exception \<^verbatim>\<open>E_TEAM_TASK_HEARTBEAT_OVERFLOW\<close>\<close>
  "next_heartbeat cur requested = (case requested of
     Some h \<Rightarrow> (if \<not> safe_integer h \<or> h \<le> cur \<or> h \<ge> MAX_SAFE_INTEGER then Some (Inl Claim_conflict) else Some (Inr h))
   | None \<Rightarrow> (if cur \<ge> MAX_SAFE_INTEGER - 1 then None else Some (Inr (cur + 1))))"

definition renew_liveness :: "env \<Rightarrow> claim \<Rightarrow> refusal option" where
  "renew_liveness en c = (case c_process c of None \<Rightarrow> None | Some p \<Rightarrow>
     (case claim_liveness (en_probe en) p of
        LDead \<Rightarrow> Some Process_dead | LStale \<Rightarrow> Some Process_stale
      | LAmbiguous r \<Rightarrow> Some (Process_ambiguous r) | LActive \<Rightarrow> None))"

definition renew_deadline :: "env \<Rightarrow> claim \<Rightarrow> renew_opts \<Rightarrow> ms" where
  "renew_deadline en c ro = max (c_leased_until c) (en_now en + opt_default CLAIM_LEASE_MS (ro_lease_ms ro))"

definition renewed_claim :: "env \<Rightarrow> claim \<Rightarrow> renew_opts \<Rightarrow> int \<Rightarrow> claim" where
  "renewed_claim en c ro h = c\<lparr>c_renewed_at := Some (en_now en), c_leased_until := renew_deadline en c ro,
     c_heartbeat := Some h\<rparr>"

definition renew_guard :: "env \<Rightarrow> task \<Rightarrow> claim \<Rightarrow> string \<Rightarrow> string \<Rightarrow> renew_opts \<Rightarrow> refusal option" where
  "renew_guard en cur c w token ro =
     (if t_owner cur = None \<or> t_owner cur = Some [] then Some Claim_conflict
      else if t_owner cur \<noteq> Some w \<or> c_owner c \<noteq> w then Some Claim_conflict
      else if \<not> opt_all (\<lambda>g. c_generation c = Some g) (ro_generation ro) then Some Claim_conflict
      else if \<not> verify_claim_token (en_sha en) c token then Some Claim_conflict
      else if lease_expired (Some c) (en_now en) then Some Lease_expired
      else if (case c_acquired_at c of None \<Rightarrow> False
             | Some a \<Rightarrow> renew_deadline en c ro - a > opt_default MAX_TOTAL_LEASE_MS (ro_max_total ro))
           then Some Lease_limit_exceeded
      else renew_liveness en c)"

definition renew_locked :: "env \<Rightarrow> string \<Rightarrow> string \<Rightarrow> string \<Rightarrow> renew_opts \<Rightarrow> task outcome team_act" where
  "renew_locked en tid w token ro = andthen (fetch en tid) (\<lambda>r. case r of
     None \<Rightarrow> refuse Task_not_found
   | Some cur \<Rightarrow>
       if terminal (t_status cur) then refuse Already_terminal
       else if t_status cur \<noteq> TInProgress then refuse Claim_conflict
       else case t_claim cur of
         None \<Rightarrow> refuse Claim_conflict
       | Some c \<Rightarrow> (case renew_guard en cur c w token ro of
           Some ref \<Rightarrow> refuse ref
         | None \<Rightarrow> (case next_heartbeat (opt_default 0 (c_heartbeat c)) (ro_heartbeat ro) of
               None \<Rightarrow> throw E_TEAM_TASK_HEARTBEAT_OVERFLOW
             | Some (Inl ref) \<Rightarrow> refuse ref
             | Some (Inr h) \<Rightarrow> (let c' = renewed_claim en c ro h;
                   t' = cur\<lparr>t_version := t_version cur + 1, t_claim := Some c'\<rparr>
                 in andthen (commit en tid (Renewed t' c') (Some cur)) (\<lambda>_. finish t')))))"

definition renew_task_claim :: "env \<Rightarrow> string \<Rightarrow> string \<Rightarrow> string \<Rightarrow> renew_opts \<Rightarrow> task outcome team_act" where
  "renew_task_claim en tid w token ro = with_worker tid w (renew_locked en tid w token ro)"

section \<open>Reclaim\<close>

record reclaim_opts =
  rc_reason :: "string option"
  rc_force :: bool
  rc_generation :: "int option"
  rc_version :: "int option"
  rc_kill :: bool  \<comment> \<open>whether \<^verbatim>\<open>options.killProcess\<close> is given\<close>
  rc_lease_ms :: "int option"
  rc_process :: "proc_input option"

record reclaimed =
  rd_task :: task
  rd_token :: string
  rd_prior :: int
  rd_new :: int

definition reclaim_liveness :: "env \<Rightarrow> claim \<Rightarrow> reclaim_opts \<Rightarrow> refusal option" where
  \<comment> \<open>a live worker is killed when the caller forces the reclaim and can kill, and probed again\<close>
  "reclaim_liveness en c rc = (case c_process c of None \<Rightarrow> None | Some p \<Rightarrow>
     (let l0 = claim_liveness (en_probe en) p;
          l = (if l0 = LActive \<and> rc_force rc \<and> rc_kill rc then claim_liveness (en_probe2 en) p else l0)
      in case l of
           LActive \<Rightarrow> Some Worker_alive
         | LAmbiguous r \<Rightarrow> (if rc_force rc then None else Some (Reconciliation_required r))
         | _ \<Rightarrow> None))"

definition reclaim_guard :: "env \<Rightarrow> task \<Rightarrow> claim \<Rightarrow> reclaim_opts \<Rightarrow> refusal option" where
  "reclaim_guard en t c rc =
     (if rc_force rc \<and> rc_generation rc = None \<and> rc_version rc = None then Some Generation_mismatch
      else if \<not> opt_all (\<lambda>g. c_generation c = Some g) (rc_generation rc) then Some Generation_mismatch
      else if \<not> opt_all (\<lambda>v. t_version t = v) (rc_version rc) then Some Claim_conflict
      else if \<not> lease_expired (Some c) (en_now en) \<and> \<not> rc_force rc then Some Lease_active
      else reclaim_liveness en c rc)"

definition reclaimed_task :: "task \<Rightarrow> string \<Rightarrow> int \<Rightarrow> claim \<Rightarrow> task" where
  "reclaimed_task t w g c = t\<lparr>t_owner := Some w, t_version := t_version t + 1,
     t_last_gen := Some g, t_claim := Some c\<rparr>"

definition reclaim_locked :: "env \<Rightarrow> string \<Rightarrow> string \<Rightarrow> reclaim_opts \<Rightarrow> reclaimed outcome team_act" where
  "reclaim_locked en tid w rc = andthen (fetch en tid) (\<lambda>r. case r of
     None \<Rightarrow> refuse Task_not_found
   | Some cur \<Rightarrow>
       if terminal (t_status cur) then refuse Already_terminal
       else if t_status cur \<noteq> TInProgress then refuse Not_in_progress
       else case t_claim cur of
         None \<Rightarrow> refuse Not_in_progress
       | Some c \<Rightarrow> (case reclaim_guard en cur c rc of
           Some ref \<Rightarrow> refuse ref
         | None \<Rightarrow> (let g = fence cur + 1 in
             if \<not> safe_integer g then throw E_TEAM_TASK_GENERATION_OVERFLOW
             else andthen (lift_proc en (rc_process rc)) (\<lambda>p.
               let c' = new_claim en w g (rc_lease_ms rc) p;
                   t' = reclaimed_task cur w g c';
                   prior = gen_of_claim (Some c)
               in andthen (commit en tid (Reclaimed t' prior g (rc_reason rc)) (Some cur))
                    (\<lambda>_. finish \<lparr>rd_task = t', rd_token = en_token en, rd_prior = prior, rd_new = g\<rparr>)))))"

definition reclaim_task :: "env \<Rightarrow> string \<Rightarrow> string \<Rightarrow> reclaim_opts \<Rightarrow> reclaimed outcome team_act" where
  "reclaim_task en tid w rc = with_worker tid w (with_dependency_lock en (reclaim_locked en tid w rc))"

end
