(* ===== verification/TeamLife.thy ===== *)
theory TeamLife
  imports TeamOps
begin

text \<open>
  The remaining operations of \<^verbatim>\<open>src/team/tasks.ts\<close>: transition (with the unblocking of
  dependents), release, reopen (with the cascade that blocks dependents again), and the queries
  read, list and summary.
\<close>

section \<open>Transition\<close>

record transition_opts =
  tr_result :: "string option"
  tr_error :: "string option"
  tr_generation :: "int option"
  tr_version :: "int option"
  tr_workspace_generation :: "int option"

definition payload_fits :: "string option \<Rightarrow> bool" where
  "payload_fits p = opt_all (\<lambda>s. utf8_bytes s \<le> MAX_TERMINAL_PAYLOAD_BYTES) p"

definition token_guard :: "env \<Rightarrow> task \<Rightarrow> claim option \<Rightarrow> string \<Rightarrow> bool" where
  \<comment> \<open>\<^verbatim>\<open>current.owner && current.claim && verifyClaimToken(current.claim, token)\<close>\<close>
  "token_guard en t c token = (t_owner t \<noteq> None \<and> t_owner t \<noteq> Some [] \<and>
     (case c of None \<Rightarrow> False | Some c \<Rightarrow> verify_claim_token (en_sha en) c token))"

definition transitioned_task :: "env \<Rightarrow> task \<Rightarrow> task_status \<Rightarrow> transition_opts \<Rightarrow> task" where
  "transitioned_task en t to tr = (bare_task t to (t_owner t))\<lparr>
     t_completed_at := (if terminal to then Some (en_now en) else None),
     t_result := (if to = TCompleted then tr_result tr else None),
     t_error := (if to = TFailed then tr_error tr else None)\<rparr>"

fun all_complete :: "env \<Rightarrow> string list \<Rightarrow> bool team_act" where
  \<comment> \<open>the loop that stops at the first dependency that is not completed\<close>
  "all_complete en [] = ret True"
| "all_complete en (d # ds) = andthen (fetch en d)
     (\<lambda>r. if dep_complete r then all_complete en ds else ret False)"

definition transition_guard :: "env \<Rightarrow> task \<Rightarrow> task_status \<Rightarrow> task_status \<Rightarrow> string \<Rightarrow> transition_opts \<Rightarrow> refusal option" where
  "transition_guard en cur from to token tr =
     (if terminal (t_status cur) then Some Already_terminal
      else if t_status cur \<noteq> from \<or> \<not> can_transition (t_status cur) to then Some Invalid_transition
      else if \<not> token_guard en cur (t_claim cur) token
           \<or> map_option c_owner (t_claim cur) \<noteq> t_owner cur then Some Claim_conflict
      else if \<not> opt_all (\<lambda>g. Option.bind (t_claim cur) c_generation = Some g) (tr_generation tr)
        then Some Claim_conflict
      else if \<not> opt_all (\<lambda>g. Option.bind (t_claim cur) c_workspace_generation = Some g)
             (tr_workspace_generation tr) then Some Claim_conflict
      else if \<not> opt_all (\<lambda>v. t_version cur = v) (tr_version tr) then Some Claim_conflict
      else if lease_expired (t_claim cur) (en_now en) then Some Lease_expired
      else None)"

definition transition_locked ::
  "env \<Rightarrow> string \<Rightarrow> task_status \<Rightarrow> task_status \<Rightarrow> string \<Rightarrow> transition_opts \<Rightarrow> task outcome team_act" where
  "transition_locked en tid from to token tr = andthen (fetch en tid) (\<lambda>r. case r of
     None \<Rightarrow> refuse Task_not_found
   | Some cur \<Rightarrow> (case transition_guard en cur from to token tr of
       Some ref \<Rightarrow> refuse ref
     | None \<Rightarrow> andthen (if to = TCompleted then all_complete en (deps_of cur) else ret True) (\<lambda>ok.
         if \<not> ok then refuse Invalid_transition
         else let t' = transitioned_task en cur to tr; ev = Transitioned t' from to in
           (\<lambda>st. if probe_record_bytes (tm_name st) tid (en_now en) ev > MAX_TASK_JOURNAL_RECORD_BYTES
             then refuse Invalid_transition st
             else andthen (commit en tid ev (Some cur)) (\<lambda>_. finish t') st))))"

definition execute_transition ::
  "env \<Rightarrow> string \<Rightarrow> task_status \<Rightarrow> task_status \<Rightarrow> string \<Rightarrow> transition_opts \<Rightarrow> task outcome team_act" where
  "execute_transition en tid from to token tr = andthen (transition_locked en tid from to token tr)
     (\<lambda>r. case r of
        Done t \<Rightarrow> andthen (if to = TCompleted then unblock_dependents en tid else ret ()) (\<lambda>_. finish t)
      | Refused ref \<Rightarrow> refuse ref)"

definition transition_task_status ::
  "env \<Rightarrow> string \<Rightarrow> task_status \<Rightarrow> task_status \<Rightarrow> string \<Rightarrow> transition_opts \<Rightarrow> task outcome team_act" where
  "transition_task_status en tid from to claim_token tr =
     (if \<not> can_transition from to then refuse Invalid_transition
      else if \<not> task_id_ok tid then throw E_TEAM_TASK_ID_INVALID
      else if blank claim_token then refuse Claim_conflict
      else if \<not> payload_fits (tr_result tr) then refuse Invalid_transition
      else if \<not> payload_fits (tr_error tr) then refuse Invalid_transition
      else let m = execute_transition en tid from to (trim claim_token) tr in
        if to = TCompleted then with_dependency_lock en m else m)"

section \<open>Release\<close>

record release_opts =
  rl_generation :: "int option"
  rl_version :: "int option"

definition release_task_claim :: "env \<Rightarrow> string \<Rightarrow> string \<Rightarrow> string \<Rightarrow> release_opts \<Rightarrow> task outcome team_act" where
  "release_task_claim en tid claim_token w rl =
     (if \<not> task_id_ok tid then throw E_TEAM_TASK_ID_INVALID
      else if \<not> safe_worker_name w then throw E_TEAM_WORKER_INVALID
      else andthen (fetch en tid) (\<lambda>r. case r of
        None \<Rightarrow> refuse Task_not_found
      | Some cur \<Rightarrow>
          if t_status cur = TPending \<and> t_claim cur = None \<and> t_owner cur = None then finish cur
          else if terminal (t_status cur) then refuse Already_terminal
          else if \<not> token_guard en cur (t_claim cur) (trim claim_token) \<or> t_owner cur \<noteq> Some w
            then refuse Claim_conflict
          else if \<not> opt_all (\<lambda>g. Option.bind (t_claim cur) c_generation = Some g) (rl_generation rl)
            then refuse Claim_conflict
          else if \<not> opt_all (\<lambda>v. t_version cur = v) (rl_version rl) then refuse Claim_conflict
          else if lease_expired (t_claim cur) (en_now en) then refuse Lease_expired
          else let t' = bare_task cur TPending None in
            andthen (commit en tid (Released t') (Some cur)) (\<lambda>_. finish t')))"

section \<open>Reopen\<close>

definition reopen_candidate :: "env \<Rightarrow> string \<Rightarrow> string option \<Rightarrow> task \<Rightarrow> task outcome team_act" where
  \<comment> \<open>a task that is not terminal: a reopen that was interrupted, or is repeated, succeeds again\<close>
  "reopen_candidate en tid reason cur = (\<lambda>st.
     andthen (if has_intent st tid then ret True else has_unreconciled en tid) (\<lambda>recoverable st'.
       if recoverable \<or> ((t_status cur = TPending \<or> t_status cur = TBlocked) \<and> was_reopened st' tid)
       then andthen (if has_intent st' tid then ret () else record_intent en tid reason) (\<lambda>_. finish cur) st'
       else refuse Not_terminal st') st)"

definition reopen_locked :: "env \<Rightarrow> string \<Rightarrow> string option \<Rightarrow> task outcome team_act" where
  "reopen_locked en tid reason = andthen (fetch en tid) (\<lambda>r. case r of
     None \<Rightarrow> refuse Task_not_found
   | Some cur \<Rightarrow>
       if \<not> payload_fits reason then refuse Payload_too_large
       else if \<not> terminal (t_status cur) then reopen_candidate en tid reason cur
       else andthen (incomplete_deps en (deps_of cur)) (\<lambda>inc.
         let t' = bare_task cur (if inc = [] then TPending else TBlocked) (request_owner_of cur);
             ev = Reopened t' reason in
         (\<lambda>st. if probe_record_bytes (tm_name st) tid (en_now en) ev > MAX_TASK_JOURNAL_RECORD_BYTES
           then refuse Payload_too_large st
           else andthen (record_intent en tid reason) (\<lambda>_.
             andthen (commit en tid ev (Some cur)) (\<lambda>_. finish t')) st)))"

definition reopen_task :: "env \<Rightarrow> string \<Rightarrow> string option \<Rightarrow> task outcome team_act" where
  "reopen_task en tid reason = (if \<not> task_id_ok tid then throw E_TEAM_TASK_ID_INVALID
     else with_dependency_lock en (andthen (reopen_locked en tid reason) (\<lambda>r. case r of
        Refused ref \<Rightarrow> refuse ref
      | Done t \<Rightarrow> andthen (reblock_dependents en tid) (\<lambda>_.
          andthen (remove_intent en tid) (\<lambda>_. finish t)))))"

section \<open>Queries\<close>

definition read_task_op :: "env \<Rightarrow> string \<Rightarrow> task option team_act" where
  \<comment> \<open>\<^verbatim>\<open>readTask\<close>\<close>
  "read_task_op en tid = (if task_id_ok tid then fetch en tid else ret None)"

fun collect_tasks :: "env \<Rightarrow> string list \<Rightarrow> task list team_act" where
  "collect_tasks en [] = ret []"
| "collect_tasks en (i # is) = andthen (fetch en i) (\<lambda>r. andthen (collect_tasks en is)
     (\<lambda>ts. ret (case r of None \<Rightarrow> ts | Some t \<Rightarrow> t # ts)))"

definition list_tasks :: "env \<Rightarrow> task list team_act" where
  \<comment> \<open>\<^verbatim>\<open>sort\<close> is stable, as \<^verbatim>\<open>Array.prototype.sort\<close> is\<close>
  "list_tasks en = (\<lambda>st. andthen (collect_tasks en (all_task_ids st))
     (\<lambda>ts. ret (sort_key (\<lambda>t. undec_nat (t_id t)) ts)) st)"

record summary =
  sm_name :: string
  sm_worker_count :: int
  sm_total :: nat
  sm_pending :: nat
  sm_blocked :: nat
  sm_in_progress :: nat
  sm_completed :: nat
  sm_failed :: nat
  sm_workers :: "string list"

definition count_status :: "task_status \<Rightarrow> task list \<Rightarrow> nat" where
  "count_status s ts = length (filter (\<lambda>t. t_status t = s) ts)"

definition get_team_summary :: "env \<Rightarrow> summary option team_act" where
  "get_team_summary en = (\<lambda>st. case read_config st of
     Inl e \<Rightarrow> throw e st
   | Inr None \<Rightarrow> ret None st
   | Inr (Some cfg) \<Rightarrow> andthen (list_tasks en) (\<lambda>ts. ret (Some \<lparr>
       sm_name = tc_name cfg, sm_worker_count = tc_worker_count cfg, sm_total = length ts,
       sm_pending = count_status TPending ts, sm_blocked = count_status TBlocked ts,
       sm_in_progress = count_status TInProgress ts, sm_completed = count_status TCompleted ts,
       sm_failed = count_status TFailed ts, sm_workers = tc_workers cfg\<rparr>)) st)"

end
