(* ===== verification/TeamCreate.thy ===== *)
theory TeamCreate
  imports TeamLife
begin

text \<open>
  \<^verbatim>\<open>createTask\<close> of \<^verbatim>\<open>src/team/tasks.ts\<close>: the checks of its input, the
  idempotency key with the digest of the canonical payload, the repair of
  \<^verbatim>\<open>next_task_id\<close> over tasks an interrupted creation left behind, and the two durable
  writes (task, then configuration).
\<close>

record create_input =
  ti_subject :: string
  ti_description :: string
  ti_owner :: "string option"
  ti_blocked_by :: "string list option"
  ti_request_id :: "string option"

definition canonical_request_sha :: "(string \<Rightarrow> string) \<Rightarrow> string \<Rightarrow> string \<Rightarrow> string option \<Rightarrow> string list option \<Rightarrow> string" where
  "canonical_request_sha sha subj descr ow deps = sha (stringify (JObj [
     (''subject'', JStr subj), (''description'', JStr descr), (''owner'', opt_null ow),
     (''blocked_by'', JArr (map JStr (opt_default [] deps)))]))"

fun find_request :: "env \<Rightarrow> string \<Rightarrow> string list \<Rightarrow> task option \<Rightarrow> task option team_act" where
  "find_request en rid [] found = ret found"
| "find_request en rid (i # is) found = andthen (fetch en i) (\<lambda>r. case r of
     None \<Rightarrow> find_request en rid is found
   | Some t \<Rightarrow>
       if t_request_id t \<noteq> Some rid then find_request en rid is found
       else if t_request_sha t \<noteq> Some (canonical_request_sha (en_sha en) (t_subject t) (t_description t)
              (request_owner_of t) (t_blocked_by t)) then throw E_TEAM_TASK_IDEMPOTENCY_CORRUPT
       else if found \<noteq> None then throw E_TEAM_TASK_IDEMPOTENCY_CORRUPT
       else find_request en rid is (Some t))"

definition find_task_by_request_id :: "env \<Rightarrow> string \<Rightarrow> task option team_act" where
  "find_task_by_request_id en rid = (\<lambda>st. find_request en rid (all_task_ids st) None st)"

definition same_task_request :: "task \<Rightarrow> create_input \<Rightarrow> bool" where
  "same_task_request t inp = (t_version t = 1 \<and> (t_status t = TPending \<or> t_status t = TBlocked)
     \<and> t_request_id t = ti_request_id inp \<and> t_subject t = ti_subject inp
     \<and> t_description t = ti_description inp \<and> t_owner t = ti_owner inp
     \<and> deps_of t = opt_default [] (ti_blocked_by inp))"

definition id_text :: "int \<Rightarrow> string" where
  "id_text n = dec_int n"

definition put_config :: "team_config \<Rightarrow> team \<Rightarrow> team" where
  "put_config cfg st = st\<lparr>tm_config := ConfigOk cfg\<rparr>"

definition write_config :: "write_result \<Rightarrow> team_config \<Rightarrow> unit team_act" where
  \<comment> \<open>the guarded write: an unknown durability is accepted when the new value is read back\<close>
  "write_config w cfg = (case w of
     WriteFailed \<Rightarrow> throw E_TEAM_IO
   | _ \<Rightarrow> modify (put_config cfg))"

definition store_config :: "write_result \<Rightarrow> team_config \<Rightarrow> unit team_act" where
  \<comment> \<open>\<^verbatim>\<open>writeTeamConfig\<close>\<close>
  "store_config w cfg = (case w of
     WriteFailed \<Rightarrow> throw E_TEAM_IO
   | WriteOk \<Rightarrow> modify (put_config cfg)
   | WriteUnknown \<Rightarrow> andthen (modify (put_config cfg)) (\<lambda>_. throw E_TEAM_IO))"

fun check_deps :: "env \<Rightarrow> string \<Rightarrow> string list \<Rightarrow> unit team_act" where
  "check_deps en cand [] = ret ()"
| "check_deps en cand (d # ds) =
     (if \<not> task_id_ok d then throw E_TEAM_TASK_ID_INVALID
      else if d = cand then throw E_TEAM_TASK_DEPENDENCY_CYCLE
      else andthen (fetch en d) (\<lambda>r.
        if r = None then throw E_TEAM_BLOCKED_BY_NOT_FOUND else check_deps en cand ds))"

fun next_free :: "nat \<Rightarrow> env \<Rightarrow> create_input \<Rightarrow> team_config \<Rightarrow> (task option \<times> team_config) team_act" where
  \<comment> \<open>the \<^verbatim>\<open>while (true)\<close> loop: the task it returns early, or the configuration whose
    \<^verbatim>\<open>next_task_id\<close> is free\<close>
  "next_free 0 en inp cfg = throw E_TEAM_FUEL"
| "next_free (Suc fuel) en inp cfg = andthen (fetch en (id_text (tc_next_task_id cfg))) (\<lambda>r. case r of
     None \<Rightarrow> ret (None, cfg)
   | Some occ \<Rightarrow> (let rep = cfg\<lparr>tc_next_task_id := tc_next_task_id cfg + 1\<rparr> in
       andthen (store_config (en_config_write en) rep)
         (\<lambda>_. if same_task_request occ inp then ret (Some occ, rep) else next_free fuel en inp rep)))"

definition new_task :: "env \<Rightarrow> create_input \<Rightarrow> int \<Rightarrow> task_status \<Rightarrow> string option \<Rightarrow> task" where
  "new_task en inp n s req_sha = \<lparr>t_id = id_text n, t_subject = ti_subject inp,
     t_description = ti_description inp, t_status = s, t_created_at = en_now en, t_version = 1,
     t_last_gen = Some 0, t_request_id = ti_request_id inp,
     t_request_sha = (if ti_request_id inp = None then None else req_sha),
     t_request_owner = (if ti_request_id inp \<noteq> None then Some (ti_owner inp)
                        else if ti_owner inp \<noteq> None then Some (ti_owner inp) else None),
     t_owner = ti_owner inp, t_blocked_by = ti_blocked_by inp, t_claim = None,
     t_completed_at = None, t_result = None, t_error = None\<rparr>"

definition publish_task :: "env \<Rightarrow> team_config \<Rightarrow> task \<Rightarrow> task team_act" where
  \<comment> \<open>\<^verbatim>\<open>atomicCreateJson\<close>, the \<^verbatim>\<open>created\<close> record, then the configuration\<close>
  "publish_task en cfg t =
     andthen (write_file (fl_write (en_faults en (t_id t))) (t_id t) t) (\<lambda>_.
     andthen (append_log (fl_append (en_faults en (t_id t))) (t_id t) (Created t)) (\<lambda>_.
     andthen (write_config (en_config_write en) (cfg\<lparr>tc_next_task_id := tc_next_task_id cfg + 1\<rparr>))
       (\<lambda>_. ret t)))"

definition create_fresh :: "env \<Rightarrow> create_input \<Rightarrow> string option \<Rightarrow> team_config \<Rightarrow> task team_act" where
  "create_fresh en inp req_sha cfg = (\<lambda>st.
     andthen (next_free (length (all_task_ids st) + 1) en inp cfg) (\<lambda>(early, cfg').
       case early of Some t \<Rightarrow> ret t
       | None \<Rightarrow> andthen (incomplete_deps en (opt_default [] (ti_blocked_by inp))) (\<lambda>inc.
           let t = new_task en inp (tc_next_task_id cfg') (if inc = [] then TPending else TBlocked) req_sha in
           if created_record_bytes (en_now en) (Created t) > MAX_TASK_JOURNAL_RECORD_BYTES - 2048
           then throw E_TEAM_TASK_TOO_LARGE
           else publish_task en cfg' t)) st)"

definition repair_next_id :: "env \<Rightarrow> team_config \<Rightarrow> task \<Rightarrow> unit team_act" where
  "repair_next_id en cfg t = (let n = int (undec_nat (t_id t)) + 1 in
     if safe_integer n \<and> tc_next_task_id cfg < n
     then write_config (en_config_write en) (cfg\<lparr>tc_next_task_id := n\<rparr>) else ret ())"

definition check_blocked_by :: "env \<Rightarrow> string \<Rightarrow> string list option \<Rightarrow> unit team_act" where
  "check_blocked_by en cand deps = (case deps of None \<Rightarrow> ret ()
     | Some ds \<Rightarrow> andthen (check_deps en cand ds) (\<lambda>_. check_dependency_cycle en cand ds))"

definition create_or_replay :: "env \<Rightarrow> create_input \<Rightarrow> team_config \<Rightarrow> task team_act" where
  \<comment> \<open>a request with a known key is answered with the task it created\<close>
  "create_or_replay en inp cfg = (case ti_request_id inp of
     None \<Rightarrow> create_fresh en inp None cfg
   | Some rid \<Rightarrow>
      (let req_sha = canonical_request_sha (en_sha en) (ti_subject inp) (ti_description inp)
           (ti_owner inp) (ti_blocked_by inp) in
       andthen (find_task_by_request_id en rid) (\<lambda>found. case found of
         None \<Rightarrow> create_fresh en inp (Some req_sha) cfg
       | Some t \<Rightarrow> (if t_request_sha t \<noteq> Some req_sha then throw E_TEAM_TASK_IDEMPOTENCY_CONFLICT
           else andthen (repair_next_id en cfg t) (\<lambda>_. ret t)))))"

definition create_locked :: "env \<Rightarrow> create_input \<Rightarrow> task team_act" where
  \<comment> \<open>under the configuration lock; subject and description are already trimmed\<close>
  "create_locked en inp = (\<lambda>st. case read_config st of
     Inl e \<Rightarrow> throw e st
   | Inr None \<Rightarrow> throw E_TEAM_NOT_FOUND st
   | Inr (Some cfg) \<Rightarrow>
      (if \<not> opt_all safe_worker_name (ti_owner inp) then throw E_TEAM_WORKER_INVALID
       else if \<not> opt_all (\<lambda>w. w \<in> set (tc_workers cfg)) (ti_owner inp) then throw E_TEAM_WORKER_NOT_FOUND
       else andthen (check_blocked_by en (id_text (tc_next_task_id cfg)) (ti_blocked_by inp))
         (\<lambda>_. create_or_replay en inp cfg)) st)"

definition create_task :: "env \<Rightarrow> create_input \<Rightarrow> task team_act" where
  "create_task en inp = (let
     inp' = inp\<lparr>ti_subject := trim (ti_subject inp), ti_description := trim (ti_description inp)\<rparr> in
     if ti_subject inp' = [] \<or> ti_description inp' = [] then throw E_TEAM_TASK_FIELDS_REQUIRED
     else if \<not> opt_all is_request_id (ti_request_id inp) then throw E_TEAM_TASK_REQUEST_ID_INVALID
     else if opt_default [] (ti_blocked_by inp) \<noteq> []
          then with_dependency_lock en (create_locked en inp')
          else create_locked en inp')"

end
