(* ===== verification/TeamReads.thy ===== *)
theory TeamReads
  imports TeamCreate
begin

text \<open>
  What can be read of a team: normal tasks, what a commit leaves to be read whatever fails in it,
  and the operations that change nothing a later read could see (\<open>reads\<close>): recovery only writes
  the file every later read would reconstruct.
\<close>

section \<open>Normal tasks\<close>

lemma normalize_version [simp]: "t_version (normalize_task sha t) = t_version t"
  by (simp add: normalize_task_def Let_def)

lemma normalize_status [simp]: "t_status (normalize_task sha t) = t_status t"
  by (simp add: normalize_task_def Let_def)

lemma normalize_claim_generation:
  "c_generation (normalize_claim sha t c) = Some (opt_default 1 (c_generation c))"
  by (cases "c_generation c") (auto simp: normalize_claim_def Let_def split: option.splits)

lemma normalize_id [simp]: "t_id (normalize_task sha t) = t_id t"
  and normalize_deps [simp]: "deps_of (normalize_task sha t) = deps_of t"
  by (simp_all add: normalize_task_def Let_def deps_of_def)

text \<open>A task the operations have written is already normal.\<close>

definition normal :: "task \<Rightarrow> bool" where
  "normal t = (t_last_gen t \<noteq> None \<and> (case t_claim t of None \<Rightarrow> True
     | Some c \<Rightarrow> c_token c = None \<and> c_generation c \<noteq> None \<and> c_acquired_at c \<noteq> None))"

lemma normalize_claim_normal:
  "c_token c = None \<Longrightarrow> c_generation c \<noteq> None \<Longrightarrow> c_acquired_at c \<noteq> None \<Longrightarrow> normalize_claim sha t c = c"
  by (auto simp: normalize_claim_def Let_def)

lemma normalize_normal: "normal t \<Longrightarrow> normalize_task sha t = t"
  by (cases "t_claim t") (auto simp: normal_def normalize_task_def Let_def normalize_claim_normal)

lemma normal_normalize [simp]: "normal (normalize_task sha t)"
  by (auto simp: normal_def normalize_task_def Let_def normalize_claim_def split: option.splits)

lemma normalize_idem [simp]: "normalize_task sha (normalize_task sha t) = normalize_task sha t"
  by (rule normalize_normal) simp

lemma normal_reconciled: "normal p \<Longrightarrow> normal (reconciled_task b t' p)"
  by (auto simp: normal_def reconciled_task_def Let_def)

lemma read_task_SomeD:
  assumes "read_task sha st i = Inr (Some t)"
  obtains t0 where "raw_task st i = Inr (Some t0)" "t = normalize_task sha t0"
  using assms by (auto simp: read_task_def rbind_Inr_iff)

lemma read_task_normal: "read_task sha st i = Inr (Some t) \<Longrightarrow> normal t"
  by (metis normal_normalize read_task_SomeD)

lemma read_task_id: "read_task sha st i = Inr (Some t) \<Longrightarrow> t_id t = i"
  by (metis normalize_id raw_task_SomeD(3) read_task_SomeD)

section \<open>What a commit leaves to be read\<close>

lemma rebuild_log:
  "dget (tm_logs st) tid = Some (Log (evs @ [ev])) \<Longrightarrow>
     rebuild_from_journal st tid = (if is_team_task (event_task ev) \<and> t_id (event_task ev) = tid
             then Inr (Some (event_task ev)) else Inl E_TEAM_TASK_CORRUPT)"
  by (simp add: rebuild_from_journal_def Let_def)

definition commit_outcomes :: "task_event \<Rightarrow> task \<Rightarrow> (team_error + task option) \<Rightarrow> (team_error + task option) set" where
  "commit_outcomes ev p before = {before, Inr (Some (event_task ev)),
     Inr (Some (reconciled_task (is_claim_event ev) (event_task ev) p)), Inl E_TEAM_TASK_CORRUPT}"

lemma commit_disk:
  fixes ev p st tid fl
  assumes "fl_append fl" "dget (tm_logs st) tid = (if evs = [] then None else Some (Log evs)) \<or> dget (tm_logs st) tid = Some (Log evs)"
    and "file_task st tid \<in> {None, Some t0}"
  defines "r \<equiv> reconciled_task (is_claim_event ev) (event_task ev) p"
  defines "st' \<equiv> snd (commit_task fl tid ev (Some p) st)"
  shows "\<exists>es e. dget (tm_logs st') tid = Some (Log (es @ [e])) \<and> e \<in> {ev, Released r}"
    and "file_task st' tid \<in> {None, Some t0, Some (event_task ev), Some r}"
proof -
  have L: "append_log (fl_append fl) tid ev st =
      (Inr (), st\<lparr>tm_logs := dput tid (Log (evs @ [ev])) (tm_logs st)\<rparr>)"
    using assms(1,2) by (auto simp: append_log_def split: if_splits)
  show "\<exists>es e. dget (tm_logs st') tid = Some (Log (es @ [e])) \<and> e \<in> {ev, Released r}"
    unfolding st'_def commit_task_def L
    by (cases "fl_write fl"; cases "fl_write2 fl"; cases "fl_append2 fl"; cases "fl_unlink fl")
      (auto simp: write_file_def append_log_def unlink_file_def r_def Let_def; blast)+
  show "file_task st' tid \<in> {None, Some t0, Some (event_task ev), Some r}"
    using assms(3) unfolding st'_def commit_task_def L
    by (cases "fl_write fl"; cases "fl_write2 fl"; cases "fl_append2 fl"; cases "fl_unlink fl")
      (auto simp: write_file_def append_log_def unlink_file_def r_def Let_def file_task_def split: option.splits)
qed

text \<open>
  After a commit, whatever failed in it, the committed task reads as before, as the new value, as
  the reconciled value, or not at all.
\<close>

lemma commit_reads:
  assumes "raw_task st tid = Inr (Some t0)"
  shows "raw_task (snd (commit_task fl tid ev (Some p) st)) tid \<in> commit_outcomes ev p (raw_task st tid)"
proof (cases "fl_append fl \<and> log_ok st tid")
  case False
  then have "snd (commit_task fl tid ev (Some p) st) = st"
    by (auto simp: commit_task_def append_log_def log_ok_def Let_def split: option.splits task_log.splits)
  then show ?thesis by (simp add: commit_outcomes_def)
next
  case True
  have id: "task_id_ok tid" using raw_task_SomeD(1) [OF assms] .
  have old: "file_task st tid \<in> {None, Some t0}"
    using assms by (auto simp: raw_task_def split: option.splits if_splits)
  obtain evs where "dget (tm_logs st) tid = (if evs = [] then None else Some (Log evs)) \<or> dget (tm_logs st) tid = Some (Log evs)"
    using True by (cases "dget (tm_logs st) tid") (auto simp: log_ok_def split: task_log.splits, metis task_log.exhaust)
  note disk = commit_disk [OF _ this old, of fl ev p]
  let ?st = "snd (commit_task fl tid ev (Some p) st)"
  let ?r = "reconciled_task (is_claim_event ev) (event_task ev) p"
  obtain es e where log: "dget (tm_logs ?st) tid = Some (Log (es @ [e]))" and e: "e \<in> {ev, Released ?r}"
    using disk(1) True by blast
  show ?thesis
  proof (cases "file_task ?st tid")
    case None
    then have "raw_task ?st tid \<in> {Inr (Some (event_task e)), Inl E_TEAM_TASK_CORRUPT}"
      using rebuild_log [OF log] id log by (auto simp: raw_task_def)
    with e show ?thesis by (auto simp: commit_outcomes_def)
  next
    case (Some t)
    then have "raw_task ?st tid = Inr (Some t)" using id by (simp add: raw_task_def)
    with Some disk(2) True show ?thesis by (auto simp: commit_outcomes_def assms)
  qed
qed

lemma commit_Inr_reads:
  assumes "commit_task fl tid ev prev st = (Inr u, st')" "task_id_ok tid" "raw_task st' tid = Inr (Some t)"
  shows "t = event_task ev"
proof -
  from assms(1) obtain evs where "fl_append fl" "fl_write fl = WriteOk"
    and st': "dget (tm_files st') tid = Some (TaskFile (event_task ev))" "dget (tm_logs st') tid = Some (Log (evs @ [ev]))"
    by (auto simp: commit_task_def append_log_def write_file_def Let_def
        split: if_splits option.splits task_log.splits write_result.splits prod.splits sum.splits)
  show ?thesis
    using assms(2,3) st' rebuild_log [OF st'(2)]
    by (auto simp: raw_task_def file_task_def split: if_splits)
qed

lemma publish_disk:
  fixes en cfg t st
  assumes "raw_task st (t_id t) = Inr None"
  defines "st' \<equiv> snd (publish_task en cfg t st)"
  shows "dget (tm_files st') (t_id t) \<in> {None, Some (TaskFile t)}"
    and "dget (tm_logs st') (t_id t) \<in> {None, Some (Log []), Some (Log [Created t])}"
    and "j \<noteq> t_id t \<Longrightarrow> raw_task st' j = raw_task st j"
proof -
  have old: "dget (tm_files st) (t_id t) = None" "dget (tm_logs st) (t_id t) \<in> {None, Some (Log [])}"
    using assms(1)
    by (auto simp: raw_task_None_iff rebuild_from_journal_def Let_def split: option.splits task_log.splits if_splits)
  show "dget (tm_files st') (t_id t) \<in> {None, Some (TaskFile t)}"
    using old(1) unfolding st'_def
    by (auto simp: publish_task_def andthen_def write_file_def append_log_def write_config_def put_config_def
        split: prod.splits sum.splits write_result.splits option.splits task_log.splits if_splits)
  show "dget (tm_logs st') (t_id t) \<in> {None, Some (Log []), Some (Log [Created t])}"
    using old(2) unfolding st'_def
    by (auto simp: publish_task_def andthen_def write_file_def append_log_def write_config_def put_config_def
        split: prod.splits sum.splits write_result.splits option.splits task_log.splits if_splits)
  show "raw_task st' j = raw_task st j" if "j \<noteq> t_id t"
    using that unfolding st'_def
    by (intro raw_task_other)
      (auto simp: publish_task_def andthen_def write_file_def append_log_def write_config_def put_config_def
        split: prod.splits sum.splits write_result.splits option.splits task_log.splits if_splits)
qed

section \<open>Operations that only read\<close>

definition reads :: "'a team_act \<Rightarrow> bool" where
  \<comment> \<open>the operation changes nothing that can be read of a task\<close>
  "reads m = (\<forall>st i. raw_task (snd (m st)) i = raw_task st i)"

lemma reads_read_task: "reads m \<Longrightarrow> read_task sha (snd (m st)) i = read_task sha st i"
  by (simp add: reads_def read_task_def)

lemma reads_sndD: "reads m \<Longrightarrow> m st = (r, st') \<Longrightarrow> raw_task st' i = raw_task st i"
  by (metis reads_def snd_conv)

lemma reads_ret [simp, intro]: "reads (ret x)"
  and reads_throw [simp, intro]: "reads (throw e)"
  and reads_fetch [simp, intro]: "reads (fetch en i)"
  by (simp_all add: reads_def fetch_def)

lemma reads_andthen [intro]: "reads m \<Longrightarrow> (\<And>x. reads (f x)) \<Longrightarrow> reads (andthen m f)"
  by (auto simp: reads_def andthen_def split: prod.splits sum.splits) (metis snd_conv)+

lemma reads_if: "reads a \<Longrightarrow> reads b \<Longrightarrow> reads (if c then a else b)"
  by simp

lemma reads_if_state: "reads a \<Longrightarrow> reads b \<Longrightarrow> reads (\<lambda>st. if P st then a st else b st)"
  by (simp add: reads_def)

lemma reads_Pair [simp]: "reads (Pair r)"
  by (simp add: reads_def)

lemma reads_incomplete [simp, intro]: "reads (incomplete_deps en ds)"
  by (induction ds) auto

lemma reads_all_complete [simp, intro]: "reads (all_complete en ds)"
  by (induction ds) auto

lemma raw_task_frame [simp]:
  "raw_task (st\<lparr>tm_intents := x\<rparr>) i = raw_task st i"
  "raw_task (st\<lparr>tm_config := y\<rparr>) i = raw_task st i"
  by (rule raw_task_other; simp)+

lemma reads_record_intent [simp, intro]: "reads (record_intent en tid reason)"
  by (auto simp: record_intent_def reads_def Let_def split: write_result.splits)

lemma reads_remove_intent [simp, intro]: "reads (remove_intent en tid)"
  by (simp add: remove_intent_def reads_def)

lemma reads_unreconciled_scan [simp, intro]: "reads (unreconciled_scan en cur is todo)"
  by (induction "is" arbitrary: todo) (auto split: option.splits)

lemma reads_state: "(\<And>s. reads (m s)) \<Longrightarrow> reads (\<lambda>st. m st st)"
  by (simp add: reads_def)

lemma reads_unreconciled_loop [simp, intro]: "reads (unreconciled_loop fuel en vis todo)"
proof (induction fuel arbitrary: vis todo)
  case 0
  then show ?case by (cases todo) auto
next
  case (Suc fuel)
  have "reads (\<lambda>st. andthen (unreconciled_scan en c (all_task_ids st) cs)
      (\<lambda>(found, todo'). if found then ret True else unreconciled_loop fuel en (c # vis) todo') st)" for c cs
    by (rule reads_state) (auto simp: Suc split: prod.splits)
  with Suc show ?case by (cases todo) auto
qed

lemma reads_has_unreconciled [simp, intro]: "reads (has_unreconciled en tid)"
  unfolding has_unreconciled_def Let_def by (rule reads_state) (rule reads_unreconciled_loop)

lemma reads_lift_proc [simp, intro]: "reads (lift_proc en p)"
  by (auto simp: lift_proc_def split: option.splits sum.splits)

lemma reads_record_unless: "reads (\<lambda>st. andthen (if P st then ret () else record_intent en tid reason) (\<lambda>_. finish t) st)"
  by (rule reads_state [where m = "\<lambda>s. andthen (if P s then ret () else record_intent en tid reason) (\<lambda>_. finish t)"])
    (intro reads_andthen reads_if reads_ret reads_record_intent)

lemma reads_reopen_candidate: "reads (reopen_candidate en tid reason t)"
proof -
  let ?k = "\<lambda>recoverable st'.
       if recoverable \<or> ((t_status t = TPending \<or> t_status t = TBlocked) \<and> was_reopened st' tid)
       then andthen (if has_intent st' tid then ret () else record_intent en tid reason) (\<lambda>_. finish t) st'
       else refuse Not_terminal st'"
  have "reads (?k b)" for b by (intro reads_if_state reads_record_unless reads_ret)
  then have "reads (andthen (if has_intent s tid then ret True else has_unreconciled en tid) ?k)" for s
    by (intro reads_andthen reads_if reads_ret reads_has_unreconciled)
  then show ?thesis unfolding reopen_candidate_def
    by (rule reads_state [where m = "\<lambda>s. andthen (if has_intent s tid then ret True else has_unreconciled en tid) ?k"])
qed

lemma reads_queries: "reads (read_task_op en tid)" "reads (list_tasks en)" "reads (get_team_summary en)"
proof -
  have c: "reads (collect_tasks en is)" for "is" by (induction "is") auto
  show "reads (read_task_op en tid)" by (simp add: read_task_op_def)
  show l: "reads (list_tasks en)"
    unfolding list_tasks_def by (rule reads_state) (intro reads_andthen c reads_ret)
  show "reads (get_team_summary en)"
  proof -
    have "reads (\<lambda>st. case c st of Inl e \<Rightarrow> throw e st | Inr None \<Rightarrow> ret None st
        | Inr (Some cfg) \<Rightarrow> andthen (list_tasks en) (\<lambda>ts. ret (f cfg ts)) st)"
      for c :: "team \<Rightarrow> team_error + 'c option" and f :: "'c \<Rightarrow> task list \<Rightarrow> summary option"
      using reads_andthen [OF l reads_ret, of "f _"] unfolding reads_def
      by (auto split: sum.splits option.splits)
    then show ?thesis unfolding get_team_summary_def .
  qed
qed

lemma reads_put_config [simp]: "reads (modify (put_config cfg))"
  by (simp add: reads_def put_config_def)

lemma reads_write_config [simp]: "reads (write_config w cfg)"
  by (cases w) (simp_all add: write_config_def)

lemma reads_store_config [simp]: "reads (store_config w cfg)"
  by (cases w) (auto simp: store_config_def)

lemma reads_check_deps [simp]: "reads (check_deps en cand ds)"
  by (induction ds) auto

lemma reads_cycle_dfs [simp]: "reads (cycle_dfs fuel en stack vis ds)"
  by (induction fuel en stack vis ds rule: cycle_dfs.induct) (auto split: option.splits)

lemma reads_check_cycle [simp]: "reads (check_dependency_cycle en cand ds)"
  unfolding check_dependency_cycle_def by (rule reads_state) auto

lemma reads_check_blocked_by [simp]: "reads (check_blocked_by en cand deps)"
  by (auto simp: check_blocked_by_def split: option.splits)

lemma reads_find_request [simp]: "reads (find_request en rid is found)"
  by (induction "is" arbitrary: found) (auto split: option.splits)

lemma reads_find_task_by_request_id [simp]: "reads (find_task_by_request_id en rid)"
  unfolding find_task_by_request_id_def by (rule reads_state) simp

lemma reads_next_free [simp]: "reads (next_free fuel en inp cfg)"
proof (induction fuel arbitrary: cfg)
  case (Suc fuel)
  show ?case
    unfolding next_free.simps Let_def
    by (intro reads_andthen reads_fetch, case_tac x) (auto simp: Suc)
qed simp

text \<open>The identifier the search stops at is free.\<close>

lemma next_free_free:
  "next_free fuel en inp cfg st = (Inr (None, cfg'), st') \<Longrightarrow>
     raw_task st' (id_text (tc_next_task_id cfg')) = Inr None"
proof (induction fuel arbitrary: cfg st)
  case (Suc fuel)
  from Suc.prems obtain r st1 where f: "fetch en (id_text (tc_next_task_id cfg)) st = (Inr r, st1)"
    and k: "(case r of None \<Rightarrow> ret (None, cfg)
       | Some occ \<Rightarrow> (let rep = cfg\<lparr>tc_next_task_id := tc_next_task_id cfg + 1\<rparr> in
           andthen (store_config (en_config_write en) rep)
             (\<lambda>_. if same_task_request occ inp then ret (Some occ, rep) else next_free fuel en inp rep))) st1
        = (Inr (None, cfg'), st')"
    by (simp only: next_free.simps) (erule andthen_InrE, blast)
  show ?case
  proof (cases r)
    case None
    with f k show ?thesis by (auto simp: fetch_def read_task_def rbind_Inr_iff)
  next
    case (Some occ)
    with k Suc.IH show ?thesis by (auto simp: Let_def elim!: andthen_InrE split: if_splits)
  qed
qed simp

end
