(* ===== verification/TeamLaws.thy ===== *)
theory TeamLaws
  imports TeamReads
begin

text \<open>
  The interface between the operations on a team and what is proved of all of them: a preorder
  \<open>R\<close> on teams (how a team may change) and a relation \<open>may\<close> on commits (which event may follow
  which task).  Whoever shows that the commits of the operations are allowed and that an allowed
  commit stays within \<open>R\<close> has that every operation stays within \<open>R\<close>, on every path, errors and
  failed writes included.  \<open>team_law\<close> is the contract of the operations that never block a
  dependent again; \<open>team_law_reopen\<close> extends it with reopen and the cascade.
\<close>

section \<open>Staying within a relation\<close>

type_synonym team_rel = "(string \<Rightarrow> string) \<Rightarrow> team \<Rightarrow> team \<Rightarrow> bool"

definition within :: "team_rel \<Rightarrow> env \<Rightarrow> 'a team_act \<Rightarrow> bool" where
  "within R en m = (\<forall>st. R (en_sha en) st (snd (m st)))"

definition within_from :: "team_rel \<Rightarrow> env \<Rightarrow> string \<Rightarrow> task \<Rightarrow> 'a team_act \<Rightarrow> bool" where
  \<comment> \<open>the same when the task reads as \<open>t\<close> at the start\<close>
  "within_from R en tid t m = (\<forall>st. read_task (en_sha en) st tid = Inr (Some t)
     \<longrightarrow> R (en_sha en) st (snd (m st)))"

lemma withinD: "within R en m \<Longrightarrow> R (en_sha en) st (snd (m st))"
  by (simp add: within_def)

lemma within_from_keeps: "within R en m \<Longrightarrow> within_from R en tid t m"
  by (simp add: within_def within_from_def)

lemma within_state: "(\<And>s. within R en (m s)) \<Longrightarrow> within R en (\<lambda>st. m st st)"
  by (simp add: within_def)

lemma within_from_if_state:
  "within_from R en tid t a \<Longrightarrow> within_from R en tid t b \<Longrightarrow> within_from R en tid t (\<lambda>st. if P st then a st else b st)"
  by (simp add: within_from_def)

lemma claim_working_cases:
  assumes "claim_working en t = Inr u"
  shows "u = t \<or> u = bare_task t TPending (request_owner_of t)"
  using assms by (auto simp: claim_working_def Let_def split: if_splits option.splits liveness.splits)

lemma event_task_reblock [simp]: "event_task (reblock_event cur t) = reblocked_task t"
  by (simp add: reblock_event_def)

definition fresh_task :: "task \<Rightarrow> bool" where
  \<comment> \<open>as \<^verbatim>\<open>createTask\<close> makes it\<close>
  "fresh_task t = (normal t \<and> t_version t = 1 \<and> t_claim t = None \<and> t_last_gen t = Some 0
     \<and> t_status t \<in> {TPending, TBlocked})"

section \<open>The contract without reopening\<close>

locale team_law =
  fixes R :: team_rel
    and may :: "task \<Rightarrow> task \<Rightarrow> task_event \<Rightarrow> bool"
  assumes silent: "(\<And>i. raw_task st' i = raw_task st i) \<Longrightarrow> R sha st st'"
    and trans: "R sha st1 st2 \<Longrightarrow> R sha st2 st3 \<Longrightarrow> R sha st1 st3"
    and commit: "read_task (en_sha en) st tid = Inr (Some t) \<Longrightarrow> normal t \<Longrightarrow> may t p ev \<Longrightarrow>
      R (en_sha en) st (snd (commit en tid ev (Some p) st))"
    and publish: "raw_task st (t_id t) = Inr None \<Longrightarrow> fresh_task t \<Longrightarrow>
      R (en_sha en) st (snd (publish_task en cfg t st))"
    and may_claim: "normal t \<Longrightarrow> \<not> terminal (t_status t) \<Longrightarrow> claim_working en t = Inr u \<Longrightarrow>
      may t u (Claimed (claimed_task u w (fence u + 1) (new_claim en w (fence u + 1) l pc)) c)"
    and may_reclaim: "normal t \<Longrightarrow> t_status t = TInProgress \<Longrightarrow>
      may t t (Reclaimed (reclaimed_task t w (fence t + 1) (new_claim en w (fence t + 1) l pc)) a b r)"
    and may_renew: "normal t \<Longrightarrow> t_status t = TInProgress \<Longrightarrow> t_claim t = Some cl \<Longrightarrow>
      may t t (Renewed (t\<lparr>t_version := t_version t + 1, t_claim := Some (renewed_claim en cl ro h)\<rparr>) c)"
    and may_transition: "normal t \<Longrightarrow> \<not> terminal (t_status t) \<Longrightarrow> can_transition (t_status t) to \<Longrightarrow>
      may t t (Transitioned (transitioned_task en t to tr) from to)"
    and may_release: "normal t \<Longrightarrow> \<not> terminal (t_status t) \<Longrightarrow>
      may t t (Released (bare_task t TPending None))"
    and may_unblock: "normal t \<Longrightarrow> t_status t = TBlocked \<Longrightarrow>
      may t t (Transitioned (t\<lparr>t_status := TPending, t_version := t_version t + 1\<rparr>) TBlocked TPending)"
begin

lemma within_reads: "reads m \<Longrightarrow> within R en m"
  by (simp add: reads_def within_def silent)

lemma within_ret [simp, intro]: "within R en (ret x)"
  and within_throw [simp, intro]: "within R en (throw e)"
  and within_Pair [simp]: "within R en (Pair r)"
  by (simp_all add: within_reads)

lemma within_andthen [intro]:
  assumes "within R en m" "\<And>x. within R en (f x)"
  shows "within R en (andthen m f)"
  unfolding within_def
proof
  fix st
  show "R (en_sha en) st (snd (andthen m f st))"
    using trans withinD [OF assms(1), of st] withinD [OF assms(2)]
    by (fastforce simp: andthen_def split: prod.splits sum.splits)
qed

lemma within_for_each [intro]: "(\<And>x. within R en (f x)) \<Longrightarrow> within R en (for_each f xs)"
  by (induction xs) auto

lemma within_attempt [intro]: "within R en m \<Longrightarrow> within R en (attempt m)"
  by (simp add: within_def)

lemma within_from_andthen:
  assumes "within_from R en tid t m" "\<And>x. within R en (f x)"
  shows "within_from R en tid t (andthen m f)"
  using assms trans unfolding within_from_def within_def
  by (fastforce simp: andthen_def split: prod.splits sum.splits)

lemma within_from_reads:
  assumes "reads m" "\<And>x. within_from R en tid t (f x)"
  shows "within_from R en tid t (andthen m f)"
  unfolding within_from_def
proof (intro allI impI)
  fix st
  assume t: "read_task (en_sha en) st tid = Inr (Some t)"
  obtain r st' where m: "m st = (r, st')" by (cases "m st")
  have st': "read_task (en_sha en) st' tid = Inr (Some t)" "R (en_sha en) st st'"
    using reads_read_task [OF assms(1), of "en_sha en" st] t withinD [OF within_reads [OF assms(1)], of en st]
    by (simp_all add: m)
  show "R (en_sha en) st (snd (andthen m f st))"
    using assms(2) st' trans by (fastforce simp: within_from_def andthen_def m split: sum.splits)
qed

lemma within_fetch:
  assumes "\<And>t. normal t \<Longrightarrow> t_id t = tid \<Longrightarrow> within_from R en tid t (k (Some t))" "within R en (k None)"
  shows "within R en (andthen (fetch en tid) k)"
  unfolding within_def
proof
  fix st
  let ?st = "read_effect st tid"
  have refl: "R (en_sha en) st ?st" by (simp add: silent)
  show "R (en_sha en) st (snd (andthen (fetch en tid) k st))"
  proof (cases "read_task (en_sha en) st tid")
    case (Inl e)
    then show ?thesis using refl by (simp add: andthen_def fetch_def)
  next
    case (Inr r)
    have "R (en_sha en) ?st (snd (k r ?st))"
      using assms Inr read_task_normal [of "en_sha en" st tid] read_task_id [of "en_sha en" st tid]
      by (cases r) (auto simp: within_from_def within_def)
    then show ?thesis using trans [OF refl] Inr by (simp add: andthen_def fetch_def)
  qed
qed

lemma within_from_commit:
  "may t p ev \<Longrightarrow> normal t \<Longrightarrow> within_from R en tid t (commit en tid ev (Some p))"
  using commit by (auto simp: within_from_def)

lemma within_from_commit_ret:
  "may t p ev \<Longrightarrow> normal t \<Longrightarrow> within_from R en tid t (andthen (commit en tid ev (Some p)) (\<lambda>_. ret x))"
  by (intro within_from_andthen within_from_commit within_ret)

lemma within_from_ret [simp, intro]: "within_from R en tid t (ret x)"
  and within_from_throw [simp, intro]: "within_from R en tid t (throw e)"
  and within_from_Pair [simp]: "within_from R en tid t (Pair r)"
  by (simp_all add: within_from_keeps)

lemma within_unblock_one [intro]: "within R en (unblock_one en c other)"
proof -
  have "within_from R en other t (andthen (incomplete_deps en (deps_of t)) (\<lambda>inc.
           if inc = []
           then commit en other (Transitioned (t\<lparr>t_status := TPending, t_version := t_version t + 1\<rparr>) TBlocked TPending) (Some t)
           else ret ()))" if "normal t" "t_status t = TBlocked" for t
    using that by (intro within_from_reads) (auto intro!: within_from_commit may_unblock)
  then show ?thesis
    unfolding unblock_one_def by (auto intro!: within_fetch)
qed

lemma within_unblock [intro]: "within R en (unblock_dependents en c)"
  unfolding unblock_dependents_def by (rule within_state) auto

lemma within_renew_locked: "within R en (renew_locked en tid w token ro)"
  unfolding renew_locked_def
  by (rule within_fetch)
    (auto simp: Let_def split: option.splits sum.splits intro!: within_from_commit_ret may_renew)

lemma within_claim_locked: "within R en (claim_locked en tid w co)"
  unfolding claim_locked_def
  by (rule within_fetch)
    (auto simp: Let_def split: sum.splits intro!: within_from_reads [OF reads_incomplete]
      within_from_reads [OF reads_lift_proc] within_from_andthen within_from_commit may_claim)

lemma within_reclaim_locked: "within R en (reclaim_locked en tid w rc)"
  unfolding reclaim_locked_def
  by (rule within_fetch)
    (auto simp: Let_def split: option.splits intro!: within_from_reads [OF reads_lift_proc]
      within_from_andthen within_from_commit may_reclaim)

lemma transition_guard_facts:
  "transition_guard en t from to token tr = None \<Longrightarrow>
     \<not> terminal (t_status t) \<and> t_status t = from \<and> can_transition (t_status t) to"
  by (simp add: transition_guard_def split: if_splits)

lemma within_transition_locked: "within R en (transition_locked en tid from to token tr)"
  unfolding transition_locked_def
  by (rule within_fetch)
    (auto simp: Let_def dest: transition_guard_facts split: option.splits
      intro!: within_from_reads [OF reads_all_complete] within_from_if_state within_from_commit_ret may_transition)

lemma within_execute_transition: "within R en (execute_transition en tid from to tok tr)"
  unfolding execute_transition_def
  by (intro within_andthen within_transition_locked) (auto split: outcome.splits)

lemma within_release: "within R en (release_task_claim en tid token w rl)"
proof (cases "task_id_ok tid \<and> safe_worker_name w")
  case True
  have "within_from R en tid t (andthen (commit en tid (Released (bare_task t TPending None)) (Some t)) (\<lambda>_. finish x))"
    if "normal t" "\<not> terminal (t_status t)" for t and x :: task
    using that by (auto intro!: within_from_commit_ret may_release)
  with True show ?thesis
    unfolding release_task_claim_def by (simp, intro within_fetch) (auto simp: Let_def)
qed (auto simp: release_task_claim_def)

lemma within_with_worker [intro]: "within R en m \<Longrightarrow> within R en (with_worker tid w m)"
  unfolding with_worker_def
  by (auto simp: within_def silent split: sum.splits option.splits)

lemma within_after_reads:
  fixes en :: env
  assumes "reads m" "\<And>x st'. m st = (Inr x, st') \<Longrightarrow> R (en_sha en) st' (snd (f x st'))"
  shows "R (en_sha en) st (snd (andthen m f st))"
proof -
  obtain r st' where m: "m st = (r, st')" by (cases "m st")
  have "R (en_sha en) st st'"
    using withinD [OF within_reads [OF assms(1)], of en st] by (simp add: m)
  with assms(2) trans show ?thesis
    by (fastforce simp: andthen_def m split: sum.splits)
qed

lemma within_create_fresh: "within R en (create_fresh en inp req_sha cfg)"
  unfolding within_def create_fresh_def
proof (intro allI within_after_reads reads_next_free)
  fix st x st1
  assume free: "next_free (length (all_task_ids st) + 1) en inp cfg st = (Inr x, st1)"
  obtain early cfg' where x: "x = (early, cfg')" by (cases x)
  show "R (en_sha en) st1 (snd ((case x of (early, cfg') \<Rightarrow>
       case early of Some t \<Rightarrow> ret t
       | None \<Rightarrow> andthen (incomplete_deps en (opt_default [] (ti_blocked_by inp))) (\<lambda>inc.
           let t = new_task en inp (tc_next_task_id cfg') (if inc = [] then TPending else TBlocked) req_sha in
           if created_record_bytes (en_now en) (Created t) > MAX_TASK_JOURNAL_RECORD_BYTES - 2048
           then throw E_TEAM_TASK_TOO_LARGE
           else publish_task en cfg' t)) st1))"
  proof (cases early)
    case None
    have "raw_task st1 (id_text (tc_next_task_id cfg')) = Inr None"
      using next_free_free free x None by blast
    then have "R (en_sha en) st2 (snd (publish_task en cfg'
        (new_task en inp (tc_next_task_id cfg') s req_sha) st2))"
      if "incomplete_deps en ds st1 = (Inr inc, st2)" "s \<in> {TPending, TBlocked}" for ds inc st2 s
      using reads_sndD [OF reads_incomplete that(1)] that(2)
      by (intro publish) (auto simp: new_task_def fresh_task_def normal_def)
    then show ?thesis
      by (auto simp: x None Let_def silent intro!: within_after_reads)
  qed (simp add: x silent)
qed

lemma within_create_or_replay: "within R en (create_or_replay en inp cfg)"
proof -
  have "within R en (repair_next_id en cfg t)" for t
    by (auto simp: repair_next_id_def Let_def intro: within_reads)
  moreover have "within R en (find_task_by_request_id en rid)" for rid
    by (simp add: within_reads)
  ultimately show ?thesis
    unfolding create_or_replay_def Let_def
    by (auto split: option.splits intro!: within_create_fresh within_andthen)
qed

lemma within_create_locked: "within R en (create_locked en inp)"
proof -
  have "within R en (andthen (check_blocked_by en c d) (\<lambda>_. create_or_replay en inp cfg))" for c d cfg
    by (intro within_andthen within_create_or_replay within_reads reads_check_blocked_by)
  then show ?thesis
    unfolding create_locked_def within_def by (auto simp: silent split: sum.splits option.splits)
qed

end

section \<open>The contract with reopening\<close>

locale team_law_reopen = team_law +
  assumes may_reopen: "normal t \<Longrightarrow> terminal (t_status t) \<Longrightarrow> s \<in> {TPending, TBlocked} \<Longrightarrow>
      may t t (Reopened (bare_task t s (request_owner_of t)) reason)"
    and may_reblock: "normal t \<Longrightarrow> t_status t \<noteq> TBlocked \<Longrightarrow> cur \<in> set (deps_of t) \<Longrightarrow>
      may t t (reblock_event cur t)"
begin

lemma within_reblock_scan [intro]: "within R en (reblock_scan en cur is todo)"
proof (induction "is" arbitrary: todo)
  case (Cons i "is")
  have "within_from R en i t (andthen (commit en i (reblock_event cur t) (Some t))
                (\<lambda>_. reblock_scan en cur is (set_add i todo)))"
    if "normal t" "t_status t \<noteq> TBlocked" "cur \<in> set (deps_of t)" for t
    using that may_reblock Cons by (auto intro!: within_from_andthen within_from_commit)
  moreover have "within_from R en i t (reblock_scan en cur is todo)" for t
    using Cons by (rule within_from_keeps)
  ultimately show ?case
    using Cons by (simp, intro impI within_fetch) simp_all
qed simp

lemma within_reblock_loop [intro]: "within R en (reblock_loop fuel en todo)"
proof (induction fuel arbitrary: todo)
  case 0
  then show ?case by (cases todo) auto
next
  case (Suc fuel)
  have "within R en (\<lambda>st. andthen (reblock_scan en c (all_task_ids st) cs) (reblock_loop fuel en) st)" for c cs
    by (rule within_state) (intro within_andthen within_reblock_scan Suc)
  then show ?case by (cases todo) simp_all
qed

lemma within_reblock [intro]: "within R en (reblock_dependents en c)"
  unfolding reblock_dependents_def by (rule within_state) (rule within_reblock_loop)

lemma within_reconcile_one [intro]: "within R en (reconcile_one en i)"
  unfolding reconcile_one_def
  by (intro within_attempt within_andthen)
    (auto intro: within_reads split: option.splits)

lemma within_reconcile_intents [intro]: "within R en (reconcile_intents en)"
  unfolding reconcile_intents_def by (rule within_state) (intro within_for_each within_reconcile_one)

lemma within_dependency_lock [intro]: "within R en m \<Longrightarrow> within R en (with_dependency_lock en m)"
  unfolding with_dependency_lock_def by (intro within_andthen within_reconcile_intents)

lemma within_claim: "within R en (claim_task en tid w co)"
  and within_renew: "within R en (renew_task_claim en tid w token ro)"
  and within_reclaim: "within R en (reclaim_task en tid w rc)"
  and within_transition: "within R en (transition_task_status en tid from to token tr)"
  and within_create: "within R en (create_task en inp)"
  by (auto simp: claim_task_def renew_task_claim_def reclaim_task_def transition_task_status_def Let_def
      create_task_def intro: within_claim_locked within_renew_locked within_reclaim_locked
        within_execute_transition within_create_locked)

lemma within_reopen_locked: "within R en (reopen_locked en tid reason)"
  unfolding reopen_locked_def
  by (rule within_fetch)
    (auto simp: Let_def split: option.splits
      intro!: within_from_reads [OF reads_incomplete] within_from_reads [OF reads_record_intent]
        within_from_if_state within_from_commit_ret may_reopen
        within_from_keeps [OF within_reads [OF reads_reopen_candidate]])

lemma within_reopen: "within R en (reopen_task en tid reason)"
proof -
  have "within R en (andthen (reopen_locked en tid reason) (\<lambda>r. case r of
        Refused ref \<Rightarrow> refuse ref
      | Done t \<Rightarrow> andthen (reblock_dependents en tid) (\<lambda>_.
          andthen (remove_intent en tid) (\<lambda>_. finish t))))"
    by (intro within_andthen within_reopen_locked) (auto split: outcome.splits intro: within_reads)
  then show ?thesis by (auto simp: reopen_task_def)
qed

lemmas within_ops = within_create within_claim within_renew within_reclaim within_transition
  within_release within_reopen within_reads [OF reads_queries(1)] within_reads [OF reads_queries(3)]

end

end
