(* ===== verification/TeamEvolve.thy ===== *)
theory TeamEvolve
  imports TeamLaws
begin

text \<open>
  What every operation on a team guarantees of every task, whatever input/output fails in it: the
  request part of a task never changes, its version and its claim generation never go down, and a
  task that has become unreadable stays so.
\<close>

section \<open>Later values of a task\<close>

definition same_request :: "task \<Rightarrow> task \<Rightarrow> bool" where
  "same_request t t' = (t_id t' = t_id t \<and> t_subject t' = t_subject t \<and> t_description t' = t_description t
     \<and> t_created_at t' = t_created_at t \<and> t_request_id t' = t_request_id t
     \<and> t_request_sha t' = t_request_sha t \<and> t_request_owner t' = t_request_owner t
     \<and> t_blocked_by t' = t_blocked_by t)"

definition gen_ok :: "task \<Rightarrow> bool" where
  \<comment> \<open>the recorded generation covers the claim, as \<^verbatim>\<open>isTeamTask\<close> asks when both are present\<close>
  "gen_ok t = (0 \<le> opt_default 0 (t_last_gen t) \<and> gen_of_claim (t_claim t) \<le> opt_default 0 (t_last_gen t))"

definition later :: "task \<Rightarrow> task \<Rightarrow> bool" where
  "later t t' = (same_request t t' \<and> t_version t \<le> t_version t'
     \<and> (gen_ok t \<longrightarrow> gen_ok t' \<and> fence t \<le> fence t'))"

lemma same_request_trans: "same_request a b \<Longrightarrow> same_request b c \<Longrightarrow> same_request a c"
  by (simp add: same_request_def)

lemma later_refl [simp]: "later t t"
  by (simp add: later_def same_request_def)

lemma later_trans: "later a b \<Longrightarrow> later b c \<Longrightarrow> later a c"
  unfolding later_def using same_request_trans by fastforce

lemma fence_gen_ok: "gen_ok t \<Longrightarrow> fence t = opt_default 0 (t_last_gen t)"
  by (simp add: gen_ok_def fence_def)

lemma normalize_same [simp]: "same_request t (normalize_task sha t)"
  by (simp add: same_request_def normalize_task_def Let_def)

lemma normalize_gen_ok:
  assumes "is_team_task t" "\<And>c. t_claim t = Some c \<Longrightarrow> c_generation c \<noteq> None \<or> t_last_gen t = None"
  shows "gen_ok (normalize_task sha t)"
  using assms
  by (cases "t_claim t"; cases "t_last_gen t"; cases "Option.bind (t_claim t) c_generation")
    (auto simp: gen_ok_def normalize_task_def Let_def gen_of_claim_def normalize_claim_generation
      is_team_task_def is_claim_def)

section \<open>Evolution of a team\<close>

definition evolves :: "(string \<Rightarrow> string) \<Rightarrow> team \<Rightarrow> team \<Rightarrow> bool" where
  "evolves sha st st' = (\<forall>i. case read_task sha st i of
       Inr (Some t) \<Rightarrow> read_task sha st' i = Inl E_TEAM_TASK_CORRUPT
                     \<or> (\<exists>t'. read_task sha st' i = Inr (Some t') \<and> later t t')
     | Inl e \<Rightarrow> read_task sha st' i = Inl e
     | Inr None \<Rightarrow> (\<forall>t'. read_task sha st' i = Inr (Some t') \<longrightarrow> gen_ok t'))"

lemma evolves_refl [simp]: "evolves sha st st"
  by (auto simp: evolves_def split: sum.splits option.splits)

lemma evolves_reads: "(\<And>i. raw_task st' i = raw_task st i) \<Longrightarrow> evolves sha st st'"
  by (auto simp: evolves_def read_task_def split: sum.splits option.splits)

lemma evolves_SomeD:
  "evolves sha st st' \<Longrightarrow> read_task sha st i = Inr (Some t) \<Longrightarrow>
     read_task sha st' i = Inl E_TEAM_TASK_CORRUPT \<or> (\<exists>t'. read_task sha st' i = Inr (Some t') \<and> later t t')"
  by (auto simp: evolves_def dest!: spec [of _ i])

lemma evolves_InlD: "evolves sha st st' \<Longrightarrow> read_task sha st i = Inl e \<Longrightarrow> read_task sha st' i = Inl e"
  by (auto simp: evolves_def dest!: spec [of _ i])

lemma evolves_NoneD:
  "evolves sha st st' \<Longrightarrow> read_task sha st i = Inr None \<Longrightarrow> read_task sha st' i = Inr (Some t) \<Longrightarrow> gen_ok t"
  by (auto simp: evolves_def dest!: spec [of _ i])

lemma evolvesI:
  assumes "\<And>i t. read_task sha st i = Inr (Some t) \<Longrightarrow> read_task sha st' i = Inl E_TEAM_TASK_CORRUPT
       \<or> (\<exists>t'. read_task sha st' i = Inr (Some t') \<and> later t t')"
    and "\<And>i e. read_task sha st i = Inl e \<Longrightarrow> read_task sha st' i = Inl e"
    and "\<And>i t. read_task sha st i = Inr None \<Longrightarrow> read_task sha st' i = Inr (Some t) \<Longrightarrow> gen_ok t"
  shows "evolves sha st st'"
  unfolding evolves_def using assms by (auto split: sum.splits option.splits)

lemma evolves_trans:
  assumes ab: "evolves sha a b" and bc: "evolves sha b c"
  shows "evolves sha a c"
proof (rule evolvesI)
  fix i t assume "read_task sha a i = Inr (Some t)"
  from evolves_SomeD [OF ab this] show "read_task sha c i = Inl E_TEAM_TASK_CORRUPT
      \<or> (\<exists>t'. read_task sha c i = Inr (Some t') \<and> later t t')"
  proof (elim disjE exE conjE)
    fix u assume u: "read_task sha b i = Inr (Some u)" "later t u"
    from evolves_SomeD [OF bc u(1)] u(2) later_trans show ?thesis by blast
  qed (simp add: evolves_InlD [OF bc])
next
  fix i e assume "read_task sha a i = Inl e"
  then show "read_task sha c i = Inl e" using evolves_InlD ab bc by blast
next
  fix i t assume none: "read_task sha a i = Inr None" and c: "read_task sha c i = Inr (Some t)"
  show "gen_ok t"
  proof (cases "read_task sha b i")
    case (Inl e)
    with c evolves_InlD [OF bc] show ?thesis by force
  next
    case (Inr r)
    show ?thesis
    proof (cases r)
      case None
      with Inr c evolves_NoneD [OF bc] show ?thesis by blast
    next
      case (Some u)
      with Inr have u: "read_task sha b i = Inr (Some u)" by simp
      have "gen_ok u" using evolves_NoneD [OF ab none u] .
      with evolves_SomeD [OF bc u] c show ?thesis by (auto simp: later_def)
    qed
  qed
qed

text \<open>A commit of a later value evolves the team.\<close>

lemma later_reconciled:
  assumes "later t p" "later t t'" "normal p"
  shows "later t (reconciled_task b t' p)"
proof -
  have "same_request t (reconciled_task b t' p)"
    using assms(1) by (auto simp: later_def same_request_def reconciled_task_def Let_def)
  moreover have "t_version t \<le> t_version (reconciled_task b t' p)"
    using assms(2) by (auto simp: later_def reconciled_task_def Let_def)
  moreover have "gen_ok (reconciled_task b t' p) \<and> fence t \<le> fence (reconciled_task b t' p)" if "gen_ok t"
  proof -
    from that assms have "gen_ok p" "gen_ok t'" "fence t \<le> fence p" "fence t \<le> fence t'"
      by (auto simp: later_def)
    then show ?thesis
      by (auto simp: gen_ok_def fence_def reconciled_task_def Let_def gen_of_claim_def split: option.splits)
  qed
  ultimately show ?thesis by (simp add: later_def)
qed

lemma evolves_commit:
  assumes "read_task (en_sha en) st tid = Inr (Some t)" "later t p" "normal p"
    and "later t (event_task ev)" "normal (event_task ev)"
  shows "evolves (en_sha en) st (snd (commit en tid ev (Some p) st))"
  unfolding evolves_def
proof
  fix i
  let ?st = "snd (commit en tid ev (Some p) st)"
  let ?r = "reconciled_task (is_claim_event ev) (event_task ev) p"
  show "case read_task (en_sha en) st i of
       Inr (Some t) \<Rightarrow> read_task (en_sha en) ?st i = Inl E_TEAM_TASK_CORRUPT
                     \<or> (\<exists>t'. read_task (en_sha en) ?st i = Inr (Some t') \<and> later t t')
     | Inl e \<Rightarrow> read_task (en_sha en) ?st i = Inl e
     | Inr None \<Rightarrow> (\<forall>t'. read_task (en_sha en) ?st i = Inr (Some t') \<longrightarrow> gen_ok t')"
  proof (cases "i = tid")
    case False
    then have "read_task (en_sha en) ?st i = read_task (en_sha en) st i"
      by (simp add: read_task_def commit_def raw_task_commit_other)
    then show ?thesis by (auto split: sum.splits option.splits)
  next
    case True
    obtain t0 where t0: "raw_task st tid = Inr (Some t0)" "t = normalize_task (en_sha en) t0"
      using assms(1) by (rule read_task_SomeD)
    have "raw_task ?st tid \<in> commit_outcomes ev p (raw_task st tid)"
      unfolding commit_def using t0(1) by (rule commit_reads)
    then have "read_task (en_sha en) ?st tid = Inr (Some t)
        \<or> read_task (en_sha en) ?st tid = Inr (Some (event_task ev))
        \<or> read_task (en_sha en) ?st tid = Inr (Some ?r)
        \<or> read_task (en_sha en) ?st tid = Inl E_TEAM_TASK_CORRUPT"
      using t0 assms(3,5) by (auto simp: commit_outcomes_def read_task_def normalize_normal normal_reconciled)
    then show ?thesis
      using True assms(1,2,4) later_reconciled [OF assms(2,4,3)] by auto
  qed
qed

lemma later_bare: "normal t \<Longrightarrow> later t (bare_task t s ow)"
  by (auto simp: later_def same_request_def bare_task_def gen_ok_def fence_def gen_of_claim_def)

lemma normal_bare: "normal t \<Longrightarrow> normal (bare_task t s ow)"
  by (simp add: normal_def bare_task_def)

lemma later_reblocked: "normal t \<Longrightarrow> later t (reblocked_task t)"
  by (auto simp: later_def same_request_def reblocked_task_def gen_ok_def fence_def gen_of_claim_def split: option.splits)

lemma normal_reblocked: "normal t \<Longrightarrow> normal (reblocked_task t)"
  by (simp add: normal_def reblocked_task_def)

lemma later_status: "normal t \<Longrightarrow> later t (t\<lparr>t_status := s, t_version := t_version t + 1\<rparr>)"
  by (auto simp: later_def same_request_def gen_ok_def fence_def)

lemma later_renewed:
  "normal t \<Longrightarrow> t_claim t = Some c \<Longrightarrow> later t (t\<lparr>t_version := t_version t + 1, t_claim := Some (renewed_claim en c ro h)\<rparr>)"
  by (auto simp: later_def same_request_def gen_ok_def fence_def gen_of_claim_def renewed_claim_def)

lemma normal_renewed:
  "normal t \<Longrightarrow> t_claim t = Some c \<Longrightarrow> normal (t\<lparr>t_version := v, t_claim := Some (renewed_claim en c ro h)\<rparr>)"
  by (simp add: normal_def renewed_claim_def)

lemma new_claim_normal: "c_token (new_claim en w g l p) = None" "c_generation (new_claim en w g l p) = Some g"
  "c_acquired_at (new_claim en w g l p) = Some (en_now en)"
  by (simp_all add: new_claim_def)

lemma later_claimed:
  assumes "normal t" "later t u" "g = fence u + 1"
  shows "later t (claimed_task u w g (new_claim en w g l p))"
  using assms
  by (auto simp: later_def same_request_def claimed_task_def bare_task_def gen_ok_def fence_def gen_of_claim_def new_claim_def)

lemma normal_claimed: "normal (claimed_task u w g (new_claim en w g l p))"
  by (simp add: claimed_task_def bare_task_def normal_def new_claim_normal)

lemma later_reclaimed: "normal t \<Longrightarrow> later t (reclaimed_task t w (fence t + 1) (new_claim en w (fence t + 1) l p))"
  and normal_reclaimed: "normal (reclaimed_task t w g (new_claim en w g l p))"
  by (auto simp: later_def same_request_def gen_ok_def fence_def gen_of_claim_def new_claim_def normal_def
      reclaimed_task_def)

lemma normal_status: "normal t \<Longrightarrow> normal (t\<lparr>t_status := s, t_version := v\<rparr>)"
  by (simp add: normal_def)

lemma later_transitioned: "normal t \<Longrightarrow> later t (transitioned_task en t to tr)"
  using later_bare [of t to "t_owner t"]
  by (auto simp: later_def same_request_def transitioned_task_def gen_ok_def fence_def)

lemma normal_transitioned: "normal t \<Longrightarrow> normal (transitioned_task en t to tr)"
  by (simp add: normal_def transitioned_task_def bare_task_def)

lemma evolves_absent:
  assumes "raw_task st i = Inr None" "\<And>j. j \<noteq> i \<Longrightarrow> raw_task st' j = raw_task st j"
    and "\<And>t. raw_task st' i = Inr (Some t) \<Longrightarrow> gen_ok (normalize_task sha t)"
  shows "evolves sha st st'"
  unfolding evolves_def
proof
  fix j
  show "case read_task sha st j of
       Inr (Some t) \<Rightarrow> read_task sha st' j = Inl E_TEAM_TASK_CORRUPT
                     \<or> (\<exists>t'. read_task sha st' j = Inr (Some t') \<and> later t t')
     | Inl e \<Rightarrow> read_task sha st' j = Inl e
     | Inr None \<Rightarrow> (\<forall>t'. read_task sha st' j = Inr (Some t') \<longrightarrow> gen_ok t')"
    using assms by (cases "j = i") (auto simp: read_task_def rbind_Inr_iff split: sum.splits option.splits)
qed

lemma publish_evolves:
  assumes "raw_task st (t_id t) = Inr None" "normal t" "gen_ok t"
  shows "evolves (en_sha en) st (snd (publish_task en cfg t st))"
proof (rule evolves_absent [OF assms(1)])
  fix u assume u: "raw_task (snd (publish_task en cfg t st)) (t_id t) = Inr (Some u)"
  then have "u = t"
    using publish_disk(1,2) [OF assms(1), of en cfg]
    by (auto simp: raw_task_def file_task_def rebuild_from_journal_def Let_def
        split: option.splits if_splits sum.splits)
  then show "gen_ok (normalize_task (en_sha en) u)"
    using assms(2,3) by (simp add: normalize_normal)
qed (simp add: publish_disk(3) [OF assms(1)])

definition evolving_commit :: "task \<Rightarrow> task \<Rightarrow> task_event \<Rightarrow> bool" where
  "evolving_commit t p ev = (later t p \<and> normal p \<and> later t (event_task ev) \<and> normal (event_task ev))"

interpretation ev: team_law_reopen evolves evolving_commit
proof
  fix en :: env and t u :: task and w l p c assume "normal t" "claim_working en t = Inr u"
  then have "later t u" "normal u"
    using claim_working_cases [of en t u] later_bare normal_bare by auto
  with \<open>normal t\<close> show "evolving_commit t u (Claimed (claimed_task u w (fence u + 1) (new_claim en w (fence u + 1) l p)) c)"
    by (simp add: evolving_commit_def later_claimed normal_claimed)
qed (auto simp: evolving_commit_def fresh_task_def gen_ok_def gen_of_claim_def evolves_reads later_bare
    normal_bare later_transitioned normal_transitioned later_status normal_status later_reblocked normal_reblocked
    later_renewed normal_renewed later_reclaimed normal_reclaimed
    intro: evolves_trans evolves_commit publish_evolves)

end
