(* ===== verification/TeamSteps.thy ===== *)
theory TeamSteps
  imports TeamEvolve
begin

text \<open>
  The operations on a team as one step relation, its runs, and what holds along every run, whatever
  input or output fails: tasks keep their request, versions and claim generations only grow.
\<close>

section \<open>Runs\<close>

datatype team_op =
    Create create_input
  | Claim string string claim_opts
  | Renew string string string renew_opts
  | Reclaim string string reclaim_opts
  | Transition string task_status task_status string transition_opts
  | Release string string string release_opts
  | Reopen string "string option"
  | Read string
  | Summary

fun handed_out :: "(team_error + 'a outcome) \<Rightarrow> ('a \<Rightarrow> 'b) \<Rightarrow> 'b list" where
  "handed_out (Inr (Done x)) f = [f x]"
| "handed_out _ f = []"

definition claim_generation :: "task \<Rightarrow> int" where
  "claim_generation t = gen_of_claim (t_claim t)"

fun run_op :: "env \<Rightarrow> team_op \<Rightarrow> team \<Rightarrow> (string \<times> int) list \<times> team" where
  \<comment> \<open>the claims an operation hands out (task and generation), and the state it leaves\<close>
  "run_op en (Create inp) st = ([], snd (create_task en inp st))"
| "run_op en (Claim tid w co) st = (case claim_task en tid w co st of
     (r, st') \<Rightarrow> (handed_out r (\<lambda>(t, tok). (tid, claim_generation t)), st'))"
| "run_op en (Renew tid w token ro) st = ([], snd (renew_task_claim en tid w token ro st))"
| "run_op en (Reclaim tid w rc) st = (case reclaim_task en tid w rc st of
     (r, st') \<Rightarrow> (handed_out r (\<lambda>d. (tid, rd_new d)), st'))"
| "run_op en (Transition tid a b token tr) st = ([], snd (transition_task_status en tid a b token tr st))"
| "run_op en (Release tid token w rl) st = ([], snd (release_task_claim en tid token w rl st))"
| "run_op en (Reopen tid reason) st = ([], snd (reopen_task en tid reason st))"
| "run_op en (Read tid) st = ([], snd (read_task_op en tid st))"
| "run_op en Summary st = ([], snd (get_team_summary en st))"

inductive team_run :: "(string \<Rightarrow> string) \<Rightarrow> team \<Rightarrow> (string \<times> int) list \<Rightarrow> team \<Rightarrow> bool"
  for sha :: "string \<Rightarrow> string" and st :: team where
  run_start: "team_run sha st [] st"
| run_op: "team_run sha st hs st1 \<Longrightarrow> en_sha en = sha \<Longrightarrow> run_op en op st1 = (new, st2) \<Longrightarrow>
     team_run sha st (hs @ new) st2"

inductive_cases run_opE: "team_run sha st hs st'"

lemma run_op_evolves: "run_op en op st = (new, st') \<Longrightarrow> evolves (en_sha en) st st'"
  using ev.within_ops [THEN withinD, of en st]
  by (cases op) (auto split: prod.splits, (metis snd_conv)+)

lemma team_run_evolves: "team_run sha st hs st' \<Longrightarrow> evolves sha st st'"
  by (induction rule: team_run.induct) (auto intro: evolves_trans run_op_evolves)

section \<open>Claims are fenced\<close>

definition sound :: "(string \<Rightarrow> string) \<Rightarrow> team \<Rightarrow> bool" where
  \<comment> \<open>every task that can be read has its claim covered by the recorded generation\<close>
  "sound sha st = (\<forall>i t. read_task sha st i = Inr (Some t) \<longrightarrow> gen_ok t)"

lemma sound_evolves:
  assumes "sound sha st" "evolves sha st st'"
  shows "sound sha st'"
  unfolding sound_def
proof (intro allI impI)
  fix i t assume t: "read_task sha st' i = Inr (Some t)"
  show "gen_ok t"
  proof (cases "read_task sha st i")
    case (Inl e)
    with t evolves_InlD [OF assms(2)] show ?thesis by force
  next
    case (Inr r)
    show ?thesis
    proof (cases r)
      case None
      with Inr t evolves_NoneD [OF assms(2)] show ?thesis by blast
    next
      case (Some u)
      with Inr have u: "read_task sha st i = Inr (Some u)" by simp
      then have "gen_ok u" using assms(1) by (auto simp: sound_def)
      with evolves_SomeD [OF assms(2) u] t show ?thesis by (auto simp: later_def)
    qed
  qed
qed

definition fenced :: "(string \<Rightarrow> string) \<Rightarrow> team \<Rightarrow> string \<times> int \<Rightarrow> bool" where
  \<comment> \<open>the task was created, and as long as it can be read its generation is at least this one\<close>
  "fenced sha st h = (read_task sha st (fst h) \<noteq> Inr None
     \<and> (\<forall>t. read_task sha st (fst h) = Inr (Some t) \<longrightarrow> snd h \<le> fence t))"

lemma fenced_evolves:
  assumes "fenced sha st h" "evolves sha st st'" "sound sha st"
  shows "fenced sha st' h"
proof (cases "read_task sha st (fst h)")
  case (Inl e)
  then show ?thesis using evolves_InlD [OF assms(2) Inl] by (simp add: fenced_def)
next
  case (Inr r)
  with assms(1) obtain t where t: "read_task sha st (fst h) = Inr (Some t)" "snd h \<le> fence t"
    by (auto simp: fenced_def)
  have "gen_ok t" using assms(3) t(1) by (auto simp: sound_def)
  with evolves_SomeD [OF assms(2) t(1)] t(2) show ?thesis
    by (auto simp: fenced_def later_def)
qed

end
