(* ===== verification/TeamClaims.thy ===== *)
theory TeamClaims
  imports TeamSteps
begin

text \<open>
  Claims: what a successful claim, renewal or reclaim went through, that generations handed out
  along a run only grow, that a live lease excludes other workers, and that a token that was
  replaced is refused everywhere.
\<close>

section \<open>Successful operations, step by step\<close>

lemma with_workerE:
  assumes "with_worker tid w m st = (Inr (Done x), st')"
  obtains cfg where "safe_worker_name w" "task_id_ok tid" "tm_config st = ConfigOk cfg"
    "w \<in> set (tc_workers cfg)" "m st = (Inr (Done x), st')"
  using assms
  by (auto simp: with_worker_def read_config_def split: if_splits config_file.splits)

lemma lift_proc_state: "lift_proc en p st = (r, st') \<Longrightarrow> st' = st"
  by (auto simp: lift_proc_def split: option.splits sum.splits)

lemma fetchE:
  assumes "fetch en tid st = (Inr r, st')"
  obtains "read_task (en_sha en) st tid = Inr r" "st' = read_effect st tid"
  using assms by (simp add: fetch_def)

lemma claim_locked_DoneE:
  assumes "claim_locked en tid w co st = (Inr (Done (t', tok)), st')"
  obtains cur u p st2 c where
    "read_task (en_sha en) st tid = Inr (Some cur)"
    "opt_all (\<lambda>v. t_version cur = v) (co_expected_version co)"
    "\<not> terminal (t_status cur)"
    "incomplete_deps en (deps_of cur) (read_effect st tid) = (Inr [], st2)"
    "claim_working en cur = Inr u"
    "t_claim u = None \<or> lease_expired (t_claim u) (en_now en)"
    "\<not> owner_conflict u w"
    "c = new_claim en w (fence u + 1) (co_lease_ms co) p"
    "t' = claimed_task u w (fence u + 1) c" "tok = en_token en"
    "commit en tid (Claimed t' c) (Some u) st2 = (Inr (), st')"
  using assms
  by (auto simp: claim_locked_def Let_def split: option.splits if_splits sum.splits
      elim!: andthen_InrE fetchE dest!: lift_proc_state)

lemma dependency_lockE:
  assumes "with_dependency_lock en m st = (Inr x, st')"
  obtains st1 where "reconcile_intents en st = (Inr (), st1)" "m st1 = (Inr x, st')"
  using assms by (auto simp: with_dependency_lock_def elim!: andthen_InrE)

lemma reconcile_evolves: "reconcile_intents en st = (r, st1) \<Longrightarrow> evolves (en_sha en) st st1"
  using withinD [OF ev.within_reconcile_intents, of en st] by simp

lemma reconcile_none: "tm_intents st = [] \<Longrightarrow> reconcile_intents en st = (Inr (), st)"
  by (simp add: reconcile_intents_def dnames_def)

lemma reclaim_locked_DoneE:
  assumes "reclaim_locked en tid w rc st = (Inr (Done d), st')"
  obtains cur c p c' where
    "read_task (en_sha en) st tid = Inr (Some cur)"
    "t_status cur = TInProgress" "t_claim cur = Some c" "reclaim_guard en cur c rc = None"
    "c' = new_claim en w (fence cur + 1) (rc_lease_ms rc) p"
    "rd_task d = reclaimed_task cur w (fence cur + 1) c'"
    "rd_new d = fence cur + 1" "rd_token d = en_token en"
    "commit en tid (Reclaimed (rd_task d) (gen_of_claim (Some c)) (fence cur + 1) (rc_reason rc)) (Some cur)
       (read_effect st tid) = (Inr (), st')"
proof -
  obtain cur st1 where cur: "read_task (en_sha en) st tid = Inr (Some cur)" and st1: "st1 = read_effect st tid"
    and k: "t_status cur = TInProgress" "t_claim cur \<noteq> None"
      "reclaim_guard en cur (the (t_claim cur)) rc = None"
    and m: "andthen (lift_proc en (rc_process rc)) (\<lambda>p.
               let c' = new_claim en w (fence cur + 1) (rc_lease_ms rc) p;
                   t' = reclaimed_task cur w (fence cur + 1) c';
                   prior = gen_of_claim (t_claim cur)
               in andthen (commit en tid (Reclaimed t' prior (fence cur + 1) (rc_reason rc)) (Some cur))
                    (\<lambda>_. finish \<lparr>rd_task = t', rd_token = en_token en, rd_prior = prior, rd_new = fence cur + 1\<rparr>)) st1
         = (Inr (Done d), st')"
    using assms unfolding reclaim_locked_def
    by (elim andthen_InrE fetchE) (simp add: Let_def split: option.splits if_splits)
  obtain c where c: "t_claim cur = Some c" using k(2) by blast
  from m obtain p st2 where p: "lift_proc en (rc_process rc) st1 = (Inr p, st2)"
    and m2: "andthen (commit en tid (Reclaimed (reclaimed_task cur w (fence cur + 1) (new_claim en w (fence cur + 1) (rc_lease_ms rc) p))
        (gen_of_claim (Some c)) (fence cur + 1) (rc_reason rc)) (Some cur))
      (\<lambda>_. finish \<lparr>rd_task = reclaimed_task cur w (fence cur + 1) (new_claim en w (fence cur + 1) (rc_lease_ms rc) p),
         rd_token = en_token en, rd_prior = gen_of_claim (Some c), rd_new = fence cur + 1\<rparr>) st2 = (Inr (Done d), st')"
    by (elim andthen_InrE [of "lift_proc _ _"]) (simp add: Let_def c)
  from m2 show ?thesis
    by (rule andthen_InrE) (use cur k c st1 lift_proc_state [OF p] in \<open>auto intro!: that\<close>)
qed

lemma renew_guard_None:
  assumes "renew_guard en cur c w token ro = None"
  shows "t_owner cur = Some w" "c_owner c = w" "verify_claim_token (en_sha en) c token"
    "\<not> lease_expired (Some c) (en_now en)"
    "c_acquired_at c = Some a \<Longrightarrow> renew_deadline en c ro - a \<le> opt_default MAX_TOTAL_LEASE_MS (ro_max_total ro)"
    "renew_liveness en c = None"
  using assms by (simp_all add: renew_guard_def split: if_splits)

lemma renew_locked_DoneE:
  assumes "renew_locked en tid w token ro st = (Inr (Done t'), st')"
  obtains cur c h where
    "read_task (en_sha en) st tid = Inr (Some cur)"
    "t_status cur = TInProgress" "t_claim cur = Some c" "renew_guard en cur c w token ro = None"
    "next_heartbeat (opt_default 0 (c_heartbeat c)) (ro_heartbeat ro) = Some (Inr h)"
    "t' = cur\<lparr>t_version := t_version cur + 1, t_claim := Some (renewed_claim en c ro h)\<rparr>"
    "commit en tid (Renewed t' (renewed_claim en c ro h)) (Some cur) (read_effect st tid) = (Inr (), st')"
  using assms
  by (auto simp: renew_locked_def Let_def split: option.splits if_splits sum.splits
      elim!: andthen_InrE fetchE)

lemma transition_guard_None:
  assumes "transition_guard en cur from to token tr = None"
  obtains c where "t_claim cur = Some c" "t_status cur = from" "\<not> terminal from" "can_transition from to"
    "verify_claim_token (en_sha en) c token" "t_owner cur = Some (c_owner c)"
    "\<not> lease_expired (Some c) (en_now en)"
  using assms by (auto simp: transition_guard_def token_guard_def split: if_splits option.splits)

lemma all_complete_raw:
  "all_complete en ds st = (Inr True, st') \<Longrightarrow> d \<in> set ds \<Longrightarrow>
     \<exists>t. read_task (en_sha en) st d = Inr (Some t) \<and> t_status t = TCompleted"
proof (induction ds arbitrary: st)
  case (Cons a ds)
  from Cons.prems(1) obtain r where r: "read_task (en_sha en) st a = Inr r"
    and k: "(if dep_complete r then all_complete en ds else ret False) (read_effect st a) = (Inr True, st')"
    by (auto elim!: andthen_InrE fetchE)
  show ?case
  proof (cases "d = a")
    case True
    with r k show ?thesis by (auto simp: dep_complete_def split: if_splits option.splits)
  next
    case False
    with k Cons.IH [of "read_effect st a"] Cons.prems(2) show ?thesis by (auto split: if_splits)
  qed
qed simp

lemma transition_locked_DoneE:
  assumes "transition_locked en tid from to token tr st = (Inr (Done t'), st')"
  obtains cur st2 where
    "read_task (en_sha en) st tid = Inr (Some cur)"
    "transition_guard en cur from to token tr = None"
    "to = TCompleted \<Longrightarrow> all_complete en (deps_of cur) (read_effect st tid) = (Inr True, st2)"
    "to \<noteq> TCompleted \<Longrightarrow> st2 = read_effect st tid"
    "t' = transitioned_task en cur to tr"
    "commit en tid (Transitioned t' from to) (Some cur) st2 = (Inr (), st')"
  using assms
  by (auto simp: transition_locked_def Let_def split: option.splits if_splits
      elim!: andthen_InrE fetchE)

lemma release_DoneE:
  assumes "release_task_claim en tid token w rl st = (Inr (Done t'), st')"
  obtains cur where
    "read_task (en_sha en) st tid = Inr (Some cur)"
    "t_status cur = TPending" "t_claim cur = None" "t_owner cur = None" "t' = cur" "st' = read_effect st tid"
  | cur c where "read_task (en_sha en) st tid = Inr (Some cur)"
    "\<not> terminal (t_status cur)" "t_claim cur = Some c" "t_owner cur = Some w"
    "verify_claim_token (en_sha en) c (trim token)" "\<not> lease_expired (Some c) (en_now en)"
    "t' = bare_task cur TPending None"
    "commit en tid (Released t') (Some cur) (read_effect st tid) = (Inr (), st')"
  using assms
  by (auto simp: release_task_claim_def token_guard_def Let_def split: option.splits if_splits
      elim!: andthen_InrE fetchE)

section \<open>Generations of a run\<close>

lemma reads_task_after_commit:
  assumes "commit en tid ev prev st = (Inr u, st')" "task_id_ok tid" "normal (event_task ev)"
    and "read_task (en_sha en) st' tid = Inr (Some t)"
  shows "t = event_task ev"
proof -
  obtain t0 where t0: "raw_task st' tid = Inr (Some t0)" "t = normalize_task (en_sha en) t0"
    using read_task_SomeD [OF assms(4)] by blast
  with commit_Inr_reads assms(1,2) have "t0 = event_task ev" by (auto simp: commit_def)
  with t0(2) assms(3) show ?thesis by (simp add: normalize_normal)
qed

lemma commit_present:
  assumes "commit en tid ev prev st = (Inr u, st')"
  shows "read_task sha st' tid \<noteq> Inr None"
proof -
  from assms obtain evs where "dget (tm_files st') tid = Some (TaskFile (event_task ev))"
    by (auto simp: commit_def commit_task_def append_log_def write_file_def Let_def
        split: if_splits option.splits task_log.splits write_result.splits prod.splits sum.splits)
  then show ?thesis by (auto simp: read_task_def rbind_Inr_iff raw_task_None_iff)
qed

definition issues :: "(string \<Rightarrow> string) \<Rightarrow> team \<Rightarrow> string \<Rightarrow> int \<Rightarrow> team \<Rightarrow> bool" where
  "issues sha st tid g st' = (fenced sha st' (tid, g) \<and> (\<forall>h. fenced sha st h \<longrightarrow> fst h = tid \<longrightarrow> snd h < g))"

lemma issuesI:
  assumes "sound sha st" "evolves sha st st1" "read_task sha st1 tid = Inr (Some cur)" "fence cur < g"
    and "read_task sha st' tid \<noteq> Inr None" "\<And>t. read_task sha st' tid = Inr (Some t) \<Longrightarrow> g \<le> fence t"
  shows "issues sha st tid g st'"
  unfolding issues_def
proof (intro conjI allI impI)
  show "fenced sha st' (tid, g)" using assms(5,6) by (simp add: fenced_def)
  fix h assume "fenced sha st h" "fst h = tid"
  then have "fenced sha st1 h" using fenced_evolves assms(1,2) by blast
  with assms(3,4) \<open>fst h = tid\<close> show "snd h < g" by (auto simp: fenced_def)
qed

lemma claim_issues:
  assumes "claim_task en tid w co st = (Inr (Done (t', tok)), st')" "sound (en_sha en) st"
  shows "issues (en_sha en) st tid (claim_generation t') st'"
proof -
  obtain st1 where st1: "reconcile_intents en st = (Inr (), st1)" "task_id_ok tid"
    and locked: "claim_locked en tid w co st1 = (Inr (Done (t', tok)), st')"
    using assms(1) unfolding claim_task_def by (elim with_workerE dependency_lockE) blast
  from locked obtain cur u p st2 c where cur: "read_task (en_sha en) st1 tid = Inr (Some cur)"
    and u: "claim_working en cur = Inr u" and c: "c = new_claim en w (fence u + 1) (co_lease_ms co) p"
    and t': "t' = claimed_task u w (fence u + 1) c"
    and commit: "commit en tid (Claimed t' c) (Some u) st2 = (Inr (), st')"
    by (rule claim_locked_DoneE)
  have ev: "evolves (en_sha en) st st1" using st1(1) by (rule reconcile_evolves)
  have "gen_ok cur" using sound_evolves [OF assms(2) ev] cur by (auto simp: sound_def)
  moreover have "later cur u"
    using claim_working_cases [OF u] later_bare [OF read_task_normal [OF cur]] by auto
  ultimately have "fence cur \<le> fence u" by (simp add: later_def)
  moreover have "claim_generation t' = fence u + 1"
    by (simp add: claim_generation_def t' c claimed_task_def bare_task_def new_claim_def gen_of_claim_def)
  moreover have "t = t'" if "read_task (en_sha en) st' tid = Inr (Some t)" for t
    using reads_task_after_commit [OF commit st1(2) _ that] by (simp add: t' c normal_claimed)
  moreover have "claim_generation t' \<le> fence t'"
    by (simp add: claim_generation_def fence_def)
  ultimately show ?thesis
    by (intro issuesI [OF assms(2) ev cur]) (auto simp: commit_present [OF commit])
qed

lemma reclaim_issues:
  assumes "reclaim_task en tid w rc st = (Inr (Done d), st')" "sound (en_sha en) st"
  shows "issues (en_sha en) st tid (rd_new d) st'"
proof -
  obtain st1 where st1: "reconcile_intents en st = (Inr (), st1)" "task_id_ok tid"
    and locked: "reclaim_locked en tid w rc st1 = (Inr (Done d), st')"
    using assms(1) unfolding reclaim_task_def by (elim with_workerE dependency_lockE) blast
  from locked obtain cur c p c' where cur: "read_task (en_sha en) st1 tid = Inr (Some cur)"
    and c': "c' = new_claim en w (fence cur + 1) (rc_lease_ms rc) p"
    and t': "rd_task d = reclaimed_task cur w (fence cur + 1) c'"
    and g: "rd_new d = fence cur + 1"
    and commit: "commit en tid (Reclaimed (rd_task d) (gen_of_claim (Some c)) (fence cur + 1) (rc_reason rc)) (Some cur)
       (read_effect st1 tid) = (Inr (), st')"
    by (rule reclaim_locked_DoneE)
  have "t = rd_task d" if "read_task (en_sha en) st' tid = Inr (Some t)" for t
    using reads_task_after_commit [OF commit st1(2) _ that] by (simp add: t' c' normal_def new_claim_normal reclaimed_task_def)
  moreover have "fence cur + 1 \<le> fence (rd_task d)"
    by (simp add: t' fence_def reclaimed_task_def)
  ultimately show ?thesis
    by (intro issuesI [OF assms(2) reconcile_evolves [OF st1(1)] cur]) (auto simp: commit_present [OF commit] g)
qed

lemma handed_out_cases: "handed_out r f = [] \<or> (\<exists>x. r = Inr (Done x) \<and> handed_out r f = [f x])"
  by (cases "(r, f)" rule: handed_out.cases) auto

lemma run_op_issues:
  assumes "run_op en op st = (new, st')" "sound (en_sha en) st"
  shows "new = [] \<or> (\<exists>tid g. new = [(tid, g)] \<and> issues (en_sha en) st tid g st')"
proof (cases op)
  case (Claim tid w co)
  obtain r st1 where r: "claim_task en tid w co st = (r, st1)" by (cases "claim_task en tid w co st")
  show ?thesis using handed_out_cases [of r "\<lambda>(t, tok). (tid, claim_generation t)"]
      assms claim_issues [of en tid w co st] r Claim by auto
next
  case (Reclaim tid w rc)
  obtain r st1 where r: "reclaim_task en tid w rc st = (r, st1)" by (cases "reclaim_task en tid w rc st")
  show ?thesis using handed_out_cases [of r "\<lambda>d. (tid, rd_new d)"]
      assms reclaim_issues [of en tid w rc st] r Reclaim by auto
qed (use assms in auto)

lemma run_fenced:
  assumes "team_run sha st hs st'" "sound sha st"
  shows "(\<forall>h \<in> set hs. fenced sha st' h)
    \<and> sorted_wrt (\<lambda>a b. fst a = fst b \<longrightarrow> snd a < snd b) hs"
  using assms
proof (induction rule: team_run.induct)
  case (run_op hs st1 en op new st2)
  have s1: "sound sha st1" using sound_evolves run_op.prems team_run_evolves [OF run_op.hyps(1)] by blast
  have ev: "evolves sha st1 st2" using run_op_evolves run_op.hyps(2,3) by blast
  have old: "\<forall>h \<in> set hs. fenced sha st2 h" using run_op.IH [OF run_op.prems] fenced_evolves ev s1 by blast
  from run_op_issues [OF run_op.hyps(3)] s1 run_op.hyps(2) show ?case
    using run_op.IH [OF run_op.prems] old by (auto simp: issues_def sorted_wrt_append)
qed simp

section \<open>Terminal tasks\<close>

definition settled :: "string \<Rightarrow> task \<Rightarrow> team_rel" where
  \<comment> \<open>the task, once terminal, still reads the same\<close>
  "settled i t sha st st' = (terminal (t_status t) \<longrightarrow> read_task sha st i = Inr (Some t)
     \<longrightarrow> read_task sha st' i = Inr (Some t))"

definition on_open_task :: "task \<Rightarrow> task \<Rightarrow> task_event \<Rightarrow> bool" where
  "on_open_task t p ev = (\<not> terminal (t_status t))"

interpretation settled: team_law "settled i t" on_open_task for i t
proof
  fix en :: env and st tid u p ev
  assume "read_task (en_sha en) st tid = Inr (Some u)" "on_open_task u p ev"
  then show "settled i t (en_sha en) st (snd (commit en tid ev (Some p) st))"
    by (cases "tid = i") (auto simp: settled_def on_open_task_def commit_def read_task_def raw_task_commit_other)
next
  fix en :: env and st and u :: task and cfg
  assume "raw_task st (t_id u) = Inr None"
  then show "settled i t (en_sha en) st (snd (publish_task en cfg u st))"
    by (cases "t_id u = i") (auto simp: settled_def read_task_def publish_disk(3))
qed (auto simp: settled_def on_open_task_def read_task_def terminal_def)

lemma no_intents_lock: "tm_intents st = [] \<Longrightarrow> with_dependency_lock en m st = m st"
  by (simp add: with_dependency_lock_def andthen_def reconcile_none)

lemma no_intents_worker:
  "tm_intents st = [] \<Longrightarrow> with_worker tid w (with_dependency_lock en m) st = with_worker tid w m st"
  by (simp add: with_worker_def no_intents_lock split: sum.splits option.splits)

lemma run_op_settled:
  assumes "run_op en op st = (new, st')" "\<And>j r. op \<noteq> Reopen j r" "tm_intents st = []"
  shows "settled i t (en_sha en) st st'"
proof -
  note W = settled.within_create_locked settled.within_with_worker [OF settled.within_claim_locked]
    settled.within_with_worker [OF settled.within_renew_locked]
    settled.within_with_worker [OF settled.within_reclaim_locked] settled.within_execute_transition
    settled.within_release settled.within_reads [OF reads_queries(1)] settled.within_reads [OF reads_queries(3)]
  note R = W [where i = i and t = t, THEN withinD, of en]
  have "settled i t (en_sha en) st st" by (simp add: settled_def)
  with assms show ?thesis
    by (cases op)
      (auto simp: create_task_def claim_task_def renew_task_claim_def reclaim_task_def
        transition_task_status_def Let_def no_intents_lock no_intents_worker
        split: prod.splits if_splits intro: R dest!: arg_cong [where f = snd] simp del: fst_conv)
qed

end
