(* ===== verification/TeamExamples.thy ===== *)
theory TeamExamples
  imports TeamClaims "HOL-Library.Code_Target_Nat"
begin

text \<open>
  A small team and a world that answers without faults, on which the properties of the team
  theories are evaluated.
\<close>

definition ex_sha :: "string \<Rightarrow> string" where
  "ex_sha s = (if s = ''T1'' then replicate 64 (CHR ''a'') else replicate 64 (CHR ''b''))"

definition ex_probe :: probe where
  "ex_probe = \<lparr>pr_exists = (\<lambda>_. Dead), pr_start = (\<lambda>_. \<lparr>so_value = ''x'', so_proven = True, so_unsupported = False\<rparr>)\<rparr>"

definition ex_env :: "ms \<Rightarrow> string \<Rightarrow> env" where
  "ex_env now tok = \<lparr>en_sha = ex_sha, en_now = now, en_token = tok, en_probe = ex_probe, en_probe2 = ex_probe,
     en_faults = (\<lambda>_. no_faults), en_intent_write = WriteOk, en_unlink = True, en_config_write = WriteOk\<rparr>"

definition ex_task :: "string \<Rightarrow> task_status \<Rightarrow> string list option \<Rightarrow> task" where
  "ex_task i s ds = \<lparr>t_id = i, t_subject = ''s'', t_description = ''d'', t_status = s, t_created_at = 0,
     t_version = 1, t_last_gen = Some 0, t_request_id = None, t_request_sha = None, t_request_owner = None,
     t_owner = None, t_blocked_by = ds, t_claim = None,
     t_completed_at = (if terminal s then Some 5 else None), t_result = None, t_error = None\<rparr>"

definition ex_team :: "task list \<Rightarrow> team" where
  "ex_team ts = \<lparr>tm_name = ''t'',
     tm_config = ConfigOk \<lparr>tc_name = ''t'', tc_worker_count = 2, tc_workers = [''w'', ''v''], tc_next_task_id = 9\<rparr>,
     tm_files = map (\<lambda>t. (t_id t, TaskFile t)) ts, tm_logs = map (\<lambda>t. (t_id t, Log [Created t])) ts,
     tm_intents = []\<rparr>"

definition ex_claim :: claim_opts where
  "ex_claim = \<lparr>co_expected_version = None, co_lease_ms = Some 1000, co_process = None\<rparr>"

definition ex_one :: team where
  "ex_one = ex_team [ex_task ''1'' TPending None]"

definition ex_claimed :: team where
  "ex_claimed = snd (run_op (ex_env 100 ''T1'') (Claim ''1'' ''w'' ex_claim) ex_one)"

definition succeeds :: "(team_error + 'a outcome) \<times> team \<Rightarrow> bool" where
  "succeeds r = (case fst r of Inr (Done _) \<Rightarrow> True | _ \<Rightarrow> False)"

lemma succeeds_iff: "succeeds r \<longleftrightarrow> (\<exists>x st. r = (Inr (Done x), st))"
  by (cases r) (auto simp: succeeds_def split: sum.splits outcome.splits)

lemma ex_one_claims:
  "fst (run_op (ex_env 100 ''T1'') (Claim ''1'' ''w'' ex_claim) ex_one) = [(''1'', 1)]"
  by code_simp

lemma ex_claimed_again:
  "fst (run_op (ex_env 5000 ''T2'') (Claim ''1'' ''w'' ex_claim) ex_claimed) = [(''1'', 2)]"
  by code_simp

lemma ex_one_reads: "raw_task ex_one i = Inr (Some t) \<Longrightarrow> t = ex_task ''1'' TPending None"
  by (auto simp: raw_task_def file_task_def rebuild_from_journal_def ex_one_def ex_team_def dget_Cons
      split: if_splits)

lemma ex_one_sound: "sound sha ex_one"
  by (auto simp: sound_def elim!: read_task_SomeD dest!: ex_one_reads)
    (simp add: ex_task_def gen_ok_def normalize_task_def gen_of_claim_def Let_def)

lemma ex_run: "\<exists>st. team_run ex_sha ex_one [(''1'', 1), (''1'', 2)] st"
proof -
  have sha: "en_sha (ex_env n t) = ex_sha" for n t by (simp add: ex_env_def)
  have "run_op (ex_env 100 ''T1'') (Claim ''1'' ''w'' ex_claim) ex_one = ([(''1'', 1)], ex_claimed)"
    unfolding ex_claimed_def prod_eq_iff by (simp only: ex_one_claims fst_conv snd_conv simp_thms)
  from team_run.run_op [OF team_run.run_start sha this]
  have one: "team_run ex_sha ex_one [(''1'', 1)] ex_claimed" by simp
  obtain st where "run_op (ex_env 5000 ''T2'') (Claim ''1'' ''w'' ex_claim) ex_claimed = ([(''1'', 2)], st)"
    using ex_claimed_again by (metis prod.collapse)
  from team_run.run_op [OF one sha this] show ?thesis by auto
qed

end
