(* ===== verification/TeamProperties.thy ===== *)
theory TeamProperties
  imports TeamExamples
begin

text \<open>
  The properties of the task protocol of a team, each with a concrete instance of its hypotheses.
\<close>

section \<open>Along every run\<close>

text \<open>C1: Claims are fenced. Along every run of operations on a team, whatever writes fail, of two
  claims or reclaims of one task that were handed out to workers the later has the larger
  generation, so a generation is never handed out twice and a worker whose claim was replaced
  carries a smaller one than its successor.\<close>

theorem claims_fenced:
  assumes "team_run sha st hs st'" "sound sha st"
  shows "sorted_wrt (\<lambda>a b. fst a = fst b \<longrightarrow> snd a < snd b) hs"
  using run_fenced [OF assms] by blast

theorem claims_fenced_witness:
  "\<exists>st'. team_run ex_sha ex_one [(''1'', 1), (''1'', 2)] st'
     \<and> sorted_wrt (\<lambda>a b. fst a = fst b \<longrightarrow> snd a < snd b) [(''1'' :: string, 1 :: int), (''1'', 2)]"
  using ex_run claims_fenced [OF _ ex_one_sound] by blast

text \<open>C3: A task never forgets its request and never goes back. After any run of operations, whatever
  writes fail, a task that could be read either cannot be read any more (and then it is reported
  corrupt) or has the same identifier, texts, creation time, idempotency data and dependencies, and a
  version and a claim generation at least as large.\<close>

theorem task_never_goes_back:
  assumes "team_run sha st hs st'" "sound sha st" "read_task sha st i = Inr (Some t)"
  shows "read_task sha st' i = Inl E_TEAM_TASK_CORRUPT
    \<or> (\<exists>t'. read_task sha st' i = Inr (Some t') \<and> same_request t t'
          \<and> t_version t \<le> t_version t' \<and> fence t \<le> fence t')"
proof -
  have "gen_ok t" using assms(2,3) by (auto simp: sound_def)
  with evolves_SomeD [OF team_run_evolves [OF assms(1)] assms(3)] show ?thesis
    by (auto simp: later_def)
qed

lemma ex_one_read: "read_task ex_sha ex_one ''1'' = Inr (Some (ex_task ''1'' TPending None))"
  by code_simp

theorem task_never_goes_back_witness:
  "\<exists>st'. team_run ex_sha ex_one [(''1'', 1), (''1'', 2)] st' \<and>
     (read_task ex_sha st' ''1'' = Inl E_TEAM_TASK_CORRUPT
      \<or> (\<exists>t'. read_task ex_sha st' ''1'' = Inr (Some t') \<and> same_request (ex_task ''1'' TPending None) t'
          \<and> t_version (ex_task ''1'' TPending None) \<le> t_version t'
          \<and> fence (ex_task ''1'' TPending None) \<le> fence t'))"
  using ex_run task_never_goes_back [OF _ ex_one_sound ex_one_read] by blast

section \<open>Leases\<close>

lemma claim_working_expired:
  assumes "claim_working en t = Inr u" "t_status t = TInProgress"
  shows "lease_expired (t_claim t) (en_now en)" "u = bare_task t TPending (request_owner_of t)"
    "\<forall>c p. t_claim t = Some c \<and> c_process c = Some p \<longrightarrow> claim_liveness (en_probe en) p \<in> {LDead, LStale}"
  using assms
  by (auto simp: claim_working_def Let_def split: if_splits option.splits liveness.splits bind_splits)


lemma ex_claimed_reads: "\<exists>t. read_task ex_sha ex_claimed ''1'' = Inr (Some t) \<and> t_status t = TInProgress"
proof -
  have "case read_task ex_sha ex_claimed ''1'' of Inr (Some t) \<Rightarrow> t_status t = TInProgress | _ \<Rightarrow> False"
    by code_simp
  then show ?thesis by (auto split: sum.splits option.splits)
qed

lemma ex_claim_again:
  "\<exists>t tok st. claim_task (ex_env 5000 ''T2'') ''1'' ''w'' ex_claim ex_claimed = (Inr (Done (t, tok)), st)"
proof -
  have "succeeds (claim_task (ex_env 5000 ''T2'') ''1'' ''w'' ex_claim ex_claimed)" by code_simp
  then show ?thesis by (auto simp: succeeds_iff)
qed



definition ex_reclaim :: reclaim_opts where
  "ex_reclaim = \<lparr>rc_reason = None, rc_force = True, rc_generation = Some 1, rc_version = None, rc_kill = False,
     rc_lease_ms = None, rc_process = None\<rparr>"

lemma ex_reclaims:
  "\<exists>d st. reclaim_task (ex_env 200 ''T2'') ''1'' ''v'' ex_reclaim ex_claimed = (Inr (Done d), st)
     \<and> tm_intents ex_claimed = []"
proof -
  have "succeeds (reclaim_task (ex_env 200 ''T2'') ''1'' ''v'' ex_reclaim ex_claimed) \<and> tm_intents ex_claimed = []"
    by code_simp
  then show ?thesis by (auto simp: succeeds_iff)
qed


section \<open>Tokens\<close>

text \<open>A replaced token is dead. After a successful reclaim (no reopen cascade pending), a token
  whose digest differs from the new one's renews, transitions and releases nothing: each of the three
  operations, at any time and whatever its other arguments, answers with an error.\<close>

theorem replaced_token_refused:
  assumes "reclaim_task en tid w rc st = (Inr (Done d), st')" "tm_intents st = []"
    and "en_sha en (trim old) \<noteq> en_sha en (en_token en)" "en_sha en' = en_sha en"
  shows "fst (renew_task_claim en' tid w' old ro st') \<noteq> Inr (Done r1)
    \<and> fst (transition_task_status en' tid from to old tr st') \<noteq> Inr (Done r2)
    \<and> fst (release_task_claim en' tid old w' rl st') \<noteq> Inr (Done r3)"
proof -
  have "task_id_ok tid" and locked: "reclaim_locked en tid w rc st = (Inr (Done d), st')"
    using assms(1,2) unfolding reclaim_task_def by (elim with_workerE; simp add: no_intents_lock)+
  then obtain cur p c' where cur: "read_task (en_sha en) st tid = Inr (Some cur)" "t_status cur = TInProgress"
    and c': "c' = new_claim en w (fence cur + 1) (rc_lease_ms rc) p"
    and t': "rd_task d = reclaimed_task cur w (fence cur + 1) c'"
    and commit: "\<exists>ev. event_task ev = rd_task d \<and> commit en tid ev (Some cur) (read_effect st tid) = (Inr (), st')"
    by (elim reclaim_locked_DoneE) (metis event_task.simps(5))
  have now: "t = rd_task d" if "read_task (en_sha en') st' tid = Inr (Some t)" for t
    using commit reads_task_after_commit [OF _ \<open>task_id_ok tid\<close>] that assms(4)
    by (metis c' normal_reclaimed t')
  have intents: "tm_intents st' = []"
    using commit assms(2) by (metis commit_def commit_frame(3) read_effect_frame(4) snd_conv)
  have claim: "t_claim (rd_task d) = Some c'" "t_status (rd_task d) = TInProgress"
    using cur(2) by (simp_all add: t' reclaimed_task_def)
  have bad: "\<not> verify_claim_token (en_sha en') c' tok" if "trim tok = trim old" for tok
    using assms(3,4) that by (auto simp: verify_claim_token_def c' new_claim_def Let_def)
  have "renew_task_claim en' tid w' old ro st' \<noteq> (Inr (Done r1), st2)" for st2
    using now claim bad by (auto simp: renew_task_claim_def elim!: with_workerE renew_locked_DoneE dest!: renew_guard_None(3))
  moreover have "transition_locked en' tid from to (trim old) tr st' \<noteq> (Inr (Done r), st2)" for r st2
    using now claim bad by (auto elim!: transition_locked_DoneE transition_guard_None)
  then have "fst (execute_transition en' tid from to (trim old) tr st') \<noteq> Inr (Done r2)"
    by (auto simp: execute_transition_def andthen_def split: prod.splits sum.splits outcome.splits)
  then have "fst (transition_task_status en' tid from to old tr st') \<noteq> Inr (Done r2)"
    by (auto simp: transition_task_status_def Let_def no_intents_lock [OF intents])
  moreover have "release_task_claim en' tid old w' rl st' \<noteq> (Inr (Done r3), st2)" for st2
    using now claim bad by (auto elim!: release_DoneE)
  ultimately show ?thesis by (metis prod.collapse)
qed

theorem replaced_token_refused_witness:
  "\<exists>d st. reclaim_task (ex_env 200 ''T2'') ''1'' ''v'' ex_reclaim ex_claimed = (Inr (Done d), st)
     \<and> fst (release_task_claim (ex_env 250 ''T3'') ''1'' ''T1'' ''w'' \<lparr>rl_generation = None, rl_version = None\<rparr> st)
         \<noteq> Inr (Done (rd_task d))"
proof -
  obtain d st where d: "reclaim_task (ex_env 200 ''T2'') ''1'' ''v'' ex_reclaim ex_claimed = (Inr (Done d), st)"
    "tm_intents ex_claimed = []"
    using ex_reclaims by blast
  have "en_sha (ex_env 200 ''T2'') (trim ''T1'') \<noteq> en_sha (ex_env 200 ''T2'') (en_token (ex_env 200 ''T2''))"
    by code_simp
  from replaced_token_refused [OF d this, of "ex_env 250 ''T3''"] d(1) show ?thesis
    by (auto simp: ex_env_def)
qed

section \<open>Renewal\<close>

text \<open>C8: A renewal is bounded. A successful renewal found the caller's claim live; it keeps owner,
  generation and token, raises the heartbeat, never shortens the lease, and never extends it past the
  maximal total time after the claim was acquired.\<close>

theorem renewal_bounded:
  assumes "renew_task_claim en tid w token ro st = (Inr (Done t'), st')"
  shows "\<exists>cur c c' a. read_task (en_sha en) st tid = Inr (Some cur) \<and> t_claim cur = Some c \<and> t_claim t' = Some c'
    \<and> en_now en < c_leased_until c \<and> c_owner c = w
    \<and> c_owner c' = c_owner c \<and> c_generation c' = c_generation c \<and> c_token_sha256 c' = c_token_sha256 c
    \<and> opt_default 0 (c_heartbeat c) < opt_default 0 (c_heartbeat c')
    \<and> c_leased_until c \<le> c_leased_until c'
    \<and> c_acquired_at c' = Some a \<and> c_leased_until c' \<le> a + opt_default MAX_TOTAL_LEASE_MS (ro_max_total ro)"
proof -
  have "renew_locked en tid w token ro st = (Inr (Done t'), st')"
    using assms unfolding renew_task_claim_def by (elim with_workerE)
  then obtain cur c h where cur: "read_task (en_sha en) st tid = Inr (Some cur)" "t_claim cur = Some c"
    and g: "renew_guard en cur c w token ro = None"
    and h: "next_heartbeat (opt_default 0 (c_heartbeat c)) (ro_heartbeat ro) = Some (Inr h)"
    and t': "t' = cur\<lparr>t_version := t_version cur + 1, t_claim := Some (renewed_claim en c ro h)\<rparr>"
    by (rule renew_locked_DoneE)
  obtain a where a: "c_acquired_at c = Some a"
    using read_task_normal [OF cur(1)] cur(2) by (auto simp: normal_def)
  have "opt_default 0 (c_heartbeat c) < h"
    using h by (auto simp: next_heartbeat_def split: option.splits if_splits)
  with cur a renew_guard_None [OF g] show ?thesis
    by (auto simp: t' renewed_claim_def renew_deadline_def lease_expired_def algebra_simps)
qed

definition ex_renew :: renew_opts where
  "ex_renew = \<lparr>ro_lease_ms = Some 5000, ro_max_total = None, ro_generation = Some 1, ro_heartbeat = None\<rparr>"

lemma ex_renews: "\<exists>t st. renew_task_claim (ex_env 200 ''T2'') ''1'' ''w'' ''T1'' ex_renew ex_claimed = (Inr (Done t), st)"
proof -
  have "succeeds (renew_task_claim (ex_env 200 ''T2'') ''1'' ''w'' ''T1'' ex_renew ex_claimed)" by code_simp
  then show ?thesis by (auto simp: succeeds_iff)
qed

theorem renewal_bounded_witness:
  "\<exists>t c'. t_claim t = Some c' \<and> (\<exists>st. renew_task_claim (ex_env 200 ''T2'') ''1'' ''w'' ''T1'' ex_renew ex_claimed = (Inr (Done t), st))"
  using ex_renews renewal_bounded by metis

section \<open>Terminal tasks\<close>

text \<open>C6: A completed or failed task stays as it is. When no reopen cascade is pending, no operation
  but reopening changes anything that can be read of it, whatever writes fail.\<close>

theorem terminal_task_settled:
  assumes "run_op en op st = (new, st')" "\<forall>j r. op \<noteq> Reopen j r" "tm_intents st = []"
    and "read_task (en_sha en) st i = Inr (Some t)" "t_status t = TCompleted \<or> t_status t = TFailed"
  shows "read_task (en_sha en) st' i = Inr (Some t)"
  using run_op_settled [OF assms(1) _ assms(3), of i t] assms(2,4,5)
  by (auto simp: settled_def terminal_def)

definition ex_two :: team where
  "ex_two = ex_team [ex_task ''1'' TCompleted None, ex_task ''2'' TPending (Some [''1''])]"

theorem terminal_task_settled_witness:
  "\<exists>new st'. run_op (ex_env 100 ''T1'') (Claim ''2'' ''w'' ex_claim) ex_two = (new, st')
     \<and> read_task ex_sha st' ''1'' = Inr (Some (ex_task ''1'' TCompleted None))"
proof -
  obtain new st' where r: "run_op (ex_env 100 ''T1'') (Claim ''2'' ''w'' ex_claim) ex_two = (new, st')" by fastforce
  have sha: "en_sha (ex_env 100 ''T1'') = ex_sha" by (simp add: ex_env_def)
  have "tm_intents ex_two = []" "read_task ex_sha ex_two ''1'' = Inr (Some (ex_task ''1'' TCompleted None))"
    "t_status (ex_task ''1'' TCompleted None) = TCompleted"
    by code_simp+
  with terminal_task_settled [OF r] r sha show ?thesis by auto
qed

end
