(* ===== verification/TeamDeps.thy ===== *)
theory TeamDeps
  imports TeamProperties
begin

text \<open>
  The dependency invariant of a team: a task is blocked exactly when one of its dependencies is not
  completed.  Each operation restores it: completing a task unblocks the dependents whose last open
  dependency it was, reopening one blocks its dependents again, transitively.  The operations are
  related to the status view of a team, the abstract state in which the invariant is stated.
\<close>

section \<open>The status view\<close>

type_synonym view = "string \<Rightarrow> (task_status \<times> string list) option"

definition view_of :: "team \<Rightarrow> view" where
  "view_of st = (\<lambda>i. case raw_task st i of Inr (Some t) \<Rightarrow> Some (t_status t, deps_of t) | _ \<Rightarrow> None)"

definition done_in :: "view \<Rightarrow> string \<Rightarrow> bool" where
  "done_in v d = (\<exists>ds. v d = Some (TCompleted, ds))"

definition consistent :: "view \<Rightarrow> bool" where
  "consistent v = (\<forall>i s ds. v i = Some (s, ds) \<longrightarrow> i \<notin> set ds
     \<and> (s = TBlocked \<longleftrightarrow> (\<exists>d \<in> set ds. \<not> done_in v d)))"

lemma view_read: "read_task sha st i = Inr (Some t) \<Longrightarrow> view_of st i = Some (t_status t, deps_of t)"
  by (auto simp: view_of_def elim!: read_task_SomeD)

lemma view_read_None: "read_task sha st i = Inr None \<Longrightarrow> view_of st i = None"
  by (auto simp: view_of_def read_task_def rbind_Inr_iff)

lemma view_reads: "reads m \<Longrightarrow> m st = (r, st') \<Longrightarrow> view_of st' = view_of st"
  by (simp add: view_of_def fun_eq_iff reads_sndD)

lemma view_effect [simp]: "view_of (read_effect st i) = view_of st"
  by (simp add: view_of_def)

lemma view_all_ids:
  assumes "view_of st i \<noteq> None"
  shows "i \<in> set (all_task_ids st)"
proof -
  from assms obtain t where t: "raw_task st i = Inr (Some t)"
    by (auto simp: view_of_def split: sum.splits option.splits)
  then have "dget (tm_files st) i \<noteq> None \<or> dget (tm_logs st) i \<noteq> None"
    by (auto simp: raw_task_def file_task_def rebuild_from_journal_def split: option.splits if_splits)
  with raw_task_SomeD(1) [OF t] show ?thesis
    by (auto simp: all_task_ids_def set_dnames)
qed

lemma dep_complete_view:
  "read_task sha st d = Inr r \<Longrightarrow> dep_complete r \<longleftrightarrow> done_in (view_of st) d"
  by (cases r) (auto simp: dep_complete_def done_in_def view_read view_read_None)

lemma incomplete_deps_view:
  "incomplete_deps en ds st = (Inr inc, st') \<Longrightarrow> set inc = {d \<in> set ds. \<not> done_in (view_of st) d}"
proof (induction ds arbitrary: st inc)
  case (Cons d ds)
  from Cons.prems obtain r rest where r: "read_task (en_sha en) st d = Inr r"
    and rest: "incomplete_deps en ds (read_effect st d) = (Inr rest, st')"
    and inc: "inc = (if dep_complete r then rest else d # rest)"
    by (auto elim!: andthen_InrE fetchE)
  from Cons.IH [OF rest] dep_complete_view [OF r] inc show ?case by auto
qed simp

lemma fetch_intents: "fetch en i st = (r, st') \<Longrightarrow> tm_intents st' = tm_intents st"
  by (auto simp: fetch_def frame_simps)

lemma incomplete_intents: "incomplete_deps en ds st = (r, st') \<Longrightarrow> tm_intents st' = tm_intents st"
  by (induction ds arbitrary: st r st')
    (auto simp: andthen_def split: prod.splits sum.splits dest: fetch_intents)

lemma commit_view:
  assumes "commit en tid ev prev st = (Inr u, st')" "task_id_ok tid"
  shows "view_of st' = (view_of st)(tid := Some (t_status (event_task ev), deps_of (event_task ev)))
    \<or> view_of st' = (view_of st)(tid := None)"
proof -
  have other: "view_of st' i = view_of st i" if "i \<noteq> tid" for i
    using raw_task_commit_other [OF that, of "en_faults en tid" ev prev st] assms(1)
    by (simp add: commit_def view_of_def)
  have "view_of st' tid \<in> {None, Some (t_status (event_task ev), deps_of (event_task ev))}"
    using commit_Inr_reads [OF assms(1) [unfolded commit_def] assms(2)]
    by (auto simp: view_of_def split: sum.splits option.splits)
  with other show ?thesis by (auto simp: fun_eq_iff)
qed

lemma commit_intents: "commit en tid ev prev st = (r, st') \<Longrightarrow> tm_intents st' = tm_intents st"
  by (metis commit_def commit_frame(3) snd_conv)

section \<open>Commits that complete or reopen nothing\<close>

lemma done_update:
  "done_in (v(i := x)) d \<longleftrightarrow> (if d = i then (\<exists>ds. x = Some (TCompleted, ds)) else done_in v d)"
  by (simp add: done_in_def)

lemma consistent_update:
  assumes "consistent v" "\<not> done_in v i" "i \<notin> set ds"
    and "x = None \<or> (x = Some (s, ds) \<and> s \<noteq> TCompleted \<and> (s = TBlocked \<longleftrightarrow> (\<exists>d \<in> set ds. \<not> done_in v d)))"
  shows "consistent (v(i := x))"
proof -
  have "done_in (v(i := x)) d \<longleftrightarrow> done_in v d" for d
    using assms(2,4) by (auto simp: done_update)
  then show ?thesis
    using assms(1,3,4) by (auto simp: consistent_def split: if_splits)
qed

definition dep_inv :: "team \<Rightarrow> bool" where
  \<comment> \<open>no reopen cascade is pending, and a task is blocked exactly when a dependency is open\<close>
  "dep_inv st = (tm_intents st = [] \<and> consistent (view_of st))"

lemma dep_inv_commit:
  assumes "commit en tid ev prev st2 = (Inr u, st')" "dep_inv st" "view_of st2 = view_of st"
    and "tm_intents st2 = []" "read_task sha st tid = Inr (Some cur)" "t_status cur \<noteq> TCompleted"
    and "deps_of (event_task ev) = deps_of cur" "t_status (event_task ev) \<noteq> TCompleted"
    and "t_status (event_task ev) = TBlocked \<longleftrightarrow> (\<exists>d \<in> set (deps_of cur). \<not> done_in (view_of st) d)"
  shows "dep_inv st'"
proof -
  have id: "task_id_ok tid" using assms(5) raw_task_SomeD(1) by (auto elim: read_task_SomeD)
  have v: "view_of st tid = Some (t_status cur, deps_of cur)" using assms(5) by (rule view_read)
  have "consistent (view_of st)" using assms(2) by (simp add: dep_inv_def)
  moreover have "tid \<notin> set (deps_of cur)" "\<not> done_in (view_of st) tid"
    using calculation v assms(6) by (auto simp: consistent_def done_in_def)
  ultimately have "consistent (view_of st')"
    using commit_view [OF assms(1) id] assms(3,7,8,9)
    by (auto intro!: consistent_update [where ds = "deps_of cur"])
  then show ?thesis using commit_intents [OF assms(1)] assms(4) by (simp add: dep_inv_def)
qed

section \<open>Unblocking\<close>

definition unblocking :: "string \<Rightarrow> string list \<Rightarrow> view \<Rightarrow> bool" where
  \<comment> \<open>\<open>c\<close> has been completed and the identifiers of the list are still to be visited\<close>
  "unblocking c is v = (\<forall>i s ds. v i = Some (s, ds) \<longrightarrow> i \<notin> set ds
     \<and> (s \<noteq> TBlocked \<longrightarrow> (\<forall>d \<in> set ds. done_in v d))
     \<and> (s = TBlocked \<longrightarrow> (\<exists>d \<in> set ds. \<not> done_in v d) \<or> (i \<in> set is \<and> i \<noteq> c \<and> c \<in> set ds)))"

lemma unblocking_Nil: "unblocking c [] v \<longleftrightarrow> consistent v"
  by (auto simp: unblocking_def consistent_def)

lemma unblocking_Cons:
  assumes "unblocking c (i # is) v"
    and "\<And>ds. i \<noteq> c \<Longrightarrow> v i = Some (TBlocked, ds) \<Longrightarrow> c \<in> set ds \<Longrightarrow> \<exists>d \<in> set ds. \<not> done_in v d"
  shows "unblocking c is v"
  using assms unfolding unblocking_def by (metis set_ConsD)

lemma unblocking_update:
  assumes "unblocking c (i # is) v" "v i = Some (TBlocked, ds)" "\<forall>d \<in> set ds. done_in v d"
    and "x = None \<or> x = Some (TPending, ds)"
  shows "unblocking c is (v(i := x))"
proof -
  have "\<not> done_in v i" using assms(2) by (simp add: done_in_def)
  then have d: "done_in (v(i := x)) d \<longleftrightarrow> done_in v d" for d using assms(4) by (auto simp: done_update)
  show ?thesis
    unfolding unblocking_def d using assms by (auto simp: unblocking_def split: if_splits)
qed

lemma view_id_ok: "view_of st i \<noteq> None \<Longrightarrow> task_id_ok i"
  using raw_task_SomeD(1) by (auto simp: view_of_def split: sum.splits option.splits)

lemma unblock_one_view:
  assumes "unblock_one en c i st = (Inr u, st')" "unblocking c (i # is) (view_of st)"
  shows "unblocking c is (view_of st') \<and> tm_intents st' = tm_intents st"
proof (cases "i = c")
  case True
  with assms show ?thesis by (auto simp: unblock_one_def intro: unblocking_Cons)
next
  case False
  with assms(1) obtain r where r: "read_task (en_sha en) st i = Inr r"
    and k: "(case r of None \<Rightarrow> ret () | Some t \<Rightarrow>
         if t_status t = TBlocked \<and> c \<in> set (deps_of t)
         then andthen (incomplete_deps en (deps_of t)) (\<lambda>inc.
           if inc = []
           then commit en i (Transitioned (t\<lparr>t_status := TPending, t_version := t_version t + 1\<rparr>) TBlocked TPending) (Some t)
           else ret ())
         else ret ()) (read_effect st i) = (Inr u, st')"
    unfolding unblock_one_def by (auto elim!: andthen_InrE fetchE)
  show ?thesis
  proof (cases r)
    case None
    with k r view_read_None have "st' = read_effect st i" "view_of st i = None" by auto
    with assms(2) show ?thesis by (auto simp: frame_simps intro: unblocking_Cons)
  next
    case (Some t)
    with r have v: "view_of st i = Some (t_status t, deps_of t)" by (simp add: view_read)
    show ?thesis
    proof (cases "t_status t = TBlocked \<and> c \<in> set (deps_of t)")
      case False
      with k Some have "st' = read_effect st i" by auto
      with False v assms(2) show ?thesis by (auto simp: frame_simps intro: unblocking_Cons)
    next
      case True
      with k Some obtain inc st2 where inc: "incomplete_deps en (deps_of t) (read_effect st i) = (Inr inc, st2)"
        and k2: "(if inc = [] then commit en i (Transitioned (t\<lparr>t_status := TPending, t_version := t_version t + 1\<rparr>) TBlocked TPending) (Some t)
           else ret ()) st2 = (Inr u, st')"
        by (auto elim!: andthen_InrE)
      have st2: "view_of st2 = view_of st" "tm_intents st2 = tm_intents st"
        using view_reads [OF reads_incomplete inc] incomplete_intents [OF inc] by (simp_all add: frame_simps)
      have incs: "set inc = {d \<in> set (deps_of t). \<not> done_in (view_of st) d}"
        using incomplete_deps_view [OF inc] by simp
      show ?thesis
      proof (cases "inc = []")
        case False
        with k2 st2 incs v assms(2) show ?thesis
          by (auto intro!: unblocking_Cons [of c i "is"]) (metis (mono_tags, lifting) empty_iff list.set_intros(1) mem_Collect_eq neq_Nil_conv)
      next
        case t: True
        with k2 have cm: "commit en i (Transitioned (t\<lparr>t_status := TPending, t_version := t_version t + 1\<rparr>) TBlocked TPending) (Some t) st2 = (Inr u, st')"
          by simp
        have "task_id_ok i" using v view_id_ok by force
        from commit_view [OF cm this] st2(1)
        have "view_of st' = (view_of st)(i := Some (TPending, deps_of t)) \<or> view_of st' = (view_of st)(i := None)"
          by (simp add: deps_of_def)
        with incs t v True assms(2) have "unblocking c is (view_of st')"
          by (auto intro!: unblocking_update [where ds = "deps_of t"])
        with commit_intents [OF cm] st2(2) show ?thesis by simp
      qed
    qed
  qed
qed

lemma unblock_each_view:
  "for_each (unblock_one en c) is st = (Inr u, st') \<Longrightarrow> unblocking c is (view_of st) \<Longrightarrow>
     consistent (view_of st') \<and> tm_intents st' = tm_intents st"
proof (induction "is" arbitrary: st)
  case (Cons i "is")
  from Cons.prems(1) obtain u1 st1 where one: "unblock_one en c i st = (Inr u1, st1)"
    and rest: "for_each (unblock_one en c) is st1 = (Inr u, st')"
    by (auto elim!: andthen_InrE)
  from unblock_one_view [OF one Cons.prems(2)] Cons.IH [OF rest] show ?case by auto
qed (simp add: unblocking_Nil)

lemma unblocking_start:
  assumes "consistent v" "v c = Some (s, ds)" "s \<noteq> TBlocked" "x = None \<or> x = Some (TCompleted, ds)"
    and "\<And>i. i \<noteq> c \<Longrightarrow> v i \<noteq> None \<Longrightarrow> i \<in> set is" "s \<noteq> TCompleted"
  shows "unblocking c is (v(c := x))"
proof -
  have d: "done_in v d \<Longrightarrow> done_in (v(c := x)) d" "d \<noteq> c \<Longrightarrow> done_in (v(c := x)) d \<longleftrightarrow> done_in v d" for d
    using assms(2,6) by (auto simp: done_update) (simp add: done_in_def)
  have "i \<notin> set es \<and> (r \<noteq> TBlocked \<longrightarrow> (\<forall>d \<in> set es. done_in (v(c := x)) d))
     \<and> (r = TBlocked \<longrightarrow> (\<exists>d \<in> set es. \<not> done_in (v(c := x)) d) \<or> (i \<in> set is \<and> i \<noteq> c \<and> c \<in> set es))"
    if "(v(c := x)) i = Some (r, es)" for i r es
  proof (cases "i = c")
    case True
    then have "r = TCompleted" "es = ds" using that assms(4) by auto
    moreover have "c \<notin> set ds" "\<forall>d \<in> set ds. done_in v d"
      using assms(1,2,3) by (auto simp: consistent_def)
    ultimately show ?thesis using True d(1) by simp
  next
    case False
    then have i: "v i = Some (r, es)" using that by simp
    then have "i \<in> set is" using assms(5) False by simp
    with i False assms(1) d show ?thesis by (auto simp: consistent_def) metis+
  qed
  then show ?thesis by (simp add: unblocking_def)
qed

section \<open>Blocking again\<close>

definition reblocking :: "string \<Rightarrow> string list \<Rightarrow> string list \<Rightarrow> view \<Rightarrow> bool" where
  \<comment> \<open>the open dependencies of a task that is not blocked are to be visited: they are in the worklist,
    or are \<open>cur\<close> and the task is still in the list being scanned\<close>
  "reblocking cur is todo v = (\<not> done_in v cur \<and> (\<forall>d \<in> set todo. \<not> done_in v d)
     \<and> (\<forall>i s ds. v i = Some (s, ds) \<longrightarrow> i \<notin> set ds
         \<and> (s = TBlocked \<longrightarrow> (\<exists>d \<in> set ds. \<not> done_in v d))
         \<and> (s \<noteq> TBlocked \<longrightarrow> (\<forall>d \<in> set ds. \<not> done_in v d \<longrightarrow> d \<in> set todo \<or> (d = cur \<and> i \<in> set is)))))"

lemma set_set_add [simp]: "set (set_add x xs) = insert x (set xs)"
  by (auto simp: set_add_def)

lemma reblocking_skip:
  assumes "reblocking cur (i # is) todo v"
    and "i = cur \<or> v i = None \<or> (\<exists>s ds. v i = Some (s, ds) \<and> (s = TBlocked \<or> cur \<notin> set ds))"
  shows "reblocking cur is todo v"
proof -
  have "d \<in> set todo \<or> d = cur \<and> j \<in> set is"
    if "v j = Some (s, ds)" "s \<noteq> TBlocked" "d \<in> set ds" "\<not> done_in v d" for j s ds d
    using assms that unfolding reblocking_def by (cases "j = i") (fastforce, fastforce)
  with assms(1) show ?thesis unfolding reblocking_def by blast
qed

lemma reblocking_update:
  assumes "reblocking cur (i # is) todo v" "v i = Some (s, ds)" "s \<noteq> TBlocked" "cur \<in> set ds"
    and "x = None \<or> x = Some (TBlocked, ds)"
  shows "reblocking cur is (set_add i todo) (v(i := x))"
proof -
  have d: "done_in (v(i := x)) d \<longleftrightarrow> d \<noteq> i \<and> done_in v d" for d using assms(5) by (auto simp: done_update)
  show ?thesis
    using assms unfolding reblocking_def d by (auto split: if_splits) metis+
qed

lemma reblock_scan_view:
  "reblock_scan en cur is todo st = (Inr todo', st') \<Longrightarrow> reblocking cur is todo (view_of st) \<Longrightarrow>
     reblocking cur [] todo' (view_of st') \<and> tm_intents st' = tm_intents st"
proof (induction "is" arbitrary: todo st)
  case (Cons i "is")
  show ?case
  proof (cases "i = cur")
    case True
    with Cons show ?thesis by (auto intro: reblocking_skip)
  next
    case False
    with Cons.prems(1) obtain r where r: "read_task (en_sha en) st i = Inr r"
      and k: "(case r of None \<Rightarrow> reblock_scan en cur is todo
         | Some t \<Rightarrow> if t_status t \<noteq> TBlocked \<and> cur \<in> set (deps_of t)
             then andthen (commit en i (reblock_event cur t) (Some t)) (\<lambda>_. reblock_scan en cur is (set_add i todo))
             else reblock_scan en cur is todo) (read_effect st i) = (Inr todo', st')"
      by (auto elim!: andthen_InrE fetchE)
    have skip: ?thesis if "reblock_scan en cur is todo (read_effect st i) = (Inr todo', st')"
        "v = None \<or> (\<exists>s ds. v = Some (s, ds) \<and> (s = TBlocked \<or> cur \<notin> set ds))" "v = view_of st i" for v
      using Cons.IH [OF that(1)] reblocking_skip [OF Cons.prems(2)] that(2,3) by (auto simp: frame_simps)
    show ?thesis
    proof (cases r)
      case None
      with k r view_read_None skip show ?thesis by fastforce
    next
      case (Some t)
      with r have v: "view_of st i = Some (t_status t, deps_of t)" by (simp add: view_read)
      show ?thesis
      proof (cases "t_status t \<noteq> TBlocked \<and> cur \<in> set (deps_of t)")
        case False
        with k Some have "reblock_scan en cur is todo (read_effect st i) = (Inr todo', st')" by simp
        from skip [OF this _ refl] False v show ?thesis by auto
      next
        case True
        with k Some obtain u st2 where cm: "commit en i (reblock_event cur t) (Some t) (read_effect st i) = (Inr u, st2)"
          and rest: "reblock_scan en cur is (set_add i todo) st2 = (Inr todo', st')"
          by (auto elim!: andthen_InrE)
        have "task_id_ok i" using v view_id_ok by force
        from commit_view [OF cm this]
        have "view_of st2 = (view_of st)(i := Some (TBlocked, deps_of t)) \<or> view_of st2 = (view_of st)(i := None)"
          by (simp add: reblocked_task_def deps_of_def)
        then have "reblocking cur is (set_add i todo) (view_of st2)"
          using v True Cons.prems(2) by (auto intro!: reblocking_update [where ds = "deps_of t"])
        from Cons.IH [OF rest this] commit_intents [OF cm] show ?thesis by (simp add: frame_simps)
      qed
    qed
  qed
qed simp

lemma reblocking_next:
  assumes "reblocking cur [] (c # todo) v" "\<And>i. v i \<noteq> None \<Longrightarrow> i \<in> set is"
  shows "reblocking c is todo v"
  using assms unfolding reblocking_def by (metis empty_iff empty_set option.distinct(1) set_ConsD list.set_intros)

lemma reblocking_done: "reblocking cur [] [] v \<Longrightarrow> consistent v"
  unfolding reblocking_def consistent_def by fastforce

lemma reblock_loop_view:
  "reblock_loop fuel en todo st = (Inr u, st') \<Longrightarrow> reblocking cur [] todo (view_of st) \<Longrightarrow>
     consistent (view_of st') \<and> tm_intents st' = tm_intents st"
proof (induction fuel arbitrary: cur todo st)
  case 0
  then show ?case by (cases todo) (auto intro: reblocking_done)
next
  case (Suc fuel)
  show ?case
  proof (cases todo)
    case Nil
    with Suc.prems show ?thesis by (auto intro: reblocking_done)
  next
    case (Cons c cs)
    with Suc.prems(1) obtain todo' st1 where scan: "reblock_scan en c (all_task_ids st) cs st = (Inr todo', st1)"
      and rest: "reblock_loop fuel en todo' st1 = (Inr u, st')"
      by (auto elim!: andthen_InrE)
    have "reblocking c (all_task_ids st) cs (view_of st)"
      using Suc.prems(2) view_all_ids unfolding Cons by (blast intro: reblocking_next)
    from reblock_scan_view [OF scan this] Suc.IH [OF rest] show ?thesis by auto
  qed
qed

lemma reblocking_start:
  assumes "consistent v" "v c = Some (s, ds)" "x = None \<or> (x = Some (s', ds) \<and> s' \<noteq> TCompleted
      \<and> (s' = TBlocked \<longleftrightarrow> (\<exists>d \<in> set ds. \<not> done_in v d)))"
  shows "reblocking c [] [c] (v(c := x))"
proof -
  have d: "done_in (v(c := x)) d \<longleftrightarrow> d \<noteq> c \<and> done_in v d" for d
    using assms(3) by (auto simp: done_update)
  have c: "c \<notin> set ds" using assms(1,2) by (simp add: consistent_def)
  show ?thesis
    unfolding reblocking_def d using assms c unfolding consistent_def by (auto split: if_splits)
qed

lemma reblocking_same:
  "consistent v \<Longrightarrow> \<not> done_in v c \<Longrightarrow> reblocking c [] [c] v"
  unfolding reblocking_def consistent_def by auto

lemma reblock_view:
  assumes "reblock_dependents en c st = (Inr u, st')" "reblocking c [] [c] (view_of st)"
  shows "consistent (view_of st') \<and> tm_intents st' = tm_intents st"
  using reblock_loop_view assms unfolding reblock_dependents_def by blast

section \<open>Operations that keep the intents\<close>

definition calm :: "'a team_act \<Rightarrow> bool" where
  "calm m = (\<forall>st. tm_intents (snd (m st)) = tm_intents st)"

lemma calmD: "calm m \<Longrightarrow> m st = (r, st') \<Longrightarrow> tm_intents st' = tm_intents st"
  by (metis calm_def snd_conv)

lemma calm_simps [simp, intro]: "calm (ret x)" "calm (throw e)" "calm (Pair r)" "calm (fetch en i)"
    "calm (commit en i ev p)" "calm (lift_proc en pr)"
  by (auto simp: calm_def fetch_def commit_def frame_simps lift_proc_def split: option.splits sum.splits)

lemma calm_andthen [intro]: "calm m \<Longrightarrow> (\<And>x. calm (f x)) \<Longrightarrow> calm (andthen m f)"
  by (auto simp: calm_def andthen_def split: prod.splits sum.splits) (metis snd_conv)+

lemma calm_state: "(\<And>s. calm (m s)) \<Longrightarrow> calm (\<lambda>st. m st st)"
  by (simp add: calm_def)

lemma calm_if_state: "calm a \<Longrightarrow> calm b \<Longrightarrow> calm (\<lambda>st. if P st then a st else b st)"
  by (simp add: calm_def)

lemma calm_incomplete [simp, intro]: "calm (incomplete_deps en ds)"
  by (induction ds) auto

lemma calm_all_complete [simp, intro]: "calm (all_complete en ds)"
  by (induction ds) auto

lemma calm_config [simp]: "calm (modify (put_config cfg))" "calm (write_config w cfg)" "calm (store_config w cfg)"
  by (cases w; auto simp: calm_def put_config_def write_config_def store_config_def andthen_def)+

lemma calm_check_deps [simp]: "calm (check_deps en cand ds)"
  by (induction ds) auto

lemma calm_cycle_dfs [simp]: "calm (cycle_dfs fuel en stack vis ds)"
  by (induction fuel en stack vis ds rule: cycle_dfs.induct) (auto split: option.splits)

lemma calm_check_blocked_by [simp]: "calm (check_blocked_by en cand deps)"
proof -
  have "calm (check_dependency_cycle en cand ds)" for ds
    unfolding check_dependency_cycle_def by (rule calm_state) auto
  then show ?thesis by (auto simp: check_blocked_by_def split: option.splits)
qed

lemma calm_find [simp]: "calm (find_task_by_request_id en rid)"
proof -
  have "calm (find_request en rid is found)" for "is" found
    by (induction "is" arbitrary: found) (auto split: option.splits)
  then show ?thesis unfolding find_task_by_request_id_def by (rule calm_state)
qed

lemma calm_next_free [simp]: "calm (next_free fuel en inp cfg)"
proof (induction fuel arbitrary: cfg)
  case (Suc fuel)
  show ?case
    unfolding next_free.simps Let_def
    by (intro calm_andthen calm_simps, case_tac x) (auto simp: Suc)
qed simp

lemma calm_unreconciled [simp]: "calm (has_unreconciled en tid)"
proof -
  have scan: "calm (unreconciled_scan en cur is todo)" for cur "is" todo
    by (induction "is" arbitrary: todo) (auto split: option.splits)
  have "calm (unreconciled_loop fuel en vis todo)" for fuel vis todo
  proof (induction fuel arbitrary: vis todo)
    case 0
    then show ?case by (cases todo) auto
  next
    case (Suc fuel)
    have "calm (\<lambda>st. andthen (unreconciled_scan en c (all_task_ids st) cs)
        (\<lambda>(found, todo'). if found then ret True else unreconciled_loop fuel en (c # vis) todo') st)" for c cs
      by (rule calm_state) (auto simp: Suc scan split: prod.splits)
    with Suc show ?case by (cases todo) auto
  qed
  then show ?thesis unfolding has_unreconciled_def Let_def by (rule calm_state)
qed

definition unseen :: "team \<Rightarrow> team \<Rightarrow> bool" where
  "unseen st st' = (view_of st' = view_of st \<and> tm_intents st' = tm_intents st)"

lemma unseen_dep_inv: "unseen st st' \<Longrightarrow> dep_inv st' \<longleftrightarrow> dep_inv st"
  by (simp add: unseen_def dep_inv_def)

lemma unseen_refl [simp]: "unseen st st"
  by (simp add: unseen_def)

lemma unseen_trans: "unseen a b \<Longrightarrow> unseen b c \<Longrightarrow> unseen a c"
  by (simp add: unseen_def)

lemma unseen_reads: "reads m \<Longrightarrow> calm m \<Longrightarrow> m st = (r, st') \<Longrightarrow> unseen st st'"
  by (auto simp: unseen_def view_reads dest: calmD)

lemma unseen_effect [simp]: "unseen st (read_effect st i)"
  by (simp add: unseen_def frame_simps)

lemma incomplete_unseen: "incomplete_deps en ds (read_effect st i) = (r, st') \<Longrightarrow> unseen st st'"
  and all_complete_unseen: "all_complete en ds (read_effect st i) = (b, st') \<Longrightarrow> unseen st st'"
  using unseen_trans [OF unseen_effect] unseen_reads [OF reads_incomplete calm_incomplete]
    unseen_reads [OF reads_all_complete calm_all_complete] by blast+

section \<open>Every operation restores the invariant\<close>

lemma claim_locked_Refused:
  "claim_locked en tid w co st = (Inr (Refused ref), st') \<Longrightarrow> unseen st st'"
  by (auto simp: claim_locked_def Let_def split: option.splits if_splits sum.splits
      elim!: andthen_InrE fetchE) (erule incomplete_unseen)+

lemma renew_locked_Refused:
  "renew_locked en tid w token ro st = (Inr (Refused ref), st') \<Longrightarrow> unseen st st'"
  by (auto simp: renew_locked_def Let_def split: option.splits if_splits sum.splits
      elim!: andthen_InrE fetchE)

lemma reclaim_locked_Refused:
  "reclaim_locked en tid w rc st = (Inr (Refused ref), st') \<Longrightarrow> unseen st st'"
  by (auto simp: reclaim_locked_def Let_def split: option.splits if_splits sum.splits
      elim!: andthen_InrE fetchE)

lemma transition_locked_Refused:
  "transition_locked en tid from to token tr st = (Inr (Refused ref), st') \<Longrightarrow> unseen st st'"
  by (auto simp: transition_locked_def Let_def split: option.splits if_splits sum.splits
      elim!: andthen_InrE fetchE) (erule all_complete_unseen)+

lemma release_Refused:
  "release_task_claim en tid token w rl st = (Inr (Refused ref), st') \<Longrightarrow> unseen st st'"
  by (auto simp: release_task_claim_def Let_def split: option.splits if_splits sum.splits
      elim!: andthen_InrE fetchE)

lemma normalize_claim_None [simp]: "t_claim (normalize_task sha t) = None \<longleftrightarrow> t_claim t = None"
  by (simp add: normalize_task_def Let_def)

lemma read_claim_progress:
  assumes "read_task sha st i = Inr (Some t)" "t_claim t \<noteq> None"
  shows "t_status t = TInProgress"
proof -
  obtain t0 where t0: "raw_task st i = Inr (Some t0)" and t: "t = normalize_task sha t0"
    using assms(1) by (rule read_task_SomeD)
  have "is_team_task t0" using raw_task_SomeD(2) [OF t0] .
  moreover have "t_claim t0 \<noteq> None" using assms(2) t normalize_claim_None by metis
  ultimately show ?thesis
    by (auto simp: t is_team_task_def status_shape_def split: task_status.splits)
qed

lemma dep_inv_status:
  assumes "dep_inv st" "read_task sha st i = Inr (Some t)"
  shows "t_status t = TBlocked \<longleftrightarrow> (\<exists>d \<in> set (deps_of t). \<not> done_in (view_of st) d)"
  using assms(1) view_read [OF assms(2)] unfolding dep_inv_def consistent_def by blast

lemma dep_inv_intents: "dep_inv st \<Longrightarrow> tm_intents st = []"
  by (simp add: dep_inv_def)

lemma claim_dep_inv:
  assumes "claim_locked en tid w co st = (Inr r, st')" "dep_inv st"
  shows "dep_inv st'"
proof (cases r)
  case (Refused ref)
  with assms claim_locked_Refused unseen_dep_inv show ?thesis by blast
next
  case (Done x)
  obtain t' tok where x: "x = (t', tok)" by (cases x)
  with assms(1) Done obtain cur u p st2 c where cur: "read_task (en_sha en) st tid = Inr (Some cur)"
    "\<not> terminal (t_status cur)" and inc: "incomplete_deps en (deps_of cur) (read_effect st tid) = (Inr [], st2)"
    and u: "claim_working en cur = Inr u" and t': "t' = claimed_task u w (fence u + 1) c"
    and cm: "commit en tid (Claimed t' c) (Some u) st2 = (Inr (), st')"
    by (auto elim: claim_locked_DoneE)
  have deps: "deps_of t' = deps_of cur"
    using claim_working_cases [OF u] by (auto simp: t' claimed_task_def bare_task_def deps_of_def)
  have "unseen st st2" using inc by (rule incomplete_unseen)
  moreover have "\<forall>d \<in> set (deps_of cur). done_in (view_of st) d"
    using incomplete_deps_view [OF inc] by auto
  ultimately show ?thesis
    using dep_inv_commit [OF cm assms(2) _ _ cur(1)] cur(2) deps dep_inv_intents [OF assms(2)]
    by (auto simp: unseen_def terminal_def t' claimed_task_def bare_task_def)
qed

lemma renew_dep_inv:
  assumes "renew_locked en tid w token ro st = (Inr r, st')" "dep_inv st"
  shows "dep_inv st'"
proof (cases r)
  case (Refused ref)
  with assms renew_locked_Refused unseen_dep_inv show ?thesis by blast
next
  case (Done t')
  with assms(1) obtain cur c h where cur: "read_task (en_sha en) st tid = Inr (Some cur)" "t_status cur = TInProgress"
    and t': "t' = cur\<lparr>t_version := t_version cur + 1, t_claim := Some (renewed_claim en c ro h)\<rparr>"
    and cm: "commit en tid (Renewed t' (renewed_claim en c ro h)) (Some cur) (read_effect st tid) = (Inr (), st')"
    by (auto elim: renew_locked_DoneE)
  show ?thesis
    using dep_inv_commit [OF cm assms(2) _ _ cur(1)] cur(2) dep_inv_status [OF assms(2) cur(1)] dep_inv_intents [OF assms(2)]
    by (auto simp: t' deps_of_def frame_simps)
qed

lemma reclaim_dep_inv:
  assumes "reclaim_locked en tid w rc st = (Inr r, st')" "dep_inv st"
  shows "dep_inv st'"
proof (cases r)
  case (Refused ref)
  with assms reclaim_locked_Refused unseen_dep_inv show ?thesis by blast
next
  case (Done d)
  with assms(1) obtain cur c p c' where cur: "read_task (en_sha en) st tid = Inr (Some cur)" "t_status cur = TInProgress"
    and t': "rd_task d = reclaimed_task cur w (fence cur + 1) c'"
    and cm: "commit en tid (Reclaimed (rd_task d) (gen_of_claim (Some c)) (fence cur + 1) (rc_reason rc)) (Some cur)
       (read_effect st tid) = (Inr (), st')"
    by (auto elim: reclaim_locked_DoneE)
  show ?thesis
    using dep_inv_commit [OF cm assms(2) _ _ cur(1)] cur(2) dep_inv_status [OF assms(2) cur(1)] dep_inv_intents [OF assms(2)]
    by (auto simp: t' reclaimed_task_def deps_of_def frame_simps)
qed

lemma release_dep_inv:
  assumes "release_task_claim en tid token w rl st = (Inr r, st')" "dep_inv st"
  shows "dep_inv st'"
proof (cases r)
  case (Refused ref)
  with assms release_Refused unseen_dep_inv show ?thesis by blast
next
  case (Done t')
  show ?thesis
    using assms(1) [unfolded Done]
  proof (cases rule: release_DoneE)
    case (1 cur)
    then show ?thesis using assms(2) unseen_dep_inv [OF unseen_effect] by simp
  next
    case (2 cur c)
    then have s: "t_status cur = TInProgress" using read_claim_progress by blast
    show ?thesis
      using dep_inv_commit [OF 2(8) assms(2) _ _ 2(1)] s dep_inv_status [OF assms(2) 2(1)] dep_inv_intents [OF assms(2)]
      by (auto simp: 2(7) bare_task_def deps_of_def frame_simps)
  qed
qed

lemma transition_dep_inv:
  assumes "execute_transition en tid from to token tr st = (Inr r, st')" "dep_inv st"
  shows "dep_inv st'"
proof -
  from assms(1) obtain r1 st1 where one: "transition_locked en tid from to token tr st = (Inr r1, st1)"
    and k: "(case r1 of Done t \<Rightarrow> andthen (if to = TCompleted then unblock_dependents en tid else ret ()) (\<lambda>_. finish t)
      | Refused ref \<Rightarrow> refuse ref) st1 = (Inr r, st')"
    unfolding execute_transition_def by (elim andthen_InrE)
  show ?thesis
  proof (cases r1)
    case (Refused ref)
    with k have "st' = st1" by simp
    with one Refused assms(2) transition_locked_Refused unseen_dep_inv show ?thesis by metis
  next
    case (Done t')
    with one obtain cur st2 where cur: "read_task (en_sha en) st tid = Inr (Some cur)"
      and g: "transition_guard en cur from to token tr = None"
      and dep: "to = TCompleted \<Longrightarrow> all_complete en (deps_of cur) (read_effect st tid) = (Inr True, st2)"
        "to \<noteq> TCompleted \<Longrightarrow> st2 = read_effect st tid"
      and t': "t' = transitioned_task en cur to tr"
      and cm: "commit en tid (Transitioned t' from to) (Some cur) st2 = (Inr (), st1)"
      by (auto elim!: transition_locked_DoneE)
    have s: "t_status cur = TInProgress"
      using g read_claim_progress [OF cur] by (auto elim: transition_guard_None)
    then have to: "to \<noteq> TBlocked" using g by (auto elim!: transition_guard_None simp: can_transition_def)
    have st2: "unseen st st2"
      using dep all_complete_unseen by (cases "to = TCompleted") auto
    have dt: "deps_of t' = deps_of cur" "t_status t' = to"
      by (simp_all add: t' transitioned_task_def bare_task_def deps_of_def)
    show ?thesis
    proof (cases "to = TCompleted")
      case False
      then have "dep_inv st1"
        using dep_inv_commit [OF cm assms(2) _ _ cur] s to dt st2 dep_inv_status [OF assms(2) cur] dep_inv_intents [OF assms(2)]
        by (auto simp: unseen_def)
      with False k Done show ?thesis by simp
    next
      case True
      have id: "task_id_ok tid" using cur view_read view_id_ok by force
      from commit_view [OF cm id] st2 dt True
      have v1: "view_of st1 = (view_of st)(tid := Some (TCompleted, deps_of cur)) \<or> view_of st1 = (view_of st)(tid := None)"
        by (simp add: unseen_def)
      have ids: "i \<in> set (all_task_ids st1)" if "i \<noteq> tid" "view_of st i \<noteq> None" for i
        using that v1 by (intro view_all_ids) auto
      have "unblocking tid (all_task_ids st1) (view_of st1)"
        using v1 unblocking_start [of "view_of st" tid TInProgress "deps_of cur"] assms(2) view_read [OF cur] s ids
        by (auto simp: dep_inv_def)
      moreover obtain u where "for_each (unblock_one en tid) (all_task_ids st1) st1 = (Inr u, st')"
        using k Done True by (auto simp: unblock_dependents_def elim!: andthen_InrE)
      ultimately have "consistent (view_of st') \<and> tm_intents st' = tm_intents st1"
        using unblock_each_view by blast
      then show ?thesis
        using commit_intents [OF cm] st2 dep_inv_intents [OF assms(2)] by (simp add: dep_inv_def unseen_def)
    qed
  qed
qed

lemma reopen_locked_DoneE:
  assumes "reopen_locked en tid reason st = (Inr (Done t), st')"
  obtains cur where "read_task (en_sha en) st tid = Inr (Some cur)" "\<not> terminal (t_status cur)"
      "reopen_candidate en tid reason cur (read_effect st tid) = (Inr (Done t), st')"
  | cur inc st2 st3 u where "read_task (en_sha en) st tid = Inr (Some cur)" "terminal (t_status cur)"
      "incomplete_deps en (deps_of cur) (read_effect st tid) = (Inr inc, st2)"
      "record_intent en tid reason st2 = (Inr u, st3)"
      "t = bare_task cur (if inc = [] then TPending else TBlocked) (request_owner_of cur)"
      "commit en tid (Reopened t reason) (Some cur) st3 = (Inr (), st')"
  using assms
  by (auto simp: reopen_locked_def Let_def split: option.splits if_splits
      elim!: andthen_InrE fetchE)

definition only_intent :: "string \<Rightarrow> team \<Rightarrow> bool" where
  "only_intent tid st = (\<forall>k \<in> set (dnames (tm_intents st)). k = tid)"

lemma only_intent_record:
  "record_intent en tid reason st = (r, st') \<Longrightarrow> only_intent tid st \<Longrightarrow> only_intent tid st' \<and> view_of st' = view_of st"
  using view_reads [OF reads_record_intent, of en tid reason st r st']
  by (auto simp: record_intent_def only_intent_def Let_def split: write_result.splits)

lemma only_intent_remove:
  assumes "only_intent tid st" "en_unlink en" "remove_intent en tid st = (r, st')"
  shows "tm_intents st' = []" "view_of st' = view_of st"
proof -
  have "\<And>d :: cascade_intent dir. \<forall>k \<in> set (dnames d). k = tid \<Longrightarrow> ddel tid d = []"
    by (auto simp: dnames_def ddel_def filter_empty_conv)
  with assms show "tm_intents st' = []" by (auto simp: remove_intent_def only_intent_def)
  show "view_of st' = view_of st" using view_reads [OF reads_remove_intent assms(3)] .
qed

lemma only_intent_calm: "tm_intents st' = tm_intents st \<Longrightarrow> only_intent tid st' = only_intent tid st"
  by (simp add: only_intent_def)

lemma candidate_Done:
  assumes "reopen_candidate en tid reason cur st = (Inr (Done t), st')" "only_intent tid st"
  shows "view_of st' = view_of st \<and> only_intent tid st'"
proof
  show "view_of st' = view_of st" using view_reads [OF reads_reopen_candidate assms(1)] .
  from assms(1) obtain b st1 where b: "(if has_intent st tid then ret True else has_unreconciled en tid) st = (Inr b, st1)"
    and k: "(if b \<or> ((t_status cur = TPending \<or> t_status cur = TBlocked) \<and> was_reopened st1 tid)
       then andthen (if has_intent st1 tid then ret () else record_intent en tid reason) (\<lambda>_. finish cur) st1
       else refuse Not_terminal st1) = (Inr (Done t), st')"
    unfolding reopen_candidate_def by (elim andthen_InrE)
  have "tm_intents st1 = tm_intents st"
    using b calmD [OF calm_unreconciled] by (auto split: if_splits)
  then have "only_intent tid st1" using assms(2) by (simp add: only_intent_def)
  moreover have "st' = st1 \<or> record_intent en tid reason st1 = (Inr (), st')"
    using k by (auto split: if_splits elim!: andthen_InrE)
  ultimately show "only_intent tid st'" using only_intent_record by blast
qed

lemma candidate_Refused:
  assumes "reopen_candidate en tid reason cur st = (Inr (Refused ref), st')"
  shows "unseen st st'"
proof -
  from assms obtain b st1 where b: "(if has_intent st tid then ret True else has_unreconciled en tid) st = (Inr b, st1)"
    and k: "(if b \<or> ((t_status cur = TPending \<or> t_status cur = TBlocked) \<and> was_reopened st1 tid)
       then andthen (if has_intent st1 tid then ret () else record_intent en tid reason) (\<lambda>_. finish cur) st1
       else refuse Not_terminal st1) = (Inr (Refused ref), st')"
    unfolding reopen_candidate_def by (elim andthen_InrE)
  have "st' = st1" using k by (auto split: if_splits elim!: andthen_InrE)
  with b unseen_reads [OF reads_has_unreconciled calm_unreconciled] show ?thesis
    by (auto split: if_splits)
qed

lemma reopen_locked_Refused:
  assumes "reopen_locked en tid reason st = (Inr (Refused ref), st')"
  shows "unseen st st'"
proof -
  have c: "unseen st st'" if "reopen_candidate en tid reason cur (read_effect st tid) = (Inr (Refused ref), st')" for cur
    using candidate_Refused [OF that] unseen_trans [OF unseen_effect] by blast
  show ?thesis
    using assms
    by (auto simp: reopen_locked_def Let_def split: option.splits if_splits elim!: andthen_InrE fetchE dest!: c incomplete_unseen)
qed

lemma reopen_dep_inv:
  assumes "andthen (reopen_locked en tid reason) (\<lambda>r. case r of
        Refused ref \<Rightarrow> refuse ref
      | Done t \<Rightarrow> andthen (reblock_dependents en tid) (\<lambda>_.
          andthen (remove_intent en tid) (\<lambda>_. finish t))) st = (Inr r, st')"
    and "dep_inv st" "en_unlink en"
  shows "dep_inv st'"
proof -
  from assms(1) obtain r1 st1 where one: "reopen_locked en tid reason st = (Inr r1, st1)"
    and k: "(case r1 of Refused ref \<Rightarrow> refuse ref
      | Done t \<Rightarrow> andthen (reblock_dependents en tid) (\<lambda>_.
          andthen (remove_intent en tid) (\<lambda>_. finish t))) st1 = (Inr r, st')"
    by (elim andthen_InrE)
  show ?thesis
  proof (cases r1)
    case (Refused ref)
    with k have "st' = st1" by simp
    with one Refused assms(2) reopen_locked_Refused unseen_dep_inv show ?thesis by metis
  next
    case (Done t)
    have none: "only_intent tid st" using dep_inv_intents [OF assms(2)] by (simp add: only_intent_def dnames_def)
    have cons: "consistent (view_of st)" using assms(2) by (simp add: dep_inv_def)
    have "reblocking tid [] [tid] (view_of st1) \<and> only_intent tid st1"
      using one [unfolded Done]
    proof (cases rule: reopen_locked_DoneE)
      case (1 cur)
      have "only_intent tid (read_effect st tid)" using none by (simp add: only_intent_def frame_simps)
      from candidate_Done [OF 1(3) this] view_read [OF 1(1)] 1(2) show ?thesis
        by (auto intro!: reblocking_same [OF cons] simp: done_in_def terminal_def)
    next
      case (2 cur inc st2 st3 u)
      note unseen2 = incomplete_unseen [OF 2(3)]
      have oi: "only_intent tid st2" using unseen2 none by (simp add: unseen_def only_intent_def)
      note st3 = only_intent_record [OF 2(4) oi]
      have id: "task_id_ok tid" using view_read [OF 2(1)] view_id_ok by force
      have s: "t_status t = (if inc = [] then TPending else TBlocked)" "deps_of t = deps_of cur"
        by (simp_all add: 2(5) bare_task_def deps_of_def)
      have inc: "set inc = {d \<in> set (deps_of cur). \<not> done_in (view_of st) d}"
        using incomplete_deps_view [OF 2(3)] by simp
      then have incs: "inc = [] \<longleftrightarrow> (\<forall>d \<in> set (deps_of cur). done_in (view_of st) d)"
        by (cases inc) auto
      have "view_of st1 = (view_of st)(tid := Some (t_status t, deps_of cur)) \<or> view_of st1 = (view_of st)(tid := None)"
        using commit_view [OF 2(6) id] unseen2 st3 s(2) by (simp add: unseen_def)
      then have "reblocking tid [] [tid] (view_of st1)"
        using s(1) incs by (auto intro!: reblocking_start [OF cons view_read [OF 2(1)], where s' = "t_status t"] split: if_splits)
      moreover have "only_intent tid st1"
        using st3 commit_intents [OF 2(6)] by (simp add: only_intent_def)
      ultimately show ?thesis by simp
    qed
    moreover from k Done obtain u st2 where rb: "reblock_dependents en tid st1 = (Inr u, st2)"
      and rm: "andthen (remove_intent en tid) (\<lambda>_. finish t) st2 = (Inr r, st')"
      by (auto elim!: andthen_InrE [of "reblock_dependents _ _"])
    ultimately have st2: "consistent (view_of st2)" "only_intent tid st2"
      using reblock_view [OF rb] by (auto simp: only_intent_def)
    from rm obtain v where "remove_intent en tid st2 = (Inr v, st')" by (auto elim!: andthen_InrE)
    with only_intent_remove [OF st2(2) assms(3)] st2(1) show ?thesis by (simp add: dep_inv_def)
  qed
qed

section \<open>Creation\<close>

lemma check_deps_known:
  "check_deps en cand ds st = (Inr u, st') \<Longrightarrow> d \<in> set ds \<Longrightarrow> view_of st d \<noteq> None"
proof (induction ds arbitrary: st)
  case (Cons a ds)
  from Cons.prems(1) obtain r where r: "read_task (en_sha en) st a = Inr r" "r \<noteq> None"
    and rest: "check_deps en cand ds (read_effect st a) = (Inr u, st')"
    by (auto split: if_splits elim!: andthen_InrE fetchE)
  show ?case
  proof (cases "d = a")
    case True
    with r show ?thesis by (auto simp: view_read)
  next
    case False
    with Cons.IH [OF rest] Cons.prems(2) show ?thesis by simp
  qed
qed simp

lemma publish_view:
  assumes "publish_task en cfg t st = (Inr t', st')" "raw_task st (t_id t) = Inr None"
  shows "view_of st' = (view_of st)(t_id t := Some (t_status t, deps_of t)) \<or> view_of st' = (view_of st)(t_id t := None)"
    and "tm_intents st' = tm_intents st" and "t' = t"
proof -
  have st': "st' = snd (publish_task en cfg t st)" using assms(1) by simp
  have "raw_task st' (t_id t) = Inr (Some u) \<Longrightarrow> u = t" for u
    using publish_disk(1,2) [OF assms(2), of en cfg]
    by (auto simp: st' raw_task_def file_task_def rebuild_from_journal_def Let_def
        split: option.splits if_splits sum.splits)
  then have "view_of st' (t_id t) \<in> {None, Some (t_status t, deps_of t)}"
    by (auto simp: view_of_def split: sum.splits option.splits)
  moreover have "j \<noteq> t_id t \<Longrightarrow> view_of st' j = view_of st j" for j
    using publish_disk(3) [OF assms(2), of j en cfg] by (simp add: st' view_of_def)
  ultimately show "view_of st' = (view_of st)(t_id t := Some (t_status t, deps_of t)) \<or> view_of st' = (view_of st)(t_id t := None)"
    by (auto simp: fun_eq_iff)
  show "tm_intents st' = tm_intents st" "t' = t"
    using assms(1)
    by (auto simp: publish_task_def andthen_def write_file_def append_log_def write_config_def put_config_def
        split: prod.splits sum.splits write_result.splits option.splits task_log.splits if_splits)
qed

lemma create_fresh_dep_inv:
  assumes "create_fresh en inp sh cfg st = (Inr t', st')" "dep_inv st"
    and "\<And>d. d \<in> set (opt_default [] (ti_blocked_by inp)) \<Longrightarrow> view_of st d \<noteq> None"
  shows "dep_inv st'"
proof -
  from assms(1) obtain x st1 where x: "next_free (length (all_task_ids st) + 1) en inp cfg st = (Inr x, st1)"
    and kx: "(case x of (early, cfg') \<Rightarrow> case early of Some t \<Rightarrow> ret t
       | None \<Rightarrow> andthen (incomplete_deps en (opt_default [] (ti_blocked_by inp))) (\<lambda>inc.
           let t = new_task en inp (tc_next_task_id cfg') (if inc = [] then TPending else TBlocked) sh in
           if created_record_bytes (en_now en) (Created t) > MAX_TASK_JOURNAL_RECORD_BYTES - 2048
           then throw E_TEAM_TASK_TOO_LARGE
           else publish_task en cfg' t)) st1 = (Inr t', st')"
    unfolding create_fresh_def by (rule andthen_InrE)
  obtain early cfg' where free: "next_free (length (all_task_ids st) + 1) en inp cfg st = (Inr (early, cfg'), st1)"
    and k: "(case early of Some t \<Rightarrow> ret t
       | None \<Rightarrow> andthen (incomplete_deps en (opt_default [] (ti_blocked_by inp))) (\<lambda>inc.
           let t = new_task en inp (tc_next_task_id cfg') (if inc = [] then TPending else TBlocked) sh in
           if created_record_bytes (en_now en) (Created t) > MAX_TASK_JOURNAL_RECORD_BYTES - 2048
           then throw E_TEAM_TASK_TOO_LARGE
           else publish_task en cfg' t)) st1 = (Inr t', st')"
    using x kx by (cases x) simp
  have un1: "unseen st st1" using unseen_reads [OF reads_next_free calm_next_free free] .
  show ?thesis
  proof (cases early)
    case (Some t)
    with k have "st' = st1" by simp
    with unseen_dep_inv [OF un1] assms(2) show ?thesis by simp
  next
    case None
    let ?ds = "opt_default [] (ti_blocked_by inp)"
    from None k obtain inc st2 where inc: "incomplete_deps en ?ds st1 = (Inr inc, st2)"
      and pub: "publish_task en cfg' (new_task en inp (tc_next_task_id cfg') (if inc = [] then TPending else TBlocked) sh) st2 = (Inr t', st')"
      by (simp, elim andthen_InrE [of "incomplete_deps _ _"]) (simp add: Let_def split: if_splits)
    let ?t = "new_task en inp (tc_next_task_id cfg') (if inc = [] then TPending else TBlocked) sh"
    have un2: "unseen st st2"
      using unseen_trans [OF un1 unseen_reads [OF reads_incomplete calm_incomplete inc]] .
    have free1: "raw_task st2 (t_id ?t) = Inr None"
      using next_free_free [OF free [unfolded None]] reads_sndD [OF reads_incomplete inc] by (simp add: new_task_def)
    then have "view_of st2 (t_id ?t) = None" by (simp add: view_of_def)
    then have none: "view_of st (t_id ?t) = None" using un2 by (simp add: unseen_def)
    have incs: "set inc = {d \<in> set ?ds. \<not> done_in (view_of st) d}"
      using incomplete_deps_view [OF inc] un1 by (simp add: unseen_def)
    have t: "deps_of ?t = ?ds" "t_status ?t = (if inc = [] then TPending else TBlocked)"
      by (simp_all add: new_task_def deps_of_def)
    have "view_of st' = (view_of st)(t_id ?t := Some (t_status ?t, ?ds)) \<or> view_of st' = (view_of st)(t_id ?t := None)"
      using publish_view(1) [OF pub free1] un2 t(1) by (simp add: unseen_def)
    moreover have "consistent (view_of st)" "\<not> done_in (view_of st) (t_id ?t)"
      using assms(2) none by (auto simp: dep_inv_def done_in_def)
    moreover have "t_id ?t \<notin> set ?ds" using assms(3) none by blast
    moreover have "t_status ?t = TBlocked \<longleftrightarrow> (\<exists>d \<in> set ?ds. \<not> done_in (view_of st) d)" "t_status ?t \<noteq> TCompleted"
      by (cases inc; use incs t(2) in auto)+
    ultimately have "consistent (view_of st')"
      using consistent_update [of "view_of st" "t_id ?t" ?ds _ "t_status ?t"] by metis
    then show ?thesis
      using publish_view(2) [OF pub free1] un2 dep_inv_intents [OF assms(2)] by (simp add: dep_inv_def unseen_def)
  qed
qed

lemma create_locked_dep_inv:
  assumes "create_locked en inp st = (Inr t', st')" "dep_inv st"
  shows "dep_inv st'"
proof -
  from assms(1) obtain cfg st1 where chk: "check_blocked_by en (id_text (tc_next_task_id cfg)) (ti_blocked_by inp) st = (Inr (), st1)"
    and k: "create_or_replay en inp cfg st1 = (Inr t', st')"
    by (auto simp: create_locked_def split: sum.splits option.splits if_splits elim!: andthen_InrE)
  have un: "unseen st st1" using unseen_reads [OF reads_check_blocked_by calm_check_blocked_by chk] .
  have known: "view_of st d \<noteq> None" if "d \<in> set (opt_default [] (ti_blocked_by inp))" for d
    using chk that check_deps_known by (auto simp: check_blocked_by_def split: option.splits elim!: andthen_InrE)
  have fresh: "dep_inv st'" if "create_fresh en inp sh cfg st2 = (Inr t', st')" "unseen st st2" for sh st2
    using create_fresh_dep_inv [OF that(1)] unseen_dep_inv [OF that(2)] that(2) assms(2) known
    by (simp add: unseen_def)
  show ?thesis
  proof (cases "ti_request_id inp")
    case None
    with k have "create_fresh en inp None cfg st1 = (Inr t', st')" by (simp add: create_or_replay_def)
    then show ?thesis using fresh un by blast
  next
    case (Some rid)
    with k obtain found st2 where find: "find_task_by_request_id en rid st1 = (Inr found, st2)"
      and k2: "(case found of None \<Rightarrow> create_fresh en inp (Some (canonical_request_sha (en_sha en) (ti_subject inp)
            (ti_description inp) (ti_owner inp) (ti_blocked_by inp))) cfg
         | Some t \<Rightarrow> (if t_request_sha t \<noteq> Some (canonical_request_sha (en_sha en) (ti_subject inp)
            (ti_description inp) (ti_owner inp) (ti_blocked_by inp)) then throw E_TEAM_TASK_IDEMPOTENCY_CONFLICT
             else andthen (repair_next_id en cfg t) (\<lambda>_. ret t))) st2 = (Inr t', st')"
      unfolding create_or_replay_def by (simp add: Let_def, elim andthen_InrE [of "find_task_by_request_id _ _"])
    have un2: "unseen st st2"
      using unseen_trans [OF un unseen_reads [OF reads_find_task_by_request_id calm_find find]] .
    show ?thesis
    proof (cases found)
      case None
      with k2 fresh un2 show ?thesis by simp
    next
      case (Some t)
      have r: "reads (repair_next_id en cfg t)" "calm (repair_next_id en cfg t)"
        by (auto simp: repair_next_id_def Let_def)
      from k2 Some obtain u where "repair_next_id en cfg t st2 = (Inr u, st')"
        by (auto split: if_splits elim!: andthen_InrE)
      from unseen_dep_inv [OF unseen_trans [OF un2 unseen_reads [OF r this]]] show ?thesis using assms(2) by simp
    qed
  qed
qed

section \<open>The invariant along operations\<close>

fun returns :: "env \<Rightarrow> team_op \<Rightarrow> team \<Rightarrow> bool" where
  \<comment> \<open>the operation answers (with a result or a refusal) instead of throwing\<close>
  "returns en (Create inp) st = is_ok (fst (create_task en inp st))"
| "returns en (Claim tid w co) st = is_ok (fst (claim_task en tid w co st))"
| "returns en (Renew tid w token ro) st = is_ok (fst (renew_task_claim en tid w token ro st))"
| "returns en (Reclaim tid w rc) st = is_ok (fst (reclaim_task en tid w rc st))"
| "returns en (Transition tid a b token tr) st = is_ok (fst (transition_task_status en tid a b token tr st))"
| "returns en (Release tid token w rl) st = is_ok (fst (release_task_claim en tid token w rl st))"
| "returns en (Reopen tid reason) st = is_ok (fst (reopen_task en tid reason st))"
| "returns en (Read tid) st = is_ok (fst (read_task_op en tid st))"
| "returns en Summary st = is_ok (fst (get_team_summary en st))"

lemma with_worker_Inr:
  assumes "with_worker tid w m st = (Inr r, st')"
  shows "st' = st \<or> m st = (Inr r, st')"
  using assms by (auto simp: with_worker_def split: if_splits sum.splits option.splits)

lemma calm_queries: "calm (read_task_op en tid)" "calm (get_team_summary en)"
proof -
  have c: "calm (collect_tasks en is)" for "is" by (induction "is") auto
  have l: "calm (list_tasks en)"
    unfolding list_tasks_def by (rule calm_state) (intro calm_andthen c calm_simps)
  show "calm (read_task_op en tid)" by (simp add: read_task_op_def)
  have "calm (\<lambda>st. case q st of Inl e \<Rightarrow> throw e st | Inr None \<Rightarrow> ret None st
        | Inr (Some cfg) \<Rightarrow> andthen (list_tasks en) (\<lambda>ts. ret (f cfg ts)) st)"
    for q :: "team \<Rightarrow> team_error + 'c option" and f :: "'c \<Rightarrow> task list \<Rightarrow> summary option"
    using calm_andthen [OF l, of "\<lambda>ts. ret (f _ ts)"] unfolding calm_def
    by (auto split: sum.splits option.splits)
  then show "calm (get_team_summary en)" unfolding get_team_summary_def .
qed

lemma run_op_dep_inv:
  assumes "run_op en op st = (new, st')" "returns en op st" "en_unlink en" "dep_inv st"
  shows "dep_inv st'"
proof (cases op)
  case (Create inp)
  with assms obtain t where "create_task en inp st = (Inr t, st')" by (auto simp: is_ok_iff prod_eq_iff)
  then show ?thesis
    using create_locked_dep_inv [OF _ assms(4)]
    by (auto simp: create_task_def Let_def no_intents_lock [OF dep_inv_intents [OF assms(4)]] split: if_splits)
next
  case (Claim tid w co)
  with assms obtain r where "claim_task en tid w co st = (Inr r, st')" by (auto simp: is_ok_iff prod_eq_iff split: prod.splits)
  then show ?thesis
    using claim_dep_inv assms(4) no_intents_worker [OF dep_inv_intents [OF assms(4)]] with_worker_Inr
    unfolding claim_task_def by metis
next
  case (Renew tid w token ro)
  with assms obtain r where "renew_task_claim en tid w token ro st = (Inr r, st')" by (auto simp: is_ok_iff prod_eq_iff)
  then show ?thesis using renew_dep_inv assms(4) with_worker_Inr unfolding renew_task_claim_def by metis
next
  case (Reclaim tid w rc)
  with assms obtain r where "reclaim_task en tid w rc st = (Inr r, st')" by (auto simp: is_ok_iff prod_eq_iff split: prod.splits)
  then show ?thesis
    using reclaim_dep_inv assms(4) no_intents_worker [OF dep_inv_intents [OF assms(4)]] with_worker_Inr
    unfolding reclaim_task_def by metis
next
  case (Transition tid a b token tr)
  with assms obtain r where "transition_task_status en tid a b token tr st = (Inr r, st')" by (auto simp: is_ok_iff prod_eq_iff)
  then show ?thesis
    using transition_dep_inv [OF _ assms(4)] assms(4)
    by (auto simp: transition_task_status_def Let_def no_intents_lock [OF dep_inv_intents [OF assms(4)]] split: if_splits)
next
  case (Release tid token w rl)
  with assms obtain r where "release_task_claim en tid token w rl st = (Inr r, st')" by (auto simp: is_ok_iff prod_eq_iff)
  then show ?thesis using release_dep_inv assms(4) by blast
next
  case (Reopen tid reason)
  with assms obtain r where "reopen_task en tid reason st = (Inr r, st')" by (auto simp: is_ok_iff prod_eq_iff)
  then show ?thesis
    using reopen_dep_inv [OF _ assms(4,3)]
    by (simp add: reopen_task_def no_intents_lock [OF dep_inv_intents [OF assms(4)]] split: if_splits)
next
  case (Read tid)
  with assms show ?thesis
    using unseen_reads [OF reads_queries(1) calm_queries(1), of en tid st] unseen_dep_inv by (metis prod.collapse run_op.simps(8) snd_conv)
next
  case Summary
  with assms show ?thesis
    using unseen_reads [OF reads_queries(3) calm_queries(2), of en st] unseen_dep_inv by (metis prod.collapse run_op.simps(9) snd_conv)
qed

section \<open>Properties\<close>


lemma ex_two_view: "view_of ex_two = [''1'' \<mapsto> (TCompleted, []), ''2'' \<mapsto> (TPending, [''1''])]"
proof
  fix i
  have "view_of ex_two ''1'' = Some (TCompleted, [])" "view_of ex_two ''2'' = Some (TPending, [''1''])"
    by code_simp+
  moreover have "view_of ex_two i = None" if "i \<noteq> ''1''" "i \<noteq> ''2''"
    using that by (auto simp: view_of_def raw_task_def file_task_def rebuild_from_journal_def ex_two_def
        ex_team_def ex_task_def dget_Cons)
  ultimately show "view_of ex_two i = [''1'' \<mapsto> (TCompleted, []), ''2'' \<mapsto> (TPending, [''1''])] i"
    by (cases "i = ''1''"; cases "i = ''2''") auto
qed

lemma ex_two_inv: "dep_inv ex_two"
  by (auto simp: dep_inv_def consistent_def ex_two_view done_in_def split: if_splits)
    (simp add: ex_two_def ex_team_def)

lemma ex_two_reopens: "returns (ex_env 100 ''T1'') (Reopen ''1'' None) ex_two"
  by code_simp


definition waits_for :: "team \<Rightarrow> (string \<times> string) set" where
  "waits_for st = {(i, d). \<exists>s ds. view_of st i = Some (s, ds) \<and> d \<in> set ds}"

lemma waits_for_blocked:
  assumes "(i, d) \<in> (waits_for st)\<^sup>+" "consistent (view_of st)" "\<not> done_in (view_of st) d"
  shows "\<exists>ds. view_of st i = Some (TBlocked, ds)"
  using assms(1)
proof (induction rule: converse_trancl_induct)
  case (base i)
  with assms(2,3) show ?case unfolding waits_for_def consistent_def by blast
next
  case (step i j)
  then have "\<not> done_in (view_of st) j" by (auto simp: done_in_def)
  with step(1) assms(2) show ?case unfolding waits_for_def consistent_def by blast
qed


definition ex_three :: team where
  "ex_three = snd (run_op (ex_env 100 ''T1'') (Reopen ''1'' None) ex_two)"

lemma ex_three_view: "view_of ex_three ''1'' = Some (TPending, []) \<and> view_of ex_three ''2'' = Some (TBlocked, [''1''])"
  by code_simp


end
