(* ===== verification/Dates.thy ===== *)
theory Dates
  imports Json
begin

text \<open>
  Reading back the ISO text of an instant.  Every source validates a stored date by
  \<^verbatim>\<open>new Date(Date.parse(s)).toISOString() === s\<close>, so only the texts \<open>iso\<close> produces pass,
  whatever \<^verbatim>\<open>Date.parse\<close> makes of other texts; \<open>iso_read\<close> is that composition.
  The round trip holds for every instant a \<^verbatim>\<open>Date\<close> can hold.
\<close>

section \<open>Definitions\<close>

definition days_of_civil :: "int \<Rightarrow> int \<Rightarrow> int \<Rightarrow> int" where
  "days_of_civil year month day = (let
     y = (if month \<le> 2 then year - 1 else year);
     era = y div 400;
     yoe = y mod 400;
     mp = (if month \<le> 2 then month + 9 else month - 3);
     doy = (153 * mp + 2) div 5 + day - 1
   in era * 146097 + (yoe * 365 + yoe div 4 - yoe div 100 + doy) - 719468)"

definition valid_time :: "ms \<Rightarrow> bool" where
  \<comment> \<open>the range of ECMAScript time values\<close>
  "valid_time t = (\<bar>t\<bar> \<le> 8640000000000000)"

definition read_field :: "nat \<Rightarrow> nat \<Rightarrow> string \<Rightarrow> int" where
  "read_field k w s = int (undec_nat (take w (drop k s)))"

definition iso_fields :: "int \<Rightarrow> string \<Rightarrow> ms" where
  \<comment> \<open>the instant of a year and of the text after it\<close>
  "iso_fields y r = days_of_civil y (read_field 1 2 r) (read_field 4 2 r) * 86400000
     + read_field 7 2 r * 3600000 + read_field 10 2 r * 60000 + read_field 13 2 r * 1000 + read_field 16 3 r"

definition iso_time :: "string \<Rightarrow> ms" where
  "iso_time s = (case s of
     [] \<Rightarrow> 0
   | c # cs \<Rightarrow>
       if c = CHR ''+'' then iso_fields (int (undec_nat (take 6 cs))) (drop 6 cs)
       else if c = CHR ''-'' then iso_fields (- int (undec_nat (take 6 cs))) (drop 6 cs)
       else iso_fields (int (undec_nat (take 4 s))) (drop 4 s))"

definition iso_read :: "string \<Rightarrow> ms option" where
  "iso_read s = (let t = iso_time s in if valid_time t \<and> iso t = s then Some t else None)"

definition valid_date :: "string \<Rightarrow> bool" where
  "valid_date s = (iso_read s \<noteq> None)"

definition jdate :: "json option \<Rightarrow> ms option" where
  \<comment> \<open>the instant of a member, when it is a valid date\<close>
  "jdate v = (case jstr v of None \<Rightarrow> None | Some s \<Rightarrow> iso_read s)"

section \<open>Calendar\<close>

lemma century_bounds:
  fixes d q k :: int
  assumes "36524 * k \<le> d" "d < 36524 * k + 36524" "1460 * q \<le> d" "d < 1460 * q + 1460" "0 \<le> k" "k \<le> 3"
  shows "36500 * k \<le> d - q + k" "d - q + k < 36500 * k + 36500"
  using assms by linarith+

lemma doy_bounds:
  fixes doe :: int
  assumes "0 \<le> doe" "doe \<le> 146096"
  defines "y \<equiv> (doe - doe div 1460 + doe div 36524 - doe div 146096) div 365"
  shows "0 \<le> y" "y \<le> 399" "0 \<le> doe - (365 * y + y div 4 - y div 100)" "doe - (365 * y + y div 4 - y div 100) \<le> 365"
proof -
  define q1 q2 q3 where q: "q1 = doe div 1460" "q2 = doe div 36524" "q3 = doe div 146096"
  have q1: "1460 * q1 \<le> doe" "doe < 1460 * q1 + 1460" unfolding q by linarith+
  have q2: "36524 * q2 \<le> doe" "doe < 36524 * q2 + 36524" unfolding q by linarith+
  have q3: "146096 * q3 \<le> doe" "doe < 146096 * q3 + 146096" unfolding q by linarith+
  have y: "365 * y \<le> doe - q1 + q2 - q3" "doe - q1 + q2 - q3 < 365 * y + 365" unfolding y_def q by linarith+
  show y0: "0 \<le> y" using assms q1 q2 q3 y by linarith
  have q3': "q3 = 0 \<or> q3 = 1" using q3 assms by linarith
  have q2': "q2 = 0 \<or> q2 = 1 \<or> q2 = 2 \<or> q2 = 3 \<or> (q2 = 4 \<and> doe = 146096)" using q2 assms by linarith
  have "doe - q1 + q2 - q3 < 146000"
  proof (cases "q2 \<le> 3")
    case True
    have "0 \<le> q3" using q3' by linarith
    then show ?thesis using True q1(2) assms(2) by linarith
  next
    case False
    then have "doe = 146096" "q2 = 4" using q2' by linarith+
    then show ?thesis using q1 q3' q3 by linarith
  qed
  then show y1: "y \<le> 399" using y(1) by linarith
  define c b a where cba: "c = y div 100" "b = y mod 100 div 4" "a = y mod 100 mod 4"
  have a: "0 \<le> a" "a \<le> 3" and b: "0 \<le> b" "b \<le> 24" and c: "0 \<le> c" "c \<le> 3"
    unfolding cba using y0 y1 by linarith+
  have yc1: "y = 100 * c + 4 * b + a"
    unfolding cba by (metis add.assoc mult_div_mod_eq)
  have "y div 4 = 25 * c + b" using a yc1 by linarith
  note yc = yc1 this cba(1) [symmetric]
  have "0 \<le> doe - (36524 * c + 1461 * b + 365 * a) \<and> doe - (36524 * c + 1461 * b + 365 * a) \<le> 365"
  proof (cases "q3 = 1")
    case True
    then have "doe = 146096" using q3 assms by linarith
    then have "y = 399" by (simp add: y_def)
    then show ?thesis using \<open>doe = 146096\<close> by (simp add: cba)
  next
    case False
    then have q3: "q3 = 0" using q3' by blast
    have "doe < 146096" using q3 \<open>doe < 146096 * q3 + 146096\<close> by simp
    then have k: "0 \<le> q2" "q2 \<le> 3" using q2' by auto
    define N where "N = doe - q1 + q2"
    have N: "365 * y \<le> N" "N < 365 * y + 365" using y q3 unfolding N_def by linarith+
    note N' = century_bounds [OF q2 q1 k, folded N_def]
    have "100 * q2 \<le> y" "y < 100 * q2 + 100" using N N' by linarith+
    then have "c = q2" unfolding cba(1) by linarith
    define e where "e = doe - 36524 * c"
    define r where "r = q1 - 25 * c"
    have er: "1460 * r \<le> e + 24 * c" "e + 24 * c < 1460 * r + 1460" "0 \<le> e"
      using q1 q2(1) unfolding e_def r_def \<open>c = q2\<close> by (simp_all add: algebra_simps)
    have eb: "1460 * b + 365 * a \<le> e - r" "e - r < 1460 * b + 365 * a + 365"
      using N unfolding yc(1) N_def e_def r_def \<open>c = q2\<close> by (simp_all add: algebra_simps)
    have "0 \<le> r" using er c by linarith
    have "b \<le> r" using er eb a c \<open>0 \<le> r\<close> by linarith
    moreover have "r \<le> b + 1" using er eb a b c by linarith
    ultimately show ?thesis using eb unfolding e_def by linarith
  qed
  then show "0 \<le> doe - (365 * y + y div 4 - y div 100)" "doe - (365 * y + y div 4 - y div 100) \<le> 365"
    unfolding yc(2,3) using yc(1) by linarith+
qed

lemma civil_round_trip:
  assumes "civil_of_days d = (y, m, a)"
  shows "days_of_civil y m a = d" "1 \<le> m" "m \<le> 12" "1 \<le> a" "a \<le> 31"
    "y \<le> (d + 719468) div 146097 * 400 + 400" "(d + 719468) div 146097 * 400 \<le> y"
proof -
  define z where "z = d + 719468"
  define doe where "doe = z mod 146097"
  define yoe where "yoe = (doe - doe div 1460 + doe div 36524 - doe div 146096) div 365"
  define doy where "doy = doe - (365 * yoe + yoe div 4 - yoe div 100)"
  define mp where "mp = (5 * doy + 2) div 153"
  define day where "day = doy - (153 * mp + 2) div 5 + 1"
  define month where "month = (if mp < 10 then mp + 3 else mp - 9)"
  have eqs: "y = yoe + z div 146097 * 400 + (if month \<le> 2 then 1 else 0)" "m = month" "a = day"
    using assms unfolding civil_of_days_def Let_def z_def [symmetric] doe_def [symmetric]
      yoe_def [symmetric] doy_def [symmetric] mp_def [symmetric] day_def [symmetric] month_def [symmetric]
    by auto
  have doe: "0 \<le> doe" "doe \<le> 146096" unfolding doe_def by auto
  note b = doy_bounds [OF doe, folded yoe_def]
  have yoe: "0 \<le> yoe" "yoe \<le> 399" by (fact b)+
  have doy: "0 \<le> doy" "doy \<le> 365" using b(3,4) unfolding doy_def by simp_all
  have mp: "0 \<le> mp" "mp \<le> 11" unfolding mp_def using doy by linarith+
  have day: "1 \<le> day" "day \<le> 31" unfolding day_def using mp(1) doy mp_def by linarith+
  show "1 \<le> m" "m \<le> 12" "1 \<le> a" "a \<le> 31" using mp day by (auto simp: eqs month_def)
  show "y \<le> (d + 719468) div 146097 * 400 + 400" "(d + 719468) div 146097 * 400 \<le> y"
    using yoe by (auto simp: eqs z_def)
  have y': "(if m \<le> 2 then y - 1 else y) = yoe + z div 146097 * 400" by (simp add: eqs)
  have mp': "(if m \<le> 2 then m + 9 else m - 3) = mp" using mp by (auto simp: eqs month_def)
  have "z = z div 146097 * 146097 + doe" unfolding doe_def by simp
  then show "days_of_civil y m a = d"
    unfolding days_of_civil_def Let_def y' mp' using yoe
    by (simp add: eqs day_def doy_def z_def)
qed

section \<open>Digits\<close>

lemma length_dec_nat: "n < 10 ^ k \<Longrightarrow> 0 < k \<Longrightarrow> length (dec_nat n) \<le> k"
proof (induction k arbitrary: n)
  case (Suc k)
  show ?case
  proof (cases "n < 10")
    case False
    then have "0 < k" using Suc.prems(1) by (cases k) auto
    moreover have "n div 10 < 10 ^ k" using Suc.prems(1) by (simp add: less_mult_imp_div_less)
    ultimately show ?thesis using Suc.IH [of "n div 10"] False by (simp add: dec_nat.simps [of n])
  qed (simp add: dec_nat.simps [of n])
qed simp

lemma undec_zeros: "undec_nat (replicate j (CHR ''0'') @ s) = undec_nat s"
  by (induction j) (simp_all add: undec_nat_def)

lemma padded_field:
  assumes "n < 10 ^ k" "0 < k"
  shows "length (pad_left k (dec_nat n)) = k" "undec_nat (pad_left k (dec_nat n)) = n"
    "list_all is_digit (pad_left k (dec_nat n))"
  using length_dec_nat [OF assms] dec_nat_digits [of n]
  by (auto simp: undec_zeros list_all_iff is_digit_def)

declare pad_left.simps [simp del]

lemma iso_fields_text:
  assumes "length M = 2" "length D = 2" "length H = 2" "length I = 2" "length S = 2" "length L = 3"
  shows "iso_fields y (CHR ''-'' # M @ CHR ''-'' # D @ CHR ''T'' # H @ CHR '':'' # I @ CHR '':'' # S @ CHR ''.'' # L @ z) =
    days_of_civil y (int (undec_nat M)) (int (undec_nat D)) * 86400000 + int (undec_nat H) * 3600000
      + int (undec_nat I) * 60000 + int (undec_nat S) * 1000 + int (undec_nat L)"
  using assms by (simp add: iso_fields_def read_field_def)

lemma iso_time_year:
  assumes "\<bar>y\<bar> < 1000000"
  shows "iso_time (iso_year y @ r) = iso_fields y r"
proof -
  have small: "nat y < 10 ^ 4" if "y \<le> 9999" using that by simp
  have big: "nat \<bar>y\<bar> < 10 ^ 6" using assms by simp
  show ?thesis
  proof (cases "0 \<le> y \<and> y \<le> 9999")
    case True
    note f = padded_field [OF small, simplified]
    obtain c cs where c: "pad_left 4 (dec_nat (nat y)) = c # cs" "is_digit c" "length cs = 3"
      using f(1,3) True by (cases "pad_left 4 (dec_nat (nat y))") auto
    moreover have "c \<noteq> CHR ''+''" "c \<noteq> CHR ''-''" using c(2) by (auto simp: is_digit_def)
    ultimately show ?thesis
      using f(1,2) True by (simp add: iso_time_def iso_year_def)
  next
    case False
    note f = padded_field [OF big, simplified]
    show ?thesis
    proof (cases "y < 0")
      case True
      then show ?thesis using f by (simp add: iso_time_def iso_year_def)
    next
      case False
      then show ?thesis using f \<open>\<not> (0 \<le> y \<and> y \<le> 9999)\<close> by (simp add: iso_time_def iso_year_def)
    qed
  qed
qed

section \<open>Round trip\<close>

lemma iso_time_iso:
  assumes "valid_time t"
  shows "iso_time (iso t) = t"
proof -
  define days r where "days = t div 86400000" and "r = t mod 86400000"
  obtain y m a where civil: "civil_of_days days = (y, m, a)" by (cases "civil_of_days days") auto
  note c = civil_round_trip [OF civil]
  have "\<bar>days\<bar> \<le> 100000000" using assms unfolding valid_time_def days_def by linarith
  then have y: "\<bar>y\<bar> < 1000000" using c(6,7) by linarith
  have r: "0 \<le> r" "r < 86400000" unfolding r_def by auto
  have b: "nat m < 10 ^ 2" "nat a < 10 ^ 2" "nat (r div 3600000) < 10 ^ 2" "nat (r div 60000 mod 60) < 10 ^ 2"
    "nat (r div 1000 mod 60) < 10 ^ 2" "nat (r mod 1000) < 10 ^ 3"
    using c r by auto
  have len: "length (pad_left 2 (dec_nat n)) = 2" "undec_nat (pad_left 2 (dec_nat n)) = n" if "n < 10 ^ 2" for n
    using padded_field [OF that] by simp_all
  have len3: "length (pad_left 3 (dec_nat n)) = 3" "undec_nat (pad_left 3 (dec_nat n)) = n" if "n < 10 ^ 3" for n
    using padded_field [OF that] by simp_all
  have "iso t = iso_year y @ CHR ''-'' # pad_left 2 (dec_nat (nat m)) @ CHR ''-'' # pad_left 2 (dec_nat (nat a))
      @ CHR ''T'' # pad_left 2 (dec_nat (nat (r div 3600000))) @ CHR '':'' # pad_left 2 (dec_nat (nat (r div 60000 mod 60)))
      @ CHR '':'' # pad_left 2 (dec_nat (nat (r div 1000 mod 60))) @ CHR ''.'' # pad_left 3 (dec_nat (nat (r mod 1000))) @ ''Z''"
    unfolding iso_def Let_def days_def [symmetric] r_def [symmetric] civil by simp
  then have "iso_time (iso t) = days_of_civil y (int (nat m)) (int (nat a)) * 86400000 + int (nat (r div 3600000)) * 3600000
      + int (nat (r div 60000 mod 60)) * 60000 + int (nat (r div 1000 mod 60)) * 1000 + int (nat (r mod 1000))"
    by (simp only: iso_time_year [OF y] iso_fields_text len len3 b)
  also have "\<dots> = days_of_civil y m a * 86400000 + r div 3600000 * 3600000
      + r div 60000 mod 60 * 60000 + r div 1000 mod 60 * 1000 + r mod 1000"
    using c(2,4) r(1) by (simp add: pos_imp_zdiv_nonneg_iff)
  also have "days_of_civil y m a = days" by (rule c)
  also have "days * 86400000 + r div 3600000 * 3600000 + r div 60000 mod 60 * 60000 + r div 1000 mod 60 * 1000 + r mod 1000
      = days * 86400000 + r"
  proof -
    have "r div 3600000 = r div 60000 div 60" "r div 60000 = r div 1000 div 60"
      using zdiv_zmult2_eq [of 60 r 60000] zdiv_zmult2_eq [of 60 r 1000] by simp_all
    then show ?thesis
      using mult_div_mod_eq [of 60 "r div 60000"] mult_div_mod_eq [of 60 "r div 1000"] mult_div_mod_eq [of 1000 r]
      by linarith
  qed
  also have "\<dots> = t" unfolding days_def r_def by simp
  finally show ?thesis .
qed

lemma iso_read_iso [simp]: "valid_time t \<Longrightarrow> iso_read (iso t) = Some t"
  by (simp add: iso_read_def iso_time_iso)

lemma iso_read_Some_iff: "iso_read s = Some t \<longleftrightarrow> valid_time t \<and> s = iso t"
  by (auto simp: iso_read_def Let_def iso_time_iso)

lemma iso_inject: "valid_time t \<Longrightarrow> valid_time u \<Longrightarrow> iso t = iso u \<longleftrightarrow> t = u"
  by (metis iso_time_iso)

lemma jdate_jiso [simp]: "valid_time t \<Longrightarrow> jdate (Some (jiso t)) = Some t"
  by (simp add: jdate_def jiso_def jstr_def)

lemma jdate_JStr [simp]: "jdate (Some (JStr s)) = iso_read s"
  by (simp add: jdate_def jstr_def)

lemma jdate_Some_iff: "jdate v = Some t \<longleftrightarrow> valid_time t \<and> v = Some (jiso t)"
  by (auto simp: jdate_def jiso_def iso_read_Some_iff jstr_Some_iff jstr_def split: option.splits json.splits)

end
