(* ===== verification/Authority.thy ===== *)
theory Authority
  imports Dates
begin

text \<open>
  The command line's mutation authority (\<^verbatim>\<open>src/state/authority.ts\<close>): the owner record of a state
  root, which must be a private regular file in a private directory, its creation on first use, the
  check every mutation starts with, and the repair that quarantines an invalid record.

  The file system answers with the attributes of the directory and of the record; a new token is an
  argument of the operation that draws it.
\<close>

section \<open>State\<close>

datatype owner_error =
    E_OWNER_ROOT_UNSAFE | E_OWNER_ROOT_NOT_OWNED | E_OWNER_ROOT_MODE_UNSAFE
  | E_OWNER_RECORD_UNSAFE | E_OWNER_RECORD_NOT_OWNED | E_OWNER_RECORD_MODE_UNSAFE
  | E_OWNER_RECORD_SIZE_UNSAFE | E_OWNER_RECORD_CHANGED | E_OWNER_RECORD_INVALID
  | E_OWNER_RECORD_REPAIR_UNSAFE | E_OWNER_ABSENT \<comment> \<open>\<^verbatim>\<open>ENOENT\<close>\<close> | E_OWNER_WRITE
  | E_CLI_MUTATION_AUTHORITY_REQUIRED | E_CLI_MUTATION_AUTHORITY_STALE

record node =
  nd_kind_ok :: bool  \<comment> \<open>a directory (for the root), a regular file (for the record), no symbolic link\<close>
  nd_owned :: bool    \<comment> \<open>owned by the user, where the platform has users\<close>
  nd_private :: bool  \<comment> \<open>no permission for group or others, where the platform has modes\<close>

record owner_file =
  of_node :: node
  of_size :: nat
  of_changed :: bool  \<comment> \<open>another file took its place between \<^verbatim>\<open>lstat\<close> and \<^verbatim>\<open>open\<close>\<close>
  of_body :: "json option"  \<comment> \<open>what \<^verbatim>\<open>JSON.parse\<close> makes of it, \<open>None\<close> a syntax error\<close>

record owner_root =
  or_dir :: node
  or_file :: "owner_file option"
  or_quarantine :: "owner_file list"

definition OWNER_RECORD_MAX_BYTES :: nat where "OWNER_RECORD_MAX_BYTES = 4 * 1024"

section \<open>Reading the record\<close>

definition assert_owner_root :: "owner_root \<Rightarrow> owner_error + unit" where
  "assert_owner_root r = rbind (guard (nd_kind_ok (or_dir r)) E_OWNER_ROOT_UNSAFE) (\<lambda>_.
     rbind (guard (nd_owned (or_dir r)) E_OWNER_ROOT_NOT_OWNED) (\<lambda>_.
     guard (nd_private (or_dir r)) E_OWNER_ROOT_MODE_UNSAFE))"

definition read_owner_snapshot :: "owner_root \<Rightarrow> bool \<Rightarrow> owner_error + owner_file" where
  "read_owner_snapshot r allow_empty = (case or_file r of
     None \<Rightarrow> Inl E_OWNER_ABSENT
   | Some f \<Rightarrow>
       rbind (guard (nd_kind_ok (of_node f)) E_OWNER_RECORD_UNSAFE) (\<lambda>_.
       rbind (guard (nd_owned (of_node f)) E_OWNER_RECORD_NOT_OWNED) (\<lambda>_.
       rbind (guard (nd_private (of_node f)) E_OWNER_RECORD_MODE_UNSAFE) (\<lambda>_.
       rbind (guard ((allow_empty \<or> 1 \<le> of_size f) \<and> of_size f \<le> OWNER_RECORD_MAX_BYTES)
         E_OWNER_RECORD_SIZE_UNSAFE) (\<lambda>_.
       rbind (guard (\<not> of_changed f) E_OWNER_RECORD_CHANGED) (\<lambda>_. Inr f))))))"

definition parse_owner :: "json option \<Rightarrow> owner_error + string" where
  \<comment> \<open>the owner token of a valid record\<close>
  "parse_owner body = (case body of
     None \<Rightarrow> Inl E_OWNER_RECORD_INVALID
   | Some v \<Rightarrow>
       if has_keys v {''created_at'', ''owner_token'', ''schema_version''}
          \<and> jget v ''schema_version'' = Some (JNum 1)
          \<and> opt_all hex64 (jstr (jget v ''owner_token'')) \<and> jstr (jget v ''owner_token'') \<noteq> None
          \<and> jdate (jget v ''created_at'') \<noteq> None
       then Inr (opt_default [] (jstr (jget v ''owner_token'')))
       else Inl E_OWNER_RECORD_INVALID)"

definition read_owner :: "owner_root \<Rightarrow> owner_error + string" where
  "read_owner r = rbind (read_owner_snapshot r False) (\<lambda>f. parse_owner (of_body f))"

section \<open>Operations\<close>

definition validate_existing_owner :: "owner_root \<Rightarrow> owner_error + unit" where
  "validate_existing_owner r = rbind (assert_owner_root r) (\<lambda>_.
     case read_owner r of
       Inl E_OWNER_ABSENT \<Rightarrow> Inr ()
     | Inl e \<Rightarrow> Inl e
     | Inr _ \<Rightarrow> Inr ())"

definition owner_json :: "string \<Rightarrow> ms \<Rightarrow> json" where
  "owner_json token now = JObj [(''schema_version'', JNum 1), (''owner_token'', JStr token), (''created_at'', jiso now)]"

definition owner_record :: "string \<Rightarrow> ms \<Rightarrow> owner_file" where
  \<comment> \<open>the file \<^verbatim>\<open>atomicCreateJson\<close> makes, with mode 0600\<close>
  "owner_record token now = \<lparr>of_node = \<lparr>nd_kind_ok = True, nd_owned = True, nd_private = True\<rparr>,
     of_size = file_bytes (owner_json token now), of_changed = False, of_body = Some (owner_json token now)\<rparr>"

definition create_authority :: "write_result \<Rightarrow> string \<Rightarrow> ms \<Rightarrow> (owner_root, owner_error, string) act" where
  "create_authority w token now r = (case assert_owner_root r of Inl e \<Rightarrow> (Inl e, r) | Inr _ \<Rightarrow>
     (case read_owner r of
        Inr t \<Rightarrow> (Inr t, r)
      | Inl e \<Rightarrow>
          if or_file r \<noteq> None then (Inl e, r)
          else if OWNER_RECORD_MAX_BYTES < file_bytes (owner_json token now) then (Inl E_OWNER_WRITE, r)
          else case w of
            WriteFailed \<Rightarrow> (Inl E_OWNER_WRITE, r)
          | WriteOk \<Rightarrow> (Inr token, r\<lparr>or_file := Some (owner_record token now)\<rparr>)
          | WriteUnknown \<Rightarrow> (let r' = r\<lparr>or_file := Some (owner_record token now)\<rparr> in (read_owner r', r'))))"

definition assert_authority :: "string \<Rightarrow> owner_root \<Rightarrow> owner_error + unit" where
  "assert_authority token r =
     rbind (guard (32 \<le> length token) E_CLI_MUTATION_AUTHORITY_REQUIRED) (\<lambda>_.
     rbind (assert_owner_root r) (\<lambda>_. rbind (read_owner r) (\<lambda>t.
     guard (t = token) E_CLI_MUTATION_AUTHORITY_STALE)))"

definition quarantine_invalid_owner :: "(owner_root, owner_error, bool) act" where
  \<comment> \<open>whether a record was moved away\<close>
  "quarantine_invalid_owner r = (case assert_owner_root r of Inl e \<Rightarrow> (Inl e, r) | Inr _ \<Rightarrow>
     (case read_owner_snapshot r True of
        Inl E_OWNER_ABSENT \<Rightarrow> (Inr False, r)
      | Inl E_OWNER_RECORD_UNSAFE \<Rightarrow> (Inl E_OWNER_RECORD_REPAIR_UNSAFE, r)
      | Inl e \<Rightarrow> (Inl e, r)
      | Inr f \<Rightarrow> (if is_ok (parse_owner (of_body f)) then (Inr False, r)
                 else (Inr True, r\<lparr>or_file := None, or_quarantine := or_quarantine r @ [f]\<rparr>))))"

section \<open>Laws\<close>

lemma parse_owner_json:
  assumes "hex64 token" "valid_time now"
  shows "parse_owner (Some (owner_json token now)) = Inr token"
  using assms by (simp add: parse_owner_def owner_json_def has_keys_def jget_def jstr_def jiso_def insert_commute)

lemma create_authority_InrD:
  assumes "create_authority w token now r = (Inr t, r')" "hex64 token" "valid_time now"
  shows "assert_owner_root r' = Inr ()" "read_owner r' = Inr t"
proof -
  have new: "read_owner (r\<lparr>or_file := Some (owner_record token now)\<rparr>) = Inr token"
    if "file_bytes (owner_json token now) \<le> OWNER_RECORD_MAX_BYTES"
    using assms(2,3) that
    by (simp add: read_owner_def read_owner_snapshot_def owner_record_def parse_owner_json)
  show "assert_owner_root r' = Inr ()" "read_owner r' = Inr t"
    using assms(1) new
    by (auto simp: create_authority_def assert_owner_root_def Let_def
        split: sum.splits if_splits write_result.splits)
qed

lemma read_owner_token: "read_owner r = Inr t \<Longrightarrow> hex64 t"
  by (auto simp: read_owner_def parse_owner_def rbind_Inr_iff split: option.splits if_splits)

section \<open>Properties\<close>

text \<open>C9: The authority of a root is created once. After a successful creation every later creation,
  with whatever fresh token and write outcome, returns the same token and changes nothing, and the
  token passes the check every mutation starts with.\<close>

theorem authority_created_once:
  assumes "create_authority w token now r = (Inr t, r')"
    and "hex64 token" "valid_time now"
  shows "create_authority w2 token2 now2 r' = (Inr t, r') \<and> assert_authority t r' = Inr ()"
  using create_authority_InrD [OF assms] read_owner_token [of r' t]
  by (simp add: create_authority_def assert_authority_def hex64_def)

definition ex_root :: owner_root where
  "ex_root = \<lparr>or_dir = \<lparr>nd_kind_ok = True, nd_owned = True, nd_private = True\<rparr>, or_file = None, or_quarantine = []\<rparr>"

theorem authority_created_once_witness:
  "\<exists>r'. create_authority WriteOk (replicate 64 (CHR ''a'')) 0 ex_root = (Inr (replicate 64 (CHR ''a'')), r')
     \<and> create_authority WriteFailed (replicate 64 (CHR ''b'')) 7 r' = (Inr (replicate 64 (CHR ''a'')), r')"
proof -
  let ?a = "replicate 64 (CHR ''a'')"
  obtain r' where r: "create_authority WriteOk ?a 0 ex_root = (Inr ?a, r')"
  proof
    have "\<not> OWNER_RECORD_MAX_BYTES < file_bytes (owner_json ?a 0)" by code_simp
    then show "create_authority WriteOk ?a 0 ex_root = (Inr ?a, ex_root\<lparr>or_file := Some (owner_record ?a 0)\<rparr>)"
      by (simp add: create_authority_def ex_root_def assert_owner_root_def read_owner_def read_owner_snapshot_def)
  qed
  have "hex64 ?a" "valid_time 0"
    by code_simp+
  from authority_created_once [OF r this] r show ?thesis by blast
qed

text \<open>Repair moves only invalid records. When the repair moves a record away, that record did not
  parse as an owner record, it is kept in quarantine unchanged, and the root is left without a record;
  in every other case, a valid record included, nothing changes.\<close>

theorem quarantine_spares_valid:
  "case quarantine_invalid_owner r of
     (Inr True, r') \<Rightarrow> (\<exists>f. or_file r = Some f \<and> \<not> is_ok (parse_owner (of_body f))
        \<and> or_file r' = None \<and> or_quarantine r' = or_quarantine r @ [f])
   | (_, r') \<Rightarrow> r' = r"
  by (auto simp: quarantine_invalid_owner_def read_owner_snapshot_def rbind_Inr_iff
      split: sum.splits bool.splits owner_error.splits option.splits if_splits)

end
