(* ===== verification/RunModel.thy ===== *)
theory RunModel
  imports Authority
begin

text \<open>
  Documents of the run store (\<^verbatim>\<open>src/state/types.ts\<close>, first half of \<^verbatim>\<open>src/state/store.ts\<close>): run states
  and leases as JSON, the type guards that read them back (a guard answers with the typed value it
  establishes, dates as instants), and the round trip between both.
\<close>

section \<open>Run states\<close>

datatype run_status = RActive | RComplete | RFailed | RCancelled

fun status_text :: "run_status \<Rightarrow> string" where
  "status_text RActive = ''active''"
| "status_text RComplete = ''complete''"
| "status_text RFailed = ''failed''"
| "status_text RCancelled = ''cancelled''"

definition status_of :: "string \<Rightarrow> run_status option" where
  "status_of s = (if s = ''active'' then Some RActive else if s = ''complete'' then Some RComplete
     else if s = ''failed'' then Some RFailed else if s = ''cancelled'' then Some RCancelled else None)"

definition TERMINAL_STATUSES :: "run_status set" where
  "TERMINAL_STATUSES = {RComplete, RFailed, RCancelled}"

fun ALLOWED_TRANSITIONS :: "run_status \<Rightarrow> run_status list" where
  "ALLOWED_TRANSITIONS RActive = [RComplete, RFailed, RCancelled]"
| "ALLOWED_TRANSITIONS RComplete = []"
| "ALLOWED_TRANSITIONS RFailed = []"
| "ALLOWED_TRANSITIONS RCancelled = []"

record mutation_proof =
  mp_owner :: string  \<comment> \<open>\<^verbatim>\<open>owner_token_sha256\<close>\<close>
  mp_pid :: int
  mp_at :: ms

datatype verification_record =
    Unverified
  | Verified string ms  \<comment> \<open>\<^verbatim>\<open>evidence_sha256\<close> and \<^verbatim>\<open>verified_at\<close>\<close>

record run_state =
  rs_id :: string
  rs_revision :: int
  rs_status :: run_status
  rs_objective :: string
  rs_created :: ms
  rs_updated :: ms
  rs_verification :: verification_record
  rs_mutation :: mutation_proof

definition safe_key :: "string \<Rightarrow> bool" where
  "safe_key s = key_of_length 127 s"

definition proof_json :: "mutation_proof \<Rightarrow> json" where
  "proof_json m = JObj [(''source'', JStr ''omcu-cli''), (''owner_token_sha256'', JStr (mp_owner m)),
     (''writer_pid'', JNum (mp_pid m)), (''mutated_at'', jiso (mp_at m))]"

definition valid_mutation :: "json option \<Rightarrow> mutation_proof option" where
  "valid_mutation v = (case v of None \<Rightarrow> None | Some v \<Rightarrow>
     if has_keys v {''mutated_at'', ''owner_token_sha256'', ''source'', ''writer_pid''}
        \<and> jget v ''source'' = Some (JStr ''omcu-cli'')
     then (case (jstr (jget v ''owner_token_sha256''), jsafe_int (jget v ''writer_pid''), jdate (jget v ''mutated_at'')) of
         (Some sha, Some pid, Some a) \<Rightarrow> if hex64 sha \<and> 0 < pid then Some \<lparr>mp_owner = sha, mp_pid = pid, mp_at = a\<rparr> else None
       | _ \<Rightarrow> None)
     else None)"

fun verification_json :: "verification_record \<Rightarrow> json" where
  "verification_json Unverified =
     JObj [(''verified'', JBool False), (''evidence_sha256'', JNull), (''verified_at'', JNull)]"
| "verification_json (Verified sha a) =
     JObj [(''verified'', JBool True), (''evidence_sha256'', JStr sha), (''verified_at'', jiso a)]"

definition run_json :: "run_state \<Rightarrow> json" where
  "run_json s = JObj [(''store_kind'', JStr ''run_state''), (''schema_version'', JNum 1), (''repository_id'', JStr ''OMCU''),
     (''run_id'', JStr (rs_id s)), (''revision'', JNum (rs_revision s)), (''status'', JStr (status_text (rs_status s))),
     (''objective'', JStr (rs_objective s)), (''created_at'', jiso (rs_created s)), (''updated_at'', jiso (rs_updated s)),
     (''verification'', verification_json (rs_verification s)), (''last_mutation'', proof_json (rs_mutation s))]"

definition valid_verification :: "run_status \<Rightarrow> ms \<Rightarrow> ms \<Rightarrow> json option \<Rightarrow> verification_record option" where
  "valid_verification status created updated v = (case v of None \<Rightarrow> None | Some v \<Rightarrow>
     if has_keys v {''evidence_sha256'', ''verified'', ''verified_at''} then
       (case jbool (jget v ''verified'') of
          None \<Rightarrow> None
        | Some True \<Rightarrow> (case (jstr (jget v ''evidence_sha256''), jdate (jget v ''verified_at'')) of
            (Some sha, Some a) \<Rightarrow>
              if status = RComplete \<and> hex64 sha \<and> created \<le> a \<and> a \<le> updated then Some (Verified sha a) else None
          | _ \<Rightarrow> None)
        | Some False \<Rightarrow>
            if jget v ''evidence_sha256'' = Some JNull \<and> jget v ''verified_at'' = Some JNull then Some Unverified else None)
     else None)"

definition valid_run_state :: "json \<Rightarrow> string \<Rightarrow> run_state option" where
  "valid_run_state v run_id =
     (if has_keys v {''created_at'', ''last_mutation'', ''objective'', ''repository_id'', ''revision'', ''run_id'',
           ''schema_version'', ''status'', ''store_kind'', ''updated_at'', ''verification''}
        \<and> jget v ''store_kind'' = Some (JStr ''run_state'') \<and> jget v ''schema_version'' = Some (JNum 1)
        \<and> jget v ''repository_id'' = Some (JStr ''OMCU'')
        \<and> jget v ''run_id'' = Some (JStr run_id) \<and> safe_key run_id
      then (case (jsafe_int (jget v ''revision''), Option.bind (jstr (jget v ''status'')) status_of,
                  jstr (jget v ''objective''), jdate (jget v ''created_at''), jdate (jget v ''updated_at'')) of
          (Some rn, Some status, Some objective, Some created, Some updated) \<Rightarrow>
            if 1 \<le> rn \<and> \<not> blank objective \<and> length objective \<le> 16384 \<and> created \<le> updated then
              (case (valid_verification status created updated (jget v ''verification''), valid_mutation (jget v ''last_mutation'')) of
                 (Some ver, Some mut) \<Rightarrow>
                   if created \<le> mp_at mut \<and> mp_at mut \<le> updated
                   then Some \<lparr>rs_id = run_id, rs_revision = rn, rs_status = status, rs_objective = objective,
                     rs_created = created, rs_updated = updated, rs_verification = ver, rs_mutation = mut\<rparr>
                   else None
               | _ \<Rightarrow> None)
            else None
        | _ \<Rightarrow> None)
      else None)"

section \<open>Leases\<close>

record lease =
  ls_run :: string
  ls_name :: string
  ls_owner :: string
  ls_generation :: int
  ls_expires :: ms
  ls_mutation :: mutation_proof

definition lease_json :: "lease \<Rightarrow> json" where
  "lease_json l = JObj [(''store_kind'', JStr ''run_lease''), (''schema_version'', JNum 1), (''repository_id'', JStr ''OMCU''),
     (''run_id'', JStr (ls_run l)), (''lease_name'', JStr (ls_name l)), (''owner'', JStr (ls_owner l)),
     (''generation'', JNum (ls_generation l)), (''expires_at'', jiso (ls_expires l)), (''mutation'', proof_json (ls_mutation l))]"

definition valid_lease :: "json \<Rightarrow> string \<Rightarrow> string \<Rightarrow> lease option" where
  "valid_lease v run_id lease_name =
     (if has_keys v {''expires_at'', ''generation'', ''lease_name'', ''mutation'', ''owner'', ''repository_id'', ''run_id'',
           ''schema_version'', ''store_kind''}
        \<and> jget v ''store_kind'' = Some (JStr ''run_lease'') \<and> jget v ''schema_version'' = Some (JNum 1)
        \<and> jget v ''repository_id'' = Some (JStr ''OMCU'')
        \<and> jget v ''run_id'' = Some (JStr run_id) \<and> safe_key run_id
        \<and> jget v ''lease_name'' = Some (JStr lease_name) \<and> safe_key lease_name
      then (case (jstr (jget v ''owner''), jsafe_int (jget v ''generation''), jdate (jget v ''expires_at''),
                  valid_mutation (jget v ''mutation'')) of
          (Some own, Some gen, Some exp, Some mut) \<Rightarrow>
            if safe_key own \<and> 1 \<le> gen
            then Some \<lparr>ls_run = run_id, ls_name = lease_name, ls_owner = own, ls_generation = gen,
              ls_expires = exp, ls_mutation = mut\<rparr>
            else None
        | _ \<Rightarrow> None)
      else None)"

section \<open>Well-formed documents\<close>

definition proof_ok :: "mutation_proof \<Rightarrow> bool" where
  "proof_ok m = (hex64 (mp_owner m) \<and> 0 < mp_pid m \<and> safe_integer (mp_pid m) \<and> valid_time (mp_at m))"

definition run_ok :: "run_state \<Rightarrow> bool" where
  "run_ok s = (safe_key (rs_id s) \<and> 1 \<le> rs_revision s \<and> safe_integer (rs_revision s)
     \<and> \<not> blank (rs_objective s) \<and> length (rs_objective s) \<le> 16384
     \<and> valid_time (rs_created s) \<and> valid_time (rs_updated s)
     \<and> rs_created s \<le> mp_at (rs_mutation s) \<and> mp_at (rs_mutation s) \<le> rs_updated s \<and> proof_ok (rs_mutation s)
     \<and> (case rs_verification s of Unverified \<Rightarrow> True
        | Verified sha a \<Rightarrow> rs_status s = RComplete \<and> hex64 sha \<and> valid_time a \<and> rs_created s \<le> a \<and> a \<le> rs_updated s))"

definition lease_ok :: "lease \<Rightarrow> bool" where
  "lease_ok l = (safe_key (ls_run l) \<and> safe_key (ls_name l) \<and> safe_key (ls_owner l) \<and> 1 \<le> ls_generation l
     \<and> safe_integer (ls_generation l) \<and> valid_time (ls_expires l) \<and> proof_ok (ls_mutation l))"

lemma status_of_text [simp]: "status_of (status_text st) = Some st"
  by (cases st) (simp_all add: status_of_def)

lemma valid_mutation_Some:
  "valid_mutation v = Some m \<Longrightarrow> proof_ok m"
  by (auto simp: valid_mutation_def proof_ok_def jsafe_int_Some_iff jdate_Some_iff
      split: option.splits if_splits)

lemma valid_mutation_json: "proof_ok m \<Longrightarrow> valid_mutation (Some (proof_json m)) = Some m"
  by (simp add: valid_mutation_def proof_json_def proof_ok_def has_keys_def jget_def jstr_def jsafe_int_def
      jiso_def insert_commute)

lemma valid_verification_Some:
  "valid_verification st c u v = Some ver \<Longrightarrow> (case ver of Unverified \<Rightarrow> True
     | Verified sha a \<Rightarrow> st = RComplete \<and> hex64 sha \<and> valid_time a \<and> c \<le> a \<and> a \<le> u)"
  by (auto simp: valid_verification_def jdate_Some_iff split: option.splits if_splits bool.splits)

lemma valid_verification_json:
  assumes "case ver of Unverified \<Rightarrow> True
     | Verified sha a \<Rightarrow> st = RComplete \<and> hex64 sha \<and> valid_time a \<and> c \<le> a \<and> a \<le> u"
  shows "valid_verification st c u (Some (verification_json ver)) = Some ver"
  using assms by (cases ver) (simp_all add: valid_verification_def has_keys_def jget_def jstr_def jbool_def
      jiso_def insert_commute)

lemma valid_run_state_Some:
  assumes "valid_run_state v run_id = Some s"
  shows "run_ok s" "rs_id s = run_id"
proof -
  show "rs_id s = run_id"
    using assms by (auto simp: valid_run_state_def split: option.splits if_splits)
  show "run_ok s"
    using assms valid_verification_Some [of _ _ _ "jget v ''verification''"] valid_mutation_Some [of "jget v ''last_mutation''"]
    by (auto simp: valid_run_state_def run_ok_def jsafe_int_Some_iff jdate_Some_iff split: option.splits if_splits)
qed

lemma valid_run_state_json:
  assumes "run_ok s"
  shows "valid_run_state (run_json s) (rs_id s) = Some s"
proof -
  have "valid_mutation (Some (proof_json (rs_mutation s))) = Some (rs_mutation s)"
    "valid_verification (rs_status s) (rs_created s) (rs_updated s) (Some (verification_json (rs_verification s))) =
      Some (rs_verification s)"
    using assms by (auto simp: run_ok_def intro!: valid_mutation_json valid_verification_json)
  with assms show ?thesis
    by (simp add: valid_run_state_def run_json_def run_ok_def has_keys_def jget_def jstr_def jsafe_int_def
        jiso_def insert_commute)
qed

lemma valid_lease_Some:
  assumes "valid_lease v run_id name = Some l"
  shows "lease_ok l" "ls_run l = run_id" "ls_name l = name"
proof -
  show "ls_run l = run_id" "ls_name l = name"
    using assms by (auto simp: valid_lease_def split: option.splits if_splits)
  show "lease_ok l"
    using assms valid_mutation_Some [of "jget v ''mutation''"]
    by (auto simp: valid_lease_def lease_ok_def jsafe_int_Some_iff jdate_Some_iff split: option.splits if_splits)
qed

lemma valid_lease_json:
  assumes "lease_ok l"
  shows "valid_lease (lease_json l) (ls_run l) (ls_name l) = Some l"
proof -
  have "valid_mutation (Some (proof_json (ls_mutation l))) = Some (ls_mutation l)"
    using assms by (simp add: lease_ok_def valid_mutation_json)
  with assms show ?thesis
    by (simp add: valid_lease_def lease_json_def lease_ok_def has_keys_def jget_def jstr_def jsafe_int_def
        jiso_def insert_commute)
qed

end
