(* ===== verification/Runs.thy ===== *)
theory Runs
  imports RunModel
begin

text \<open>
  The run store and the lease store (\<^verbatim>\<open>RunStateStore\<close> and \<^verbatim>\<open>LeaseStore\<close> of
  \<^verbatim>\<open>src/state/store.ts\<close>).  A store maps run identifiers, and pairs of run and lease names, to the
  JSON of the file, \<open>Some None\<close> being a file that does not parse.  The directory locks make each
  operation one step.  \<open>cli_env\<close> is what an operation receives from outside: the owner root with the
  token the caller holds, SHA-256, the process, the clock read and the outcome of the write.
\<close>

section \<open>State\<close>

datatype run_error =
    E_RUN_ID_INVALID | E_LEASE_NAME_INVALID | E_LEASE_OWNER_INVALID | E_OBJECTIVE_INVALID | E_RUN_EXISTS
  | E_STATE_ABSENT | E_STATE_CORRUPT | E_RUN_STATUS_INVALID | E_REVISION_CONFLICT | E_TRANSITION_ILLEGAL
  | E_TRANSITION_NOOP | E_EVIDENCE_DIGEST_INVALID | E_RUN_NOT_COMPLETE_FOR_VERIFICATION
  | E_LEASE_TTL_INVALID | E_RUN_TERMINAL | E_RUN_ABSENT | E_LEASE_HELD | E_LEASE_NOT_OWNER
  | E_AUTHORITY owner_error
  | E_RANGE  \<comment> \<open>\<^verbatim>\<open>RangeError\<close> of \<^verbatim>\<open>toISOString\<close>\<close>
  | E_RUN_WRITE

record run_store =
  st_runs :: "string \<Rightarrow> json option option"
  st_leases :: "string \<times> string \<Rightarrow> json option option"

record cli_env =
  ce_root :: owner_root
  ce_token :: string
  ce_sha :: "string \<Rightarrow> string"
  ce_pid :: int
  ce_now :: ms
  ce_write :: write_result

section \<open>Reads and writes\<close>

definition authorized :: "cli_env \<Rightarrow> run_error + unit" where
  "authorized e = (case assert_authority (ce_token e) (ce_root e) of Inl x \<Rightarrow> Inl (E_AUTHORITY x) | Inr _ \<Rightarrow> Inr ())"

definition make_proof :: "cli_env \<Rightarrow> ms \<Rightarrow> run_error + mutation_proof" where
  "make_proof e t = rbind (authorized e) (\<lambda>_. rbind (guard (valid_time t) E_RANGE) (\<lambda>_.
     Inr \<lparr>mp_owner = ce_sha e (ce_token e), mp_pid = ce_pid e, mp_at = t\<rparr>))"

definition observe_run_state :: "run_store \<Rightarrow> string \<Rightarrow> run_error + run_state" where
  "observe_run_state s run_id = rbind (guard (safe_key run_id) E_RUN_ID_INVALID) (\<lambda>_.
     case st_runs s run_id of
       None \<Rightarrow> Inl E_STATE_ABSENT
     | Some None \<Rightarrow> Inl E_STATE_CORRUPT
     | Some (Some v) \<Rightarrow> (case valid_run_state v run_id of None \<Rightarrow> Inl E_STATE_CORRUPT | Some st \<Rightarrow> Inr st))"

definition read_lease :: "run_store \<Rightarrow> string \<Rightarrow> string \<Rightarrow> run_error + lease option" where
  \<comment> \<open>\<^verbatim>\<open>readLease(..., true)\<close>: absence is \<^verbatim>\<open>null\<close>\<close>
  "read_lease s run_id name = rbind (guard (safe_key run_id) E_RUN_ID_INVALID) (\<lambda>_.
     rbind (guard (safe_key name) E_LEASE_NAME_INVALID) (\<lambda>_.
     case st_leases s (run_id, name) of
       None \<Rightarrow> Inr None
     | Some None \<Rightarrow> Inl E_STATE_CORRUPT
     | Some (Some v) \<Rightarrow> (case valid_lease v run_id name of None \<Rightarrow> Inl E_STATE_CORRUPT | Some l \<Rightarrow> Inr (Some l))))"

definition observe_lease :: "run_store \<Rightarrow> string \<Rightarrow> string \<Rightarrow> run_error + lease" where
  "observe_lease s run_id name = rbind (read_lease s run_id name) (\<lambda>l.
     case l of None \<Rightarrow> Inl E_STATE_ABSENT | Some l \<Rightarrow> Inr l)"

definition put_run :: "run_state \<Rightarrow> run_store \<Rightarrow> run_store" where
  "put_run st s = s\<lparr>st_runs := (st_runs s)(rs_id st := Some (Some (run_json st)))\<rparr>"

definition put_lease :: "lease \<Rightarrow> run_store \<Rightarrow> run_store" where
  "put_lease l s = s\<lparr>st_leases := (st_leases s)((ls_run l, ls_name l) := Some (Some (lease_json l)))\<rparr>"

definition written :: "cli_env \<Rightarrow> 'a \<Rightarrow> (run_store \<Rightarrow> run_store) \<Rightarrow> (run_store, run_error, 'a) act" where
  \<comment> \<open>\<^verbatim>\<open>atomicWriteJson(file, x); return x\<close>\<close>
  "written e x f = (\<lambda>s. case ce_write e of
     WriteOk \<Rightarrow> (Inr x, f s) | WriteFailed \<Rightarrow> (Inl E_RUN_WRITE, s) | WriteUnknown \<Rightarrow> (Inl E_RUN_WRITE, f s))"

definition ask :: "('s \<Rightarrow> 'e + 'a) \<Rightarrow> ('s, 'e, 'a) act" where
  "ask f = (\<lambda>s. (f s, s))"

section \<open>RunStateStore\<close>

definition create_run :: "cli_env \<Rightarrow> string \<Rightarrow> string \<Rightarrow> (run_store, run_error, run_state) act" where
  "create_run e run_id objective =
     andthen (ensure (safe_key run_id) E_RUN_ID_INVALID) (\<lambda>_.
     andthen (ensure (\<not> blank objective \<and> length objective \<le> 16384) E_OBJECTIVE_INVALID) (\<lambda>_.
     andthen (ask (\<lambda>_. authorized e)) (\<lambda>_.
     andthen (ask (\<lambda>s. guard (st_runs s run_id = None) E_RUN_EXISTS)) (\<lambda>_.
     andthen (ensure (valid_time (ce_now e)) E_RANGE) (\<lambda>_.
     andthen (ask (\<lambda>_. make_proof e (ce_now e))) (\<lambda>m.
     let st = \<lparr>rs_id = run_id, rs_revision = 1, rs_status = RActive, rs_objective = objective,
        rs_created = ce_now e, rs_updated = ce_now e, rs_verification = Unverified, rs_mutation = m\<rparr>
     in written e st (put_run st)))))))"

definition transition_run :: "cli_env \<Rightarrow> string \<Rightarrow> int \<Rightarrow> string \<Rightarrow> (run_store, run_error, run_state) act" where
  "transition_run e run_id expected status = (case status_of status of
     None \<Rightarrow> throw E_RUN_STATUS_INVALID
   | Some to \<Rightarrow>
       andthen (ensure (safe_key run_id) E_RUN_ID_INVALID) (\<lambda>_.
       andthen (ask (\<lambda>_. authorized e)) (\<lambda>_.
       andthen (ask (\<lambda>s. observe_run_state s run_id)) (\<lambda>current.
       andthen (ensure (rs_revision current = expected) E_REVISION_CONFLICT) (\<lambda>_.
       andthen (ensure (rs_status current \<notin> TERMINAL_STATUSES) E_TRANSITION_ILLEGAL) (\<lambda>_.
       andthen (ensure (rs_status current \<noteq> to) E_TRANSITION_NOOP) (\<lambda>_.
       let now = max (ce_now e) (rs_updated current) in
       andthen (ensure (valid_time now) E_RANGE) (\<lambda>_.
       andthen (ask (\<lambda>_. make_proof e now)) (\<lambda>m.
       let st = current\<lparr>rs_revision := rs_revision current + 1, rs_status := to, rs_updated := now,
          rs_verification := Unverified, rs_mutation := m\<rparr>
       in written e st (put_run st))))))))))"

definition verify_run :: "cli_env \<Rightarrow> string \<Rightarrow> int \<Rightarrow> string \<Rightarrow> (run_store, run_error, run_state) act" where
  "verify_run e run_id expected evidence =
     andthen (ensure (hex64 evidence) E_EVIDENCE_DIGEST_INVALID) (\<lambda>_.
     andthen (ensure (safe_key run_id) E_RUN_ID_INVALID) (\<lambda>_.
     andthen (ask (\<lambda>_. authorized e)) (\<lambda>_.
     andthen (ask (\<lambda>s. observe_run_state s run_id)) (\<lambda>current.
     andthen (ensure (rs_revision current = expected) E_REVISION_CONFLICT) (\<lambda>_.
     andthen (ensure (rs_status current = RComplete) E_RUN_NOT_COMPLETE_FOR_VERIFICATION) (\<lambda>_.
     let now = max (ce_now e) (rs_updated current) in
     andthen (ensure (valid_time now) E_RANGE) (\<lambda>_.
     andthen (ask (\<lambda>_. make_proof e now)) (\<lambda>m.
     let st = current\<lparr>rs_revision := rs_revision current + 1, rs_updated := now,
        rs_verification := Verified evidence now, rs_mutation := m\<rparr>
     in written e st (put_run st)))))))))"

section \<open>LeaseStore\<close>

definition check_run :: "string \<Rightarrow> run_store \<Rightarrow> run_error + run_state" where
  "check_run run_id s = (case observe_run_state s run_id of
     Inl E_STATE_ABSENT \<Rightarrow> Inl E_RUN_ABSENT
   | Inl x \<Rightarrow> Inl x
   | Inr st \<Rightarrow> if rs_status st = RActive then Inr st else Inl E_RUN_TERMINAL)"

definition held_at :: "lease option \<Rightarrow> ms \<Rightarrow> ms" where
  \<comment> \<open>the instant a lease operation works with\<close>
  "held_at current now = (case current of None \<Rightarrow> now | Some l \<Rightarrow> max now (mp_at (ls_mutation l)))"

definition held_by_other :: "lease option \<Rightarrow> ms \<Rightarrow> string \<Rightarrow> bool" where
  "held_by_other current now own = (case current of None \<Rightarrow> False | Some l \<Rightarrow> now < ls_expires l \<and> ls_owner l \<noteq> own)"

definition acquire_lease :: "cli_env \<Rightarrow> string \<Rightarrow> string \<Rightarrow> string \<Rightarrow> int \<Rightarrow> (run_store, run_error, lease) act" where
  "acquire_lease e run_id name own ttl =
     andthen (ensure (safe_key own) E_LEASE_OWNER_INVALID) (\<lambda>_.
     andthen (ensure (safe_integer ttl \<and> 1000 \<le> ttl \<and> ttl \<le> 86400000) E_LEASE_TTL_INVALID) (\<lambda>_.
     andthen (ask (check_run run_id)) (\<lambda>_.
     andthen (ensure (safe_key name) E_LEASE_NAME_INVALID) (\<lambda>_.
     andthen (ask (\<lambda>_. authorized e)) (\<lambda>_.
     andthen (ask (check_run run_id)) (\<lambda>_.
     andthen (ask (\<lambda>s. read_lease s run_id name)) (\<lambda>current.
     let now = held_at current (ce_now e) in
     andthen (ensure (\<not> held_by_other current now own) E_LEASE_HELD) (\<lambda>_.
     andthen (ensure (valid_time (now + ttl)) E_RANGE) (\<lambda>_.
     andthen (ask (\<lambda>_. make_proof e now)) (\<lambda>m.
     let l = \<lparr>ls_run = run_id, ls_name = name, ls_owner = own,
        ls_generation = (case current of None \<Rightarrow> 0 | Some l \<Rightarrow> ls_generation l) + 1,
        ls_expires = now + ttl, ls_mutation = m\<rparr>
     in written e l (put_lease l)))))))))))"

definition release_lease :: "cli_env \<Rightarrow> string \<Rightarrow> string \<Rightarrow> string \<Rightarrow> int \<Rightarrow> (run_store, run_error, unit) act" where
  "release_lease e run_id name own generation =
     andthen (ensure (safe_key run_id) E_RUN_ID_INVALID) (\<lambda>_.
     andthen (ensure (safe_key name) E_LEASE_NAME_INVALID) (\<lambda>_.
     andthen (ask (\<lambda>_. authorized e)) (\<lambda>_.
     andthen (ask (\<lambda>s. read_lease s run_id name)) (\<lambda>current.
     andthen (ensure (case current of None \<Rightarrow> False | Some l \<Rightarrow> ls_owner l = own \<and> ls_generation l = generation)
       E_LEASE_NOT_OWNER) (\<lambda>_.
     modify (\<lambda>s. s\<lparr>st_leases := (st_leases s)((run_id, name) := None)\<rparr>))))))"

end
