(* ===== verification/RunSteps.thy ===== *)
theory RunSteps
  imports Runs
begin

text \<open>
  What the operations of the run and lease stores do to a store, as a change relation on one document:
  \<open>run_change\<close> and \<open>lease_change\<close> are the specification, \<open>apply_op\<close> runs an operation of the model, and
  the effect lemmas show that every operation, whether it returns or throws, is one such change of
  the file it names or no change.
\<close>

section \<open>Specification\<close>

inductive run_change :: "cli_env \<Rightarrow> run_state option \<Rightarrow> run_state \<Rightarrow> bool" where
  created: "safe_key i \<Longrightarrow> \<not> blank objective \<Longrightarrow> length objective \<le> 16384 \<Longrightarrow> make_proof e (ce_now e) = Inr m \<Longrightarrow>
    run_change e None \<lparr>rs_id = i, rs_revision = 1, rs_status = RActive, rs_objective = objective,
        rs_created = ce_now e, rs_updated = ce_now e, rs_verification = Unverified, rs_mutation = m\<rparr>"
| moved: "rs_status cur = RActive \<Longrightarrow> to \<in> TERMINAL_STATUSES \<Longrightarrow> t = max (ce_now e) (rs_updated cur) \<Longrightarrow>
    make_proof e t = Inr m \<Longrightarrow>
    run_change e (Some cur) (cur\<lparr>rs_revision := rs_revision cur + 1, rs_status := to, rs_updated := t,
          rs_verification := Unverified, rs_mutation := m\<rparr>)"
| verified: "rs_status cur = RComplete \<Longrightarrow> hex64 evidence \<Longrightarrow> t = max (ce_now e) (rs_updated cur) \<Longrightarrow>
    make_proof e t = Inr m \<Longrightarrow>
    run_change e (Some cur) (cur\<lparr>rs_revision := rs_revision cur + 1, rs_updated := t,
        rs_verification := Verified evidence t, rs_mutation := m\<rparr>)"

inductive_cases run_changeE: "run_change e old st"

inductive lease_change :: "cli_env \<Rightarrow> lease option \<Rightarrow> lease \<Rightarrow> bool" where
  acquired: "safe_key i \<Longrightarrow> safe_key n \<Longrightarrow> safe_key own \<Longrightarrow> t = held_at current (ce_now e) \<Longrightarrow>
    \<not> held_by_other current t own \<Longrightarrow>
    1000 \<le> ttl \<Longrightarrow> ttl \<le> 86400000 \<Longrightarrow> valid_time (t + ttl) \<Longrightarrow> make_proof e t = Inr m \<Longrightarrow>
    lease_change e current \<lparr>ls_run = i, ls_name = n, ls_owner = own,
        ls_generation = (case current of None \<Rightarrow> 0 | Some l \<Rightarrow> ls_generation l) + 1,
        ls_expires = t + ttl, ls_mutation = m\<rparr>"

section \<open>Operations\<close>

datatype run_op =
    CreateRun cli_env string string
  | TransitionRun cli_env string int string
  | VerifyRun cli_env string int string
  | AcquireLease cli_env string string string int
  | ReleaseLease cli_env string string string int

datatype outcome = GotRun run_state | GotLease lease | Released | Failed run_error

fun apply_op :: "run_op \<Rightarrow> run_store \<Rightarrow> outcome \<times> run_store" where
  "apply_op (CreateRun e i objective) s = apfst (case_sum Failed GotRun) (create_run e i objective s)"
| "apply_op (TransitionRun e i n to) s = apfst (case_sum Failed GotRun) (transition_run e i n to s)"
| "apply_op (VerifyRun e i n sha) s = apfst (case_sum Failed GotRun) (verify_run e i n sha s)"
| "apply_op (AcquireLease e i n own ttl) s = apfst (case_sum Failed GotLease) (acquire_lease e i n own ttl s)"
| "apply_op (ReleaseLease e i n own g) s = apfst (case_sum Failed (\<lambda>_. Released)) (release_lease e i n own g s)"

fun apply_ops :: "run_op list \<Rightarrow> run_store \<Rightarrow> outcome list \<times> run_store" where
  "apply_ops [] s = ([], s)"
| "apply_ops (x # xs) s = (let (out, s') = apply_op x s; (outs, s'') = apply_ops xs s' in (out # outs, s''))"

fun op_env :: "run_op \<Rightarrow> cli_env" where
  "op_env (CreateRun e _ _) = e"
| "op_env (TransitionRun e _ _ _) = e"
| "op_env (VerifyRun e _ _ _) = e"
| "op_env (AcquireLease e _ _ _ _) = e"
| "op_env (ReleaseLease e _ _ _ _) = e"

definition run_at :: "run_store \<Rightarrow> string \<Rightarrow> run_state option option" where
  \<comment> \<open>the run of a name: absent, or unreadable (\<open>Some None\<close>), or its state\<close>
  "run_at s i = (case st_runs s i of None \<Rightarrow> None | Some f \<Rightarrow> Some (Option.bind f (\<lambda>v. valid_run_state v i)))"

section \<open>Effects\<close>

lemma andthen_ask:
  "andthen (ask f) g s = (case f s of Inl e \<Rightarrow> (Inl e, s) | Inr x \<Rightarrow> g x s)"
  by (simp add: andthen_def ask_def split: sum.splits)

lemma observe_InrD:
  "observe_run_state s i = Inr st \<Longrightarrow> run_at s i = Some (Some st) \<and> rs_id st = i \<and> run_ok st \<and> safe_key i"
  by (auto simp: observe_run_state_def run_at_def rbind_Inr_iff valid_run_state_Some split: option.splits)

lemma written_effect:
  "snd (written e x f s) = s \<or> snd (written e x f s) = f s"
  "fst (written e x f s) = Inr x \<Longrightarrow> snd (written e x f s) = f s"
  "fst (written e x f s) = Inr y \<Longrightarrow> y = x"
  "fst (written e x f s) = Inl z \<Longrightarrow> z = E_RUN_WRITE"
  by (auto simp: written_def split: write_result.splits)

definition run_effect :: "cli_env \<Rightarrow> run_store \<Rightarrow> outcome \<times> run_store \<Rightarrow> bool" where
  "run_effect e s r \<longleftrightarrow> ((\<exists>x. fst r = Failed x) \<and> snd r = s) \<or>
     (\<exists>st old. run_change e old st \<and> (run_at s (rs_id st) = None \<and> old = None \<or> run_at s (rs_id st) = Some old \<and> old \<noteq> None)
        \<and> snd r = put_run st s \<and> (fst r = GotRun st \<or> fst r = Failed E_RUN_WRITE))"

lemma run_effect_written:
  assumes "run_change e old st" "run_at s (rs_id st) = None \<and> old = None \<or> run_at s (rs_id st) = Some old \<and> old \<noteq> None"
  shows "run_effect e s (apfst (case_sum Failed GotRun) (written e st (put_run st) s))"
  using assms by (auto simp: run_effect_def written_def split: write_result.splits)

lemma run_effect_failed: "run_effect e s (Failed x, s)"
  by (simp add: run_effect_def)

lemma create_run_effect: "run_effect e s (apfst (case_sum Failed GotRun) (create_run e i objective s))"
  by (auto simp: create_run_def andthen_ensure andthen_ask Let_def run_effect_failed run_at_def
      intro!: run_effect_written created split: sum.splits)

lemma transition_run_effect: "run_effect e s (apfst (case_sum Failed GotRun) (transition_run e i n to s))"
proof (cases "status_of to")
  case (Some t)
  have ends: "x \<in> TERMINAL_STATUSES \<longleftrightarrow> x \<noteq> RActive" for x
    by (cases x) (simp_all add: TERMINAL_STATUSES_def)
  show ?thesis
    by (auto simp: transition_run_def Some andthen_ensure andthen_ask Let_def run_effect_failed ends
        dest!: observe_InrD intro!: run_effect_written moved split: sum.splits)
qed (simp add: transition_run_def run_effect_failed)

lemma verify_run_effect: "run_effect e s (apfst (case_sum Failed GotRun) (verify_run e i n sha s))"
  by (auto simp: verify_run_def andthen_ensure andthen_ask Let_def run_effect_failed
      dest!: observe_InrD intro!: run_effect_written verified split: sum.splits)

definition lease_effect :: "cli_env \<Rightarrow> string \<Rightarrow> string \<Rightarrow> string \<Rightarrow> run_store \<Rightarrow> outcome \<times> run_store \<Rightarrow> bool" where
  "lease_effect e i n own s r \<longleftrightarrow> ((\<exists>x. fst r = Failed x) \<and> snd r = s) \<or>
     (\<exists>l old. lease_change e old l \<and> ls_run l = i \<and> ls_name l = n \<and> ls_owner l = own \<and> read_lease s i n = Inr old
        \<and> (\<exists>st. run_at s i = Some (Some st) \<and> rs_status st = RActive)
        \<and> snd r = put_lease l s \<and> (fst r = GotLease l \<or> fst r = Failed E_RUN_WRITE))"

lemma lease_effect_failed: "lease_effect e i n own s (Failed x, s)"
  by (simp add: lease_effect_def)

lemma lease_effect_written:
  assumes "lease_change e old l" "ls_run l = i" "ls_name l = n" "ls_owner l = own"
    and "read_lease s i n = Inr old" "check_run i s = Inr st"
  shows "lease_effect e i n own s (apfst (case_sum Failed GotLease) (written e l (put_lease l) s))"
proof -
  have "run_at s i = Some (Some st)" "rs_status st = RActive"
    using assms(6) observe_InrD [of s i]
    by (auto simp: check_run_def split: sum.splits if_splits run_error.splits)
  with assms(1-5) show ?thesis by (auto simp: lease_effect_def written_def split: write_result.splits)
qed

lemma check_run_key: "check_run i s = Inr st \<Longrightarrow> safe_key i"
  by (auto simp: check_run_def observe_run_state_def rbind_Inr_iff split: sum.splits if_splits run_error.splits)

lemma acquire_lease_effect: "lease_effect e i n own s (apfst (case_sum Failed GotLease) (acquire_lease e i n own ttl s))"
  by (auto simp: acquire_lease_def andthen_ensure andthen_ask Let_def lease_effect_failed
      dest: check_run_key intro!: lease_effect_written acquired split: sum.splits)

lemma release_lease_cases:
  assumes "release_lease e i n own g s = (r, s')"
  shows "(\<exists>x. r = Inl x) \<and> s' = s \<or>
    (\<exists>l. r = Inr () \<and> read_lease s i n = Inr (Some l) \<and> ls_owner l = own \<and> ls_generation l = g
       \<and> s' = s\<lparr>st_leases := (st_leases s)((i, n) := None)\<rparr>)"
proof (cases "authorized e")
  case (Inr u)
  show ?thesis
    using assms
    by (auto simp: release_lease_def andthen_ensure andthen_ask Inr split: sum.splits if_splits option.splits)
next
  case (Inl x)
  show ?thesis
    using assms by (auto simp: release_lease_def andthen_ensure andthen_ask Inl split: if_splits)
qed

end
