(* ===== verification/RunProperties.thy ===== *)
theory RunProperties
  imports RunSteps "HOL-Library.Code_Target_Nat"
begin

text \<open>
  Properties of the run and lease stores over sequences of operations: what a run keeps, the revision
  fence, validity of what is written, the transition table, and the exclusion and fencing of leases.
\<close>

section \<open>One operation\<close>

definition env_ok :: "cli_env \<Rightarrow> bool" where
  \<comment> \<open>SHA-256 gives 64 hexadecimal digits; a process identifier is positive\<close>
  "env_ok e = (hex64 (ce_sha e (ce_token e)) \<and> 0 < ce_pid e \<and> safe_integer (ce_pid e))"

definition goes_on :: "run_state \<Rightarrow> run_state \<Rightarrow> bool" where
  \<comment> \<open>a later state of the same run\<close>
  "goes_on a b = (rs_id b = rs_id a \<and> rs_objective b = rs_objective a \<and> rs_created b = rs_created a
     \<and> rs_revision a \<le> rs_revision b \<and> rs_updated a \<le> rs_updated b
     \<and> (rs_status a \<noteq> RActive \<longrightarrow> rs_status b = rs_status a)
     \<and> (rs_verification a \<noteq> Unverified \<longrightarrow> rs_verification b \<noteq> Unverified))"

lemma goes_on_refl [simp]: "goes_on a a"
  by (simp add: goes_on_def)

lemma goes_on_trans: "goes_on a b \<Longrightarrow> goes_on b c \<Longrightarrow> goes_on a c"
  unfolding goes_on_def by auto

lemma run_change_goes_on:
  assumes "run_change e (Some a) b" "run_ok a"
  shows "goes_on a b" "rs_revision b = rs_revision a + 1" "rs_id b = rs_id a"
  using assms(1)
  by (cases rule: run_change.cases; use assms(2) in
      \<open>auto simp: goes_on_def run_ok_def TERMINAL_STATUSES_def split: verification_record.splits\<close>)+

lemma run_change_ok:
  assumes "run_change e old b" "env_ok e" "\<And>a. old = Some a \<Longrightarrow> run_ok a" "rs_revision b \<le> 9007199254740991"
  shows "run_ok b"
  using assms(1)
proof (cases rule: run_change.cases)
  case (created i ob m)
  with assms(2) show ?thesis
    by (auto simp: run_ok_def make_proof_def rbind_Inr_iff proof_ok_def env_ok_def safe_integer_def)
next
  case (moved cur to t m)
  with assms(2-4) show ?thesis
    by (auto simp: run_ok_def make_proof_def rbind_Inr_iff proof_ok_def env_ok_def safe_integer_def)
next
  case (verified cur evidence t m)
  with assms(2-4) show ?thesis
    by (auto simp: run_ok_def make_proof_def rbind_Inr_iff proof_ok_def env_ok_def safe_integer_def)
qed

lemma run_at_ok: "run_at s i = Some (Some st) \<Longrightarrow> run_ok st \<and> rs_id st = i"
  by (auto simp: run_at_def valid_run_state_Some split: option.splits bind_splits)

lemma run_at_put_run:
  "run_at (put_run st s) i = (if i = rs_id st then Some (valid_run_state (run_json st) i) else run_at s i)"
  by (simp add: run_at_def put_run_def)

lemma run_at_change:
  assumes "run_change e old st" "env_ok e" "\<And>a. old = Some a \<Longrightarrow> run_ok a"
  shows "run_at (put_run st s) (rs_id st) = Some (if rs_revision st \<le> 9007199254740991 then Some st else None)"
proof (cases "rs_revision st \<le> 9007199254740991")
  case True
  with run_change_ok [OF assms] show ?thesis by (simp add: run_at_put_run valid_run_state_json)
next
  case False
  have "jget (run_json st) ''revision'' = Some (JNum (rs_revision st))" by (simp add: run_json_def jget_def)
  with False show ?thesis
    by (simp add: run_at_put_run valid_run_state_def jsafe_int_def safe_integer_def)
qed

lemma apply_op_runs:
  assumes "apply_op x s = (out, s')"
  obtains (same) "st_runs s' = st_runs s" "\<forall>st. out \<noteq> GotRun st"
  | (change) e old st where "e = op_env x" "run_change e old st" "s' = put_run st s"
      "run_at s (rs_id st) = None \<and> old = None \<or> run_at s (rs_id st) = Some old \<and> old \<noteq> None"
      "out = GotRun st \<or> out = Failed E_RUN_WRITE"
proof -
  have "(\<forall>st. out \<noteq> GotRun st) \<and> st_runs s' = st_runs s \<or> run_effect (op_env x) s (out, s')"
  proof (cases x)
    case (AcquireLease e i n own ttl)
    with assms acquire_lease_effect [of e i n own s ttl] show ?thesis
      by (auto simp: lease_effect_def put_lease_def)
  next
    case (ReleaseLease e i n own g)
    obtain r where r: "release_lease e i n own g s = (r, s')" "out = case_sum Failed (\<lambda>_. Released) r"
      using assms ReleaseLease by (auto simp: apfst_def map_prod_def split: prod.splits)
    from release_lease_cases [OF r(1)] r(2) show ?thesis by auto
  qed (use assms create_run_effect transition_run_effect verify_run_effect in \<open>metis apply_op.simps op_env.simps\<close>)+
  then consider (a) "\<forall>st. out \<noteq> GotRun st" "st_runs s' = st_runs s"
    | (b) st old where "run_change (op_env x) old st"
      "run_at s (rs_id st) = None \<and> old = None \<or> run_at s (rs_id st) = Some old \<and> old \<noteq> None"
      "s' = put_run st s" "out = GotRun st \<or> out = Failed E_RUN_WRITE"
    unfolding run_effect_def fst_conv snd_conv by blast
  then show ?thesis
  proof cases
    case a
    show ?thesis by (rule same [OF a(2,1)])
  next
    case b
    show ?thesis by (rule change [OF refl b(1,3,2,4)])
  qed
qed

lemma run_at_same: "st_runs s' = st_runs s \<Longrightarrow> run_at s' = run_at s"
  by (simp add: run_at_def fun_eq_iff)

definition progress :: "run_state option option \<Rightarrow> run_state option option \<Rightarrow> bool" where
  \<comment> \<open>what may become of a name: it keeps its run, or its file becomes unreadable for good\<close>
  "progress a b = (case a of None \<Rightarrow> True | Some None \<Rightarrow> b = Some None
     | Some (Some st) \<Rightarrow> (case b of None \<Rightarrow> False | Some None \<Rightarrow> True | Some (Some st') \<Rightarrow> goes_on st st'))"

lemma progress_refl [simp]: "progress a a"
  by (simp add: progress_def split: option.splits)

lemma progress_trans: "progress a b \<Longrightarrow> progress b c \<Longrightarrow> progress a c"
  by (auto simp: progress_def split: option.splits intro: goes_on_trans)

lemma apply_op_progress:
  assumes "apply_op x s = (out, s')" "env_ok (op_env x)"
  shows "progress (run_at s i) (run_at s' i)"
  using assms(1)
proof (cases rule: apply_op_runs)
  case same
  then show ?thesis by (simp add: run_at_same [OF same(1)])
next
  case (change e old st)
  show ?thesis
  proof (cases "i = rs_id st")
    case False
    with change(3) show ?thesis by (simp add: run_at_put_run)
  next
    case True
    have ok: "run_ok a" if "old = Some a" for a using change(4) that run_at_ok by auto
    note at = run_at_change [OF change(2) _ ok, of s] assms(2) change(1,3)
    show ?thesis
    proof (cases old)
      case None
      with change(4) True show ?thesis by (simp add: progress_def)
    next
      case (Some a)
      then have "goes_on a st" using run_change_goes_on(1) change(2) ok by blast
      with Some at change(4) True show ?thesis by (auto simp: progress_def)
    qed
  qed
qed

lemma apply_ops_progress:
  assumes "apply_ops xs s = (outs, s')" "list_all (\<lambda>x. env_ok (op_env x)) xs"
  shows "progress (run_at s i) (run_at s' i)"
  using assms
proof (induction xs arbitrary: s outs)
  case (Cons x xs)
  obtain out s1 outs1 where s: "apply_op x s = (out, s1)" "apply_ops xs s1 = (outs1, s')"
    using Cons.prems(1) by (auto split: prod.splits)
  from apply_op_progress [OF s(1)] Cons.IH [OF s(2)] Cons.prems(2) show ?case
    by (auto intro: progress_trans)
qed simp

text \<open>C21: What a run keeps. After any sequence of operations on the run and lease stores, whatever writes
  fail, a run that was readable is readable or its file is corrupt; when it is readable it has the
  same identifier, objective and creation time, its revision and update time have not gone back, a
  status that was terminal is unchanged and a verified run is verified.\<close>

theorem run_never_goes_back:
  assumes "apply_ops xs s = (outs, s')" "list_all (\<lambda>x. env_ok (op_env x)) xs"
    and "run_at s i = Some (Some a)"
  shows "run_at s' i = Some None \<or> (\<exists>b. run_at s' i = Some (Some b) \<and> goes_on a b)"
  using apply_ops_progress [OF assms(1,2), of i] assms(3)
  by (auto simp: progress_def split: option.splits)

section \<open>Example\<close>

definition ex_cli :: "ms \<Rightarrow> cli_env" where
  "ex_cli now = \<lparr>ce_root = ex_root\<lparr>or_file := Some (owner_record (replicate 64 (CHR ''a'')) 0)\<rparr>,
     ce_token = replicate 64 (CHR ''a''), ce_sha = (\<lambda>_. replicate 64 (CHR ''f'')), ce_pid = 42,
     ce_now = now, ce_write = WriteOk\<rparr>"

definition empty_store :: run_store where
  "empty_store = \<lparr>st_runs = (\<lambda>_. None), st_leases = (\<lambda>_. None)\<rparr>"

definition ex_ops :: "run_op list" where
  "ex_ops = [CreateRun (ex_cli 1000) ''r1'' ''ship it'', TransitionRun (ex_cli 2000) ''r1'' 1 ''complete'',
     TransitionRun (ex_cli 2500) ''r1'' 1 ''failed'', VerifyRun (ex_cli 1500) ''r1'' 2 (replicate 64 (CHR ''e''))]"

definition at_complete :: run_state where
  "at_complete = \<lparr>rs_id = ''r1'', rs_revision = 2, rs_status = RComplete, rs_objective = ''ship it'', rs_created = 1000,
     rs_updated = 2000, rs_verification = Unverified,
     rs_mutation = \<lparr>mp_owner = replicate 64 (CHR ''f''), mp_pid = 42, mp_at = 2000\<rparr>\<rparr>"

definition at_verified :: run_state where
  "at_verified = at_complete\<lparr>rs_revision := 3, rs_verification := Verified (replicate 64 (CHR ''e'')) 2000\<rparr>"

lemma ex_cli_ok [simp]: "env_ok (ex_cli t)"
  by (simp add: ex_cli_def env_ok_def) (code_simp)

lemma ex_cli_proof: "authorized (ex_cli t) = Inr ()" "valid_time u \<Longrightarrow> make_proof (ex_cli t) u =
    Inr \<lparr>mp_owner = replicate 64 (CHR ''f''), mp_pid = 42, mp_at = u\<rparr>"
proof -
  have "assert_authority (replicate 64 (CHR ''a'')) (ex_root\<lparr>or_file := Some (owner_record (replicate 64 (CHR ''a'')) 0)\<rparr>) = Inr ()"
    by code_simp
  then show "authorized (ex_cli t) = Inr ()" by (simp add: authorized_def ex_cli_def)
  then show "valid_time u \<Longrightarrow> make_proof (ex_cli t) u =
    Inr \<lparr>mp_owner = replicate 64 (CHR ''f''), mp_pid = 42, mp_at = u\<rparr>"
    by (simp add: make_proof_def) (simp add: ex_cli_def)
qed

lemma observe_put_run:
  "run_ok st \<Longrightarrow> rs_id st = i \<Longrightarrow> observe_run_state (put_run st s) i = Inr st"
  using valid_run_state_json [of st]
  by (auto simp: observe_run_state_def put_run_def run_ok_def)

lemma run_at_put: "run_ok st \<Longrightarrow> rs_id st = i \<Longrightarrow> run_at (put_run st s) i = Some (Some st)"
  using valid_run_state_json [of st] by (auto simp: run_at_put_run)

definition at_start :: run_state where
  "at_start = \<lparr>rs_id = ''r1'', rs_revision = 1, rs_status = RActive, rs_objective = ''ship it'', rs_created = 1000,
     rs_updated = 1000, rs_verification = Unverified,
     rs_mutation = \<lparr>mp_owner = replicate 64 (CHR ''f''), mp_pid = 42, mp_at = 1000\<rparr>\<rparr>"

lemma ex_states_ok: "run_ok at_start" "run_ok at_complete" "run_ok at_verified"
  by code_simp+

lemma ex_written: "written (ex_cli t) x f s = (Inr x, f s)"
  by (simp add: written_def ex_cli_def)

lemma ex_now [simp]: "ce_now (ex_cli t) = t"
  by (simp add: ex_cli_def)

lemma ex_checks: "safe_key ''r1''" "\<not> blank ''ship it''" "hex64 (replicate 64 (CHR ''e''))"
  "valid_time 1000" "valid_time 2000" "status_of ''complete'' = Some RComplete" "status_of ''failed'' = Some RFailed"
  by code_simp+

lemma ex_steps:
  "apply_op (CreateRun (ex_cli 1000) ''r1'' ''ship it'') empty_store = (GotRun at_start, put_run at_start empty_store)"
  "apply_op (TransitionRun (ex_cli 2000) ''r1'' 1 ''complete'') (put_run at_start s) =
    (GotRun at_complete, put_run at_complete (put_run at_start s))"
  "apply_op (TransitionRun (ex_cli 2500) ''r1'' 1 ''failed'') (put_run at_complete s) =
    (Failed E_REVISION_CONFLICT, put_run at_complete s)"
  "apply_op (VerifyRun (ex_cli 1500) ''r1'' 2 (replicate 64 (CHR ''e''))) (put_run at_complete s) =
    (GotRun at_verified, put_run at_verified (put_run at_complete s))"
proof -
  have i: "rs_id at_start = ''r1''" "rs_id at_complete = ''r1''" by (simp_all add: at_start_def at_complete_def)
  note o1 = observe_put_run [OF ex_states_ok(1) i(1)] and o2 = observe_put_run [OF ex_states_ok(2) i(2)]
  show "apply_op (CreateRun (ex_cli 1000) ''r1'' ''ship it'') empty_store = (GotRun at_start, put_run at_start empty_store)"
    by (simp add: create_run_def andthen_ensure andthen_ask ex_cli_proof ex_checks ex_written at_start_def empty_store_def Let_def)
  show "apply_op (TransitionRun (ex_cli 2000) ''r1'' 1 ''complete'') (put_run at_start s) =
    (GotRun at_complete, put_run at_complete (put_run at_start s))"
    by (simp add: transition_run_def andthen_ensure andthen_ask ex_cli_proof ex_checks ex_written o1 TERMINAL_STATUSES_def)
      (simp add: at_start_def at_complete_def ex_checks ex_cli_proof ex_written andthen_ensure andthen_ask Let_def)
  show "apply_op (TransitionRun (ex_cli 2500) ''r1'' 1 ''failed'') (put_run at_complete s) =
    (Failed E_REVISION_CONFLICT, put_run at_complete s)"
    by (simp add: transition_run_def andthen_ensure andthen_ask ex_cli_proof ex_checks o2) (simp add: at_complete_def)
  show "apply_op (VerifyRun (ex_cli 1500) ''r1'' 2 (replicate 64 (CHR ''e''))) (put_run at_complete s) =
    (GotRun at_verified, put_run at_verified (put_run at_complete s))"
    by (simp add: verify_run_def andthen_ensure andthen_ask ex_cli_proof ex_checks ex_written o2)
      (simp add: at_verified_def at_complete_def ex_checks ex_cli_proof ex_written andthen_ensure andthen_ask Let_def)
qed

lemma ex_run_ops: "apply_ops ex_ops empty_store =
  ([GotRun at_start, GotRun at_complete, Failed E_REVISION_CONFLICT, GotRun at_verified],
   put_run at_verified (put_run at_complete (put_run at_start empty_store)))"
  by (simp add: ex_ops_def ex_steps del: apply_op.simps)

lemma ex_ops_ok: "list_all (\<lambda>x. env_ok (op_env x)) ex_ops"
  by (simp add: ex_ops_def)

theorem run_never_goes_back_witness:
  "\<exists>b. run_at (snd (apply_ops (drop 2 ex_ops) (put_run at_complete empty_store))) ''r1'' = Some (Some b)
     \<and> goes_on at_complete b"
proof -
  have ops: "apply_ops (drop 2 ex_ops) (put_run at_complete empty_store) =
      ([Failed E_REVISION_CONFLICT, GotRun at_verified], put_run at_verified (put_run at_complete empty_store))"
    by (simp add: ex_ops_def ex_steps del: apply_op.simps)
  have ok: "list_all (\<lambda>x. env_ok (op_env x)) (drop 2 ex_ops)" by (simp add: ex_ops_def)
  have id': "rs_id at_complete = ''r1''" "rs_id at_verified = ''r1''" by (simp_all add: at_complete_def at_verified_def)
  from run_never_goes_back [OF ops ok run_at_put [OF ex_states_ok(2) id'(1)]] show ?thesis
    unfolding ops using run_at_put [OF ex_states_ok(3) id'(2)] by simp
qed

section \<open>Revision fence\<close>

lemma unreadable_stays:
  assumes "apply_ops xs s = (outs, s')" "list_all (\<lambda>x. env_ok (op_env x)) xs" "run_at s (rs_id b) = Some None"
  shows "GotRun b \<notin> set outs"
  using assms
proof (induction xs arbitrary: s outs)
  case (Cons x xs)
  obtain out s1 outs1 where s: "apply_op x s = (out, s1)" "apply_ops xs s1 = (outs1, s')" "outs = out # outs1"
    using Cons.prems(1) by (auto split: prod.splits)
  have e: "env_ok (op_env x)" "list_all (\<lambda>x. env_ok (op_env x)) xs" using Cons.prems(2) by simp_all
  have "run_at s1 (rs_id b) = Some None"
    using apply_op_progress [OF s(1) e(1), of "rs_id b"] Cons.prems(3) by (simp add: progress_def)
  from Cons.IH [OF s(2) e(2) this] have "GotRun b \<notin> set outs1" .
  moreover from s(1) have "out \<noteq> GotRun b"
    by (cases rule: apply_op_runs) (use Cons.prems(3) in auto)
  ultimately show ?case using s(3) by simp
qed simp

lemma apply_ops_GotRun:
  assumes "apply_ops xs s = (outs, s')" "list_all (\<lambda>x. env_ok (op_env x)) xs" "GotRun b \<in> set outs"
    and "run_at s (rs_id b) = Some (Some a)"
  shows "rs_revision a < rs_revision b"
  using assms
proof (induction xs arbitrary: s outs a)
  case (Cons x xs)
  obtain out s1 outs1 where s: "apply_op x s = (out, s1)" "apply_ops xs s1 = (outs1, s')" "outs = out # outs1"
    using Cons.prems(1) by (auto split: prod.splits)
  have e: "env_ok (op_env x)" "list_all (\<lambda>x. env_ok (op_env x)) xs" using Cons.prems(2) by simp_all
  consider "out = GotRun b" | "GotRun b \<in> set outs1" using Cons.prems(3) s(3) by auto
  then show ?case
  proof cases
    case 1
    from s(1) show ?thesis
    proof (cases rule: apply_op_runs)
      case (change e old st)
      have "st = b" using change(5) 1 by simp
      moreover have "old = Some a" using change(4) Cons.prems(4) \<open>st = b\<close> by auto
      ultimately show ?thesis
        using run_change_goes_on(2) [of e a b] change(2) run_at_ok [OF Cons.prems(4)] by simp
    qed (use 1 in simp)
  next
    case 2
    have p: "progress (run_at s (rs_id b)) (run_at s1 (rs_id b))" by (rule apply_op_progress [OF s(1) e(1)])
    show ?thesis
    proof (cases "\<exists>c. run_at s1 (rs_id b) = Some (Some c)")
      case True
      then obtain c where c: "run_at s1 (rs_id b) = Some (Some c)" ..
      from Cons.IH [OF s(2) e(2) 2 c] p Cons.prems(4) c show ?thesis
        by (simp add: progress_def goes_on_def)
    next
      case False
      then have "run_at s1 (rs_id b) = Some None"
        using p Cons.prems(4) by (auto simp: progress_def split: option.splits)
      from unreadable_stays [OF s(2) e(2) this] 2 show ?thesis by blast
    qed
  qed
qed simp

lemma apply_ops_append:
  "apply_ops (xs @ ys) s = (let (o1, s1) = apply_ops xs s; (o2, s2) = apply_ops ys s1 in (o1 @ o2, s2))"
  by (induction xs arbitrary: s) (auto simp: Let_def split: prod.splits)

lemma apply_ops_length: "apply_ops xs s = (outs, s') \<Longrightarrow> length outs = length xs"
  by (induction xs arbitrary: s outs s') (auto split: prod.splits)

lemma apply_ops_nth:
  assumes "apply_ops xs s = (outs, s')" "i < length xs"
  obtains s1 s2 where "apply_ops (take i xs) s = (take i outs, s1)" "apply_op (xs ! i) s1 = (outs ! i, s2)"
    "apply_ops (drop (Suc i) xs) s2 = (drop (Suc i) outs, s')"
proof -
  obtain o1 s1 where 1: "apply_ops (take i xs) s = (o1, s1)" by fastforce
  obtain out s2 where 2: "apply_op (xs ! i) s1 = (out, s2)" by fastforce
  obtain o3 s3 where 3: "apply_ops (drop (Suc i) xs) s2 = (o3, s3)" by fastforce
  have "apply_ops (take i xs @ xs ! i # drop (Suc i) xs) s = (o1 @ out # o3, s3)"
    by (simp add: apply_ops_append 1 2 3)
  then have "outs = o1 @ out # o3" "s3 = s'" using assms by (simp_all add: id_take_nth_drop [symmetric])
  moreover have "length o1 = i" using apply_ops_length [OF 1] assms(2) by simp
  ultimately show ?thesis using that [of s1 s2] 1 2 3 by (simp add: nth_append)
qed

text \<open>C20: The revision fence. In any sequence of operations on the stores, whatever writes fail, two
  successful creations, transitions or verifications of one run return increasing revisions; so of two
  mutations sent with the same expected revision at most one succeeds.\<close>

theorem revision_fence:
  assumes "apply_ops xs s = (outs, s')" "list_all (\<lambda>x. env_ok (op_env x)) xs"
    and "i < j" "j < length xs" "outs ! i = GotRun a" "outs ! j = GotRun b" "rs_id a = rs_id b"
  shows "rs_revision a < rs_revision b"
proof -
  obtain s1 s2 where s: "apply_op (xs ! i) s1 = (GotRun a, s2)" "apply_ops (drop (Suc i) xs) s2 = (drop (Suc i) outs, s')"
    using apply_ops_nth [OF assms(1), of i] assms(3-5) by (metis less_trans)
  have e: "env_ok (op_env (xs ! i))" "list_all (\<lambda>x. env_ok (op_env x)) (drop (Suc i) xs)"
    using assms(2-4) by (auto simp: list_all_iff dest: in_set_dropD)
  have b: "GotRun b \<in> set (drop (Suc i) outs)"
    using assms(3,4,6) apply_ops_length [OF assms(1)] nth_mem [of "j - Suc i" "drop (Suc i) outs"] by simp
  have "run_at s2 (rs_id b) = Some None \<or> run_at s2 (rs_id b) = Some (Some a)"
    using s(1)
  proof (cases rule: apply_op_runs)
    case (change ev old st)
    have ok: "run_ok c" if "old = Some c" for c using change(4) that run_at_ok by auto
    show ?thesis
      using run_at_change [OF change(2) _ ok, of s1] change(1,3,5) e(1) assms(7) by auto
  qed simp
  then show ?thesis
    using apply_ops_GotRun [OF s(2) e(2) b] unreadable_stays [OF s(2) e(2) _] b by blast
qed

theorem revision_fence_witness:
  "fst (apply_ops ex_ops empty_store) ! 1 = GotRun at_complete
     \<and> fst (apply_ops ex_ops empty_store) ! 3 = GotRun at_verified
     \<and> rs_revision at_complete < rs_revision at_verified"
proof -
  have "rs_id at_complete = rs_id at_verified" "length ex_ops = 4" by (simp_all add: at_verified_def ex_ops_def)
  with revision_fence [OF ex_run_ops ex_ops_ok, of 1 3 at_complete at_verified] show ?thesis
    by (simp add: ex_run_ops)
qed

section \<open>Validity\<close>

definition runs_valid :: "int \<Rightarrow> run_store \<Rightarrow> bool" where
  \<comment> \<open>every run file reads back, with a revision up to the bound\<close>
  "runs_valid n s = (\<forall>i. run_at s i = None \<or> (\<exists>st. run_at s i = Some (Some st) \<and> rs_revision st \<le> n))"

lemma runs_valid_mono: "runs_valid n s \<Longrightarrow> n \<le> m \<Longrightarrow> runs_valid m s"
  unfolding runs_valid_def by (meson order_trans)

lemma apply_op_valid:
  assumes "apply_op x s = (out, s')" "env_ok (op_env x)" "runs_valid n s" "1 \<le> n + 1" "n < 9007199254740991"
  shows "runs_valid (n + 1) s'"
  using assms(1)
proof (cases rule: apply_op_runs)
  case same
  with assms(3) show ?thesis
    using run_at_same [OF same(1)] runs_valid_mono [of n s "n + 1"] by (simp add: runs_valid_def)
next
  case (change e old st)
  have ok: "run_ok c" if "old = Some c" for c using change(4) that run_at_ok by auto
  have "rs_revision st \<le> n + 1"
  proof (cases old)
    case None
    with change(2) assms(4) show ?thesis by (auto elim: run_changeE)
  next
    case (Some a)
    then have "run_at s (rs_id st) = Some (Some a)" using change(4) by auto
    with assms(3) have "rs_revision a \<le> n" unfolding runs_valid_def by (metis option.distinct(1) option.inject)
    with run_change_goes_on(2) [of e a st] change(2) Some ok show ?thesis by simp
  qed
  then have "run_at s' (rs_id st) = Some (Some st)"
    using run_at_change [OF change(2) _ ok, of s] change(1,3) assms(2,5) by simp
  with \<open>rs_revision st \<le> n + 1\<close> runs_valid_mono [OF assms(3), of "n + 1"] change(3) show ?thesis
    by (auto simp: runs_valid_def run_at_put_run)
qed

text \<open>C24: Stores stay readable. When every run file of a store reads back as a valid run, so does every
  run file after any sequence of operations, whatever writes fail, as long as the revisions stay
  below the largest safe integer.\<close>

theorem run_files_stay_valid:
  assumes "apply_ops xs s = (outs, s')" "list_all (\<lambda>x. env_ok (op_env x)) xs"
    and "runs_valid n s" "0 \<le> n" "n + int (length xs) \<le> 9007199254740991"
  shows "runs_valid (n + int (length xs)) s'"
  using assms
proof (induction xs arbitrary: s outs n)
  case (Cons x xs)
  obtain out s1 outs1 where s: "apply_op x s = (out, s1)" "apply_ops xs s1 = (outs1, s')"
    using Cons.prems(1) by (auto split: prod.splits)
  have "runs_valid (n + 1) s1"
    by (rule apply_op_valid [OF s(1)]) (use Cons.prems in auto)
  from Cons.IH [OF s(2) _ this] Cons.prems show ?case by (simp add: algebra_simps)
qed simp

theorem run_files_stay_valid_witness: "runs_valid 4 (snd (apply_ops ex_ops empty_store))"
proof -
  have "runs_valid 0 empty_store" by (simp add: runs_valid_def run_at_def empty_store_def)
  with run_files_stay_valid [OF ex_run_ops ex_ops_ok, of 0] show ?thesis
    by (simp add: ex_run_ops) (simp add: ex_ops_def)
qed

section \<open>Transitions\<close>

text \<open>C23: The transition table is what the store enforces. With a valid authority and clock, a
  transition of a readable run succeeds in writing exactly when the revision is the expected one and
  the target is among the allowed transitions of the current status, and then the run has that status,
  the next revision and is not verified.\<close>

theorem transition_follows_table:
  assumes "authorized e = Inr ()" "ce_write e = WriteOk" "valid_time (ce_now e)"
    and "observe_run_state s i = Inr cur" "status_of txt = Some to"
  shows "(\<exists>st s'. transition_run e i n txt s = (Inr st, s') \<and> rs_status st = to
      \<and> rs_revision st = rs_revision cur + 1 \<and> rs_verification st = Unverified)
    \<longleftrightarrow> n = rs_revision cur \<and> to \<in> set (ALLOWED_TRANSITIONS (rs_status cur))"
proof -
  have o: "safe_key i" "run_ok cur" using observe_InrD [OF assms(4)] by simp_all
  then have t: "valid_time (max (ce_now e) (rs_updated cur))"
    using assms(3) by (simp add: max_def run_ok_def)
  have tab: "to \<in> set (ALLOWED_TRANSITIONS (rs_status cur)) \<longleftrightarrow> rs_status cur \<notin> TERMINAL_STATUSES \<and> rs_status cur \<noteq> to"
    by (cases "rs_status cur"; cases to) (simp_all add: TERMINAL_STATUSES_def)
  show ?thesis
    using assms o(1) t
    by (auto simp: transition_run_def andthen_ensure andthen_ask Let_def make_proof_def written_def tab)
qed

theorem transition_follows_table_witness:
  "\<exists>st s'. transition_run (ex_cli 2000) ''r1'' 1 ''failed'' (put_run at_start empty_store) = (Inr st, s') \<and> rs_status st = RFailed"
proof -
  have i: "rs_id at_start = ''r1''" "rs_revision at_start = 1" "rs_status at_start = RActive"
    by (simp_all add: at_start_def)
  have e: "ce_write (ex_cli 2000) = WriteOk" "valid_time (ce_now (ex_cli 2000))"
    by (simp add: ex_cli_def, simp add: ex_checks)
  show ?thesis
    using transition_follows_table [OF ex_cli_proof(1) e observe_put_run [OF ex_states_ok(1) i(1)] ex_checks(7), of 1] i
    by simp (metis)
qed

section \<open>Leases\<close>

fun bears_on :: "string \<Rightarrow> string \<Rightarrow> run_op \<Rightarrow> bool" where
  "bears_on i n (AcquireLease _ i' n' _ _) = (i' = i \<and> n' = n)"
| "bears_on i n (ReleaseLease _ i' n' _ _) = (i' = i \<and> n' = n)"
| "bears_on i n _ = False"

fun op_owner :: "run_op \<Rightarrow> string" where
  "op_owner (AcquireLease _ _ _ own _) = own"
| "op_owner (ReleaseLease _ _ _ own _) = own"
| "op_owner _ = []"

lemma apply_op_lease:
  assumes "apply_op x s = (out, s')"
  shows "(\<exists>l old. bears_on (ls_run l) (ls_name l) x \<and> op_owner x = ls_owner l \<and> lease_change (op_env x) old l
        \<and> read_lease s (ls_run l) (ls_name l) = Inr old \<and> s' = put_lease l s
        \<and> (\<exists>st. run_at s (ls_run l) = Some (Some st) \<and> rs_status st = RActive)
        \<and> (out = GotLease l \<or> out = Failed E_RUN_WRITE))
    \<or> (\<exists>i n l. bears_on i n x \<and> op_owner x = ls_owner l \<and> read_lease s i n = Inr (Some l)
        \<and> s' = s\<lparr>st_leases := (st_leases s)((i, n) := None)\<rparr> \<and> out = Released)
    \<or> st_leases s' = st_leases s \<and> (\<forall>l. out \<noteq> GotLease l)"
proof (cases x)
  case (AcquireLease e i n own ttl)
  have "lease_effect e i n own s (out, s')"
    using assms AcquireLease acquire_lease_effect [of e i n own s ttl] by simp
  with AcquireLease show ?thesis unfolding lease_effect_def fst_conv snd_conv by fastforce
next
  case (ReleaseLease e i n own g)
  obtain r where r: "release_lease e i n own g s = (r, s')" "out = case_sum Failed (\<lambda>_. Released) r"
    using assms ReleaseLease by (auto simp: apfst_def map_prod_def split: prod.splits)
  from release_lease_cases [OF r(1)] r(2) ReleaseLease show ?thesis by auto
next
  case (CreateRun e i ob)
  with assms create_run_effect [of e s i ob] show ?thesis by (auto simp: run_effect_def put_run_def)
next
  case (TransitionRun e i n to)
  with assms transition_run_effect [of e s i n to] show ?thesis by (auto simp: run_effect_def put_run_def)
next
  case (VerifyRun e i n sha)
  with assms verify_run_effect [of e s i n sha] show ?thesis by (auto simp: run_effect_def put_run_def)
qed

text \<open>C22: A lease excludes other owners. Starting from a lease held by an owner, no sequence of operations
  of other owners, each at a clock before the expiry and before or after any other operation on the
  stores, acquires or releases it: the lease reads as before and none of these operations returned it.\<close>

theorem lease_exclusive:
  assumes "apply_ops xs s = (outs, s')" "read_lease s i n = Inr (Some l)"
    and "list_all (\<lambda>x. bears_on i n x \<longrightarrow> op_owner x \<noteq> ls_owner l \<and> ce_now (op_env x) < ls_expires l) xs"
    and "mp_at (ls_mutation l) < ls_expires l"
  shows "read_lease s' i n = Inr (Some l) \<and> (\<forall>l'. GotLease l' \<in> set outs \<longrightarrow> (ls_run l', ls_name l') \<noteq> (i, n))"
  using assms
proof (induction xs arbitrary: s outs)
  case (Cons x xs)
  obtain out s1 outs1 where s: "apply_op x s = (out, s1)" "apply_ops xs s1 = (outs1, s')" "outs = out # outs1"
    using Cons.prems(1) by (auto split: prod.splits)
  have x: "bears_on i n x \<Longrightarrow> op_owner x \<noteq> ls_owner l \<and> ce_now (op_env x) < ls_expires l"
    using Cons.prems(3) by simp
  have "read_lease s1 i n = Inr (Some l) \<and> (\<forall>l'. out = GotLease l' \<longrightarrow> (ls_run l', ls_name l') \<noteq> (i, n))"
    using apply_op_lease [OF s(1)]
  proof (elim disjE)
    assume "\<exists>l old. bears_on (ls_run l) (ls_name l) x \<and> op_owner x = ls_owner l \<and> lease_change (op_env x) old l
        \<and> read_lease s (ls_run l) (ls_name l) = Inr old \<and> s1 = put_lease l s
        \<and> (\<exists>st. run_at s (ls_run l) = Some (Some st) \<and> rs_status st = RActive)
        \<and> (out = GotLease l \<or> out = Failed E_RUN_WRITE)"
    then obtain l' old where a: "bears_on (ls_run l') (ls_name l') x" "op_owner x = ls_owner l'"
      "lease_change (op_env x) old l'" "read_lease s (ls_run l') (ls_name l') = Inr old" "s1 = put_lease l' s"
      "out = GotLease l' \<or> out = Failed E_RUN_WRITE" by blast
    have "(ls_run l', ls_name l') \<noteq> (i, n)"
    proof
      assume "(ls_run l', ls_name l') = (i, n)"
      with a Cons.prems(2) x have "old = Some l" "ls_owner l' \<noteq> ls_owner l" "ce_now (op_env x) < ls_expires l" by auto
      with a(3) Cons.prems(4) show False
        by (cases rule: lease_change.cases) (auto simp: held_by_other_def held_at_def)
    qed
    with a Cons.prems(2) show ?thesis
      by (auto simp: read_lease_def put_lease_def)
  next
    assume "\<exists>i n l. bears_on i n x \<and> op_owner x = ls_owner l \<and> read_lease s i n = Inr (Some l)
        \<and> s1 = s\<lparr>st_leases := (st_leases s)((i, n) := None)\<rparr> \<and> out = Released"
    then obtain i' n' l' where "bears_on i' n' x" "op_owner x = ls_owner l'" "read_lease s i' n' = Inr (Some l')"
      "s1 = s\<lparr>st_leases := (st_leases s)((i', n') := None)\<rparr>" "out = Released" by blast
    moreover from this x Cons.prems(2) have "(i', n') \<noteq> (i, n)" by auto
    ultimately show ?thesis using Cons.prems(2) by (auto simp: read_lease_def)
  next
    assume "st_leases s1 = st_leases s \<and> (\<forall>l. out \<noteq> GotLease l)"
    with Cons.prems(2) show ?thesis by (simp add: read_lease_def)
  qed
  with Cons.IH [OF s(2)] Cons.prems(3,4) s(3) show ?case by auto
qed simp

lemma read_lease_put:
  "lease_ok l \<Longrightarrow> ls_run l = i \<Longrightarrow> ls_name l = n \<Longrightarrow> read_lease (put_lease l s) i n = Inr (Some l)"
  using valid_lease_json [of l] by (auto simp: read_lease_def put_lease_def lease_ok_def)

definition ex_lease :: "ms \<Rightarrow> lease" where
  "ex_lease t = \<lparr>ls_run = ''r1'', ls_name = ''deploy'', ls_owner = ''alice'', ls_generation = 1, ls_expires = t + 5000,
     ls_mutation = \<lparr>mp_owner = replicate 64 (CHR ''f''), mp_pid = 42, mp_at = t\<rparr>\<rparr>"

lemma ex_lease_sel [simp]:
  "ls_run (ex_lease t) = ''r1''" "ls_name (ex_lease t) = ''deploy''" "ls_owner (ex_lease t) = ''alice''"
  "ls_generation (ex_lease t) = 1" "ls_expires (ex_lease t) = t + 5000" "mp_at (ls_mutation (ex_lease t)) = t"
  by (simp_all add: ex_lease_def)

lemma ex_lease_ok: "lease_ok (ex_lease 3000)" "safe_key ''deploy''" "safe_key ''alice''" "safe_key ''bob''"
  "valid_time 3000" "valid_time 8000" "valid_time 4000" "valid_time 9000"
  by code_simp+

lemma ex_check_run: "check_run ''r1'' (put_lease l (put_run at_start s)) = Inr at_start"
  "check_run ''r1'' (put_run at_start s) = Inr at_start"
proof -
  have "observe_run_state (put_run at_start s) ''r1'' = Inr at_start"
    by (rule observe_put_run [OF ex_states_ok(1)]) (simp add: at_start_def)
  moreover have "observe_run_state (put_lease l s') ''r1'' = observe_run_state s' ''r1''" for s'
    by (simp add: observe_run_state_def put_lease_def)
  moreover have "rs_status at_start = RActive" by (simp add: at_start_def)
  ultimately show "check_run ''r1'' (put_lease l (put_run at_start s)) = Inr at_start"
    "check_run ''r1'' (put_run at_start s) = Inr at_start"
    by (simp_all add: check_run_def)
qed

lemma ex_read_lease: "read_lease (put_lease (ex_lease 3000) s) ''r1'' ''deploy'' = Inr (Some (ex_lease 3000))"
  by (rule read_lease_put [OF ex_lease_ok(1)]) (simp_all add: ex_lease_def)

theorem lease_exclusive_witness:
  "fst (apply_ops [AcquireLease (ex_cli 4000) ''r1'' ''deploy'' ''bob'' 1000,
       ReleaseLease (ex_cli 7999) ''r1'' ''deploy'' ''bob'' 1] (put_lease (ex_lease 3000) (put_run at_start empty_store)))
     = [Failed E_LEASE_HELD, Failed E_LEASE_NOT_OWNER]
   \<and> read_lease (snd (apply_ops [AcquireLease (ex_cli 4000) ''r1'' ''deploy'' ''bob'' 1000,
       ReleaseLease (ex_cli 7999) ''r1'' ''deploy'' ''bob'' 1] (put_lease (ex_lease 3000) (put_run at_start empty_store))))
     ''r1'' ''deploy'' = Inr (Some (ex_lease 3000))"
proof -
  let ?xs = "[AcquireLease (ex_cli 4000) ''r1'' ''deploy'' ''bob'' 1000, ReleaseLease (ex_cli 7999) ''r1'' ''deploy'' ''bob'' 1]"
  let ?s = "put_lease (ex_lease 3000) (put_run at_start empty_store)"
  have r: "apply_ops ?xs ?s = ([Failed E_LEASE_HELD, Failed E_LEASE_NOT_OWNER], ?s)"
    by (simp add: acquire_lease_def release_lease_def andthen_ensure andthen_ask ex_cli_proof ex_checks ex_lease_ok
        ex_check_run ex_read_lease held_by_other_def held_at_def safe_integer_def Let_def)
  have h: "list_all (\<lambda>x. bears_on ''r1'' ''deploy'' x \<longrightarrow> op_owner x \<noteq> ls_owner (ex_lease 3000)
      \<and> ce_now (op_env x) < ls_expires (ex_lease 3000)) ?xs" "mp_at (ls_mutation (ex_lease 3000)) < ls_expires (ex_lease 3000)"
    by (simp_all add: ex_lease_def)
  from lease_exclusive [OF r ex_read_lease h] show ?thesis unfolding r by simp
qed

text \<open>
  A release deletes the file of the lease, so the next acquisition starts again at generation 1: a
  release sent for the first lease of an owner also ends a later lease of that owner.
\<close>

lemma lease_generation_restarts:
  "fst (apply_ops [AcquireLease (ex_cli 3000) ''r1'' ''deploy'' ''alice'' 5000,
      ReleaseLease (ex_cli 3000) ''r1'' ''deploy'' ''alice'' 1,
      AcquireLease (ex_cli 3000) ''r1'' ''deploy'' ''alice'' 5000,
      ReleaseLease (ex_cli 3000) ''r1'' ''deploy'' ''alice'' 1] (put_run at_start empty_store)) =
   [GotLease (ex_lease 3000), Released, GotLease (ex_lease 3000), Released]"
proof -
  let ?s = "put_run at_start empty_store"
  have r: "read_lease ?s ''r1'' ''deploy'' = Inr None"
    by (simp add: read_lease_def put_run_def empty_store_def ex_checks ex_lease_ok)
  have a: "apply_op (AcquireLease (ex_cli 3000) ''r1'' ''deploy'' ''alice'' 5000) ?s = (GotLease (ex_lease 3000), put_lease (ex_lease 3000) ?s)"
    by (simp add: acquire_lease_def andthen_ensure andthen_ask ex_cli_proof ex_checks ex_lease_ok
        ex_check_run r held_by_other_def held_at_def safe_integer_def ex_written Let_def)
      (simp add: ex_lease_def)
  have b: "apply_op (ReleaseLease (ex_cli 3000) ''r1'' ''deploy'' ''alice'' 1) (put_lease (ex_lease 3000) ?s) = (Released, ?s)"
    by (simp add: release_lease_def andthen_ensure andthen_ask ex_cli_proof ex_checks ex_lease_ok ex_read_lease)
      (simp add: ex_lease_def put_lease_def put_run_def empty_store_def fun_eq_iff)
  show ?thesis by (simp add: a b del: apply_op.simps)
qed

end
