(* ===== verification/Paths.thy ===== *)
theory Paths
  imports Prelude "HOL-Library.Sublist"
begin

text \<open>
  POSIX paths as \<^verbatim>\<open>node:path\<close> computes with them, and the exclusive path claims of concurrent
  workers (\<^verbatim>\<open>src/modes/path-claims.ts\<close>).  \<open>exclusive_iff_disjoint\<close> is the contract of the claims
  check: it accepts exactly the claims under which no file, compared without case, has two owners.
\<close>

section \<open>Segments\<close>

fun split_by :: "(char \<Rightarrow> bool) \<Rightarrow> string \<Rightarrow> string list" where
  "split_by P [] = [[]]"
| "split_by P (c # s) = (if P c then [] # split_by P s
     else (case split_by P s of [] \<Rightarrow> [[c]] | x # xs \<Rightarrow> (c # x) # xs))"

definition segments :: "string \<Rightarrow> string list" where
  "segments s = split_by (\<lambda>c. c = CHR ''/'') s"

definition is_absolute :: "string \<Rightarrow> bool" where
  "is_absolute s = starts_with ''/'' s"

fun normal_step :: "bool \<Rightarrow> string list \<Rightarrow> string \<Rightarrow> string list" where
  "normal_step up acc seg =
     (if seg = [] \<or> seg = ''.'' then acc
      else if seg = ''..'' then
        (if acc \<noteq> [] \<and> last acc \<noteq> ''..'' then butlast acc else if up then acc @ [seg] else acc)
      else acc @ [seg])"

definition normal_segments :: "bool \<Rightarrow> string \<Rightarrow> string list" where
  \<comment> \<open>\<^verbatim>\<open>normalizeString\<close>; \<open>up\<close>: \<^verbatim>\<open>..\<close> at the start is kept\<close>
  "normal_segments up s = foldl (normal_step up) [] (segments s)"

definition normalize :: "string \<Rightarrow> string" where
  "normalize p = (if p = [] then ''.'' else
     let abs = is_absolute p; trailing = ends_with ''/'' p; s = join ''/'' (normal_segments (\<not> abs) p)
     in if s = [] then (if abs then ''/'' else if trailing then ''./'' else ''.'')
        else (if abs then ''/'' else []) @ s @ (if trailing then ''/'' else []))"

fun resolve_raw :: "string \<Rightarrow> string list \<Rightarrow> string \<Rightarrow> string" where
  \<comment> \<open>from the last argument to the first, until one is absolute\<close>
  "resolve_raw cwd [] acc = cwd @ ''/'' @ acc"
| "resolve_raw cwd (p # ps) acc = (if p = [] then resolve_raw cwd ps acc
     else if is_absolute p then p @ ''/'' @ acc else resolve_raw cwd ps (p @ ''/'' @ acc))"

definition resolve :: "string \<Rightarrow> string list \<Rightarrow> string" where
  \<comment> \<open>\<^verbatim>\<open>path.resolve(...ps)\<close> with the working directory \<open>cwd\<close>\<close>
  "resolve cwd ps = (let raw = resolve_raw cwd (rev ps) []; s = join ''/'' (normal_segments (\<not> is_absolute raw) raw)
     in if is_absolute raw then ''/'' @ s else if s = [] then ''.'' else s)"

section \<open>Claims\<close>

definition canonicalize_owned_path :: "string \<Rightarrow> string option" where
  "canonicalize_owned_path owned =
     (if owned = [] \<or> is_absolute owned \<or> ''..'' \<in> set (split_by (\<lambda>c. c = CHR ''/'' \<or> c = CHR 0x5C) owned) then None
      else if normalize owned \<noteq> owned \<or> owned = ''.'' \<or> CHR 0x5C \<in> set owned \<or> ends_with ''/'' owned then None
      else Some owned)"

record path_claim =
  pc_owner :: string
  pc_paths :: "string list"

datatype claim_error =
    PathInvalid
  | PathConflict string string  \<comment> \<open>owner and claimant\<close>

definition paths_overlap :: "string \<Rightarrow> string \<Rightarrow> bool" where
  "paths_overlap key existing = (key = existing \<or> starts_with (existing @ ''/'') key \<or> starts_with (key @ ''/'') existing)"

fun claim_path :: "string \<Rightarrow> string \<Rightarrow> (string \<times> string) list \<Rightarrow> claim_error + (string \<times> string) list" where
  "claim_path own owned claimed =
     (if canonicalize_owned_path owned = None then Inl PathInvalid
      else let key = to_lower owned in
        case find (\<lambda>(existing, _). paths_overlap key existing) claimed of
          Some (_, holder) \<Rightarrow> Inl (PathConflict holder own)
        | None \<Rightarrow> Inr (claimed @ [(key, own)]))"

fun claim_paths :: "string \<Rightarrow> string list \<Rightarrow> (string \<times> string) list \<Rightarrow> claim_error + (string \<times> string) list" where
  "claim_paths own [] claimed = Inr claimed"
| "claim_paths own (p # ps) claimed = rbind (claim_path own p claimed) (claim_paths own ps)"

fun claim_all :: "path_claim list \<Rightarrow> (string \<times> string) list \<Rightarrow> claim_error + (string \<times> string) list" where
  "claim_all [] claimed = Inr claimed"
| "claim_all (e # es) claimed = rbind (claim_paths (pc_owner e) (pc_paths e) claimed) (claim_all es)"

definition assert_exclusive_path_claims :: "path_claim list \<Rightarrow> claim_error + unit" where
  "assert_exclusive_path_claims claims = rbind (claim_all claims []) (\<lambda>_. Inr ())"

section \<open>Splitting and joining\<close>

lemma split_by_not_Nil [simp]: "split_by P s \<noteq> []"
  by (induction s) (auto split: list.splits)

lemma split_by_clean: "x \<in> set (split_by P s) \<Longrightarrow> c \<in> set x \<Longrightarrow> \<not> P c"
proof (induction s arbitrary: x c)
  case (Cons d s)
  obtain y ys where y: "split_by P s = y # ys" by (cases "split_by P s") auto
  have "\<forall>x \<in> set (y # ys). \<forall>c \<in> set x. \<not> P c" using Cons.IH y by simp
  with Cons.prems y show ?case by (auto split: if_splits)
qed simp

lemma split_by_append_sep:
  assumes "P c" "\<forall>d \<in> set x. \<not> P d"
  shows "split_by P (x @ c # s) = x # split_by P s"
  using assms(2)
  by (induction x) (auto simp: assms(1) split: list.splits)

lemma split_by_plain: "\<forall>d \<in> set x. \<not> P d \<Longrightarrow> split_by P x = [x]"
  by (induction x) auto

lemma segments_join:
  assumes "xs \<noteq> []" "\<forall>x \<in> set xs. CHR ''/'' \<notin> set x"
  shows "segments (join ''/'' xs) = xs"
  using assms
proof (induction "''/''" xs rule: join.induct)
  case (2 x)
  then show ?case by (auto simp: segments_def intro: split_by_plain)
next
  case (3 x y xs)
  have "\<forall>d \<in> set x. d \<noteq> CHR ''/''" using "3.prems" by auto
  then have "segments (x @ CHR ''/'' # join ''/'' (y # xs)) = x # segments (join ''/'' (y # xs))"
    unfolding segments_def by (intro split_by_append_sep) simp_all
  with 3 show ?case by simp
qed simp

lemma join_segments: "join ''/'' (segments s) = s"
proof (induction s)
  case (Cons c s)
  obtain x xs where s: "split_by (\<lambda>c. c = CHR ''/'') s = x # xs"
    by (cases "split_by (\<lambda>c. c = CHR ''/'') s") auto
  have cons: "join ''/'' ((c # y) # ys) = c # join ''/'' (y # ys)" for y ys by (cases ys) simp_all
  have nil: "join ''/'' ([] # y # ys) = CHR ''/'' # join ''/'' (y # ys)" for y ys by simp
  from s Cons.IH show ?case by (simp add: segments_def cons nil del: join.simps)
qed (simp add: segments_def)

lemma segments_clean: "x \<in> set (segments s) \<Longrightarrow> CHR ''/'' \<notin> set x"
  unfolding segments_def using split_by_clean [where P = "\<lambda>c. c = CHR ''/''"] by blast

lemma segments_not_Nil [simp]: "segments s \<noteq> []"
  by (simp add: segments_def)

section \<open>Canonical paths\<close>

definition plain_segment :: "string \<Rightarrow> bool" where
  "plain_segment seg = (seg \<noteq> [] \<and> seg \<noteq> ''.'' \<and> seg \<noteq> ''..'' \<and> CHR 0x5C \<notin> set seg)"

lemma normal_step_filter:
  assumes "''..'' \<notin> set xs"
  shows "foldl (normal_step up) acc xs = acc @ filter (\<lambda>x. x \<noteq> [] \<and> x \<noteq> ''.'') xs"
  using assms by (induction xs arbitrary: acc) auto

lemma split_by_same:
  assumes "\<forall>c \<in> set s. P c \<longleftrightarrow> Q c"
  shows "split_by P s = split_by Q s"
  using assms by (induction s) auto

lemma segments_no_backslash:
  assumes "CHR 0x5C \<notin> set s"
  shows "split_by (\<lambda>c. c = CHR ''/'' \<or> c = CHR 0x5C) s = segments s"
  unfolding segments_def by (rule split_by_same) (use assms in auto)

lemma ends_with_segments:
  "ends_with ''/'' s \<longleftrightarrow> s \<noteq> [] \<and> last s = CHR ''/''"
  by (cases s rule: rev_cases) (auto simp: ends_with_def starts_with_def)

lemma is_absolute_iff: "is_absolute s \<longleftrightarrow> s \<noteq> [] \<and> hd s = CHR ''/''"
  by (cases s) (auto simp: is_absolute_def starts_with_def)

lemma in_segments: "c \<noteq> CHR ''/'' \<Longrightarrow> c \<in> set s \<longleftrightarrow> (\<exists>x \<in> set (segments s). c \<in> set x)"
proof (induction s)
  case (Cons d s)
  obtain x xs where "segments s = x # xs" by (cases "segments s") auto
  with Cons show ?case by (auto simp: segments_def)
qed (simp add: segments_def)

lemma hd_segments: "s \<noteq> [] \<Longrightarrow> hd s = CHR ''/'' \<Longrightarrow> [] \<in> set (segments s)"
  by (cases s) (simp_all add: segments_def)

lemma split_by_snoc: "P c \<Longrightarrow> split_by P (s @ [c]) = split_by P s @ [[]]"
  by (induction s) (auto split: list.splits)

lemma last_segments: "s \<noteq> [] \<Longrightarrow> last s = CHR ''/'' \<Longrightarrow> [] \<in> set (segments s)"
  by (cases s rule: rev_cases) (simp_all add: segments_def split_by_snoc)

text \<open>C0: Canonical owned paths. The check accepts a path, unchanged, exactly when it is a relative
  sequence of plain segments: none empty, none \<^verbatim>\<open>.\<close> or \<^verbatim>\<open>..\<close>, none with a backslash.\<close>

theorem canonical_path_iff:
  "canonicalize_owned_path p = Some q \<longleftrightarrow> q = p \<and> (\<forall>seg \<in> set (segments p). plain_segment seg)"
proof (cases "p = []")
  case True
  then show ?thesis by (simp add: canonicalize_owned_path_def segments_def plain_segment_def)
next
  case False
  show ?thesis
  proof (cases "\<forall>seg \<in> set (segments p). plain_segment seg")
    case True
    then have b: "CHR 0x5C \<notin> set p" using in_segments [of "CHR 0x5C" p] by (auto simp: plain_segment_def)
    have h: "\<not> is_absolute p" using True hd_segments [of p] by (auto simp: is_absolute_iff plain_segment_def)
    have l: "\<not> ends_with ''/'' p" using True last_segments [of p] by (auto simp: ends_with_segments plain_segment_def)
    have "filter (\<lambda>x. x \<noteq> [] \<and> x \<noteq> ''.'') (segments p) = segments p"
      by (rule filter_True) (use True in \<open>simp add: plain_segment_def\<close>)
    moreover have dd: "''..'' \<notin> set (segments p)" using True by (auto simp: plain_segment_def)
    ultimately have "normal_segments True p = segments p" by (simp add: normal_segments_def normal_step_filter)
    then have "normalize p = p" using h l False by (simp add: normalize_def join_segments)
    moreover have "p \<noteq> ''.''"
    proof
      assume p: "p = ''.''"
      have "''.'' \<in> set (segments ''.'')" by (simp add: segments_def)
      with True have "plain_segment ''.''" unfolding p by blast
      then show False by (simp add: plain_segment_def)
    qed
    ultimately have "canonicalize_owned_path p = Some p" using b h l False dd
      unfolding canonicalize_owned_path_def segments_no_backslash [OF b] by simp
    with True show ?thesis by auto
  next
    case bad: False
    have "canonicalize_owned_path p = None"
    proof (rule ccontr)
      assume "canonicalize_owned_path p \<noteq> None"
      then have c: "\<not> is_absolute p" "normalize p = p" "p \<noteq> ''.''" "CHR 0x5C \<notin> set p" "\<not> ends_with ''/'' p"
        and dd: "''..'' \<notin> set (split_by (\<lambda>c. c = CHR ''/'' \<or> c = CHR 0x5C) p)"
        unfolding canonicalize_owned_path_def by presburger+
      have dd: "''..'' \<notin> set (segments p)" using dd segments_no_backslash [OF c(4)] by simp
      let ?f = "filter (\<lambda>x. x \<noteq> [] \<and> x \<noteq> ''.'') (segments p)"
      have n: "normal_segments True p = ?f" using dd by (simp add: normal_segments_def normal_step_filter)
      have j: "join ''/'' ?f = p"
        using c n False by (auto simp: normalize_def Let_def split: if_splits)
      then have "?f \<noteq> []" using False by (metis join.simps(1))
      then have "segments (join ''/'' ?f) = ?f" using segments_clean by (intro segments_join) auto
      then have eq: "segments p = ?f" using j by simp
      have "\<forall>x \<in> set (segments p). x \<noteq> [] \<and> x \<noteq> ''.''" by (subst eq) simp
      with bad dd c(4) in_segments [of "CHR 0x5C" p] show False by (auto simp: plain_segment_def)
    qed
    with bad show ?thesis by simp
  qed
qed

theorem canonical_path_iff_witness:
  "canonicalize_owned_path ''src/a.ts'' = Some ''src/a.ts'' \<and> canonicalize_owned_path ''a//b'' \<noteq> Some ''a//b''"
proof -
  have s: "(\<forall>seg \<in> set (segments ''src/a.ts''). plain_segment seg) \<and> \<not> (\<forall>seg \<in> set (segments ''a//b''). plain_segment seg)"
    by code_simp
  show ?thesis unfolding canonical_path_iff using s by blast
qed

section \<open>Exclusive claims\<close>

definition covers :: "string \<Rightarrow> string \<Rightarrow> bool" where
  \<comment> \<open>the file is the claimed path or lies below it\<close>
  "covers key f = (f = key \<or> starts_with (key @ ''/'') f)"

lemma covers_prefix: "covers key f \<longleftrightarrow> prefix (key @ ''/'') (f @ ''/'')"
proof
  assume "covers key f"
  then show "prefix (key @ ''/'') (f @ ''/'')"
    by (auto simp: covers_def starts_with_iff)
next
  assume "prefix (key @ ''/'') (f @ ''/'')"
  then obtain z where z: "f @ ''/'' = key @ ''/'' @ z" by (auto simp: prefix_def)
  then show "covers key f"
    by (cases z rule: rev_cases) (auto simp: covers_def starts_with_iff)
qed

lemma paths_overlap_iff: "paths_overlap a b \<longleftrightarrow> (\<exists>f. covers a f \<and> covers b f)"
proof
  assume "paths_overlap a b"
  then show "\<exists>f. covers a f \<and> covers b f"
    by (auto simp: paths_overlap_def covers_def)
next
  assume "\<exists>f. covers a f \<and> covers b f"
  then obtain f where "prefix (a @ ''/'') (f @ ''/'')" "prefix (b @ ''/'') (f @ ''/'')"
    by (auto simp: covers_prefix)
  then have "prefix (a @ ''/'') (b @ ''/'') \<or> prefix (b @ ''/'') (a @ ''/'')"
    by (rule prefix_same_cases)
  then have "covers a b \<or> covers b a" by (simp add: covers_prefix)
  then show "paths_overlap a b" by (auto simp: paths_overlap_def covers_def)
qed

definition all_claims :: "path_claim list \<Rightarrow> string list" where
  \<comment> \<open>every claimed path, in the order of the check\<close>
  "all_claims es = concat (map pc_paths es)"

fun claim_keys :: "string list \<Rightarrow> string list \<Rightarrow> bool" where
  \<comment> \<open>the paths can be claimed one after the other on top of the keys already claimed\<close>
  "claim_keys keys [] = True"
| "claim_keys keys (p # ps) = (canonicalize_owned_path p \<noteq> None \<and> (\<forall>k \<in> set keys. \<not> paths_overlap (to_lower p) k)
     \<and> claim_keys (keys @ [to_lower p]) ps)"

lemma claim_keys_append:
  "claim_keys keys (ps @ qs) \<longleftrightarrow> claim_keys keys ps \<and> claim_keys (keys @ map to_lower ps) qs"
  by (induction ps arbitrary: keys) auto

lemma claim_paths_ok:
  "is_ok (claim_paths own ps claimed) = claim_keys (map fst claimed) ps \<and>
   (\<forall>c. claim_paths own ps claimed = Inr c \<longrightarrow> map fst c = map fst claimed @ map to_lower ps)"
proof (induction ps arbitrary: claimed)
  case (Cons p ps)
  let ?ov = "\<lambda>(existing, _). paths_overlap (to_lower p) existing"
  have ov: "find ?ov claimed = None \<longleftrightarrow> (\<forall>k \<in> set (map fst claimed). \<not> paths_overlap (to_lower p) k)"
    by (induction claimed) auto
  show ?case
  proof (cases "canonicalize_owned_path p = None \<or> find ?ov claimed \<noteq> None")
    case True
    then have "\<not> claim_keys (map fst claimed) (p # ps)"
      using ov by auto
    moreover have "\<exists>e. claim_path own p claimed = Inl e"
      using True by (auto simp: Let_def split: option.splits)
    ultimately show ?thesis by auto
  next
    case False
    then have "\<forall>k \<in> set (map fst claimed). \<not> paths_overlap (to_lower p) k"
      using ov by blast
    moreover have "claim_path own p claimed = Inr (claimed @ [(to_lower p, own)])"
      using False by (auto simp: Let_def split: option.splits)
    ultimately show ?thesis using Cons.IH [of "claimed @ [(to_lower p, own)]"] False by simp
  qed
qed simp

lemma claim_all_ok: "is_ok (claim_all es claimed) = claim_keys (map fst claimed) (all_claims es)"
proof (induction es arbitrary: claimed)
  case (Cons e es)
  note c = claim_paths_ok [of "pc_owner e" "pc_paths e" claimed]
  show ?case
  proof (cases "claim_paths (pc_owner e) (pc_paths e) claimed")
    case (Inl x)
    with c show ?thesis by (simp add: all_claims_def claim_keys_append)
  next
    case (Inr c')
    with c Cons.IH [of c'] show ?thesis by (simp add: all_claims_def claim_keys_append)
  qed
qed (simp add: all_claims_def)

lemma claim_keys_iff:
  "claim_keys keys ps \<longleftrightarrow> (\<forall>p \<in> set ps. canonicalize_owned_path p \<noteq> None)
     \<and> (\<forall>p \<in> set ps. \<forall>k \<in> set keys. \<not> paths_overlap (to_lower p) k)
     \<and> (\<forall>j < length ps. \<forall>i < j. \<not> paths_overlap (to_lower (ps ! j)) (to_lower (ps ! i)))"
proof (induction ps arbitrary: keys)
  case (Cons p ps)
  have "(\<forall>j < length (p # ps). \<forall>i < j. \<not> paths_overlap (to_lower ((p # ps) ! j)) (to_lower ((p # ps) ! i)))
    \<longleftrightarrow> (\<forall>q \<in> set ps. \<not> paths_overlap (to_lower q) (to_lower p))
      \<and> (\<forall>j < length ps. \<forall>i < j. \<not> paths_overlap (to_lower (ps ! j)) (to_lower (ps ! i)))"
    by (simp add: All_less_Suc2 all_set_conv_all_nth) blast
  with Cons.IH [of "keys @ [to_lower p]"] show ?case by auto
qed simp

lemma exclusive_pair:
  assumes "assert_exclusive_path_claims (xs @ e # ys) = Inr ()" "e' \<in> set ys" "p \<in> set (pc_paths e)" "q \<in> set (pc_paths e')"
  shows "\<not> (covers (to_lower p) f \<and> covers (to_lower q) f)"
proof -
  have "is_ok (claim_all (xs @ e # ys) [])"
    using assms(1) by (cases "claim_all (xs @ e # ys) []") (simp_all add: assert_exclusive_path_claims_def)
  then have "claim_keys (map to_lower (all_claims xs @ pc_paths e)) (all_claims ys)"
    by (simp add: claim_all_ok all_claims_def claim_keys_append)
  moreover have "q \<in> set (all_claims ys)" using assms(2,4) by (auto simp: all_claims_def)
  ultimately have "\<not> paths_overlap (to_lower q) (to_lower p)"
    using assms(3) unfolding claim_keys_iff by auto
  then show ?thesis by (auto simp: paths_overlap_iff)
qed

text \<open>Exclusive path claims. The check accepts a list of claims exactly when every claimed path is
  canonical and no file, compared without case, is at or below two of the claimed paths; the second
  path may belong to the same owner.\<close>

theorem exclusive_iff_disjoint:
  "assert_exclusive_path_claims es = Inr () \<longleftrightarrow>
     (\<forall>p \<in> set (all_claims es). canonicalize_owned_path p = Some p)
     \<and> \<not> (\<exists>i j f. i < j \<and> j < length (all_claims es)
          \<and> covers (to_lower (all_claims es ! i)) f \<and> covers (to_lower (all_claims es ! j)) f)"
proof -
  have "assert_exclusive_path_claims es = Inr () \<longleftrightarrow> is_ok (claim_all es [])"
    by (cases "claim_all es []") (simp_all add: assert_exclusive_path_claims_def)
  also have "\<dots> \<longleftrightarrow> claim_keys [] (all_claims es)"
    by (simp add: claim_all_ok)
  also have "\<dots> \<longleftrightarrow> (\<forall>p \<in> set (all_claims es). canonicalize_owned_path p \<noteq> None)
      \<and> (\<forall>j < length (all_claims es). \<forall>i < j. \<not> paths_overlap (to_lower (all_claims es ! j)) (to_lower (all_claims es ! i)))"
    by (simp add: claim_keys_iff)
  also have "(\<forall>p \<in> set (all_claims es). canonicalize_owned_path p \<noteq> None) \<longleftrightarrow>
      (\<forall>p \<in> set (all_claims es). canonicalize_owned_path p = Some p)"
    by (auto simp: canonicalize_owned_path_def)
  also have "(\<forall>j < length (all_claims es). \<forall>i < j. \<not> paths_overlap (to_lower (all_claims es ! j)) (to_lower (all_claims es ! i)))
    \<longleftrightarrow> \<not> (\<exists>i j f. i < j \<and> j < length (all_claims es)
          \<and> covers (to_lower (all_claims es ! i)) f \<and> covers (to_lower (all_claims es ! j)) f)"
    by (auto simp: paths_overlap_iff)
  finally show ?thesis .
qed

theorem exclusive_iff_disjoint_witness:
  "assert_exclusive_path_claims [\<lparr>pc_owner = ''o'', pc_paths = [''src/A'', ''src/b'']\<rparr>] = Inr ()
     \<and> (\<nexists>f. covers (to_lower ''src/A'') f \<and> covers (to_lower ''src/b'') f)"
proof -
  let ?c = "[\<lparr>pc_owner = ''o'', pc_paths = [''src/A'', ''src/b'']\<rparr>]"
  have ok: "assert_exclusive_path_claims ?c = Inr ()" by code_simp
  have "all_claims ?c = [''src/A'', ''src/b'']" by (simp add: all_claims_def)
  with ok exclusive_iff_disjoint [of ?c] have
    "\<not> (\<exists>i j f. i < j \<and> j < length [''src/A'', ''src/b'']
          \<and> covers (to_lower ([''src/A'', ''src/b''] ! i)) f \<and> covers (to_lower ([''src/A'', ''src/b''] ! j)) f)"
    by metis
  then have "\<not> (covers (to_lower ([''src/A'', ''src/b''] ! 0)) f \<and> covers (to_lower ([''src/A'', ''src/b''] ! 1)) f)" for f
    by (metis One_nat_def length_Cons lessI list.size(3) zero_less_Suc)
  with ok show ?thesis by simp
qed

end
