(* ===== verification/AgentTypes.thy ===== *)
theory AgentTypes
  imports Prelude
begin

text \<open>
  The data of agent roles (\<^verbatim>\<open>src/agents/types.ts\<close>), shared by the catalog, the policy checks and the
  routing.  Optional members are options; the unions that code only compares as text (source, mode,
  category) are strings.
\<close>

datatype routing_class = Reasoning | Smart | Fast

datatype reasoning_effort = LowEffort | MediumEffort | HighEffort

record model_requirement =
  mr_preferred :: "string option"
  mr_tier :: routing_class
  mr_effort :: "reasoning_effort option"
  mr_exact :: "bool option"
  mr_fallback :: "routing_class list"

record model_override =
  mo_preferred :: "string option"
  mo_tier :: "routing_class option"
  mo_effort :: "reasoning_effort option"
  mo_exact :: "bool option"
  mo_fallback :: "routing_class list option"

datatype tool_class = ReadTools | WriteTools | ShellTools | CustomTools | McpTools

datatype write_scope = ScopeNone | ScopeAll | MarkdownOnly | WorktreeOnly | PathScoped

record tool_policy =
  tp_allow :: "string list"
  tp_deny :: "string list"
  tp_classes :: "tool_class list"
  tp_scope :: write_scope

record tool_override =
  ov_allow :: "string list option"
  ov_deny :: "string list option"
  ov_classes :: "tool_class list option"
  ov_scope :: "write_scope option"

record delegation_policy =
  dp_can :: bool
  dp_depth :: int
  dp_roles :: "string list option"

record delegation_override =
  dv_can :: "bool option"
  dv_depth :: "int option"
  dv_roles :: "string list option"

record eligibility =
  el_local :: bool
  el_cloud :: bool
  el_background :: bool
  el_team :: bool
  el_reason :: "string option"

datatype isolation = Shared | IsolatedWorktree | ReadOnly

record workspace_policy =
  wp_worktree :: bool
  wp_isolation :: isolation

record context_fragments =
  cx_skills :: "string list"
  cx_rules :: "string list"

record artifact_contract =
  ac_inputs :: "string list"
  ac_outputs :: "string list"
  ac_pattern :: "string option"

record source_profile =
  sp_id :: string
  sp_source :: string
  sp_name :: string
  sp_description :: string
  sp_model :: "model_override option"
  sp_tools :: "tool_override option"
  sp_delegation :: "delegation_override option"
  sp_differences :: string

record agent_role =
  ro_id :: string
  ro_name :: string  \<comment> \<open>\<^verbatim>\<open>canonicalName\<close>\<close>
  ro_file :: string
  ro_fallback :: "string option"
  ro_aliases :: "string list"
  ro_mode :: string
  ro_category :: string
  ro_model :: model_requirement
  ro_tools :: tool_policy
  ro_delegation :: delegation_policy
  ro_eligibility :: eligibility
  ro_workspace :: workspace_policy
  ro_context :: context_fragments
  ro_artifacts :: artifact_contract
  ro_profiles :: "source_profile list"
  ro_default :: string  \<comment> \<open>\<^verbatim>\<open>defaultProfile\<close>\<close>
  ro_differences :: string
  ro_custom :: "bool option"

record effective_policy =
  ep_allowed :: "string list"
  ep_denied :: "string list"
  ep_scope :: write_scope
  ep_depth :: int
  ep_delegate :: bool
  ep_isolation :: isolation

end
