(* ===== verification/Policy.thy ===== *)
theory Policy
  imports Paths AgentTypes "HOL-Library.Code_Target_Nat"
begin

text \<open>
  Permissions of agents (\<^verbatim>\<open>src/agents/enforcement.ts\<close>): the policy a child agent gets from its
  parent and its role, the checks of an invocation, of a file write and of a tool call, and what a
  chain of delegations can and cannot widen.
\<close>

section \<open>Policies\<close>

record invocation =
  in_cloud :: bool
  in_team_worker :: bool
  in_background :: bool
  in_parent :: "effective_policy option"

datatype enforcement_error =
    E_ROLE_TEAM_INELIGIBLE | E_ROLE_CLOUD_UNSUPPORTED | E_ROLE_BACKGROUND_UNSUPPORTED
  | E_DELEGATION_DEPTH_EXCEEDED | E_DELEGATION_FORBIDDEN

datatype write_error = E_PERMISSION_DENIED | E_WRITE_SCOPE_VIOLATION | E_WORKTREE_ESCAPED

datatype tool_error = E_TOOL_DENIED | E_TOOL_NOT_ALLOWED

definition override_or :: "(tool_override \<Rightarrow> 'a option) \<Rightarrow> source_profile option \<Rightarrow> 'a \<Rightarrow> 'a" where
  \<comment> \<open>\<^verbatim>\<open>profile?.toolPolicyOverride?.k ?? d\<close>\<close>
  "override_or k profile d = (case Option.bind (Option.bind profile sp_tools) k of None \<Rightarrow> d | Some v \<Rightarrow> v)"

section \<open>Operations\<close>

definition intersect_policy :: "effective_policy \<Rightarrow> agent_role \<Rightarrow> source_profile option \<Rightarrow> effective_policy" where
  "intersect_policy parent child profile = (let
     child_allowed = override_or ov_allow profile (tp_allow (ro_tools child));
     child_denied = override_or ov_deny profile (tp_deny (ro_tools child));
     child_scope = override_or ov_scope profile (tp_scope (ro_tools child));
     depth = min (dp_depth (ro_delegation child)) (max 0 (ep_depth parent - 1))
   in \<lparr>ep_allowed = filter (\<lambda>t. t \<in> set (ep_allowed parent)) child_allowed,
       ep_denied = js_set (ep_denied parent @ child_denied),
       ep_scope = (if ep_scope parent = ScopeNone then ScopeNone
         else if ep_scope parent = MarkdownOnly then
           (if child_scope = ScopeAll \<or> child_scope = PathScoped then MarkdownOnly else child_scope)
         else if ep_scope parent = WorktreeOnly then
           (if child_scope = ScopeAll then WorktreeOnly else child_scope)
         else child_scope),
       ep_depth = depth,
       ep_delegate = (0 < depth \<and> dp_can (ro_delegation child) \<and> ep_delegate parent),
       ep_isolation = (if ep_isolation parent = ReadOnly then ReadOnly
         else if ep_isolation parent = IsolatedWorktree then IsolatedWorktree else wp_isolation (ro_workspace child))\<rparr>)"

definition validate_agent_invocation ::
  "agent_role \<Rightarrow> invocation \<Rightarrow> source_profile option \<Rightarrow> enforcement_error + effective_policy" where
  "validate_agent_invocation role opts profile =
     (if in_team_worker opts \<and> \<not> el_team (ro_eligibility role) then Inl E_ROLE_TEAM_INELIGIBLE
      else if in_cloud opts \<and> \<not> el_cloud (ro_eligibility role) then Inl E_ROLE_CLOUD_UNSUPPORTED
      else if in_background opts \<and> \<not> el_background (ro_eligibility role) then Inl E_ROLE_BACKGROUND_UNSUPPORTED
      else case in_parent opts of
        Some parent \<Rightarrow>
          if ep_depth parent \<le> 0 then Inl E_DELEGATION_DEPTH_EXCEEDED
          else if \<not> ep_delegate parent then Inl E_DELEGATION_FORBIDDEN
          else Inr (intersect_policy parent role profile)
      | None \<Rightarrow> Inr \<lparr>ep_allowed = override_or ov_allow profile (tp_allow (ro_tools role)),
          ep_denied = override_or ov_deny profile (tp_deny (ro_tools role)),
          ep_scope = override_or ov_scope profile (tp_scope (ro_tools role)),
          ep_depth = dp_depth (ro_delegation role),
          ep_delegate = (dp_can (ro_delegation role) \<and> 0 < dp_depth (ro_delegation role)),
          ep_isolation = wp_isolation (ro_workspace role)\<rparr>)"

definition validate_file_write ::
  "string \<Rightarrow> effective_policy \<Rightarrow> string \<Rightarrow> string \<Rightarrow> string option \<Rightarrow> write_error + unit" where
  \<comment> \<open>\<open>cwd\<close> is the working directory of the process\<close>
  "validate_file_write cwd policy target root worktree =
     (if ep_scope policy = ScopeNone then Inl E_PERMISSION_DENIED
      else if ep_scope policy = MarkdownOnly \<and> \<not> (ends_with ''.md'' target \<or> ends_with ''.markdown'' target
          \<or> ends_with ''.json'' target \<or> str_includes ''/artifacts/'' target \<or> str_includes ''docs/'' target)
      then Inl E_WRITE_SCOPE_VIOLATION
      else if ep_scope policy = WorktreeOnly then
        (case worktree of
           None \<Rightarrow> Inl E_WRITE_SCOPE_VIOLATION
         | Some w \<Rightarrow> if w = [] then Inl E_WRITE_SCOPE_VIOLATION
             else if \<not> starts_with (resolve cwd [w]) (resolve cwd [root, target]) then Inl E_WORKTREE_ESCAPED
             else Inr ())
      else Inr ())"

definition validate_tool_call :: "effective_policy \<Rightarrow> string \<Rightarrow> tool_error + unit" where
  "validate_tool_call policy tool = (if tool \<in> set (ep_denied policy) then Inl E_TOOL_DENIED
     else if tool \<notin> set (ep_allowed policy) then Inl E_TOOL_NOT_ALLOWED else Inr ())"

section \<open>Chains of delegations\<close>

fun delegate :: "effective_policy \<Rightarrow> (agent_role \<times> invocation \<times> source_profile option) list \<Rightarrow> enforcement_error + effective_policy" where
  \<comment> \<open>each agent invokes the next with its own policy as the parent policy\<close>
  "delegate p [] = Inr p"
| "delegate p ((role, opts, profile) # rest) =
     rbind (validate_agent_invocation role (opts\<lparr>in_parent := Some p\<rparr>) profile) (\<lambda>q. delegate q rest)"

lemma invocation_InrD:
  assumes "validate_agent_invocation role (opts\<lparr>in_parent := Some p\<rparr>) profile = Inr q"
  shows "0 < ep_depth p" "ep_delegate p" "q = intersect_policy p role profile"
  using assms by (auto simp: validate_agent_invocation_def split: if_splits)

lemma intersect_tools:
  "set (ep_allowed (intersect_policy p r pr)) \<subseteq> set (ep_allowed p)"
  "set (ep_denied p) \<subseteq> set (ep_denied (intersect_policy p r pr))"
  by (auto simp: intersect_policy_def Let_def)

lemma intersect_depth: "0 < ep_depth p \<Longrightarrow> ep_depth (intersect_policy p r pr) \<le> ep_depth p - 1"
  by (simp add: intersect_policy_def Let_def)


definition ex_role :: agent_role where
  "ex_role = \<lparr>ro_id = ''r'', ro_name = ''r'', ro_file = ''r.md'', ro_fallback = None, ro_aliases = [], ro_mode = ''either'',
     ro_category = ''execution'', ro_model = \<lparr>mr_preferred = None, mr_tier = Smart, mr_effort = None, mr_exact = None, mr_fallback = [Fast]\<rparr>,
     ro_tools = \<lparr>tp_allow = [''read'', ''write'', ''shell''], tp_deny = [''push''], tp_classes = [ReadTools], tp_scope = ScopeAll\<rparr>,
     ro_delegation = \<lparr>dp_can = True, dp_depth = 5, dp_roles = None\<rparr>,
     ro_eligibility = \<lparr>el_local = True, el_cloud = True, el_background = True, el_team = True, el_reason = None\<rparr>,
     ro_workspace = \<lparr>wp_worktree = False, wp_isolation = Shared\<rparr>, ro_context = \<lparr>cx_skills = [], cx_rules = []\<rparr>,
     ro_artifacts = \<lparr>ac_inputs = [], ac_outputs = [], ac_pattern = None\<rparr>, ro_profiles = [], ro_default = ''default'',
     ro_differences = [], ro_custom = None\<rparr>"

definition ex_profile :: source_profile where
  "ex_profile = \<lparr>sp_id = ''default'', sp_source = ''omcu'', sp_name = ''r'', sp_description = [], sp_model = None,
     sp_tools = Some \<lparr>ov_allow = Some [''push'', ''read''], ov_deny = None, ov_classes = None, ov_scope = None\<rparr>,
     sp_delegation = None, sp_differences = []\<rparr>"

definition ex_parent :: effective_policy where
  "ex_parent = \<lparr>ep_allowed = [''read'', ''shell''], ep_denied = [''shell''], ep_scope = MarkdownOnly, ep_depth = 2,
     ep_delegate = True, ep_isolation = ReadOnly\<rparr>"

definition ex_call :: invocation where
  "ex_call = \<lparr>in_cloud = False, in_team_worker = True, in_background = False, in_parent = None\<rparr>"

definition ex_chain :: "(agent_role \<times> invocation \<times> source_profile option) list" where
  "ex_chain = [(ex_role, ex_call, None), (ex_role, ex_call, Some ex_profile)]"

definition ex_last :: effective_policy where
  "ex_last = \<lparr>ep_allowed = [''read''], ep_denied = [''shell'', ''push''], ep_scope = MarkdownOnly, ep_depth = 0,
     ep_delegate = False, ep_isolation = ReadOnly\<rparr>"


section \<open>Write scopes and isolation\<close>

lemma delegate_invariant:
  assumes "delegate p rs = Inr q" "I p" "\<And>p r pr. I p \<Longrightarrow> I (intersect_policy p r pr)"
  shows "I q"
  using assms(1,2)
proof (induction rs arbitrary: p)
  case (Cons x rs)
  obtain role opts profile where x: "x = (role, opts, profile)" by (cases x)
  then obtain p1 where p1: "validate_agent_invocation role (opts\<lparr>in_parent := Some p\<rparr>) profile = Inr p1"
    and rest: "delegate p1 rs = Inr q"
    using Cons.prems(1) by (auto simp: rbind_Inr_iff)
  from invocation_InrD(3) [OF p1] assms(3) [OF Cons.prems(2)] have "I p1" by simp
  with Cons.IH [OF rest] show ?case by blast
qed simp

text \<open>Read-only stays read-only. Under a policy whose write scope is none, no descendant of any chain
  of invocations, whatever its role and profile declare, may write any file; and a descendant of a
  policy with read-only isolation is isolated read-only.\<close>

theorem read_only_is_inherited:
  assumes "delegate p rs = Inr q"
  shows "(ep_scope p = ScopeNone \<longrightarrow> validate_file_write cwd q target root w = Inl E_PERMISSION_DENIED)
     \<and> (ep_isolation p = ReadOnly \<longrightarrow> ep_isolation q = ReadOnly)"
proof -
  have "ep_scope p = ScopeNone \<Longrightarrow> ep_scope q = ScopeNone"
    by (rule delegate_invariant [OF assms]) (simp_all add: intersect_policy_def Let_def)
  moreover have "ep_isolation p = ReadOnly \<Longrightarrow> ep_isolation q = ReadOnly"
    by (rule delegate_invariant [OF assms]) (simp_all add: intersect_policy_def Let_def)
  ultimately show ?thesis by (simp add: validate_file_write_def)
qed

theorem read_only_is_inherited_witness:
  "delegate (ex_parent\<lparr>ep_scope := ScopeNone\<rparr>) ex_chain = Inr (ex_last\<lparr>ep_scope := ScopeNone\<rparr>)
     \<and> validate_file_write ''/'' (ex_last\<lparr>ep_scope := ScopeNone\<rparr>) ''a.md'' ''/p'' None = Inl E_PERMISSION_DENIED"
proof -
  have d: "delegate (ex_parent\<lparr>ep_scope := ScopeNone\<rparr>) ex_chain = Inr (ex_last\<lparr>ep_scope := ScopeNone\<rparr>)" by code_simp
  from read_only_is_inherited [OF d, of "''/''" "''a.md''" "''/p''" None] d show ?thesis by simp
qed

text \<open>
  The order of the scopes is not respected in every case: a path-scoped parent has a child with
  scope all, a markdown-only parent a child that writes any file of its worktree, and a parent in an
  isolated worktree a child whose role is read-only runs in that worktree without the restriction.
\<close>

lemma policy_escalates:
  "ep_scope (intersect_policy (ex_parent\<lparr>ep_scope := PathScoped\<rparr>) ex_role None) = ScopeAll"
  "ep_scope (intersect_policy ex_parent (ex_role\<lparr>ro_tools := (ro_tools ex_role)\<lparr>tp_scope := WorktreeOnly\<rparr>\<rparr>) None) = WorktreeOnly"
  "ep_isolation (intersect_policy (ex_parent\<lparr>ep_isolation := IsolatedWorktree\<rparr>) (ex_role\<lparr>ro_workspace := \<lparr>wp_worktree = False, wp_isolation = ReadOnly\<rparr>\<rparr>) None)
     = IsolatedWorktree"
  by code_simp+

section \<open>Writes in a worktree\<close>

lemma sibling_of_worktree:
  "validate_file_write ''/'' (ex_parent\<lparr>ep_scope := WorktreeOnly\<rparr>) ''../wt-2/x'' ''/repo/wt'' (Some ''/repo/wt'') = Inr ()"
  by code_simp



end
