(* ===== verification/Dag.thy ===== *)
theory Dag
  imports Paths
begin

text \<open>
  Validation of task graphs (\<^verbatim>\<open>src/dag/validator.ts\<close>): the depth-first search for cycles with its
  visited set and path stack, and the memoised ranks with the order in which they are stored.

  Both recursions carry fuel; \<open>length tasks\<close> is enough for the search, because every call visits a
  new task, and \<open>Suc (length tasks)\<close> for the ranks of an accepted graph, whose recursion never
  repeats a task.  The acceptance property in \<open>DagProperties\<close> shows that running out of fuel is never the answer.
\<close>

section \<open>Definitions\<close>

record dag_task =
  dt_id :: string
  dt_role :: string
  dt_profile :: "string option"
  dt_prompt :: string
  dt_deps :: "string list option"
  dt_cloud :: "bool option"  \<comment> \<open>\<^verbatim>\<open>runtime\<close>\<close>
  dt_workspace :: "string option"
  dt_worktree :: "string option"
  dt_owned :: "string list option"
  dt_criteria :: "string list option"
  dt_max_time :: "int option"

datatype dag_error =
    E_DAG_EMPTY
  | E_DAG_TASK_ID_INVALID
  | E_DAG_DUPLICATE_TASK_ID string
  | E_DAG_SELF_DEPENDENCY string
  | E_DAG_DEPENDENCY_NOT_FOUND string string
  | E_DAG_CYCLE "string list"
  | E_DAG_FUEL

definition task_deps :: "dag_task \<Rightarrow> string list" where
  "task_deps t = (case dt_deps t of None \<Rightarrow> [] | Some ds \<Rightarrow> ds)"

type_synonym task_map = "(string \<times> dag_task) list"  \<comment> \<open>a \<^verbatim>\<open>Map\<close> in insertion order\<close>

fun build_task_map :: "dag_task list \<Rightarrow> task_map \<Rightarrow> dag_error + task_map" where
  "build_task_map [] m = Inr m"
| "build_task_map (t # ts) m = (if blank (dt_id t) then Inl E_DAG_TASK_ID_INVALID
     else if map_of m (dt_id t) \<noteq> None then Inl (E_DAG_DUPLICATE_TASK_ID (dt_id t))
     else build_task_map ts (m @ [(dt_id t, t)]))"

fun check_task_deps :: "task_map \<Rightarrow> string \<Rightarrow> string list \<Rightarrow> dag_error + unit" where
  "check_task_deps m t [] = Inr ()"
| "check_task_deps m t (d # ds) = (if d = t then Inl (E_DAG_SELF_DEPENDENCY t)
     else if map_of m d = None then Inl (E_DAG_DEPENDENCY_NOT_FOUND t d) else check_task_deps m t ds)"

fun check_all_deps :: "task_map \<Rightarrow> dag_task list \<Rightarrow> dag_error + unit" where
  "check_all_deps m [] = Inr ()"
| "check_all_deps m (t # ts) = rbind (check_task_deps m (dt_id t) (task_deps t)) (\<lambda>_. check_all_deps m ts)"

definition deps_of :: "task_map \<Rightarrow> string \<Rightarrow> string list" where
  "deps_of m i = (case map_of m i of None \<Rightarrow> [] | Some t \<Rightarrow> task_deps t)"

definition cycle_path :: "string list \<Rightarrow> string \<Rightarrow> string list" where
  \<comment> \<open>\<^verbatim>\<open>[...pathStack.slice(pathStack.indexOf(dep)), dep]\<close>\<close>
  "cycle_path path dep = dropWhile (\<lambda>x. x \<noteq> dep) path @ [dep]"

fun dfs :: "nat \<Rightarrow> task_map \<Rightarrow> string list \<Rightarrow> string list \<Rightarrow> string \<Rightarrow> dag_error + string list"
and dfs_deps :: "nat \<Rightarrow> task_map \<Rightarrow> string list \<Rightarrow> string list \<Rightarrow> string list \<Rightarrow> dag_error + string list" where
  \<comment> \<open>the path stack holds the same tasks as \<^verbatim>\<open>recStack\<close>; the result is the visited set\<close>
  "dfs 0 m path visited i = Inl E_DAG_FUEL"
| "dfs (Suc n) m path visited i = dfs_deps n m (path @ [i]) (i # visited) (deps_of m i)"
| "dfs_deps n m path visited [] = Inr visited"
| "dfs_deps n m path visited (d # ds) =
     (if d \<notin> set visited then rbind (dfs n m path visited d) (\<lambda>visited'. dfs_deps n m path visited' ds)
      else if d \<in> set path then Inl (E_DAG_CYCLE (cycle_path path d))
      else dfs_deps n m path visited ds)"

fun dfs_all :: "nat \<Rightarrow> task_map \<Rightarrow> string list \<Rightarrow> string list \<Rightarrow> dag_error + string list" where
  "dfs_all n m visited [] = Inr visited"
| "dfs_all n m visited (i # is) = (if i \<notin> set visited
     then rbind (dfs n m [] visited i) (\<lambda>visited'. dfs_all n m visited' is)
     else dfs_all n m visited is)"

fun compute_rank :: "nat \<Rightarrow> task_map \<Rightarrow> (string \<times> nat) list \<Rightarrow> string \<Rightarrow> (nat \<times> (string \<times> nat) list) option"
and max_dep_rank :: "nat \<Rightarrow> task_map \<Rightarrow> (string \<times> nat) list \<Rightarrow> int \<Rightarrow> string list \<Rightarrow> (int \<times> (string \<times> nat) list) option" where
  \<comment> \<open>the rank and the rank map after it; \<open>None\<close> is lack of fuel\<close>
  "compute_rank 0 m ranks i = None"
| "compute_rank (Suc n) m ranks i = (case map_of ranks i of
     Some r \<Rightarrow> Some (r, ranks)
   | None \<Rightarrow>
       if deps_of m i = [] then Some (0, ranks @ [(i, 0)])
       else (case max_dep_rank n m ranks (-1) (deps_of m i) of
         None \<Rightarrow> None
       | Some (k, ranks') \<Rightarrow> Some (nat (k + 1), ranks' @ [(i, nat (k + 1))])))"
| "max_dep_rank n m ranks k [] = Some (k, ranks)"
| "max_dep_rank n m ranks k (d # ds) = (case compute_rank n m ranks d of
     None \<Rightarrow> None | Some (r, ranks') \<Rightarrow> max_dep_rank n m ranks' (max k (int r)) ds)"

fun rank_all :: "nat \<Rightarrow> task_map \<Rightarrow> (string \<times> nat) list \<Rightarrow> string list \<Rightarrow> (string \<times> nat) list option" where
  "rank_all n m ranks [] = Some ranks"
| "rank_all n m ranks (i # is) = (case compute_rank n m ranks i of
     None \<Rightarrow> None | Some (_, ranks') \<Rightarrow> rank_all n m ranks' is)"

definition rank_ids :: "(string \<times> nat) list \<Rightarrow> nat \<Rightarrow> string list" where
  "rank_ids ranks r = map fst (filter (\<lambda>(_, k). k = r) ranks)"

record dag_result =
  dr_ranks :: "dag_task list list"
  dr_order :: "string list"

definition group_ranks :: "task_map \<Rightarrow> (string \<times> nat) list \<Rightarrow> dag_result" where
  "group_ranks m ranks = (let rs = [0 ..< Suc (Max (set (map snd ranks)))] in
     \<lparr>dr_ranks = map (\<lambda>r. map (\<lambda>i. the (map_of m i)) (rank_ids ranks r)) rs,
      dr_order = concat (map (rank_ids ranks) rs)\<rparr>)"

definition validate_dag :: "dag_task list \<Rightarrow> dag_error + dag_result" where
  "validate_dag tasks =
     rbind (guard (tasks \<noteq> []) E_DAG_EMPTY) (\<lambda>_.
     rbind (build_task_map tasks []) (\<lambda>m.
     rbind (check_all_deps m tasks) (\<lambda>_.
     rbind (dfs_all (length tasks) m [] (map fst m)) (\<lambda>_.
     case rank_all (Suc (length tasks)) m [] (map fst m) of
       None \<Rightarrow> Inl E_DAG_FUEL
     | Some ranks \<Rightarrow> Inr (group_ranks m ranks)))))"

section \<open>Examples\<close>

definition ex_task :: "string \<Rightarrow> string list \<Rightarrow> dag_task" where
  "ex_task i ds = \<lparr>dt_id = i, dt_role = ''executor'', dt_profile = None, dt_prompt = ''do '' @ i, dt_deps = Some ds,
     dt_cloud = None, dt_workspace = None, dt_worktree = None, dt_owned = None, dt_criteria = None, dt_max_time = None\<rparr>"

definition ex_dag :: "dag_task list" where
  "ex_dag = [ex_task ''d'' [''b'', ''c''], ex_task ''b'' [''a''], ex_task ''c'' [''a''], ex_task ''a'' []]"

lemma ex_dag_order: "map_sum id dr_order (validate_dag ex_dag) = Inr [''a'', ''b'', ''c'', ''d'']"
  by code_simp

lemma ex_dag_cycle:
  "map_sum id dr_order (validate_dag [ex_task ''x'' [''a''], ex_task ''a'' [''b''], ex_task ''b'' [''a'']]) =
     Inl (E_DAG_CYCLE [''a'', ''b'', ''a''])"
  by code_simp

end
