(* ===== verification/DagProofs.thy ===== *)
theory DagProofs
  imports Dag
begin

text \<open>
  Correctness of the graph validation: the invariant of the depth-first search (finished tasks are
  closed under dependencies and on no cycle, the path stack is a chain of dependencies), the ranks,
  and the properties of \<open>validate_dag\<close>.
\<close>

section \<open>Task maps\<close>

definition dag_ids :: "dag_task list \<Rightarrow> string set" where
  "dag_ids tasks = dt_id ` set tasks"

definition edges :: "dag_task list \<Rightarrow> (string \<times> string) set" where
  "edges tasks = {(dt_id t, d) | t d. t \<in> set tasks \<and> d \<in> set (task_deps t)}"

definition well_formed_dag :: "dag_task list \<Rightarrow> bool" where
  "well_formed_dag tasks = (tasks \<noteq> [] \<and> (\<forall>t \<in> set tasks. \<not> blank (dt_id t)) \<and> distinct (map dt_id tasks)
     \<and> (\<forall>t \<in> set tasks. \<forall>d \<in> set (task_deps t). d \<noteq> dt_id t \<and> d \<in> dag_ids tasks))"

definition task_map_of :: "dag_task list \<Rightarrow> task_map" where
  "task_map_of tasks = map (\<lambda>t. (dt_id t, t)) tasks"

lemma build_task_map_Inr:
  "build_task_map ts m = Inr m' \<longleftrightarrow> m' = m @ task_map_of ts \<and> (\<forall>t \<in> set ts. \<not> blank (dt_id t))
     \<and> distinct (map dt_id ts) \<and> (\<forall>t \<in> set ts. map_of m (dt_id t) = None)"
proof (induction ts arbitrary: m)
  case (Cons t ts)
  have i: "map_of (m @ [(dt_id t, t)]) i = None \<longleftrightarrow> map_of m i = None \<and> i \<noteq> dt_id t" for i
    by (auto simp: map_add_def split: option.splits)
  then have "(\<forall>x \<in> set ts. map_of (m @ [(dt_id t, t)]) (dt_id x) = None)
      \<longleftrightarrow> (\<forall>x \<in> set ts. map_of m (dt_id x) = None) \<and> dt_id t \<notin> dt_id ` set ts" by (metis (no_types, lifting) image_iff)
  with Cons.IH [of "m @ [(dt_id t, t)]"] show ?case
    by (simp add: task_map_of_def del: map_of_append) blast
qed (auto simp: task_map_of_def)

lemma check_task_deps_Inr:
  "check_task_deps m t ds = Inr () \<longleftrightarrow> (\<forall>d \<in> set ds. d \<noteq> t \<and> map_of m d \<noteq> None)"
  by (induction ds) auto

lemma check_all_deps_Inr:
  "check_all_deps m ts = Inr () \<longleftrightarrow> (\<forall>t \<in> set ts. \<forall>d \<in> set (task_deps t). d \<noteq> dt_id t \<and> map_of m d \<noteq> None)"
  by (induction ts) (auto simp: rbind_Inr_iff check_task_deps_Inr)

lemma map_of_task_map: "map_of (task_map_of ts) i \<noteq> None \<longleftrightarrow> i \<in> dag_ids ts"
  by (induction ts) (auto simp: task_map_of_def dag_ids_def)

lemma map_of_task_map_Some:
  "distinct (map dt_id ts) \<Longrightarrow> t \<in> set ts \<Longrightarrow> map_of (task_map_of ts) (dt_id t) = Some t"
  by (induction ts) (auto simp: task_map_of_def intro: rev_image_eqI)

lemma deps_of_task:
  "distinct (map dt_id ts) \<Longrightarrow> t \<in> set ts \<Longrightarrow> deps_of (task_map_of ts) (dt_id t) = task_deps t"
  by (simp add: deps_of_def map_of_task_map_Some)

section \<open>The search\<close>

definition dep_edge :: "task_map \<Rightarrow> string \<Rightarrow> string \<Rightarrow> bool" where
  "dep_edge m i d = (d \<in> set (deps_of m i))"

definition dep_rel :: "task_map \<Rightarrow> (string \<times> string) set" where
  "dep_rel m = {(i, d). dep_edge m i d}"

definition map_ids :: "task_map \<Rightarrow> string set" where
  "map_ids m = fst ` set m"

definition closed_map :: "task_map \<Rightarrow> bool" where
  "closed_map m = (\<forall>i. set (deps_of m i) \<subseteq> map_ids m)"

definition is_cycle :: "task_map \<Rightarrow> string list \<Rightarrow> bool" where
  "is_cycle m c = (\<exists>x xs. c = x # xs @ [x] \<and> successively (dep_edge m) c)"

definition dfs_inv :: "task_map \<Rightarrow> string list \<Rightarrow> string list \<Rightarrow> bool" where
  "dfs_inv m path visited = (set path \<subseteq> set visited \<and> set visited \<subseteq> map_ids m
     \<and> (\<forall>x \<in> set visited - set path. set (deps_of m x) \<subseteq> set visited - set path \<and> (x, x) \<notin> (dep_rel m)\<^sup>+))"

definition dfs_post :: "task_map \<Rightarrow> string list \<Rightarrow> string list \<Rightarrow> string set \<Rightarrow> dag_error + string list \<Rightarrow> bool" where
  "dfs_post m path visited new res = (case res of
     Inr visited' \<Rightarrow> set visited \<subseteq> set visited' \<and> dfs_inv m path visited' \<and> new \<subseteq> set visited' - set path
   | Inl e \<Rightarrow> (\<exists>c. e = E_DAG_CYCLE c \<and> is_cycle m c))"

lemma dfs_post_weaken:
  assumes "dfs_post m path v D res" "set visited \<subseteq> set v" "E \<subseteq> D \<union> (set v - set path)"
  shows "dfs_post m path visited E res"
proof (cases res)
  case (Inr w)
  with assms show ?thesis unfolding dfs_post_def by (simp, blast)
qed (use assms in \<open>simp add: dfs_post_def\<close>)

lemma reach_closed:
  assumes "(a, b) \<in> (dep_rel m)\<^sup>+" "a \<in> F" "\<forall>x \<in> F. set (deps_of m x) \<subseteq> F"
  shows "b \<in> F"
  using assms by (induction rule: trancl_induct) (auto simp: dep_rel_def dep_edge_def)

lemma finish_task:
  assumes "dfs_inv m (path @ [i]) visited" "set (deps_of m i) \<subseteq> set visited - set (path @ [i])" "i \<notin> set path"
  shows "dfs_inv m path visited"
proof -
  let ?F = "set visited - set (path @ [i])"
  have closed: "\<forall>x \<in> ?F. set (deps_of m x) \<subseteq> ?F" using assms(1) unfolding dfs_inv_def by blast
  have "(i, i) \<notin> (dep_rel m)\<^sup>+"
  proof
    assume "(i, i) \<in> (dep_rel m)\<^sup>+"
    then obtain d where d: "(i, d) \<in> dep_rel m" "d = i \<or> (d, i) \<in> (dep_rel m)\<^sup>+"
      by (metis converse_tranclE)
    then have "d \<in> ?F" using assms(2) by (auto simp: dep_rel_def dep_edge_def)
    with d(2) reach_closed [OF _ _ closed] show False by auto
  qed
  moreover have "set visited - set path = insert i ?F"
    using assms(1,3) by (auto simp: dfs_inv_def)
  ultimately show ?thesis using assms(1,2) unfolding dfs_inv_def by auto
qed

lemma closing_edge:
  assumes "successively (dep_edge m) path" "path \<noteq> []" "d \<in> set path" "dep_edge m (last path) d"
  shows "is_cycle m (cycle_path path d)"
proof -
  obtain ys zs where p: "path = ys @ d # zs" "d \<notin> set ys" using split_list_first [OF assms(3)] by auto
  then have c: "cycle_path path d = d # zs @ [d]"
    unfolding cycle_path_def by (subst p(1), subst dropWhile_append2) auto
  have "successively (dep_edge m) ((d # zs) @ [d])"
    using assms p(1) by (subst successively_append_iff) (auto simp: successively_append_iff)
  with c show ?thesis unfolding is_cycle_def by auto
qed

lemma dfs_spec:
  "closed_map m \<Longrightarrow> finite (map_ids m) \<Longrightarrow> i \<in> map_ids m \<Longrightarrow> i \<notin> set visited \<Longrightarrow> dfs_inv m path visited \<Longrightarrow>
     successively (dep_edge m) (path @ [i]) \<Longrightarrow> card (map_ids m - set visited) \<le> n \<Longrightarrow>
     dfs_post m path visited {i} (dfs n m path visited i)"
  "closed_map m \<Longrightarrow> finite (map_ids m) \<Longrightarrow> path \<noteq> [] \<Longrightarrow> set ds \<subseteq> set (deps_of m (last path)) \<Longrightarrow> dfs_inv m path visited \<Longrightarrow>
     successively (dep_edge m) path \<Longrightarrow> card (map_ids m - set visited) \<le> n \<Longrightarrow>
     dfs_post m path visited (set ds) (dfs_deps n m path visited ds)"
proof (induction n m path visited i and n m path visited ds rule: dfs_dfs_deps.induct)
  case (1 m path visited i)
  then have "card (map_ids m - set visited) \<noteq> 0" by auto
  with 1 show ?case by simp
next
  case (2 n m path visited i)
  have "map_ids m - set (i # visited) = (map_ids m - set visited) - {i}" by auto
  then have c: "card (map_ids m - set (i # visited)) \<le> n"
    using 2 by simp
  have inv: "dfs_inv m (path @ [i]) (i # visited)"
    using 2 unfolding dfs_inv_def by auto
  have ip: "i \<notin> set path" using 2 unfolding dfs_inv_def by auto
  have p: "dfs_post m (path @ [i]) (i # visited) (set (deps_of m i)) (dfs_deps n m (path @ [i]) (i # visited) (deps_of m i))"
    using 2 c inv by simp
  show ?case
  proof (cases "dfs_deps n m (path @ [i]) (i # visited) (deps_of m i)")
    case (Inr v)
    with p have "dfs_inv m (path @ [i]) v" "set (deps_of m i) \<subseteq> set v - set (path @ [i])" "set (i # visited) \<subseteq> set v"
      by (auto simp: dfs_post_def)
    with finish_task [OF _ _ ip] show ?thesis using ip by (simp add: dfs_post_def Inr)
  next
    case (Inl e)
    with p show ?thesis by (simp add: dfs_post_def)
  qed
next
  case (3 n m path visited)
  then show ?case by (simp add: dfs_post_def)
next
  case (4 n m path visited d ds)
  have d: "dep_edge m (last path) d" using "4.prems" by (auto simp: dep_edge_def)
  show ?case
  proof (cases "d \<in> set visited")
    case False
    have "d \<in> map_ids m" using "4.prems" by (auto simp: closed_map_def)
    moreover have "successively (dep_edge m) (path @ [d])"
      using "4.prems" d by (simp add: successively_append_iff)
    ultimately have p: "dfs_post m path visited {d} (dfs n m path visited d)"
      using "4.IH"(1) False "4.prems" by simp
    show ?thesis
    proof (cases "dfs n m path visited d")
      case (Inl e)
      with p False show ?thesis by (simp add: dfs_post_def)
    next
      case (Inr v)
      with p have v: "set visited \<subseteq> set v" "dfs_inv m path v" "d \<in> set v - set path" by (auto simp: dfs_post_def)
      have "card (map_ids m - set v) \<le> card (map_ids m - set visited)"
        by (rule card_mono) (use "4.prems" v(1) in auto)
      with "4.prems" have "card (map_ids m - set v) \<le> n" by linarith
      then have "dfs_post m path v (set ds) (dfs_deps n m path v ds)"
        using "4.IH"(2) [OF False, of v] "4.prems" v(2) by simp
      with v False Inr show ?thesis
        by (auto intro: dfs_post_weaken)
    qed
  next
    case True
    show ?thesis
    proof (cases "d \<in> set path")
      case True
      with closing_edge [OF "4.prems"(6) "4.prems"(3) True d] \<open>d \<in> set visited\<close> show ?thesis
        by (simp add: dfs_post_def)
    next
      case False
      then have "dfs_post m path visited (set ds) (dfs_deps n m path visited ds)"
        using "4.IH"(3) True "4.prems" by simp
      with False True show ?thesis by (auto intro: dfs_post_weaken)
    qed
  qed
qed

lemma dfs_all_spec:
  assumes "closed_map m" "finite (map_ids m)" "set is \<subseteq> map_ids m" "dfs_inv m [] visited" "card (map_ids m) \<le> n"
  shows "dfs_post m [] visited (set is) (dfs_all n m visited is)"
  using assms(3,4)
proof (induction "is" arbitrary: visited)
  case (Cons i js)
  show ?case
  proof (cases "i \<in> set visited")
    case True
    have "dfs_post m [] visited (set js) (dfs_all n m visited js)" using Cons by simp
    with True show ?thesis by (auto intro: dfs_post_weaken)
  next
    case False
    have "card (map_ids m - set visited) \<le> n"
      using assms(2,5) card_mono [of "map_ids m" "map_ids m - set visited"] by auto
    then have p: "dfs_post m [] visited {i} (dfs n m [] visited i)"
      using dfs_spec(1) [OF assms(1,2) _ False Cons.prems(2)] Cons.prems by simp
    show ?thesis
    proof (cases "dfs n m [] visited i")
      case (Inl e)
      with p False show ?thesis by (simp add: dfs_post_def)
    next
      case (Inr v)
      with p have v: "set visited \<subseteq> set v" "dfs_inv m [] v" "i \<in> set v" by (auto simp: dfs_post_def)
      have "dfs_post m [] v (set js) (dfs_all n m v js)" using Cons.IH [of v] Cons.prems v by simp
      with v False Inr show ?thesis by (auto intro: dfs_post_weaken)
    qed
  qed
qed (simp add: dfs_post_def)

lemma is_cycle_trancl:
  assumes "is_cycle m c"
  shows "\<exists>x. (x, x) \<in> (dep_rel m)\<^sup>+"
proof -
  have "successively (dep_edge m) (x # xs @ [y]) \<Longrightarrow> (x, y) \<in> (dep_rel m)\<^sup>+" for x xs y
    by (induction xs arbitrary: x) (auto simp: dep_rel_def intro: trancl_into_trancl2)
  with assms show ?thesis unfolding is_cycle_def by blast
qed

lemma dfs_all_iff:
  assumes "closed_map m" "card (map_ids m) \<le> n"
  shows "is_ok (dfs_all n m [] (map fst m)) \<longleftrightarrow> acyclic (dep_rel m)"
    "dfs_all n m [] (map fst m) = Inl e \<Longrightarrow> \<exists>c. e = E_DAG_CYCLE c \<and> is_cycle m c"
proof -
  have inv: "dfs_inv m [] []" by (simp add: dfs_inv_def)
  have "finite (map_ids m)" "set (map fst m) \<subseteq> map_ids m" by (auto simp: map_ids_def)
  note p = dfs_all_spec [OF assms(1) this inv assms(2)]
  show e: "dfs_all n m [] (map fst m) = Inl e \<Longrightarrow> \<exists>c. e = E_DAG_CYCLE c \<and> is_cycle m c" for e
    using p by (simp add: dfs_post_def)
  show "is_ok (dfs_all n m [] (map fst m)) \<longleftrightarrow> acyclic (dep_rel m)"
  proof (cases "dfs_all n m [] (map fst m)")
    case (Inl x)
    with e is_cycle_trancl show ?thesis by (fastforce simp: acyclic_def)
  next
    case (Inr v)
    with p have v: "map_ids m \<subseteq> set v" "dfs_inv m [] v" by (auto simp: dfs_post_def map_ids_def)
    have "(x, x) \<notin> (dep_rel m)\<^sup>+" for x
    proof (cases "x \<in> map_ids m")
      case True
      with v show ?thesis by (auto simp: dfs_inv_def)
    next
      case False
      then have "deps_of m x = []"
        by (auto simp: deps_of_def map_ids_def split: option.splits dest!: map_of_SomeD)
          (metis fst_conv image_eqI)
      then show ?thesis by (auto simp: dep_rel_def dep_edge_def elim: converse_tranclE)
    qed
    with Inr show ?thesis by (simp add: acyclic_def)
  qed
qed

section \<open>Ranks\<close>

definition ranks_ok :: "task_map \<Rightarrow> (string \<times> nat) list \<Rightarrow> bool" where
  \<comment> \<open>every dependency of a ranked task has a smaller rank, and a positive rank has one just below\<close>
  "ranks_ok m ranks = (distinct (map fst ranks) \<and> (\<forall>i r. map_of ranks i = Some r \<longrightarrow>
     (\<forall>d \<in> set (deps_of m i). \<exists>k < r. map_of ranks d = Some k)
     \<and> (r = 0 \<or> (\<exists>d \<in> set (deps_of m i). map_of ranks d = Some (r - 1)))))"

definition height :: "task_map \<Rightarrow> string \<Rightarrow> nat" where
  "height m i = card ((dep_rel m)\<^sup>+ `` {i})"

lemma finite_dep_rel: "closed_map m \<Longrightarrow> finite (dep_rel m)"
proof -
  assume c: "closed_map m"
  have "dep_rel m \<subseteq> map_ids m \<times> map_ids m"
  proof
    fix x assume "x \<in> dep_rel m"
    then obtain i d where x: "x = (i, d)" "d \<in> set (deps_of m i)" by (auto simp: dep_rel_def dep_edge_def)
    then have "map_of m i \<noteq> None" by (cases "map_of m i") (auto simp: deps_of_def)
    then have "i \<in> map_ids m" by (auto simp: map_ids_def map_of_eq_None_iff)
    with x c show "x \<in> map_ids m \<times> map_ids m" by (auto simp: closed_map_def)
  qed
  then show ?thesis by (rule finite_subset) (simp add: map_ids_def)
qed

lemma finite_reach: "closed_map m \<Longrightarrow> finite ((dep_rel m)\<^sup>+ `` {i})"
  using finite_dep_rel [of m] by (meson finite_Image finite_trancl)

lemma height_less:
  assumes "closed_map m" "acyclic (dep_rel m)" "dep_edge m i d"
  shows "height m d < height m i"
proof -
  have id: "(i, d) \<in> dep_rel m" using assms(3) by (simp add: dep_rel_def)
  have "(dep_rel m)\<^sup>+ `` {d} \<subset> (dep_rel m)\<^sup>+ `` {i}"
    using id assms(2) by (auto simp: acyclic_def intro: trancl_into_trancl2)
  then show ?thesis unfolding height_def by (rule psubset_card_mono [OF finite_reach [OF assms(1)]])
qed

lemma reach_ids: "closed_map m \<Longrightarrow> (i, x) \<in> (dep_rel m)\<^sup>+ \<Longrightarrow> x \<in> map_ids m"
  by (erule tranclE) (auto simp: dep_rel_def dep_edge_def closed_map_def)

lemma height_le: "closed_map m \<Longrightarrow> height m i \<le> card (map_ids m)"
  unfolding height_def by (rule card_mono) (auto simp: map_ids_def [of m] intro: reach_ids [unfolded map_ids_def])

definition rank_post :: "task_map \<Rightarrow> (string \<times> nat) list \<Rightarrow> string set \<Rightarrow> (string \<times> nat) list \<Rightarrow> bool" where
  \<comment> \<open>the rank map grew by tasks of the set only\<close>
  "rank_post m ranks new ranks' = (ranks_ok m ranks' \<and> (\<exists>ext. ranks' = ranks @ ext \<and> fst ` set ext \<subseteq> new))"

lemma rank_post_trans:
  "rank_post m a X b \<Longrightarrow> rank_post m b Y c \<Longrightarrow> X \<subseteq> Z \<Longrightarrow> Y \<subseteq> Z \<Longrightarrow> rank_post m a Z c"
  unfolding rank_post_def
proof (elim conjE exE, intro conjI exI)
  fix e1 e2 assume "X \<subseteq> Z" "Y \<subseteq> Z" "b = a @ e1" "fst ` set e1 \<subseteq> X" "c = b @ e2" "fst ` set e2 \<subseteq> Y"
  then show "c = a @ (e1 @ e2)" "fst ` set (e1 @ e2) \<subseteq> Z" by (simp, simp add: image_Un, blast)
qed

lemma rank_post_mono: "rank_post m a X b \<Longrightarrow> X \<subseteq> Y \<Longrightarrow> rank_post m a Y b"
  unfolding rank_post_def by blast

lemma rank_post_domain: "rank_post m a X b \<Longrightarrow> fst ` set b \<subseteq> fst ` set a \<union> X"
  unfolding rank_post_def by (elim conjE exE) (simp add: image_Un, blast)

lemma rank_post_lookup: "rank_post m a X b \<Longrightarrow> map_of a i = Some r \<Longrightarrow> map_of b i = Some r"
  by (auto simp: rank_post_def map_add_def)

definition below :: "task_map \<Rightarrow> string \<Rightarrow> string set" where
  "below m i = insert i ((dep_rel m)\<^sup>+ `` {i})"

lemma below_dep: "dep_edge m i d \<Longrightarrow> below m d \<subseteq> (dep_rel m)\<^sup>+ `` {i}"
  by (auto simp: below_def dep_rel_def intro: trancl_into_trancl2)

lemma ranks_ok_snoc:
  assumes "ranks_ok m ranks" "i \<notin> fst ` set ranks" "i \<notin> set (deps_of m i)"
    and "\<forall>d \<in> set (deps_of m i). \<exists>k < r. map_of ranks d = Some k"
    and "r = 0 \<or> (\<exists>d \<in> set (deps_of m i). map_of ranks d = Some (r - 1))"
  shows "ranks_ok m (ranks @ [(i, r)])"
proof -
  have i: "map_of ranks i = None" using assms(2) by (simp add: map_of_eq_None_iff)
  have keep: "map_of ranks d = Some k \<Longrightarrow> map_of (ranks @ [(i, r)]) d = Some k" for d k
    by (simp add: map_add_def)
  show ?thesis
    unfolding ranks_ok_def
  proof (intro conjI allI impI)
    show "distinct (map fst (ranks @ [(i, r)]))"
      using assms(1,2) by (auto simp: ranks_ok_def)
    fix j s assume j: "map_of (ranks @ [(i, r)]) j = Some s"
    then have js: "j = i \<and> s = r \<or> map_of ranks j = Some s"
      by (auto simp: map_add_def split: option.splits if_splits)
    then show "\<forall>d \<in> set (deps_of m j). \<exists>k < s. map_of (ranks @ [(i, r)]) d = Some k"
      using assms(1,4) keep unfolding ranks_ok_def by metis
    show "s = 0 \<or> (\<exists>d \<in> set (deps_of m j). map_of (ranks @ [(i, r)]) d = Some (s - 1))"
      using js assms(1,5) keep unfolding ranks_ok_def by metis
  qed
qed

lemma rank_spec:
  "closed_map m \<Longrightarrow> acyclic (dep_rel m) \<Longrightarrow> ranks_ok m ranks \<Longrightarrow> height m i < n \<Longrightarrow>
     \<exists>r ranks'. compute_rank n m ranks i = Some (r, ranks') \<and> rank_post m ranks (below m i) ranks' \<and> map_of ranks' i = Some r"
  "closed_map m \<Longrightarrow> acyclic (dep_rel m) \<Longrightarrow> ranks_ok m ranks \<Longrightarrow> \<forall>d \<in> set ds. height m d < n \<Longrightarrow> -1 \<le> k \<Longrightarrow>
     \<exists>k' ranks'. max_dep_rank n m ranks k ds = Some (k', ranks') \<and> rank_post m ranks (\<Union>d \<in> set ds. below m d) ranks'
       \<and> k \<le> k' \<and> (\<forall>d \<in> set ds. \<exists>r. map_of ranks' d = Some r \<and> int r \<le> k')
       \<and> (k' = k \<or> (\<exists>d \<in> set ds. map_of ranks' d = Some (nat k') \<and> 0 \<le> k'))"
proof (induction n m ranks i and n m ranks k ds rule: compute_rank_max_dep_rank.induct)
  case (2 n m ranks i)
  show ?case
  proof (cases "map_of ranks i")
    case (Some r)
    with 2 show ?thesis by (auto simp: rank_post_def)
  next
    case None
    have not_dep: "i \<notin> set (deps_of m i)" "i \<notin> (dep_rel m)\<^sup>+ `` {i}"
      using "2.prems"(2) by (auto simp: acyclic_def dep_rel_def dep_edge_def)
    show ?thesis
    proof (cases "deps_of m i = []")
      case True
      have "ranks_ok m (ranks @ [(i, 0)])"
        using "2.prems" None True by (intro ranks_ok_snoc) (auto simp: map_of_eq_None_iff)
      with None True show ?thesis by (auto simp: rank_post_def below_def map_add_def)
    next
      case False
      have "\<forall>d \<in> set (deps_of m i). height m d < n"
        using height_less [OF "2.prems"(1,2)] "2.prems"(4) by (fastforce simp: dep_edge_def)
      then obtain k ranks' where k: "max_dep_rank n m ranks (-1) (deps_of m i) = Some (k, ranks')"
        "rank_post m ranks (\<Union>d \<in> set (deps_of m i). below m d) ranks'" "-1 \<le> k"
        "\<forall>d \<in> set (deps_of m i). \<exists>r. map_of ranks' d = Some r \<and> int r \<le> k"
        "k = -1 \<or> (\<exists>d \<in> set (deps_of m i). map_of ranks' d = Some (nat k) \<and> 0 \<le> k)"
        using "2.IH" [OF None False] "2.prems" by auto
      have k0: "0 \<le> k" using k(4) False by (cases "deps_of m i") fastforce+
      have "(\<Union>d \<in> set (deps_of m i). below m d) \<subseteq> (dep_rel m)\<^sup>+ `` {i}"
        using below_dep [of m i] by (auto simp: dep_edge_def)
      then have p: "rank_post m ranks ((dep_rel m)\<^sup>+ `` {i}) ranks'" by (rule rank_post_mono [OF k(2)])
      have i: "i \<notin> fst ` set ranks'" "rank_post m ranks (below m i) ranks'"
        using rank_post_domain [OF p] not_dep(2) None rank_post_mono [OF p, of "below m i"]
        by (auto simp: map_of_eq_None_iff below_def)
      have "ranks_ok m (ranks' @ [(i, nat (k + 1))])"
      proof (rule ranks_ok_snoc [OF _ i(1) not_dep(1)])
        show "ranks_ok m ranks'" using k(2) by (simp add: rank_post_def)
        show "\<forall>d \<in> set (deps_of m i). \<exists>r < nat (k + 1). map_of ranks' d = Some r" using k(4) k0 by fastforce
        show "nat (k + 1) = 0 \<or> (\<exists>d \<in> set (deps_of m i). map_of ranks' d = Some (nat (k + 1) - 1))"
          using k(5) k0 by (auto simp: nat_add_distrib)
      qed
      moreover have "map_of (ranks' @ [(i, nat (k + 1))]) i = Some (nat (k + 1))"
        using i(1) by (simp add: map_add_def map_of_eq_None_iff [THEN iffD2])
      ultimately show ?thesis
        using None False k(1) i(2) by (auto simp: rank_post_def below_def)
    qed
  qed
next
  case (4 n m ranks k d ds)
  obtain r ranks1 where r: "compute_rank n m ranks d = Some (r, ranks1)" "rank_post m ranks (below m d) ranks1"
    "map_of ranks1 d = Some r"
    using "4.IH"(1) "4.prems" by auto
  have ok: "ranks_ok m ranks1" using r(2) by (simp add: rank_post_def)
  have "\<forall>d \<in> set ds. height m d < n" "-1 \<le> max k (int r)" using "4.prems"(4,5) by auto
  note ih = "4.IH"(2) [OF r(1) refl "4.prems"(1,2) ok this]
  obtain k' ranks' where k: "max_dep_rank n m ranks1 (max k (int r)) ds = Some (k', ranks')"
    "rank_post m ranks1 (\<Union>d \<in> set ds. below m d) ranks'" "max k (int r) \<le> k'"
    "\<forall>d \<in> set ds. \<exists>r. map_of ranks' d = Some r \<and> int r \<le> k'"
    "k' = max k (int r) \<or> (\<exists>d \<in> set ds. map_of ranks' d = Some (nat k') \<and> 0 \<le> k')"
    using ih by (elim exE conjE) blast
  have "rank_post m ranks (\<Union>d \<in> set (d # ds). below m d) ranks'"
    by (rule rank_post_trans [OF r(2) k(2)]) auto
  moreover have "map_of ranks' d = Some r" by (rule rank_post_lookup [OF k(2) r(3)])
  ultimately show ?case using r(1) k by (auto simp: max_def split: if_splits)
qed (simp_all add: rank_post_def)

lemma rank_all_spec:
  assumes "closed_map m" "acyclic (dep_rel m)" "ranks_ok m ranks" "card (map_ids m) < n"
  shows "\<exists>ranks'. rank_all n m ranks is = Some ranks' \<and> rank_post m ranks (\<Union>i \<in> set is. below m i) ranks'
    \<and> set is \<subseteq> fst ` set ranks'"
  using assms(3)
proof (induction "is" arbitrary: ranks)
  case (Cons i js)
  have "height m i < n" using height_le [OF assms(1), of i] assms(4) by linarith
  then obtain r ranks1 where r: "compute_rank n m ranks i = Some (r, ranks1)" "rank_post m ranks (below m i) ranks1"
    "map_of ranks1 i = Some r"
    using rank_spec(1) [OF assms(1,2) Cons.prems \<open>height m i < n\<close>] by blast
  then have ok: "ranks_ok m ranks1" by (simp add: rank_post_def)
  obtain ranks' where r': "rank_all n m ranks1 js = Some ranks'"
    "rank_post m ranks1 (\<Union>i \<in> set js. below m i) ranks'" "set js \<subseteq> fst ` set ranks'"
    using Cons.IH [OF ok] by blast
  have "rank_post m ranks (\<Union>i \<in> set (i # js). below m i) ranks'"
    by (rule rank_post_trans [OF r(2) r'(2)]) auto
  moreover have "i \<in> fst ` set ranks'"
    using rank_post_lookup [OF r'(2) r(3)] by (metis map_of_eq_None_iff option.distinct(1))
  ultimately show ?case using r(1) r'(1,3) by simp
qed (simp add: rank_post_def)

end
