(* ===== verification/DagProperties.thy ===== *)
theory DagProperties
  imports DagProofs "HOL-Library.Code_Target_Nat"
begin

text \<open>
  The properties of \<open>validate_dag\<close>: it accepts exactly the well-formed acyclic graphs, its order is
  topological, its ranks are the earliest possible, and a reported cycle is a cycle.
\<close>

section \<open>Grouping\<close>

lemma in_rank_ids: "distinct (map fst ranks) \<Longrightarrow> i \<in> set (rank_ids ranks r) \<longleftrightarrow> map_of ranks i = Some r"
  by (auto simp: rank_ids_def intro: map_of_is_SomeI dest: map_of_SomeD) (metis (mono_tags) case_prodI fst_conv imageI map_of_SomeD mem_Collect_eq set_filter)

lemma distinct_rank_ids: "distinct (map fst ranks) \<Longrightarrow> distinct (rank_ids ranks r)"
  unfolding rank_ids_def by (rule distinct_map_filter)

lemma rank_bound: "map_of ranks i = Some r \<Longrightarrow> r < Suc (Max (set (map snd ranks)))"
  by (metis List.finite_set Max_ge image_eqI image_set less_Suc_eq_le map_of_SomeD snd_conv)

lemma distinct_concat_ranks:
  "distinct (map fst ranks) \<Longrightarrow> distinct rs \<Longrightarrow> distinct (concat (map (rank_ids ranks) rs))"
  by (induction rs) (auto simp: distinct_rank_ids in_rank_ids)

lemma earlier_rank:
  assumes "distinct (map fst ranks)" "order = concat (map (rank_ids ranks) [0 ..< N])"
    and "k < length order" "map_of ranks (order ! k) = Some r" "map_of ranks d = Some s" "s < r" "r < N"
  shows "d \<in> set (take k order)"
proof -
  let ?a = "concat (map (rank_ids ranks) [0 ..< r])"
  have "[0 ..< N] = [0 ..< r] @ [r ..< N]" using assms(7) by (metis le0 less_imp_le_nat upt_add_eq_append le_add_diff_inverse)
  then have o: "order = ?a @ concat (map (rank_ids ranks) [r ..< N])" by (simp add: assms(2))
  have "length ?a \<le> k"
  proof (rule ccontr)
    assume "\<not> length ?a \<le> k"
    then have "order ! k = ?a ! k" and "?a ! k \<in> set ?a" using o by (simp add: nth_append, intro nth_mem) simp_all
    then have "order ! k \<in> set ?a" by simp
    with assms(1,4) show False by (auto simp: in_rank_ids)
  qed
  moreover have "d \<in> set ?a" using assms(1,5,6) by (auto simp: in_rank_ids)
  ultimately show ?thesis using o by simp
qed

section \<open>Acceptance\<close>

lemma closed_task_map:
  assumes "well_formed_dag tasks"
  shows "closed_map (task_map_of tasks)" "map_ids (task_map_of tasks) = dag_ids tasks"
    "card (map_ids (task_map_of tasks)) = length tasks" "dep_rel (task_map_of tasks) = edges tasks"
proof -
  have d: "distinct (map dt_id tasks)" using assms by (simp add: well_formed_dag_def)
  show ids: "map_ids (task_map_of tasks) = dag_ids tasks"
    by (force simp: map_ids_def task_map_of_def dag_ids_def)
  have deps: "deps_of (task_map_of tasks) i = (if i \<in> dag_ids tasks then deps_of (task_map_of tasks) i else [])" for i
    using map_of_task_map [of tasks i] by (auto simp: deps_of_def split: option.splits)
  show "closed_map (task_map_of tasks)"
    unfolding closed_map_def ids
  proof
    fix i
    show "set (deps_of (task_map_of tasks) i) \<subseteq> dag_ids tasks"
    proof (cases "i \<in> dag_ids tasks")
      case True
      then obtain t where "t \<in> set tasks" "i = dt_id t" by (auto simp: dag_ids_def)
      with assms d show ?thesis by (auto simp: deps_of_task well_formed_dag_def)
    next
      case False
      with deps [of i] show ?thesis by simp
    qed
  qed
  show "card (map_ids (task_map_of tasks)) = length tasks"
    using d ids distinct_card [of "map dt_id tasks"] by (simp add: dag_ids_def)
  show "dep_rel (task_map_of tasks) = edges tasks"
  proof (intro set_eqI iffI)
    fix x assume "x \<in> dep_rel (task_map_of tasks)"
    then obtain i e where x: "x = (i, e)" "e \<in> set (deps_of (task_map_of tasks) i)" by (auto simp: dep_rel_def dep_edge_def)
    then have "i \<in> dag_ids tasks" using deps [of i] by (auto split: if_splits)
    with x d show "x \<in> edges tasks" by (auto simp: dag_ids_def edges_def deps_of_task)
  next
    fix x assume "x \<in> edges tasks"
    with d show "x \<in> dep_rel (task_map_of tasks)"
      by (auto simp: edges_def dep_rel_def dep_edge_def deps_of_task)
  qed
qed

lemma validate_dag_prefix:
  "well_formed_dag tasks \<longleftrightarrow> tasks \<noteq> [] \<and> build_task_map tasks [] = Inr (task_map_of tasks)
     \<and> check_all_deps (task_map_of tasks) tasks = Inr ()"
  unfolding well_formed_dag_def build_task_map_Inr check_all_deps_Inr map_of_task_map by auto

lemma rank_all_ok:
  assumes "well_formed_dag tasks" "acyclic (edges tasks)"
  obtains ranks where "rank_all (Suc (length tasks)) (task_map_of tasks) [] (map fst (task_map_of tasks)) = Some ranks"
    "ranks_ok (task_map_of tasks) ranks" "fst ` set ranks = dag_ids tasks"
proof -
  let ?m = "task_map_of tasks"
  note c = closed_task_map [OF assms(1)]
  have a: "acyclic (dep_rel ?m)" using assms(2) c(4) by simp
  have e: "ranks_ok ?m []" by (simp add: ranks_ok_def)
  have ids: "set (map fst ?m) = dag_ids tasks" using c(2) by (simp add: map_ids_def)
  have "card (map_ids ?m) < Suc (length tasks)" using c(3) by simp
  from rank_all_spec [OF c(1) a e this, of "map fst ?m"]
  obtain ranks where r: "rank_all (Suc (length tasks)) ?m [] (map fst ?m) = Some ranks"
    "rank_post ?m [] (\<Union>i \<in> set (map fst ?m). below ?m i) ranks" "set (map fst ?m) \<subseteq> fst ` set ranks"
    by blast
  have "below ?m i \<subseteq> dag_ids tasks" if "i \<in> dag_ids tasks" for i
  proof
    fix x assume "x \<in> below ?m i"
    then show "x \<in> dag_ids tasks"
      using that reach_ids [OF c(1)] c(2) by (auto simp: below_def)
  qed
  with r(3) rank_post_domain [OF r(2)] have "fst ` set ranks = dag_ids tasks" unfolding ids by auto
  with r(1,2) show ?thesis by (intro that) (auto simp: rank_post_def)
qed

lemma validate_dag_Inr:
  assumes "well_formed_dag tasks" "acyclic (edges tasks)"
  obtains ranks where "validate_dag tasks = Inr (group_ranks (task_map_of tasks) ranks)"
    "ranks_ok (task_map_of tasks) ranks" "fst ` set ranks = dag_ids tasks"
proof -
  let ?m = "task_map_of tasks"
  note c = closed_task_map [OF assms(1)]
  from assms(1) have p: "tasks \<noteq> []" "build_task_map tasks [] = Inr ?m" "check_all_deps ?m tasks = Inr ()"
    by (simp_all add: validate_dag_prefix)
  obtain ranks where r: "rank_all (Suc (length tasks)) ?m [] (map fst ?m) = Some ranks"
    "ranks_ok ?m ranks" "fst ` set ranks = dag_ids tasks"
    by (rule rank_all_ok [OF assms])
  obtain v where "dfs_all (length tasks) ?m [] (map fst ?m) = Inr v"
    using dfs_all_iff(1) [OF c(1), of "length tasks"] c(3,4) assms(2) by (auto simp: is_ok_iff)
  with p r have "validate_dag tasks = Inr (group_ranks ?m ranks)" by (simp add: validate_dag_def)
  with r show ?thesis by (intro that)
qed

lemma validate_dag_Inl:
  assumes "well_formed_dag tasks" "\<not> acyclic (edges tasks)"
  obtains c where "validate_dag tasks = Inl (E_DAG_CYCLE c)" "is_cycle (task_map_of tasks) c"
proof -
  let ?m = "task_map_of tasks"
  note c = closed_task_map [OF assms(1)]
  from assms(1) have p: "tasks \<noteq> []" "build_task_map tasks [] = Inr ?m" "check_all_deps ?m tasks = Inr ()"
    by (simp_all add: validate_dag_prefix)
  obtain e where e: "dfs_all (length tasks) ?m [] (map fst ?m) = Inl e"
    using dfs_all_iff(1) [OF c(1), of "length tasks"] c(3,4) assms(2)
    by (cases "dfs_all (length tasks) ?m [] (map fst ?m)") auto
  with dfs_all_iff(2) [OF c(1), of "length tasks" e] c(3) obtain cy where "e = E_DAG_CYCLE cy" "is_cycle ?m cy" by auto
  with p e that show ?thesis by (simp add: validate_dag_def)
qed

lemma validate_dag_reject:
  assumes "\<not> well_formed_dag tasks"
  shows "validate_dag tasks = Inl E_DAG_EMPTY \<or> (\<exists>e. validate_dag tasks = Inl e
    \<and> (build_task_map tasks [] = Inl e \<or> (\<exists>m. check_all_deps m tasks = Inl e)))"
proof (cases "build_task_map tasks []")
  case (Inl e)
  then show ?thesis by (cases "tasks = []") (simp_all add: validate_dag_def)
next
  case (Inr m)
  then have m: "m = task_map_of tasks" by (simp add: build_task_map_Inr)
  show ?thesis
  proof (cases "check_all_deps m tasks")
    case (Inl e)
    with Inr show ?thesis by (cases "tasks = []") (auto simp: validate_dag_def)
  next
    case (Inr u)
    with assms m \<open>build_task_map tasks [] = Inr m\<close> show ?thesis
      by (simp add: validate_dag_prefix validate_dag_def)
  qed
qed

lemma valid_iff_acyclic:
  "is_ok (validate_dag tasks) \<longleftrightarrow> well_formed_dag tasks \<and> acyclic (edges tasks)"
proof (cases "well_formed_dag tasks")
  case True
  show ?thesis
  proof (cases "acyclic (edges tasks)")
    case acyc: True
    obtain ranks where "validate_dag tasks = Inr (group_ranks (task_map_of tasks) ranks)"
      by (rule validate_dag_Inr [OF True acyc])
    with True acyc show ?thesis by simp
  next
    case False
    obtain c where "validate_dag tasks = Inl (E_DAG_CYCLE c)" by (rule validate_dag_Inl [OF True False])
    with False show ?thesis by simp
  qed
next
  case False
  then have "\<not> is_ok (validate_dag tasks)" using validate_dag_reject by fastforce
  with False show ?thesis by simp
qed

text \<open>C34: Acceptance of task graphs. The validation accepts a graph exactly when it has a task, every
  identifier is non-blank and used once, every dependency is another task of the graph, and the
  dependencies have no cycle.\<close>

theorem dag_valid_iff:
  "is_ok (validate_dag tasks) \<longleftrightarrow> well_formed_dag tasks \<and> acyclic (edges tasks)"
  by (rule valid_iff_acyclic)

lemma validated_order:
  assumes "validate_dag tasks = Inr r"
  shows "distinct (dr_order r) \<and> set (dr_order r) = dag_ids tasks
     \<and> dr_order r = map dt_id (concat (dr_ranks r))
     \<and> (\<forall>k < length (dr_order r). \<forall>t \<in> set tasks. dt_id t = dr_order r ! k \<longrightarrow> set (task_deps t) \<subseteq> set (take k (dr_order r)))
     \<and> (\<forall>n < length (dr_ranks r). \<forall>t \<in> set (dr_ranks r ! n).
          (\<forall>d \<in> set (task_deps t). \<exists>k < n. d \<in> dt_id ` set (dr_ranks r ! k))
          \<and> (n = 0 \<or> (\<exists>d \<in> set (task_deps t). d \<in> dt_id ` set (dr_ranks r ! (n - 1)))))"
proof -
  from assms have "well_formed_dag tasks" "acyclic (edges tasks)"
    using valid_iff_acyclic [of tasks] by simp_all
  then obtain ranks where v: "validate_dag tasks = Inr (group_ranks (task_map_of tasks) ranks)"
    "ranks_ok (task_map_of tasks) ranks" "fst ` set ranks = dag_ids tasks"
    by (rule validate_dag_Inr)
  let ?m = "task_map_of tasks" and ?N = "Suc (Max (set (map snd ranks)))"
  have dist: "distinct (map dt_id tasks)" using \<open>well_formed_dag tasks\<close> by (simp add: well_formed_dag_def)
  have dr: "distinct (map fst ranks)" using v(2) by (simp add: ranks_ok_def)
  have r: "dr_ranks r = map (\<lambda>k. map (\<lambda>i. the (map_of ?m i)) (rank_ids ranks k)) [0 ..< ?N]"
    and o: "dr_order r = concat (map (rank_ids ranks) [0 ..< ?N])"
    using assms v(1) by (simp_all add: group_ranks_def Let_def del: upt_Suc) (auto simp del: upt_Suc)
  have task: "\<exists>t \<in> set tasks. dt_id t = i \<and> map_of ?m i = Some t \<and> task_deps t = deps_of ?m i"
    if "map_of ranks i = Some k" for i k
  proof -
    have "i \<in> dag_ids tasks" using that v(3) by (metis map_of_SomeD fst_conv image_eqI)
    then obtain t where "t \<in> set tasks" "i = dt_id t" by (auto simp: dag_ids_def)
    with dist show ?thesis by (auto simp: map_of_task_map_Some deps_of_task)
  qed
  have id_rank: "map dt_id (map (\<lambda>i. the (map_of ?m i)) (rank_ids ranks k)) = rank_ids ranks k" for k
    using task dr by (fastforce simp: in_rank_ids intro!: map_idI)
  have ids: "dt_id ` set (dr_ranks r ! k) = {i. map_of ranks i = Some k}" if "k < ?N" for k
  proof -
    have "dt_id ` set (dr_ranks r ! k) = set (map dt_id (dr_ranks r ! k))" by simp
    also have "map dt_id (dr_ranks r ! k) = rank_ids ranks k" using that id_rank by (simp add: r del: upt_Suc)
    finally show ?thesis using dr by (auto simp: in_rank_ids)
  qed
  have "set (dr_order r) = dag_ids tasks"
  proof (intro set_eqI iffI)
    fix i assume "i \<in> set (dr_order r)"
    then show "i \<in> dag_ids tasks" using dr task by (force simp: o in_rank_ids dag_ids_def simp del: upt_Suc)
  next
    fix i assume "i \<in> dag_ids tasks"
    then obtain k where k: "map_of ranks i = Some k" using v(3) by (metis map_of_eq_None_iff not_None_eq)
    then have "k \<in> set [0 ..< ?N]" using rank_bound [OF k] by (simp del: upt_Suc)
    with k dr show "i \<in> set (dr_order r)" unfolding o set_concat set_map by (auto simp: in_rank_ids simp del: upt_Suc set_upt)
  qed
  moreover have "distinct (dr_order r)" unfolding o by (rule distinct_concat_ranks [OF dr]) simp
  moreover have "dr_order r = map dt_id (concat (dr_ranks r))"
    unfolding r o map_concat map_map by (simp only: o_def id_rank [unfolded map_map o_def] map_map)
  moreover have "set (task_deps t) \<subseteq> set (take k (dr_order r))"
    if k: "k < length (dr_order r)" and t: "t \<in> set tasks" "dt_id t = dr_order r ! k" for k t
  proof
    fix d assume d: "d \<in> set (task_deps t)"
    have "dr_order r ! k \<in> set (dr_order r)" using k by simp
    then obtain n where n: "map_of ranks (dr_order r ! k) = Some n" using dr by (auto simp: o in_rank_ids simp del: upt_Suc)
    have "d \<in> set (deps_of ?m (dr_order r ! k))" using d t dist by (simp add: deps_of_task flip: t(2))
    then obtain q where "q < n" "map_of ranks d = Some q" using v(2) n unfolding ranks_ok_def by metis
    with earlier_rank [OF dr o k n] rank_bound [OF n] show "d \<in> set (take k (dr_order r))" by blast
  qed
  moreover have "(\<forall>d \<in> set (task_deps t). \<exists>k < n. d \<in> dt_id ` set (dr_ranks r ! k))
      \<and> (n = 0 \<or> (\<exists>d \<in> set (task_deps t). d \<in> dt_id ` set (dr_ranks r ! (n - 1))))"
    if n: "n < length (dr_ranks r)" and t: "t \<in> set (dr_ranks r ! n)" for n t
  proof -
    have N: "n < ?N" using n by (simp add: r del: upt_Suc)
    obtain i where i: "map_of ranks i = Some n" "t = the (map_of ?m i)"
      using t N dr by (auto simp: r in_rank_ids simp del: upt_Suc)
    from task [OF i(1)] i(2) have t: "task_deps t = deps_of ?m i" by auto
    have "\<forall>d \<in> set (deps_of ?m i). \<exists>k < n. map_of ranks d = Some k"
      and "n = 0 \<or> (\<exists>d \<in> set (deps_of ?m i). map_of ranks d = Some (n - 1))"
      using v(2) i(1) unfolding ranks_ok_def by metis+
    moreover have "d \<in> dt_id ` set (dr_ranks r ! k) \<longleftrightarrow> map_of ranks d = Some k" if "k \<le> n" for k d
      using ids [of k] that N by simp
    ultimately show ?thesis unfolding t by (metis diff_le_self less_imp_le_nat)
  qed
  ultimately show ?thesis by blast
qed

text \<open>C35: The order is topological and the ranks are the earliest. When a graph is accepted, the order
  lists every task once, each after all its dependencies, and is the concatenation of the ranks; a
  task of a later rank has a dependency in the rank just before, so tasks of one rank are independent.\<close>

theorem dag_order_topological:
  assumes "validate_dag tasks = Inr r"
  shows "distinct (dr_order r) \<and> set (dr_order r) = dag_ids tasks
     \<and> dr_order r = map dt_id (concat (dr_ranks r))
     \<and> (\<forall>k < length (dr_order r). \<forall>t \<in> set tasks. dt_id t = dr_order r ! k \<longrightarrow> set (task_deps t) \<subseteq> set (take k (dr_order r)))
     \<and> (\<forall>n < length (dr_ranks r). \<forall>t \<in> set (dr_ranks r ! n).
          (\<forall>d \<in> set (task_deps t). \<exists>k < n. d \<in> dt_id ` set (dr_ranks r ! k))
          \<and> (n = 0 \<or> (\<exists>d \<in> set (task_deps t). d \<in> dt_id ` set (dr_ranks r ! (n - 1)))))"
  by (rule validated_order [OF assms])

theorem dag_order_topological_witness:
  "\<exists>r. validate_dag ex_dag = Inr r \<and> dr_order r = [''a'', ''b'', ''c'', ''d'']
     \<and> set (task_deps (ex_dag ! 1)) \<subseteq> set (take 1 (dr_order r))"
proof -
  obtain r where r: "validate_dag ex_dag = Inr r"
    using ex_dag_order by (cases "validate_dag ex_dag") auto
  then have o: "dr_order r = [''a'', ''b'', ''c'', ''d'']" using ex_dag_order by simp
  have "ex_dag ! 1 \<in> set ex_dag" "dt_id (ex_dag ! 1) = dr_order r ! 1" "1 < length (dr_order r)"
    by (simp_all add: ex_dag_def ex_task_def o)
  moreover have "\<forall>k < length (dr_order r). \<forall>t \<in> set ex_dag. dt_id t = dr_order r ! k \<longrightarrow> set (task_deps t) \<subseteq> set (take k (dr_order r))"
    using dag_order_topological [OF r] by blast
  ultimately have "set (task_deps (ex_dag ! 1)) \<subseteq> set (take 1 (dr_order r))" by blast
  with r o show ?thesis by blast
qed

text \<open>C36: A reported cycle is one. When the validation rejects a graph for a cycle, the reported list of
  tasks begins and ends with the same task and each task of it depends on the next.\<close>

theorem dag_cycle_is_cycle:
  assumes "validate_dag tasks = Inl (E_DAG_CYCLE c)"
  shows "\<exists>x xs. c = x # xs @ [x] \<and> successively (\<lambda>i d. (i, d) \<in> edges tasks) c"
proof -
  have wf: "well_formed_dag tasks"
  proof (rule ccontr)
    assume n: "\<not> well_formed_dag tasks"
    have b: "build_task_map ts m = Inl e \<Longrightarrow> e \<noteq> E_DAG_CYCLE c" for ts m e
      by (induction ts arbitrary: m) (auto split: if_splits)
    have k: "check_task_deps m i ds = Inl e \<Longrightarrow> e \<noteq> E_DAG_CYCLE c" for m i ds e
      by (induction ds) (auto split: if_splits)
    have a: "check_all_deps m ts = Inl e \<Longrightarrow> e \<noteq> E_DAG_CYCLE c" for m ts e
      using k by (induction ts) (auto simp: rbind_Inl_iff)
    from validate_dag_reject [OF n] assms a b show False by fastforce
  qed
  then have "\<not> acyclic (edges tasks)" using assms valid_iff_acyclic [of tasks] by auto
  with wf obtain c' where "validate_dag tasks = Inl (E_DAG_CYCLE c')" "is_cycle (task_map_of tasks) c'"
    by (rule validate_dag_Inl)
  with assms have c: "is_cycle (task_map_of tasks) c" by simp
  have "dep_edge (task_map_of tasks) = (\<lambda>i d. (i, d) \<in> edges tasks)"
    using closed_task_map(4) [OF wf] by (auto simp: dep_rel_def fun_eq_iff)
  with c show ?thesis unfolding is_cycle_def by simp
qed

theorem dag_cycle_is_cycle_witness:
  "\<exists>x xs. [''a'', ''b'', ''a''] = x # xs @ [x] \<and> successively (\<lambda>i d. (i, d) \<in> edges
     [ex_task ''x'' [''a''], ex_task ''a'' [''b''], ex_task ''b'' [''a'']]) [''a'', ''b'', ''a'']"
proof -
  let ?g = "[ex_task ''x'' [''a''], ex_task ''a'' [''b''], ex_task ''b'' [''a'']]"
  have "validate_dag ?g = Inl (E_DAG_CYCLE [''a'', ''b'', ''a''])"
    using ex_dag_cycle by (cases "validate_dag ?g") auto
  then show ?thesis by (rule dag_cycle_is_cycle)
qed

end
