(* ===== verification/Tasks.thy ===== *)
theory Tasks
  imports Paths
begin

text \<open>
  Task records and their runner (\<^verbatim>\<open>src/tasks/types.ts\<close>, \<^verbatim>\<open>src/tasks/store.ts\<close>,
  \<^verbatim>\<open>src/tasks/runner.ts\<close>).  The store is the directory of record files, named after the sanitised task
  identifier; a file is a record or does not parse (\<open>None\<close>).  What the agent SDK does during a run is
  a script, a parameter of the runner; the clock is read at one instant per operation.  A run is two
  steps, \<open>start_run\<close> and \<open>finish_run\<close>, because other operations may happen while it waits.  The members
  \<^verbatim>\<open>plannerScope\<close> and \<^verbatim>\<open>contextDigest\<close>, which are copied and never read, are left out.
\<close>

section \<open>Records\<close>

datatype task_state = TkPending | TkRunning | TkCompleted | TkFailed | TkCancelled | TkBlocked | TkSkipped

datatype task_error_kind = KStartup | KRun | KCancelled | KAmbiguous

record task_record =
  tk_id :: string
  tk_workflow :: "string option"
  tk_parent :: "string option"
  tk_agent :: "string option"
  tk_run :: "string option"
  tk_role :: string
  tk_profile :: "string option"
  tk_model :: "string option"
  tk_cloud :: bool
  tk_prompt :: string
  tk_deps :: "string list option"
  tk_workspace :: string
  tk_worktree :: "string option"
  tk_owned :: "string list option"
  tk_criteria :: "string list option"
  tk_evidence :: "string list option"
  tk_status :: task_state
  tk_blocker :: "string option"
  tk_error :: "(task_error_kind \<times> string) option"
  tk_output :: "string option"
  tk_created :: ms
  tk_updated :: ms
  tk_completed :: "ms option"
  tk_max_time :: "int option"  \<comment> \<open>\<^verbatim>\<open>budget?.maxTimeMs\<close>\<close>

record task_input =
  ti_id :: string  \<comment> \<open>the given identifier or the generated one\<close>
  ti_workflow :: "string option"
  ti_parent :: "string option"
  ti_role :: string
  ti_profile :: "string option"
  ti_model :: "string option"
  ti_cloud :: "bool option"
  ti_prompt :: string
  ti_deps :: "string list option"
  ti_workspace :: "string option"
  ti_worktree :: "string option"
  ti_owned :: "string list option"
  ti_criteria :: "string list option"
  ti_max_time :: "int option"

datatype task_error =
    E_TASK_NOT_FOUND string
  | E_TASK_CANNOT_RESUME string
  | E_RESUME_AGENT string  \<comment> \<open>the SDK cannot resume the agent; the error is not caught\<close>

record task_store =
  ts_root :: string  \<comment> \<open>the workspace\<close>
  ts_files :: "task_record option dir"
  ts_artifacts :: "string dir"  \<comment> \<open>output files written, by path\<close>

section \<open>TaskStore\<close>

definition sanitize :: "string \<Rightarrow> string" where
  \<comment> \<open>\<^verbatim>\<open>taskId.replace(/[^a-zA-Z0-9._-]/g, '_')\<close>\<close>
  "sanitize s = map (\<lambda>c. if is_key_char c then c else CHR ''_'') s"

definition task_file :: "string \<Rightarrow> string" where
  "task_file i = ''task-'' @ sanitize i @ ''.json''"

definition save_task :: "task_record \<Rightarrow> task_store \<Rightarrow> task_store" where
  "save_task t s = s\<lparr>ts_files := dput (task_file (tk_id t)) (Some t) (ts_files s)\<rparr>"

definition get_task :: "task_store \<Rightarrow> string \<Rightarrow> task_record option" where
  "get_task s i = (case dget (ts_files s) (task_file i) of None \<Rightarrow> None | Some f \<Rightarrow> f)"

definition opt_matches :: "'a option \<Rightarrow> 'a option \<Rightarrow> bool" where
  \<comment> \<open>a filter that is absent matches everything\<close>
  "opt_matches f v = (case f of None \<Rightarrow> True | Some x \<Rightarrow> v = Some x)"

definition list_task_records :: "task_store \<Rightarrow> string option \<Rightarrow> string option \<Rightarrow> task_state option \<Rightarrow> task_record list" where
  \<comment> \<open>sorted by creation time, ties in directory order\<close>
  "list_task_records s workflow parent status = sort_key tk_created (List.map_filter (\<lambda>(n, f).
     if starts_with ''task-'' n \<and> ends_with ''.json'' n then
       (case f of None \<Rightarrow> None
        | Some t \<Rightarrow> if opt_matches workflow (tk_workflow t) \<and> opt_matches parent (tk_parent t)
            \<and> opt_matches status (Some (tk_status t)) then Some t else None)
     else None) (ts_files s))"

definition update_task :: "ms \<Rightarrow> string \<Rightarrow> (task_record \<Rightarrow> task_record) \<Rightarrow> (task_store, task_error, task_record) act" where
  \<comment> \<open>\<open>patch\<close> is the spread of the given members\<close>
  "update_task now i patch s = (case get_task s i of
     None \<Rightarrow> (Inl (E_TASK_NOT_FOUND i), s)
   | Some current \<Rightarrow> (let t = (patch current)\<lparr>tk_updated := now\<rparr> in (Inr t, save_task t s)))"

definition record_native_run :: "ms \<Rightarrow> string \<Rightarrow> string \<Rightarrow> string \<Rightarrow> task_state \<Rightarrow> (task_store, task_error, task_record) act" where
  "record_native_run now i agent run status =
     update_task now i (\<lambda>t. t\<lparr>tk_agent := Some agent, tk_run := Some run, tk_status := status\<rparr>)"

definition delete_task :: "string \<Rightarrow> task_store \<Rightarrow> bool \<times> task_store" where
  "delete_task i s = (if dget (ts_files s) (task_file i) = None then (False, s)
     else (True, s\<lparr>ts_files := ddel (task_file i) (ts_files s)\<rparr>))"

section \<open>TaskRunner\<close>

definition new_task_record :: "string \<Rightarrow> ms \<Rightarrow> task_input \<Rightarrow> task_record" where
  "new_task_record workspace now x = \<lparr>tk_id = ti_id x, tk_workflow = ti_workflow x, tk_parent = ti_parent x, tk_agent = None,
     tk_run = None, tk_role = ti_role x, tk_profile = ti_profile x, tk_model = ti_model x,
     tk_cloud = opt_default False (ti_cloud x), tk_prompt = ti_prompt x, tk_deps = ti_deps x,
     tk_workspace = opt_default workspace (ti_workspace x), tk_worktree = ti_worktree x, tk_owned = ti_owned x,
     tk_criteria = ti_criteria x, tk_evidence = None, tk_status = TkPending, tk_blocker = None, tk_error = None,
     tk_output = None, tk_created = now, tk_updated = now, tk_completed = None, tk_max_time = ti_max_time x\<rparr>"

definition create_task_record :: "ms \<Rightarrow> task_input \<Rightarrow> task_store \<Rightarrow> task_record \<times> task_store" where
  "create_task_record now x s = (let t = new_task_record (ts_root s) now x in (t, save_task t s))"

datatype thrown =
    CursorError string string  \<comment> \<open>a \<^verbatim>\<open>CursorRuntimeError\<close> with its code, and its message\<close>
  | OtherError string

datatype wait_result =
    WaitError string string       \<comment> \<open>\<^verbatim>\<open>result.error\<close>: message and code, possibly empty\<close>
  | WaitText "string option" "string option"  \<comment> \<open>\<^verbatim>\<open>result.result\<close> and \<^verbatim>\<open>result.text\<close>\<close>
  | WaitTimeout                   \<comment> \<open>the budget's timer fires first; only with a positive \<^verbatim>\<open>maxTimeMs\<close>\<close>
  | WaitThrow thrown bool         \<comment> \<open>the wait throws; whether the signal is aborted by then\<close>

record run_script =
  sc_create :: "string option"  \<comment> \<open>\<^verbatim>\<open>createAgent\<close> throws this\<close>
  sc_send :: "string + string \<times> string"  \<comment> \<open>\<^verbatim>\<open>send\<close> throws, or gives agent and run identifiers\<close>
  sc_aborted :: bool            \<comment> \<open>the signal is aborted when it is first looked at\<close>
  sc_wait :: wait_result

definition ends_task :: "ms \<Rightarrow> task_state \<Rightarrow> (task_error_kind \<times> string) \<Rightarrow> string \<Rightarrow> task_record \<Rightarrow> task_record" where
  "ends_task now status err blocker t = t\<lparr>tk_status := status, tk_error := Some err, tk_blocker := Some blocker,
     tk_completed := Some now\<rparr>"

definition start_run :: "run_script \<Rightarrow> ms \<Rightarrow> string \<Rightarrow> (task_store, task_error, bool \<times> task_record) act" where
  \<comment> \<open>up to the record of the native run; the flag says that the run is under way\<close>
  "start_run sc now i s = (case get_task s i of
     None \<Rightarrow> (Inl (E_TASK_NOT_FOUND i), s)
   | Some task \<Rightarrow> (case sc_create sc of
       Some msg \<Rightarrow> andthen (update_task now (tk_id task) (ends_task now TkFailed (KStartup, msg) ''startup_error''))
         (\<lambda>t. ret (False, t)) s
     | None \<Rightarrow> (case sc_send sc of
         Inl msg \<Rightarrow> andthen (update_task now (tk_id task) (ends_task now TkFailed (KStartup, msg) ''startup_error''))
           (\<lambda>t. ret (False, t)) s
       | Inr (agent, run) \<Rightarrow> andthen (update_task now (tk_id task)
             (\<lambda>t. t\<lparr>tk_agent := Some agent, tk_run := Some run, tk_status := TkRunning\<rparr>))
           (\<lambda>t. ret (True, t)) s)))"

definition artifact_path :: "string \<Rightarrow> string \<Rightarrow> string" where
  "artifact_path workspace i = normalize (workspace @ ''/.omcu/artifacts/tasks/'' @ i @ ''-output.md'')"

definition first_nonempty :: "string list \<Rightarrow> string" where
  \<comment> \<open>\<^verbatim>\<open>a || b || c\<close> on strings\<close>
  "first_nonempty xs = (case find (\<lambda>x. x \<noteq> []) xs of None \<Rightarrow> [] | Some x \<Rightarrow> x)"

definition given_text :: "string option \<Rightarrow> string option \<Rightarrow> string" where
  \<comment> \<open>\<^verbatim>\<open>result.result ?? result.text ?? ''\<close>\<close>
  "given_text result text = (case result of Some x \<Rightarrow> x | None \<Rightarrow> opt_default [] text)"

definition finish_run :: "run_script \<Rightarrow> ms \<Rightarrow> task_record \<Rightarrow> (task_store, task_error, task_record) act" where
  \<comment> \<open>the foreground part of \<^verbatim>\<open>run\<close> after \<open>start_run\<close>, with the record it returned\<close>
  "finish_run sc now task =
     (if sc_aborted sc then
        update_task now (tk_id task) (ends_task now TkCancelled (KCancelled, ''Task cancelled by signal'') ''user_abort'')
      else (case sc_wait sc of
        WaitError msg code \<Rightarrow> update_task now (tk_id task)
          (ends_task now TkFailed (KRun, first_nonempty [msg, code, ''Run failed'']) ''run_error'')
      | WaitText result text \<Rightarrow> (let
            out = given_text result text;
            before = opt_default [] (tk_evidence task)
          in if blank out then
               update_task now (tk_id task) (\<lambda>t. t\<lparr>tk_status := TkCompleted, tk_output := Some out,
                 tk_evidence := Some before, tk_completed := Some now\<rparr>)
             else andthen (modify (\<lambda>s. s\<lparr>ts_artifacts := dput (artifact_path (ts_root s) (tk_id task)) out (ts_artifacts s)\<rparr>))
               (\<lambda>_ s. update_task now (tk_id task) (\<lambda>t. t\<lparr>tk_status := TkCompleted, tk_output := Some out,
                 tk_evidence := Some (before @ [artifact_path (ts_root s) (tk_id task)]), tk_completed := Some now\<rparr>) s))
      | WaitTimeout \<Rightarrow> update_task now (tk_id task)
          (ends_task now TkFailed (KRun, ''Task exceeded maximum execution time budget of ''
             @ dec_int (opt_default 0 (tk_max_time task)) @ ''ms'') ''task_timeout'')
      | WaitThrow err aborted \<Rightarrow>
          if aborted then update_task now (tk_id task) (ends_task now TkCancelled (KCancelled, ''Task cancelled'') ''user_abort'')
          else (case err of
            CursorError code msg \<Rightarrow> update_task now (tk_id task) (ends_task now TkFailed
              (if code = ''E_UNSUPPORTED_OPERATION'' then KAmbiguous else if code = ''E_RUNTIME_TERMINAL'' then KRun else KAmbiguous, msg)
              ''execution_error'')
          | OtherError msg \<Rightarrow> update_task now (tk_id task) (ends_task now TkFailed (KAmbiguous, msg) ''execution_error''))))"

definition run_task :: "run_script \<Rightarrow> bool \<Rightarrow> ms \<Rightarrow> string \<Rightarrow> (task_store, task_error, task_record) act" where
  "run_task sc background now i = andthen (start_run sc now i) (\<lambda>(running, t).
     if running \<and> \<not> background then finish_run sc now t else ret t)"

definition cancel_task :: "ms \<Rightarrow> string \<Rightarrow> (task_store, task_error, task_record) act" where
  "cancel_task now i s = (case get_task s i of
     None \<Rightarrow> (Inl (E_TASK_NOT_FOUND i), s)
   | Some t \<Rightarrow> if tk_status t \<in> {TkCompleted, TkFailed, TkCancelled} then (Inr t, s)
       else update_task now i (ends_task now TkCancelled (KCancelled, ''Task cancelled by operator'') ''user_abort'') s)"

datatype resume_result = ResumeError string string | ResumeText "string option" "string option" | ResumeThrow string

definition resume_task :: "string option \<Rightarrow> (string + string) \<Rightarrow> resume_result \<Rightarrow> ms \<Rightarrow> string \<Rightarrow> (task_store, task_error, task_record) act" where
  \<comment> \<open>\<open>agent_error\<close>: \<^verbatim>\<open>resumeAgent\<close> throws it; \<open>send\<close>: the message of the error it throws, or the run
    identifier; \<open>res\<close> is the rest of the run\<close>
  "resume_task agent_error send res now i s = (case get_task s i of
     None \<Rightarrow> (Inl (E_TASK_NOT_FOUND i), s)
   | Some task \<Rightarrow> if opt_default [] (tk_agent task) = [] then (Inl (E_TASK_CANNOT_RESUME i), s)
       else if agent_error \<noteq> None then (Inl (E_RESUME_AGENT (the agent_error)), s)
       else (let
         failed = (\<lambda>k msg. update_task now (tk_id task) (\<lambda>t. t\<lparr>tk_status := TkFailed, tk_error := Some (k, msg), tk_completed := Some now\<rparr>))
       in (case send of
           Inl msg \<Rightarrow> failed KAmbiguous msg s
         | Inr run \<Rightarrow> andthen (update_task now (tk_id task) (\<lambda>t. t\<lparr>tk_run := Some run, tk_status := TkRunning\<rparr>)) (\<lambda>_.
             (case res of
                ResumeError msg code \<Rightarrow> failed KRun (first_nonempty [msg, code, ''Resumed run failed''])
              | ResumeText result text \<Rightarrow> update_task now (tk_id task) (\<lambda>t. t\<lparr>tk_status := TkCompleted,
                  tk_output := Some (given_text result text), tk_completed := Some now\<rparr>)
              | ResumeThrow msg \<Rightarrow> failed KAmbiguous msg)) s)))"

section \<open>Laws\<close>

lemma get_save [simp]:
  "get_task (save_task t s) i = (if task_file i = task_file (tk_id t) then Some t else get_task s i)"
  by (simp add: get_task_def save_task_def)

lemma sanitize_plain: "list_all is_key_char i \<Longrightarrow> sanitize i = i"
  unfolding sanitize_def by (induction i) auto

lemma task_file_inject: "task_file i = task_file j \<longleftrightarrow> sanitize i = sanitize j"
  by (simp add: task_file_def)

text \<open>
  Two identifiers that differ only in characters outside \<^verbatim>\<open>[A-Za-z0-9._-]\<close> share one record file, and
  an identifier with \<^verbatim>\<open>..\<close> segments takes the output file out of the artifacts directory.
\<close>

lemma task_file_collision: "task_file ''build app'' = task_file ''build/app''" "''build app'' \<noteq> ''build/app''"
  by code_simp+

lemma artifact_escapes: "artifact_path ''/work'' ''../../../../etc/cron'' = ''/etc/cron-output.md''"
  by code_simp

text \<open>
  A completion does not look at the status it replaces: a run that was under way when the operator
  cancelled the task turns the cancelled record into a completed one.
\<close>

definition ex_input :: "string \<Rightarrow> task_input" where
  "ex_input i = \<lparr>ti_id = i, ti_workflow = None, ti_parent = None, ti_role = ''executor'', ti_profile = None, ti_model = None,
     ti_cloud = None, ti_prompt = ''do it'', ti_deps = None, ti_workspace = None, ti_worktree = None, ti_owned = None,
     ti_criteria = None, ti_max_time = None\<rparr>"

definition ex_script :: run_script where
  "ex_script = \<lparr>sc_create = None, sc_send = Inr (''agent'', ''run''), sc_aborted = False, sc_wait = WaitText (Some ''done'') None\<rparr>"

definition ex_tasks :: task_store where
  "ex_tasks = snd (create_task_record 1 (ex_input ''t1'') \<lparr>ts_root = ''/work'', ts_files = [], ts_artifacts = []\<rparr>)"

lemma completion_overwrites_cancel:
  "(case start_run ex_script 2 ''t1'' ex_tasks of
      (Inr (True, t), s) \<Rightarrow> (case cancel_task 3 ''t1'' s of
          (Inr c, s') \<Rightarrow> map_sum id tk_status (fst (finish_run ex_script 4 t s')) = Inr TkCompleted \<and> tk_status c = TkCancelled
        | _ \<Rightarrow> False)
    | _ \<Rightarrow> False)"
  by code_simp

section \<open>Properties\<close>

lemma update_task_Some:
  assumes "get_task s i = Some t" "tk_id (patch t) = i"
  shows "update_task now i patch s = (Inr ((patch t)\<lparr>tk_updated := now\<rparr>), save_task ((patch t)\<lparr>tk_updated := now\<rparr>) s)"
  using assms by (simp add: update_task_def Let_def)

lemma ends_task_simps [simp]:
  "tk_id (ends_task now st e b t) = tk_id t" "tk_status (ends_task now st e b t) = st"
  "tk_completed (ends_task now st e b t) = Some now" "tk_updated (ends_task now st e b t) = tk_updated t"
  by (simp_all add: ends_task_def)

definition settled :: "task_state \<Rightarrow> bool" where
  "settled st = (st \<in> {TkCompleted, TkFailed, TkCancelled})"

definition settles :: "(task_store, task_error, task_record) act \<Rightarrow> task_store \<Rightarrow> string \<Rightarrow> bool" where
  \<comment> \<open>the operation returns the settled record it left for the task, and keeps every other record\<close>
  "settles m s i = (\<exists>t s'. m s = (Inr t, s') \<and> settled (tk_status t) \<and> tk_completed t \<noteq> None \<and> tk_id t = i
     \<and> get_task s' i = Some t \<and> (\<forall>j. task_file j \<noteq> task_file i \<longrightarrow> get_task s' j = get_task s j))"

lemma settles_update:
  assumes "get_task s i = Some t" "tk_id (patch t) = i" "settled (tk_status (patch t))" "tk_completed (patch t) \<noteq> None"
  shows "settles (update_task now i patch) s i"
  using assms by (auto simp: settles_def update_task_Some)

lemma get_task_artifacts [simp]: "get_task (s\<lparr>ts_artifacts := a\<rparr>) i = get_task s i"
  by (simp add: get_task_def)

lemma finish_run_settles:
  assumes "get_task s i = Some t" and "tk_id t = i" and "tk_id task = i"
  shows "settles (finish_run sc now task) s i"
proof (cases "sc_wait sc")
  case (WaitText res body)
  show ?thesis
  proof (cases "sc_aborted sc")
    case True
    with assms show ?thesis by (auto simp: finish_run_def settled_def intro!: settles_update)
  next
    case False
    show ?thesis
    proof (cases "blank (given_text res body)")
      case True
      with False assms WaitText show ?thesis
        by (auto simp: finish_run_def Let_def settled_def intro!: settles_update)
    next
      case nb: False
      let ?s = "s\<lparr>ts_artifacts := dput (artifact_path (ts_root s) i)
        (given_text res body) (ts_artifacts s)\<rparr>"
      have "finish_run sc now task s = update_task now i (\<lambda>t. t\<lparr>tk_status := TkCompleted,
          tk_output := Some (given_text res body),
          tk_evidence := Some (opt_default [] (tk_evidence task) @ [artifact_path (ts_root s) i]), tk_completed := Some now\<rparr>) ?s"
        using False nb WaitText assms by (simp add: finish_run_def Let_def andthen_def)
      moreover have "settles (update_task now i (\<lambda>t. t\<lparr>tk_status := TkCompleted,
          tk_output := Some (given_text res body),
          tk_evidence := Some (opt_default [] (tk_evidence task) @ [artifact_path (ts_root s) i]), tk_completed := Some now\<rparr>)) ?s i"
        using assms by (intro settles_update) (simp_all add: settled_def)
      ultimately show ?thesis unfolding settles_def by simp
    qed
  qed
qed (use assms in \<open>auto simp: finish_run_def settled_def intro!: settles_update split: thrown.splits\<close>)

text \<open>A foreground run settles its task. Whatever the agent SDK does, a run of a recorded task returns a
  record that is completed, failed or cancelled and carries its completion time, that record is the
  one stored, and no other record changes.\<close>

theorem foreground_run_settles:
  assumes "get_task s i = Some t" "tk_id t = i"
  shows "settles (run_task sc False now i) s i"
proof -
  consider (create) msg where "sc_create sc = Some msg" | (send) msg where "sc_create sc = None" "sc_send sc = Inl msg"
    | (ok) agent run where "sc_create sc = None" "sc_send sc = Inr (agent, run)"
    by (cases "sc_create sc"; cases "sc_send sc") auto
  then show ?thesis
  proof cases
    case ok
    let ?t = "t\<lparr>tk_agent := Some agent, tk_run := Some run, tk_status := TkRunning, tk_updated := now\<rparr>"
    have "run_task sc False now i s = finish_run sc now ?t (save_task ?t s)"
      using assms ok by (simp add: run_task_def start_run_def update_task_def andthen_def Let_def)
    moreover have "settles (finish_run sc now ?t) (save_task ?t s) i"
      by (rule finish_run_settles [where t = ?t]) (use assms in simp_all)
    ultimately show ?thesis using assms unfolding settles_def by auto
  qed (use assms in \<open>auto simp: settles_def run_task_def start_run_def update_task_def andthen_def settled_def Let_def\<close>)
qed

theorem foreground_run_settles_witness: "settles (run_task ex_script False 5 ''t1'') ex_tasks ''t1''"
proof -
  have "map_option tk_id (get_task ex_tasks ''t1'') = Some ''t1''" by code_simp
  then obtain t where "get_task ex_tasks ''t1'' = Some t" "tk_id t = ''t1''" by auto
  then show ?thesis by (rule foreground_run_settles)
qed

end
