(* ===== verification/DagRun.thy ===== *)
theory DagRun
  imports DagProperties Tasks
begin

text \<open>
  Running a task graph: edit ownership per rank (\<^verbatim>\<open>src/dag/conflicts.ts\<close>), the bounded context of the
  upstream outputs (\<^verbatim>\<open>src/dag/context.ts\<close>) and the runner (\<^verbatim>\<open>src/dag/runner.ts\<close>) over the task
  store and runner of theory \<open>Tasks\<close>.

  What the SDK does for a record is the parameter \<open>sdk\<close>; the abort signal is three parameters, what
  is seen before a rank, by the worker of a task and after a rank.  The tasks of a rank run
  concurrently in the code; here they run in the order of the rank, each reading only records of
  earlier ranks and writing only its own, so that every interleaving leaves the same records.
\<close>

section \<open>Edit ownership\<close>

definition effective_location :: "string \<Rightarrow> dag_task \<Rightarrow> string" where
  "effective_location dws t = (case dt_worktree t of Some w \<Rightarrow> w | None \<Rightarrow> opt_default dws (dt_workspace t))"

definition group_by_location :: "string \<Rightarrow> dag_task list \<Rightarrow> (string \<times> dag_task list) list" where
  \<comment> \<open>the \<^verbatim>\<open>Map\<close> from location to tasks, in insertion order\<close>
  "group_by_location dws ts = map (\<lambda>l. (l, filter (\<lambda>t. effective_location dws t = l) ts))
     (js_set (map (effective_location dws) ts))"

definition edits :: "dag_task \<Rightarrow> bool" where
  "edits t = (opt_default [] (dt_owned t) \<noteq> [])"

fun check_groups :: "(string \<times> dag_task list) list \<Rightarrow> claim_error + unit" where
  "check_groups [] = Inr ()"
| "check_groups ((l, ts) # gs) = (let editing = filter edits ts in
     if length editing \<le> 1 then check_groups gs
     else rbind (assert_exclusive_path_claims
         (map (\<lambda>t. \<lparr>pc_owner = dt_id t, pc_paths = opt_default [] (dt_owned t)\<rparr>) editing)) (\<lambda>_. check_groups gs))"

fun validate_rank_edit_ownership :: "dag_task list list \<Rightarrow> string \<Rightarrow> claim_error + unit" where
  "validate_rank_edit_ownership [] dws = Inr ()"
| "validate_rank_edit_ownership (rank # ranks) dws =
     rbind (check_groups (group_by_location dws rank)) (\<lambda>_. validate_rank_edit_ownership ranks dws)"

section \<open>Upstream context\<close>

definition MAX_UPSTREAM_CHARS :: nat where "MAX_UPSTREAM_CHARS = 2048"
definition MAX_TOTAL_UPSTREAM_CHARS :: nat where "MAX_TOTAL_UPSTREAM_CHARS = 8192"

definition NL :: string where "NL = [CHR 0x0A]"

type_synonym outputs = "(string \<times> string \<times> string) list"  \<comment> \<open>task, role, output\<close>

definition upstream_block :: "nat \<Rightarrow> string \<Rightarrow> string \<times> string \<Rightarrow> string" where
  "upstream_block max_chars dep up = (case up of (role, out) \<Rightarrow>
     let bounded = (if max_chars < length out
        then take max_chars out @ NL @ ''[... output truncated to '' @ dec_nat max_chars @ '' chars ...]'' else out)
     in ''--- [Bounded Upstream Output: Task '' @ [CHR 0x27] @ dep @ [CHR 0x27] @ '' ('' @ role @ '')] ---'' @ NL
        @ bounded @ NL @ ''--- [End Upstream Output: '' @ [CHR 0x27] @ dep @ [CHR 0x27] @ ''] ---'')"

definition stitch_upstream :: "nat \<Rightarrow> nat \<Rightarrow> string \<Rightarrow> string list \<Rightarrow> outputs \<Rightarrow> string" where
  "stitch_upstream max_chars max_total prompt deps ups = (let
     blocks = List.map_filter (\<lambda>d. map_option (upstream_block max_chars d) (map_of ups d)) deps;
     joined = join (NL @ NL) blocks
   in if blocks = [] then prompt
      else (if max_total < length joined
            then take max_total joined @ NL @ ''[... total upstream context truncated to '' @ dec_nat max_total @ '' chars ...]''
            else joined) @ NL @ NL @ ''Task Instructions:'' @ NL @ prompt)"

section \<open>The runner\<close>

record dag_env =
  de_sdk :: "task_record \<Rightarrow> run_script"
  de_now :: ms
  de_before :: "nat \<Rightarrow> bool"   \<comment> \<open>the signal is aborted before the rank\<close>
  de_task :: "string \<Rightarrow> bool"  \<comment> \<open>the signal is aborted when a worker comes to the task\<close>
  de_after :: "nat \<Rightarrow> bool"    \<comment> \<open>the signal is aborted after the rank\<close>

record dag_run =
  rn_store :: task_store
  rn_records :: "(string \<times> task_record) list"
  rn_outputs :: outputs
  rn_aborted :: bool

datatype overall = OCompleted | OFailed | OCancelled

datatype dag_run_error = DagInvalid dag_error | OwnershipInvalid claim_error | TaskError task_error

definition dag_input :: "string \<Rightarrow> string \<Rightarrow> dag_task \<Rightarrow> task_input" where
  "dag_input workspace dag_id t = \<lparr>ti_id = dt_id t, ti_workflow = Some dag_id, ti_parent = None, ti_role = dt_role t,
     ti_profile = dt_profile t, ti_model = None, ti_cloud = Some (opt_default False (dt_cloud t)), ti_prompt = dt_prompt t, ti_deps = dt_deps t,
     ti_workspace = Some (opt_default workspace (dt_workspace t)), ti_worktree = dt_worktree t, ti_owned = dt_owned t,
     ti_criteria = dt_criteria t, ti_max_time = dt_max_time t\<rparr>"

definition set_record :: "string \<Rightarrow> task_record \<Rightarrow> dag_run \<Rightarrow> dag_run" where
  "set_record i t r = r\<lparr>rn_records := dput i t (rn_records r)\<rparr>"

fun init_records :: "ms \<Rightarrow> string \<Rightarrow> string \<Rightarrow> dag_task list \<Rightarrow> dag_run \<Rightarrow> dag_run" where
  "init_records now workspace dag_id [] r = r"
| "init_records now workspace dag_id (t # ts) r = (let
     (rec, s) = create_task_record now (dag_input workspace dag_id t) (rn_store r)
   in init_records now workspace dag_id ts (set_record (dt_id t) rec (r\<lparr>rn_store := s\<rparr>)))"

definition failed_dep :: "(string \<times> task_record) list \<Rightarrow> string list \<Rightarrow> string option" where
  \<comment> \<open>the first dependency that did not complete\<close>
  "failed_dep records deps = find (\<lambda>d. case map_of records d of None \<Rightarrow> True | Some t \<Rightarrow> tk_status t \<noteq> TkCompleted) deps"

definition on_store :: "(task_store, task_error, 'a) act \<Rightarrow> (dag_run, dag_run_error, 'a) act" where
  "on_store m r = (case m (rn_store r) of
     (Inl e, s) \<Rightarrow> (Inl (TaskError e), r\<lparr>rn_store := s\<rparr>) | (Inr x, s) \<Rightarrow> (Inr x, r\<lparr>rn_store := s\<rparr>))"

definition note_output :: "dag_task \<Rightarrow> task_record \<Rightarrow> dag_run \<Rightarrow> dag_run" where
  "note_output t rec r = (case tk_output rec of
     None \<Rightarrow> r
   | Some out \<Rightarrow> if tk_status rec = TkCompleted then r\<lparr>rn_outputs := dput (dt_id t) (dt_role t, out) (rn_outputs r)\<rparr> else r)"

definition run_dag_task :: "dag_env \<Rightarrow> dag_task \<Rightarrow> (dag_run, dag_run_error, unit) act" where
  "run_dag_task e t r =
     (if de_task e (dt_id t) then (Inr (), r\<lparr>rn_aborted := True\<rparr>)
      else case failed_dep (rn_records r) (task_deps t) of
        Some d \<Rightarrow> andthen (on_store (update_task (de_now e) (dt_id t) (\<lambda>k. k\<lparr>tk_status := TkSkipped,
            tk_blocker := Some (''upstream_dependency_failed:'' @ d), tk_completed := Some (de_now e)\<rparr>)))
          (\<lambda>k. modify (set_record (dt_id t) k)) r
      | None \<Rightarrow> (let
            prompt = stitch_upstream MAX_UPSTREAM_CHARS MAX_TOTAL_UPSTREAM_CHARS (dt_prompt t) (task_deps t) (rn_outputs r);
            start = (if prompt \<noteq> dt_prompt t
              then andthen (on_store (update_task (de_now e) (dt_id t) (\<lambda>k. k\<lparr>tk_prompt := prompt\<rparr>))) (\<lambda>_. ret ())
              else ret ())
          in andthen start (\<lambda>_. andthen
            (on_store (\<lambda>s. case get_task s (dt_id t) of None \<Rightarrow> (Inl (E_TASK_NOT_FOUND (dt_id t)), s)
               | Some k \<Rightarrow> run_task (de_sdk e k) False (de_now e) (dt_id t) s))
            (\<lambda>k. modify (\<lambda>r. note_output t k (set_record (dt_id t) k r)))) r))"

fun run_ranks :: "dag_env \<Rightarrow> nat \<Rightarrow> dag_task list list \<Rightarrow> (dag_run, dag_run_error, unit) act" where
  "run_ranks e n [] = ret ()"
| "run_ranks e n (rank # ranks) = (\<lambda>r.
     if de_before e n then (Inr (), r\<lparr>rn_aborted := True\<rparr>)
     else andthen (for_each (run_dag_task e) rank) (\<lambda>_ r.
       (let r' = (if de_after e n then r\<lparr>rn_aborted := True\<rparr> else r)
        in if rn_aborted r' then (Inr (), r') else run_ranks e (Suc n) ranks r')) r)"

definition cancel_rest :: "dag_env \<Rightarrow> (string \<times> task_record) list \<Rightarrow> (dag_run, dag_run_error, unit) act" where
  "cancel_rest e records = for_each (\<lambda>(i, k).
     if tk_status k = TkPending \<or> tk_status k = TkRunning
     then andthen (on_store (update_task (de_now e) i (\<lambda>k. k\<lparr>tk_status := TkCancelled, tk_blocker := Some ''dag_aborted'',
         tk_completed := Some (de_now e)\<rparr>))) (\<lambda>k. modify (set_record i k))
     else ret ()) records"

definition overall_status :: "dag_run \<Rightarrow> overall" where
  "overall_status r = (let st = map (\<lambda>(_, k). tk_status k) (rn_records r) in
     if rn_aborted r \<or> TkCancelled \<in> set st then OCancelled
     else if TkFailed \<in> set st then OFailed
     else if list_all (\<lambda>x. x = TkCompleted \<or> x = TkSkipped) st then OCompleted else OFailed)"

definition dag_start :: "dag_env \<Rightarrow> task_store \<Rightarrow> string \<Rightarrow> dag_task list \<Rightarrow> dag_run" where
  "dag_start e s dag_id tasks = init_records (de_now e) (ts_root s) dag_id tasks
     \<lparr>rn_store = s, rn_records = [], rn_outputs = [], rn_aborted = False\<rparr>"

definition run_dag :: "dag_env \<Rightarrow> string \<Rightarrow> dag_task list \<Rightarrow> task_store \<Rightarrow> dag_run_error + overall \<times> dag_run" where
  "run_dag e dag_id tasks s = (case validate_dag tasks of
     Inl x \<Rightarrow> Inl (DagInvalid x)
   | Inr d \<Rightarrow> (case validate_rank_edit_ownership (dr_ranks d) (ts_root s) of
       Inl x \<Rightarrow> Inl (OwnershipInvalid x)
     | Inr _ \<Rightarrow> (case run_ranks e 0 (dr_ranks d) (dag_start e s dag_id (concat (dr_ranks d))) of
         (Inl x, _) \<Rightarrow> Inl x
       | (Inr _, r) \<Rightarrow> (case (if rn_aborted r then cancel_rest e (rn_records r) r else (Inr (), r)) of
           (Inl x, _) \<Rightarrow> Inl x
         | (Inr _, r') \<Rightarrow> Inr (overall_status r', r')))))"

section \<open>Edit ownership of a rank\<close>

lemma check_groups_each:
  assumes "check_groups gs = Inr ()" "(l, ts) \<in> set gs" "1 < length (filter edits ts)"
  shows "assert_exclusive_path_claims (map (\<lambda>t. \<lparr>pc_owner = dt_id t, pc_paths = opt_default [] (dt_owned t)\<rparr>) (filter edits ts)) = Inr ()"
  using assms
  by (induction gs rule: check_groups.induct) (auto simp: Let_def rbind_Inr_iff split: if_splits)

lemma ranks_each:
  "validate_rank_edit_ownership ranks dws = Inr () \<Longrightarrow> rank \<in> set ranks \<Longrightarrow> check_groups (group_by_location dws rank) = Inr ()"
  by (induction ranks) (auto simp: rbind_Inr_iff)

lemma two_in_list:
  "x \<in> set xs \<Longrightarrow> y \<in> set xs \<Longrightarrow> x \<noteq> y \<Longrightarrow> (\<exists>as bs. xs = as @ x # bs \<and> y \<in> set bs) \<or> (\<exists>as bs. xs = as @ y # bs \<and> x \<in> set bs)"
proof -
  assume "x \<in> set xs" "y \<in> set xs" "x \<noteq> y"
  then obtain as bs where xs: "xs = as @ x # bs" by (auto dest: split_list)
  show ?thesis
  proof (cases "y \<in> set bs")
    case False
    with xs \<open>y \<in> set xs\<close> \<open>x \<noteq> y\<close> obtain a1 a2 where "as = a1 @ y # a2" by (auto dest: split_list)
    with xs have "xs = a1 @ y # (a2 @ x # bs)" "x \<in> set (a2 @ x # bs)" by simp_all
    then show ?thesis by blast
  qed (use xs in blast)
qed

lemma two_in_length: "x \<in> set xs \<Longrightarrow> y \<in> set xs \<Longrightarrow> x \<noteq> y \<Longrightarrow> 1 < length xs"
  by (cases xs; cases "tl xs") auto

text \<open>No two tasks of a rank own one file. When the ownership check accepts the ranks of a graph, two
  different tasks of one rank with the same location own no common file: no file, compared without
  case, is at or below a path of the one and a path of the other.\<close>

theorem rank_tasks_own_apart:
  assumes "validate_rank_edit_ownership ranks dws = Inr ()" "rank \<in> set ranks"
    and "t \<in> set rank" "u \<in> set rank" "t \<noteq> u" "effective_location dws t = effective_location dws u"
    and "p \<in> set (opt_default [] (dt_owned t))" "q \<in> set (opt_default [] (dt_owned u))"
  shows "\<not> (covers (to_lower p) f \<and> covers (to_lower q) f)"
proof -
  let ?l = "effective_location dws t" and ?c = "\<lambda>t. \<lparr>pc_owner = dt_id t, pc_paths = opt_default [] (dt_owned t)\<rparr>"
  let ?g = "filter (\<lambda>x. effective_location dws x = ?l) rank"
  have g: "(?l, ?g) \<in> set (group_by_location dws rank)"
    using assms(3) by (auto simp: group_by_location_def)
  let ?e = "filter edits ?g"
  have tu: "t \<in> set ?e" "u \<in> set ?e" using assms by (auto simp: edits_def)
  have "1 < length ?e" by (rule two_in_length [OF tu assms(5)])
  with check_groups_each [OF ranks_each [OF assms(1,2)] g]
  have ex: "assert_exclusive_path_claims (map ?c ?e) = Inr ()" by simp
  from two_in_list [OF tu assms(5)] show ?thesis
  proof (elim disjE exE conjE)
    fix as bs assume "?e = as @ t # bs" "u \<in> set bs"
    with exclusive_pair [of "map ?c as" "?c t" "map ?c bs" "?c u"] ex assms(7,8) show ?thesis by auto
  next
    fix as bs assume "?e = as @ u # bs" "t \<in> set bs"
    with exclusive_pair [of "map ?c as" "?c u" "map ?c bs" "?c t"] ex assms(7,8) show ?thesis by auto
  qed
qed

theorem rank_tasks_own_apart_witness:
  "\<nexists>f. covers (to_lower ''src/A'') f \<and> covers (to_lower ''src/b'') f"
proof -
  let ?t = "(ex_task ''t'' [])\<lparr>dt_owned := Some [''src/A'']\<rparr>" and ?u = "(ex_task ''u'' [])\<lparr>dt_owned := Some [''src/b'', ''docs'']\<rparr>"
  have v: "validate_rank_edit_ownership [[?t, ?u]] ''/w'' = Inr ()" by code_simp
  have "\<not> (covers (to_lower ''src/A'') f \<and> covers (to_lower ''src/b'') f)" for f
    by (rule rank_tasks_own_apart [OF v, of "[?t, ?u]" ?t ?u]) (simp_all add: ex_task_def effective_location_def)
  then show ?thesis by blast
qed

text \<open>
  Locations are compared as written: two tasks that own the same file in one directory are accepted
  when one of them spells the directory with a trailing slash.
\<close>

lemma same_directory_missed:
  "validate_rank_edit_ownership [[(ex_task ''t'' [])\<lparr>dt_owned := Some [''a.ts''], dt_workspace := Some ''/w''\<rparr>,
     (ex_task ''u'' [])\<lparr>dt_owned := Some [''a.ts''], dt_workspace := Some ''/w/''\<rparr>]] ''/w'' = Inr ()"
  by code_simp

section \<open>Bounded context\<close>

text \<open>The truncation note comes after the cut, so the context is longer than its bound.\<close>

lemma context_exceeds_bound:
  "6 + 20 < length (stitch_upstream 4 6 ''p'' [''a''] [(''a'', ''dev'', ''output'')]) - length (NL @ NL @ ''Task Instructions:'' @ NL @ ''p'')"
  by code_simp

text \<open>The upstream context is bounded and the instructions are kept. The prompt of a downstream task ends
  with its own prompt in full, and what precedes it is longer than the total bound by at most the
  truncation note and the heading of the instructions.\<close>

theorem stitched_prompt_bounded:
  "\<exists>pre. stitch_upstream max_chars max_total prompt deps ups = pre @ prompt
     \<and> length pre \<le> max_total + length (dec_nat max_total) + 76"
proof -
  let ?blocks = "List.map_filter (\<lambda>d. map_option (upstream_block max_chars d) (map_of ups d)) deps"
  let ?joined = "join (NL @ NL) ?blocks"
  let ?pre = "(if max_total < length ?joined
            then take max_total ?joined @ NL @ ''[... total upstream context truncated to '' @ dec_nat max_total @ '' chars ...]''
            else ?joined) @ NL @ NL @ ''Task Instructions:'' @ NL"
  show ?thesis
  proof (cases "?blocks = []")
    case False
    then have "stitch_upstream max_chars max_total prompt deps ups = ?pre @ prompt"
      by (simp add: stitch_upstream_def Let_def)
    moreover have "length ?pre \<le> max_total + length (dec_nat max_total) + 76" by (simp add: NL_def)
    ultimately show ?thesis by blast
  qed (simp add: stitch_upstream_def Let_def)
qed

end
