(* ===== verification/DagRunProofs.thy ===== *)
theory DagRunProofs
  imports DagRun
begin

text \<open>
  The runner's invariant over the tasks processed so far, and what the final records of a run say:
  completed tasks completed their dependencies first, skipped tasks have one that did not complete,
  and a run reported as completed completed every task.
\<close>

section \<open>One task\<close>

lemma update_task_InrD:
  "update_task now i patch s = (Inr t, s') \<Longrightarrow> \<exists>c. t = (patch c)\<lparr>tk_updated := now\<rparr>"
  by (auto simp: update_task_def Let_def split: option.splits)

lemma finish_run_settled: "finish_run sc now task s = (Inr t, s') \<Longrightarrow> settled (tk_status t)"
  by (auto simp: finish_run_def Let_def andthen_def settled_def dest!: update_task_InrD
      split: if_splits wait_result.splits thrown.splits)

lemma start_run_settled: "start_run sc now i s = (Inr (False, t), s') \<Longrightarrow> settled (tk_status t)"
  by (auto simp: start_run_def andthen_def settled_def dest!: update_task_InrD
      split: option.splits sum.splits prod.splits)

lemma run_task_settled:
  assumes "run_task sc False now i s = (Inr t, s')"
  shows "settled (tk_status t)"
proof -
  obtain x s1 where x: "start_run sc now i s = (Inr x, s1)"
    "(case x of (running, k) \<Rightarrow> if running \<and> \<not> False then finish_run sc now k else ret k) s1 = (Inr t, s')"
    using assms unfolding run_task_def by (rule andthen_InrE)
  then show ?thesis
    using finish_run_settled start_run_settled by (cases x) (auto split: if_splits)
qed

lemma on_store_InrD:
  "on_store m r = (Inr x, r') \<Longrightarrow> (\<exists>s'. m (rn_store r) = (Inr x, s') \<and> r' = r\<lparr>rn_store := s'\<rparr>)"
  by (auto simp: on_store_def split: prod.splits sum.splits)

lemma note_output_records [simp]:
  "rn_records (note_output t k r) = rn_records r" "rn_aborted (note_output t k r) = rn_aborted r"
  by (auto simp: note_output_def split: option.splits)

lemma set_record_simps [simp]:
  "rn_records (set_record i k r) = dput i k (rn_records r)" "rn_aborted (set_record i k r) = rn_aborted r"
  by (simp_all add: set_record_def)

definition done_ok :: "(string \<times> task_record) list \<Rightarrow> dag_task \<Rightarrow> task_record \<Rightarrow> bool" where
  \<comment> \<open>what may be recorded for a task that has been processed\<close>
  "done_ok records t k = (tk_status k = TkSkipped \<and> failed_dep records (task_deps t) \<noteq> None
     \<or> settled (tk_status k) \<and> failed_dep records (task_deps t) = None)"

lemma run_dag_task_effect:
  assumes "run_dag_task e t r = (Inr (), r')"
  shows "(rn_records r' = rn_records r \<and> rn_aborted r')
    \<or> (\<exists>k. rn_records r' = dput (dt_id t) k (rn_records r) \<and> done_ok (rn_records r) t k \<and> rn_aborted r' = rn_aborted r)"
proof (cases "de_task e (dt_id t)")
  case True
  with assms show ?thesis by (auto simp: run_dag_task_def)
next
  case False
  show ?thesis
  proof (cases "failed_dep (rn_records r) (task_deps t)")
    case (Some d)
    with assms False obtain k r1 where
      "on_store (update_task (de_now e) (dt_id t) (\<lambda>k. k\<lparr>tk_status := TkSkipped,
            tk_blocker := Some (''upstream_dependency_failed:'' @ d), tk_completed := Some (de_now e)\<rparr>)) r = (Inr k, r1)"
      "r' = set_record (dt_id t) k r1"
      by (auto simp: run_dag_task_def elim!: andthen_InrE)
    with Some show ?thesis
      by (auto dest!: on_store_InrD update_task_InrD simp: done_ok_def intro!: exI [of _ k])
  next
    case None
    let ?p = "stitch_upstream MAX_UPSTREAM_CHARS MAX_TOTAL_UPSTREAM_CHARS (dt_prompt t) (task_deps t) (rn_outputs r)"
    let ?start = "if ?p \<noteq> dt_prompt t
       then andthen (on_store (update_task (de_now e) (dt_id t) (\<lambda>k. k\<lparr>tk_prompt := ?p\<rparr>))) (\<lambda>_. ret ()) else ret ()"
    let ?go = "on_store (\<lambda>s. case get_task s (dt_id t) of None \<Rightarrow> (Inl (E_TASK_NOT_FOUND (dt_id t)), s)
               | Some k \<Rightarrow> run_task (de_sdk e k) False (de_now e) (dt_id t) s)"
    have "andthen ?start (\<lambda>_. andthen ?go (\<lambda>k. modify (\<lambda>r. note_output t k (set_record (dt_id t) k r)))) r = (Inr (), r')"
      using assms False None by (simp add: run_dag_task_def Let_def)
    then obtain u r1 where a: "?start r = (Inr u, r1)"
      "andthen ?go (\<lambda>k. modify (\<lambda>r. note_output t k (set_record (dt_id t) k r))) r1 = (Inr (), r')"
      by (rule andthen_InrE)
    have r1: "rn_records r1 = rn_records r" "rn_aborted r1 = rn_aborted r"
      using a(1) by (auto split: if_splits elim!: andthen_InrE dest!: on_store_InrD)
    from a(2) obtain k r2 where k: "?go r1 = (Inr k, r2)" "r' = note_output t k (set_record (dt_id t) k r2)"
      by (auto elim!: andthen_InrE)
    obtain s2 where "r2 = r1\<lparr>rn_store := s2\<rparr>" "settled (tk_status k)"
      using on_store_InrD [OF k(1)] run_task_settled by (auto split: option.splits)
    with k(2) r1 None show ?thesis by (auto simp: done_ok_def)
  qed
qed

section \<open>The invariant\<close>

definition completed :: "(string \<times> task_record) list \<Rightarrow> string \<Rightarrow> bool" where
  "completed records i = (\<exists>k. map_of records i = Some k \<and> tk_status k = TkCompleted)"

lemma failed_dep_None: "failed_dep records ds = None \<longleftrightarrow> (\<forall>d \<in> set ds. completed records d)"
  by (auto simp: failed_dep_def find_None_iff completed_def split: option.splits)

definition record_ok :: "(string \<times> task_record) list \<Rightarrow> bool \<Rightarrow> dag_task \<Rightarrow> bool" where
  "record_ok records aborted t = (\<exists>k. map_of records (dt_id t) = Some k
     \<and> (tk_status k = TkPending \<and> aborted
        \<or> tk_status k = TkSkipped \<and> (\<exists>d \<in> set (task_deps t). \<not> completed records d)
        \<or> settled (tk_status k) \<and> (tk_status k = TkCompleted \<longrightarrow> (\<forall>d \<in> set (task_deps t). completed records d))))"

fun topo :: "string set \<Rightarrow> dag_task list \<Rightarrow> bool" where
  "topo S [] = True"
| "topo S (t # ts) = (dt_id t \<notin> S \<and> set (task_deps t) \<subseteq> S \<and> topo (insert (dt_id t) S) ts)"

definition run_inv :: "dag_task list \<Rightarrow> dag_task list \<Rightarrow> dag_run \<Rightarrow> bool" where
  \<comment> \<open>after the tasks \<open>ps\<close> were processed and before the tasks \<open>qs\<close>\<close>
  "run_inv ps qs r = ((\<forall>t \<in> set ps. record_ok (rn_records r) (rn_aborted r) t \<and> set (task_deps t) \<subseteq> dt_id ` set ps)
     \<and> (\<forall>t \<in> set qs. \<exists>k. map_of (rn_records r) (dt_id t) = Some k \<and> tk_status k = TkPending)
     \<and> set (dnames (rn_records r)) = dt_id ` (set ps \<union> set qs) \<and> distinct (dnames (rn_records r)))"

lemma map_of_dput: "map_of (dput k v d) k' = (if k' = k then Some v else map_of d k')"
  using dget_dput [of k v d k'] by (simp add: dget_def)

lemma completed_dput: "i \<noteq> j \<Longrightarrow> completed (dput j k records) i = completed records i"
  by (simp add: completed_def map_of_dput)

lemma record_ok_dput:
  assumes "record_ok records a t" "dt_id t \<noteq> i" "i \<notin> set (task_deps t)"
  shows "record_ok (dput i k records) a t"
proof -
  have "completed (dput i k records) d = completed records d" if "d \<in> set (task_deps t)" for d
    by (rule completed_dput) (use that assms(3) in auto)
  with assms(1,2) show ?thesis by (simp add: record_ok_def map_of_dput)
qed

lemma record_ok_aborted: "record_ok records a t \<Longrightarrow> (a \<Longrightarrow> b) \<Longrightarrow> record_ok records b t"
  unfolding record_ok_def by blast

lemma run_inv_step:
  assumes "run_inv ps (t # qs) r" "run_dag_task e t r = (Inr (), r')" "topo (dt_id ` set ps) (t # qs)"
  shows "run_inv (ps @ [t]) qs r'"
proof -
  have t: "dt_id t \<notin> dt_id ` set ps" "set (task_deps t) \<subseteq> dt_id ` set ps" using assms(3) by auto
  have q: "dt_id q \<noteq> dt_id t" if "q \<in> set qs" for q
  proof -
    have "topo S ts \<Longrightarrow> x \<in> set ts \<Longrightarrow> dt_id x \<notin> S" for S ts x
      by (induction S ts rule: topo.induct) auto
    from this [of "insert (dt_id t) (dt_id ` set ps)" qs q] assms(3) that show ?thesis by auto
  qed
  from run_dag_task_effect [OF assms(2)] show ?thesis
  proof (elim disjE exE conjE)
    assume a: "rn_records r' = rn_records r" "rn_aborted r'"
    have "record_ok (rn_records r) True t" using assms(1) by (auto simp: run_inv_def record_ok_def)
    with a t assms(1) show ?thesis
      by (auto simp: run_inv_def intro: record_ok_aborted)
  next
    fix k assume k: "rn_records r' = dput (dt_id t) k (rn_records r)" "done_ok (rn_records r) t k" "rn_aborted r' = rn_aborted r"
    have c: "completed (rn_records r') d = completed (rn_records r) d" if "d \<in> set (task_deps t)" for d
      unfolding k(1) by (rule completed_dput) (use that t in auto)
    have "record_ok (rn_records r') (rn_aborted r') t"
      using k(2) c failed_dep_None [of "rn_records r" "task_deps t"]
      by (auto simp: record_ok_def k(1) map_of_dput done_ok_def)
    moreover have "record_ok (rn_records r') (rn_aborted r') x" if "x \<in> set ps" for x
      unfolding k(1,3)
    proof (rule record_ok_dput)
      show "record_ok (rn_records r) (rn_aborted r) x" using assms(1) that by (simp add: run_inv_def)
      show "dt_id x \<noteq> dt_id t" using that t(1) by (metis image_eqI)
      show "dt_id t \<notin> set (task_deps x)" using assms(1) that t(1) by (auto simp: run_inv_def)
    qed
    ultimately show ?thesis
      using assms(1) t(2) q by (auto simp: run_inv_def k(1) map_of_dput distinct_dput)
  qed
qed

lemma run_inv_each:
  assumes "run_inv ps (ts @ qs) r" "for_each (run_dag_task e) ts r = (Inr (), r')" "topo (dt_id ` set ps) (ts @ qs)"
  shows "run_inv (ps @ ts) qs r' \<and> topo (dt_id ` set (ps @ ts)) qs"
  using assms
proof (induction ts arbitrary: ps r)
  case (Cons t ts)
  obtain r1 where r1: "run_dag_task e t r = (Inr (), r1)" "for_each (run_dag_task e) ts r1 = (Inr (), r')"
    using Cons.prems(2) by (auto elim: andthen_InrE)
  have "run_inv (ps @ [t]) (ts @ qs) r1" by (rule run_inv_step [OF _ r1(1)]) (use Cons.prems in simp_all)
  from Cons.IH [OF this r1(2)] Cons.prems(3) show ?case by simp
qed simp

lemma run_inv_abort: "run_inv ps qs r \<Longrightarrow> run_inv ps qs (r\<lparr>rn_aborted := True\<rparr>)"
  by (auto simp: run_inv_def intro: record_ok_aborted)

lemma run_inv_ranks:
  assumes "run_inv ps (concat ranks) r" "run_ranks e n ranks r = (Inr (), r')" "topo (dt_id ` set ps) (concat ranks)"
  shows "\<exists>ps' qs'. ps @ concat ranks = ps' @ qs' \<and> run_inv ps' qs' r' \<and> (rn_aborted r' \<or> qs' = [])"
  using assms
proof (induction ranks arbitrary: ps r n)
  case (Cons rank ranks)
  show ?case
  proof (cases "de_before e n")
    case True
    with Cons.prems run_inv_abort [OF Cons.prems(1)] show ?thesis by (intro exI [of _ ps] exI [of _ "concat (rank # ranks)"]) auto
  next
    case False
    obtain r1 where r1: "for_each (run_dag_task e) rank r = (Inr (), r1)"
      and rest: "(let r' = (if de_after e n then r1\<lparr>rn_aborted := True\<rparr> else r1)
        in if rn_aborted r' then (Inr (), r') else run_ranks e (Suc n) ranks r') = (Inr (), r')"
      using Cons.prems(2) False by (auto elim: andthen_InrE)
    have i: "run_inv (ps @ rank) (concat ranks) r1" "topo (dt_id ` set (ps @ rank)) (concat ranks)"
      using run_inv_each [OF _ r1, of ps "concat ranks"] Cons.prems by simp_all
    let ?r = "if de_after e n then r1\<lparr>rn_aborted := True\<rparr> else r1"
    have i': "run_inv (ps @ rank) (concat ranks) ?r" using i(1) run_inv_abort by simp
    show ?thesis
    proof (cases "rn_aborted ?r")
      case True
      with rest have "r' = ?r" by (simp add: Let_def split: if_splits)
      with i' True show ?thesis by (intro exI [of _ "ps @ rank"] exI [of _ "concat ranks"]) simp
    next
      case False
      with rest have "run_ranks e (Suc n) ranks ?r = (Inr (), r')" by (simp add: Let_def split: if_splits)
      from Cons.IH [OF i' this i(2)] show ?thesis by simp
    qed
  qed
qed auto

section \<open>Start and end of a run\<close>

lemma init_records_effect:
  assumes "distinct (map dt_id ts)"
  shows "rn_aborted (init_records now w g ts r) = rn_aborted r
    \<and> (\<forall>i. i \<notin> dt_id ` set ts \<longrightarrow> map_of (rn_records (init_records now w g ts r)) i = map_of (rn_records r) i)
    \<and> (\<forall>t \<in> set ts. \<exists>k. map_of (rn_records (init_records now w g ts r)) (dt_id t) = Some k \<and> tk_status k = TkPending)
    \<and> set (dnames (rn_records (init_records now w g ts r))) = set (dnames (rn_records r)) \<union> dt_id ` set ts
    \<and> (distinct (dnames (rn_records r)) \<longrightarrow> distinct (dnames (rn_records (init_records now w g ts r))))"
  using assms
proof (induction ts arbitrary: r)
  case (Cons t ts)
  let ?k = "new_task_record (ts_root (rn_store r)) now (dag_input w g t)"
  let ?r = "set_record (dt_id t) ?k (r\<lparr>rn_store := save_task ?k (rn_store r)\<rparr>)"
  have step: "init_records now w g (t # ts) r = init_records now w g ts ?r"
    by (simp add: create_task_record_def Let_def)
  have k: "map_of (rn_records (init_records now w g ts ?r)) (dt_id t) = Some ?k" "tk_status ?k = TkPending"
    using Cons.IH [of ?r] Cons.prems by (auto simp: map_of_dput new_task_record_def)
  then show ?case
    unfolding step using Cons.IH [of ?r] Cons.prems by (auto simp: map_of_dput distinct_dput)
qed simp

lemma start_inv:
  assumes "distinct (map dt_id ts)"
  shows "run_inv [] ts (dag_start e s g ts)"
  using init_records_effect [OF assms, of "de_now e" "ts_root s" g "\<lparr>rn_store = s, rn_records = [], rn_outputs = [], rn_aborted = False\<rparr>"]
  unfolding run_inv_def dag_start_def by (simp add: dnames_def [of "[]"])

lemma topo_concat:
  assumes "\<And>n t d. n < length ranks \<Longrightarrow> t \<in> set (ranks ! n) \<Longrightarrow> d \<in> set (task_deps t) \<Longrightarrow>
      d \<in> S \<or> (\<exists>k < n. d \<in> dt_id ` set (ranks ! k))"
    and "distinct (map dt_id (concat ranks))" "S \<inter> dt_id ` set (concat ranks) = {}"
  shows "topo S (concat ranks)"
  using assms
proof (induction ranks arbitrary: S)
  case (Cons rank ranks)
  have app: "topo U (as @ bs)" if "distinct (map dt_id as)" "U \<inter> dt_id ` set as = {}" "\<forall>t \<in> set as. set (task_deps t) \<subseteq> U"
    "topo (U \<union> dt_id ` set as) bs" for U as bs
    using that
  proof (induction as arbitrary: U)
    case (Cons a as)
    have "topo (insert (dt_id a) U) (as @ bs)" by (rule Cons.IH) (use Cons.prems in auto)
    with Cons.prems show ?case by simp
  qed simp
  have "topo (S \<union> dt_id ` set rank) (concat ranks)"
  proof (rule Cons.IH)
    fix n t d assume "n < length ranks" "t \<in> set (ranks ! n)" "d \<in> set (task_deps t)"
    with Cons.prems(1) [of "Suc n" t d] show "d \<in> S \<union> dt_id ` set rank \<or> (\<exists>k<n. d \<in> dt_id ` set (ranks ! k))"
      by (auto simp: less_Suc_eq_0_disj)
  qed (use Cons.prems(2,3) in auto)
  moreover have "\<forall>t \<in> set rank. set (task_deps t) \<subseteq> S" using Cons.prems(1) [of 0] by auto
  ultimately show ?case using Cons.prems(2,3) app [of rank S "concat ranks"] by auto
qed simp

lemma ranks_are_tasks:
  assumes "validate_dag tasks = Inr d"
  shows "topo {} (concat (dr_ranks d))" "distinct (map dt_id (concat (dr_ranks d)))" "set (concat (dr_ranks d)) = set tasks"
proof -
  note v = validated_order [OF assms]
  show di: "distinct (map dt_id (concat (dr_ranks d)))" using v by metis
  show "topo {} (concat (dr_ranks d))"
    by (rule topo_concat) (use v di in simp_all)
  obtain m where m: "well_formed_dag tasks" "m = task_map_of tasks"
    using valid_iff_acyclic [of tasks] assms by simp
  have dist: "distinct (map dt_id tasks)" using m(1) by (simp add: well_formed_dag_def)
  obtain ranks where r: "validate_dag tasks = Inr (group_ranks m ranks)" "ranks_ok m ranks" "fst ` set ranks = dag_ids tasks"
    using validate_dag_Inr [OF m(1)] valid_iff_acyclic [of tasks] assms m by auto
  have sub: "set (concat (dr_ranks d)) \<subseteq> set tasks"
  proof
    fix x assume "x \<in> set (concat (dr_ranks d))"
    then obtain i k where x: "x = the (map_of m i)" "(i, k) \<in> set ranks"
      using r(1) assms by (auto simp: group_ranks_def Let_def rank_ids_def simp del: upt_Suc)
    then have "i \<in> dag_ids tasks" using r(3) by (metis fst_conv image_eqI)
    then obtain t where "t \<in> set tasks" "i = dt_id t" by (auto simp: dag_ids_def)
    with x m(2) dist show "x \<in> set tasks" by (simp add: map_of_task_map_Some)
  qed
  have "dt_id ` set (concat (dr_ranks d)) = dt_id ` set tasks"
    using v by (metis dag_ids_def image_set)
  moreover have "inj_on dt_id (set tasks)" using dist by (simp add: distinct_map)
  ultimately show "set (concat (dr_ranks d)) = set tasks" using sub by (metis inj_on_image_eq_iff subset_refl)
qed

definition open_status :: "task_state \<Rightarrow> bool" where
  "open_status st = (st = TkPending \<or> st = TkRunning)"

lemma cancel_rest_effect:
  assumes "cancel_rest e L r = (Inr (), r')" "distinct (map fst L)" "\<forall>(i, k) \<in> set L. map_of (rn_records r) i = Some k"
  shows "rn_aborted r' = rn_aborted r \<and> (distinct (dnames (rn_records r)) \<longrightarrow> distinct (dnames (rn_records r')))
    \<and> (\<forall>(i, k) \<in> set L. if open_status (tk_status k) then \<exists>k'. map_of (rn_records r') i = Some k' \<and> tk_status k' = TkCancelled
          else map_of (rn_records r') i = Some k)
    \<and> (\<forall>i. i \<notin> fst ` set L \<longrightarrow> map_of (rn_records r') i = map_of (rn_records r) i)
    \<and> fst ` set L \<union> set (dnames (rn_records r')) = fst ` set L \<union> set (dnames (rn_records r))"
  using assms
proof (induction L arbitrary: r)
  case (Cons x L)
  obtain i k where x: "x = (i, k)" by (cases x)
  let ?upd = "andthen (on_store (update_task (de_now e) i (\<lambda>k. k\<lparr>tk_status := TkCancelled, tk_blocker := Some ''dag_aborted'',
         tk_completed := Some (de_now e)\<rparr>))) (\<lambda>k. modify (set_record i k))"
  obtain r1 where r1: "(if open_status (tk_status k) then ?upd else ret ()) r = (Inr (), r1)" "cancel_rest e L r1 = (Inr (), r')"
    using Cons.prems(1) unfolding cancel_rest_def x open_status_def by (auto elim: andthen_InrE)
  have eff: "rn_aborted r1 = rn_aborted r \<and> (if open_status (tk_status k)
      then \<exists>k'. rn_records r1 = dput i k' (rn_records r) \<and> tk_status k' = TkCancelled else rn_records r1 = rn_records r)"
  proof (cases "open_status (tk_status k)")
    case True
    with r1(1) obtain k' r2 where "on_store (update_task (de_now e) i (\<lambda>k. k\<lparr>tk_status := TkCancelled,
        tk_blocker := Some ''dag_aborted'', tk_completed := Some (de_now e)\<rparr>)) r = (Inr k', r2)" "r1 = set_record i k' r2"
      by (auto elim!: andthen_InrE)
    with True show ?thesis by (auto dest!: on_store_InrD update_task_InrD intro!: exI [of _ k'])
  qed (use r1(1) in simp)
  have at: "map_of (rn_records r1) j = map_of (rn_records r) j" if "j \<noteq> i" for j
    using eff that by (auto simp: map_of_dput split: if_splits)
  have "\<forall>(j, k) \<in> set L. map_of (rn_records r1) j = Some k"
  proof (clarify)
    fix j k' assume "(j, k') \<in> set L"
    moreover from this have "j \<noteq> i" using Cons.prems(2) x by force
    ultimately show "map_of (rn_records r1) j = Some k'" using Cons.prems(3) at by auto
  qed
  note IH = Cons.IH [OF r1(2) _ this]
  have d: "distinct (map fst L)" "i \<notin> fst ` set L" using Cons.prems(2) x by auto
  have di: "distinct (dnames (rn_records r)) \<longrightarrow> distinct (dnames (rn_records r1))"
    and nm: "insert i (set (dnames (rn_records r1))) = insert i (set (dnames (rn_records r)))"
    using eff by (auto simp: distinct_dput split: if_splits)
  have here: "map_of (rn_records r') i = map_of (rn_records r1) i" using IH d by simp
  have cur: "map_of (rn_records r) i = Some k" using Cons.prems(3) x by simp
  show ?case
    unfolding x using IH [OF d(1)] di nm eff here cur at d
    by (auto simp: map_of_dput split: if_splits)
qed (simp add: cancel_rest_def)

section \<open>Every validated run returns\<close>

definition recorded :: "task_store \<Rightarrow> string \<Rightarrow> bool" where
  \<comment> \<open>the file of the task holds a record that is saved under the same name\<close>
  "recorded s i = (\<exists>t. get_task s i = Some t \<and> task_file (tk_id t) = task_file i)"

definition total_act :: "('s \<Rightarrow> bool) \<Rightarrow> ('s, 'e, 'a) act \<Rightarrow> ('a \<Rightarrow> bool) \<Rightarrow> bool" where
  \<comment> \<open>from a state of the invariant the action returns a value, in a state of the invariant\<close>
  "total_act P m Q = (\<forall>s. P s \<longrightarrow> (\<exists>x s'. m s = (Inr x, s') \<and> P s' \<and> Q x))"

lemma total_actI: "(\<And>s. P s \<Longrightarrow> \<exists>x s'. m s = (Inr x, s') \<and> P s' \<and> Q x) \<Longrightarrow> total_act P m Q"
  by (simp add: total_act_def)

lemma total_unitD: "total_act P m Q \<Longrightarrow> P s \<Longrightarrow> \<exists>s'. m s = (Inr (), s') \<and> P s'"
  by (auto simp: total_act_def)

lemma total_andthen:
  "total_act P m Q \<Longrightarrow> (\<And>x. Q x \<Longrightarrow> total_act P (f x) R) \<Longrightarrow> total_act P (andthen m f) R"
  unfolding total_act_def andthen_def by fastforce

lemma total_ret: "Q x \<Longrightarrow> total_act P (ret x) Q"
  by (simp add: total_act_def)

lemma total_modify: "(\<And>s. P s \<Longrightarrow> P (f s)) \<Longrightarrow> total_act P (modify f) (\<lambda>_. True)"
  by (simp add: total_act_def modify_def)

lemma total_each: "(\<And>x. x \<in> set xs \<Longrightarrow> total_act P (f x) (\<lambda>_. True)) \<Longrightarrow> total_act P (for_each f xs) (\<lambda>_. True)"
  by (induction xs) (auto intro!: total_ret total_andthen)

abbreviation all_recorded :: "string set \<Rightarrow> task_store \<Rightarrow> bool" where
  "all_recorded I s \<equiv> \<forall>i \<in> I. recorded s i"

lemma recorded_save: "recorded s j \<Longrightarrow> recorded (save_task t s) j"
  by (auto simp: recorded_def)

lemma total_update:
  assumes "\<And>s. P s \<Longrightarrow> \<exists>t. get_task s i = Some t \<and> task_file (tk_id t) = task_file i"
    and "\<And>s t. P s \<Longrightarrow> P (save_task t s)" "\<And>t. tk_id (patch t) = tk_id t"
  shows "total_act P (update_task now i patch) (\<lambda>t. task_file (tk_id t) = task_file i)"
proof (rule total_actI)
  fix s assume "P s"
  with assms(1) [OF this] assms(2) [OF this] show "\<exists>x s'. update_task now i patch s = (Inr x, s') \<and> P s' \<and> task_file (tk_id x) = task_file i"
    by (auto simp: update_task_def Let_def assms(3))
qed

lemma total_update_recorded:
  assumes "j \<in> I" "task_file i = task_file j" "\<And>t. tk_id (patch t) = tk_id t"
  shows "total_act (all_recorded I) (update_task now i patch) (\<lambda>t. task_file (tk_id t) = task_file j)"
proof -
  have "get_task s i = get_task s j" for s using assms(2) by (simp add: get_task_def)
  then have "total_act (all_recorded I) (update_task now i patch) (\<lambda>t. task_file (tk_id t) = task_file i)"
    using assms by (intro total_update) (auto simp: recorded_def)
  with assms(2) show ?thesis by simp
qed

lemma ends_task_id [simp]: "tk_id (ends_task now st err b t) = tk_id t"
  by (simp add: ends_task_def)

lemma total_finish:
  assumes "j \<in> I" "task_file (tk_id task) = task_file j"
  shows "total_act (all_recorded I) (finish_run sc now task) (\<lambda>_. True)"
proof -
  have u: "total_act (all_recorded I) (update_task now (tk_id task) patch) (\<lambda>_. True)" if "\<And>t. tk_id (patch t) = tk_id t" for patch
    using total_update_recorded [OF assms that] unfolding total_act_def by blast
  have u': "all_recorded I s \<Longrightarrow> (\<And>t. tk_id (patch t) = tk_id t) \<Longrightarrow>
      \<exists>x s'. update_task now (tk_id task) patch s = (Inr x, s') \<and> all_recorded I s'" for s patch
    using u [of patch] unfolding total_act_def by blast
  have art: "all_recorded I s \<Longrightarrow> all_recorded I (s\<lparr>ts_artifacts := a\<rparr>)" for s a
    by (simp add: recorded_def get_task_def)
  show ?thesis
    by (rule total_actI)
      (auto simp: finish_run_def Let_def andthen_def modify_def intro!: u' art split: wait_result.splits thrown.splits)
qed

lemma total_run_task:
  assumes "i \<in> I"
  shows "total_act (all_recorded I) (run_task sc bg now i) (\<lambda>_. True)"
proof -
  have "total_act (all_recorded I) (start_run sc now i) (\<lambda>(_, t). task_file (tk_id t) = task_file i)"
  proof (rule total_actI)
    fix s assume s: "all_recorded I s"
    then obtain t where t: "get_task s i = Some t" "task_file (tk_id t) = task_file i"
      using assms by (auto simp: recorded_def)
    have u: "\<exists>x s'. update_task now (tk_id t) patch s = (Inr x, s') \<and> all_recorded I s' \<and> task_file (tk_id x) = task_file i"
      if "\<And>t. tk_id (patch t) = tk_id t" for patch
      using total_update_recorded [OF assms t(2) that] s unfolding total_act_def by blast
    show "\<exists>x s'. start_run sc now i s = (Inr x, s') \<and> all_recorded I s' \<and> (case x of (_, t) \<Rightarrow> task_file (tk_id t) = task_file i)"
      using u [of "ends_task now TkFailed (KStartup, the (sc_create sc)) ''startup_error''"]
        u [of "ends_task now TkFailed (KStartup, projl (sc_send sc)) ''startup_error''"]
        u [of "\<lambda>t. t\<lparr>tk_agent := Some (fst (projr (sc_send sc))), tk_run := Some (snd (projr (sc_send sc))), tk_status := TkRunning\<rparr>"] t(1)
      by (auto simp: start_run_def andthen_def split: option.splits sum.splits)
  qed
  then show ?thesis unfolding run_task_def
    by (rule total_andthen) (auto intro!: total_finish [OF assms] total_ret)
qed

lemma total_on_store:
  "total_act P m Q \<Longrightarrow> total_act (\<lambda>r :: dag_run. P (rn_store r)) (on_store m) Q"
  unfolding total_act_def on_store_def by fastforce

lemma total_dag_task:
  assumes "dt_id t \<in> I"
  shows "total_act (\<lambda>r :: dag_run. all_recorded I (rn_store r)) (run_dag_task e t) (\<lambda>_. True)"
proof (rule total_actI)
  let ?P = "\<lambda>r :: dag_run. all_recorded I (rn_store r)"
  fix r :: dag_run assume r: "?P r"
  have use: "\<exists>x s'. m r = (Inr x, s') \<and> ?P s' \<and> True" if "total_act ?P m (\<lambda>_. True)" for m :: "(dag_run, dag_run_error, unit) act"
    using that r unfolding total_act_def by blast
  have set: "total_act ?P (modify (set_record (dt_id t) k)) (\<lambda>_. True)"
    "total_act ?P (modify (\<lambda>r. note_output t k (set_record (dt_id t) k r))) (\<lambda>_. True)" for k
    by (auto intro!: total_modify simp: set_record_def note_output_def split: option.splits)
  have upd: "total_act ?P (on_store (update_task (de_now e) (dt_id t) patch)) (\<lambda>k. task_file (tk_id k) = task_file (dt_id t))"
    if "\<And>t. tk_id (patch t) = tk_id t" for patch
    by (rule total_on_store [OF total_update_recorded [OF assms refl that]])
  have go: "total_act ?P (on_store (\<lambda>s. case get_task s (dt_id t) of None \<Rightarrow> (Inl (E_TASK_NOT_FOUND (dt_id t)), s)
               | Some k \<Rightarrow> run_task (de_sdk e k) False (de_now e) (dt_id t) s)) (\<lambda>_. True)"
  proof (intro total_on_store total_actI)
    fix s assume s: "all_recorded I s"
    then obtain k where k: "get_task s (dt_id t) = Some k" using assms by (auto simp: recorded_def)
    show "\<exists>x s'. (case get_task s (dt_id t) of None \<Rightarrow> (Inl (E_TASK_NOT_FOUND (dt_id t)), s)
               | Some k \<Rightarrow> run_task (de_sdk e k) False (de_now e) (dt_id t) s) = (Inr x, s') \<and> all_recorded I s' \<and> True"
      using total_run_task [OF assms, of "de_sdk e k" False "de_now e"] s k unfolding total_act_def by auto
  qed
  let ?p = "stitch_upstream MAX_UPSTREAM_CHARS MAX_TOTAL_UPSTREAM_CHARS (dt_prompt t) (task_deps t) (rn_outputs r)"
  have start: "total_act ?P (if ?p \<noteq> dt_prompt t
      then andthen (on_store (update_task (de_now e) (dt_id t) (\<lambda>k. k\<lparr>tk_prompt := ?p\<rparr>))) (\<lambda>_. ret ()) else ret ()) (\<lambda>_. True)"
    by (auto intro!: total_ret total_andthen [OF upd])
  show "\<exists>x s'. run_dag_task e t r = (Inr x, s') \<and> ?P s' \<and> True"
  proof (cases "de_task e (dt_id t)")
    case True
    with r show ?thesis by (simp add: run_dag_task_def)
  next
    case False
    show ?thesis
    proof (cases "failed_dep (rn_records r) (task_deps t)")
      case None
      have "run_dag_task e t r = andthen (if ?p \<noteq> dt_prompt t
          then andthen (on_store (update_task (de_now e) (dt_id t) (\<lambda>k. k\<lparr>tk_prompt := ?p\<rparr>))) (\<lambda>_. ret ()) else ret ())
        (\<lambda>_. andthen (on_store (\<lambda>s. case get_task s (dt_id t) of None \<Rightarrow> (Inl (E_TASK_NOT_FOUND (dt_id t)), s)
               | Some k \<Rightarrow> run_task (de_sdk e k) False (de_now e) (dt_id t) s))
           (\<lambda>k. modify (\<lambda>r. note_output t k (set_record (dt_id t) k r)))) r"
        using False None by (simp only: run_dag_task_def Let_def if_False option.case)
      then show ?thesis
        by (simp only:) (rule use, rule total_andthen [OF start], rule total_andthen [OF go], rule set(2))
    next
      case (Some d)
      have "total_act ?P (andthen (on_store (update_task (de_now e) (dt_id t) (\<lambda>k. k\<lparr>tk_status := TkSkipped,
            tk_blocker := Some (''upstream_dependency_failed:'' @ d), tk_completed := Some (de_now e)\<rparr>)))
          (\<lambda>k. modify (set_record (dt_id t) k))) (\<lambda>_. True)"
        by (rule total_andthen [OF upd set(1)]) simp
      from use [OF this] Some False show ?thesis by (simp add: run_dag_task_def)
    qed
  qed
qed

lemma total_ranks:
  assumes "dt_id ` set (concat ranks) \<subseteq> I"
  shows "total_act (\<lambda>r. all_recorded I (rn_store r)) (run_ranks e n ranks) (\<lambda>_. True)"
  using assms
proof (induction ranks arbitrary: n)
  case (Cons rank ranks)
  let ?P = "\<lambda>r :: dag_run. all_recorded I (rn_store r)"
  have each: "total_act ?P (for_each (run_dag_task e) rank) (\<lambda>_. True)"
    using Cons.prems by (intro total_each total_dag_task) auto
  have rest: "total_act ?P (run_ranks e (Suc n) ranks) (\<lambda>_. True)" by (rule Cons.IH) (use Cons.prems in auto)
  show ?case
  proof (rule total_actI)
    fix r :: dag_run assume r: "?P r"
    obtain r1 where r1: "for_each (run_dag_task e) rank r = (Inr (), r1)" "?P r1"
      using each r unfolding total_act_def by auto
    define q where "q = (if de_after e n then r1\<lparr>rn_aborted := True\<rparr> else r1)"
    have q: "?P q" using r1(2) by (simp add: q_def)
    then obtain r2 where r2: "run_ranks e (Suc n) ranks q = (Inr (), r2)" "?P r2"
      using rest unfolding total_act_def by (metis (mono_tags, lifting) old.unit.exhaust)
    have "run_ranks e n (rank # ranks) r = (if de_before e n then (Inr (), r\<lparr>rn_aborted := True\<rparr>)
      else (Inr (), if rn_aborted q then q else r2))"
      using r1(1) r2(1) by (simp add: andthen_def Let_def q_def [symmetric])
    moreover have "?P (r\<lparr>rn_aborted := True\<rparr>)" using r by simp
    ultimately show "\<exists>x s'. run_ranks e n (rank # ranks) r = (Inr x, s') \<and> ?P s' \<and> True"
      using q r2(2) by (cases "de_before e n"; cases "rn_aborted q") auto
  qed
qed (simp add: total_ret)

lemma total_cancel_rest:
  assumes "fst ` set L \<subseteq> I"
  shows "total_act (\<lambda>r. all_recorded I (rn_store r)) (cancel_rest e L) (\<lambda>_. True)"
  unfolding cancel_rest_def
proof (rule total_each, clarify)
  fix i k assume i: "(i, k) \<in> set L"
  let ?P = "\<lambda>r :: dag_run. all_recorded I (rn_store r)"
  have "total_act ?P (on_store (update_task (de_now e) i (\<lambda>k. k\<lparr>tk_status := TkCancelled, tk_blocker := Some ''dag_aborted'',
         tk_completed := Some (de_now e)\<rparr>))) (\<lambda>k. task_file (tk_id k) = task_file i)"
    using assms i by (intro total_on_store total_update_recorded) force+
  from total_andthen [OF this total_modify, of "\<lambda>k. set_record i k"]
  show "total_act ?P (if tk_status k = TkPending \<or> tk_status k = TkRunning
     then andthen (on_store (update_task (de_now e) i (\<lambda>k. k\<lparr>tk_status := TkCancelled, tk_blocker := Some ''dag_aborted'',
         tk_completed := Some (de_now e)\<rparr>))) (\<lambda>k. modify (set_record i k)) else ret ()) (\<lambda>_. True)"
    by (auto simp: set_record_def intro: total_ret)
qed

lemma init_recorded: "all_recorded (dt_id ` set ts \<union> {i. recorded (rn_store r) i}) (rn_store (init_records now w g ts r))"
proof (induction ts arbitrary: r)
  case (Cons t ts)
  let ?k = "new_task_record (ts_root (rn_store r)) now (dag_input w g t)"
  let ?r = "set_record (dt_id t) ?k (r\<lparr>rn_store := save_task ?k (rn_store r)\<rparr>)"
  have "recorded (rn_store ?r) (dt_id t)"
    by (simp add: recorded_def set_record_def new_task_record_def dag_input_def)
  then show ?case
    using Cons.IH [of ?r] recorded_save [of "rn_store r" _ ?k]
    by (auto simp: create_task_record_def Let_def set_record_def)
qed simp

section \<open>Properties\<close>

lemma run_dag_parts:
  assumes "run_dag e g tasks s = Inr (out, r)"
  obtains d r1 where "validate_dag tasks = Inr d" "validate_rank_edit_ownership (dr_ranks d) (ts_root s) = Inr ()"
    "run_ranks e 0 (dr_ranks d) (dag_start e s g (concat (dr_ranks d))) = (Inr (), r1)"
    "(if rn_aborted r1 then cancel_rest e (rn_records r1) r1 else (Inr (), r1)) = (Inr (), r)" "out = overall_status r"
proof -
  obtain d where d: "validate_dag tasks = Inr d" "validate_rank_edit_ownership (dr_ranks d) (ts_root s) = Inr ()"
    using assms unfolding run_dag_def by (auto split: sum.splits)
  obtain x r1 where r1: "run_ranks e 0 (dr_ranks d) (dag_start e s g (concat (dr_ranks d))) = (x, r1)" by fastforce
  obtain y r2 where r2: "(if rn_aborted r1 then cancel_rest e (rn_records r1) r1 else (Inr (), r1)) = (y, r2)" by fastforce
  have "x = Inr ()" using assms d r1 by (cases x) (auto simp: run_dag_def)
  moreover have "y = Inr () \<and> r2 = r \<and> out = overall_status r"
    using assms d r1 r2 \<open>x = Inr ()\<close> by (cases y) (auto simp: run_dag_def)
  ultimately show ?thesis using that d r1 r2 by blast
qed

definition final_ok :: "(string \<times> task_record) list \<Rightarrow> dag_task \<Rightarrow> bool" where
  \<comment> \<open>what the final record of a task may be\<close>
  "final_ok records t = (\<exists>k. map_of records (dt_id t) = Some k
     \<and> (case tk_status k of
          TkCompleted \<Rightarrow> \<forall>d \<in> set (task_deps t). completed records d
        | TkSkipped \<Rightarrow> \<exists>d \<in> set (task_deps t). \<not> completed records d
        | TkFailed \<Rightarrow> True
        | TkCancelled \<Rightarrow> True
        | _ \<Rightarrow> False))"

lemma run_dag_final:
  assumes "run_dag e g tasks s = Inr (out, r)"
  shows "set (dnames (rn_records r)) = dag_ids tasks \<and> distinct (dnames (rn_records r)) \<and> (\<forall>t \<in> set tasks. final_ok (rn_records r) t)"
proof -
  obtain d r1 where d: "validate_dag tasks = Inr d"
    and ranks: "run_ranks e 0 (dr_ranks d) (dag_start e s g (concat (dr_ranks d))) = (Inr (), r1)"
    and fin: "(if rn_aborted r1 then cancel_rest e (rn_records r1) r1 else (Inr (), r1)) = (Inr (), r)"
    using assms by (rule run_dag_parts)
  note rt = ranks_are_tasks [OF d]
  obtain ps qs where c: "concat (dr_ranks d) = ps @ qs" "run_inv ps qs r1" "rn_aborted r1 \<or> qs = []"
    using run_inv_ranks [OF start_inv [OF rt(2)] ranks] rt(1) by auto
  have tasks: "set tasks = set ps \<union> set qs" using rt(3) c(1) by simp
  have names: "set (dnames (rn_records r1)) = dag_ids tasks" "distinct (dnames (rn_records r1))"
    using c(2) tasks by (auto simp: run_inv_def dag_ids_def)
  show ?thesis
  proof (cases "rn_aborted r1")
    case False
    then have "r = r1" "qs = []" using fin c(3) by simp_all
    have "final_ok (rn_records r) t" if "t \<in> set tasks" for t
    proof -
      have "record_ok (rn_records r1) False t" using c(2) that tasks \<open>qs = []\<close> False by (simp add: run_inv_def)
      then obtain k where "map_of (rn_records r) (dt_id t) = Some k"
        "tk_status k = TkSkipped \<and> (\<exists>d \<in> set (task_deps t). \<not> completed (rn_records r) d)
          \<or> settled (tk_status k) \<and> (tk_status k = TkCompleted \<longrightarrow> (\<forall>d \<in> set (task_deps t). completed (rn_records r) d))"
        unfolding record_ok_def \<open>r = r1\<close> by blast
      then show ?thesis unfolding final_ok_def settled_def
        by (intro exI [of _ k]) (auto split: task_state.split)
    qed
    with names \<open>r = r1\<close> show ?thesis by simp
  next
    case True
    have at: "\<forall>(i, k) \<in> set (rn_records r1). map_of (rn_records r1) i = Some k"
      using names(2) by (auto simp: dnames_def)
    from True fin have "cancel_rest e (rn_records r1) r1 = (Inr (), r)" by simp
    note eff = cancel_rest_effect [OF this _ at]
    have dn: "distinct (map fst (rn_records r1))" using names(2) by (simp add: dnames_def)
    have now: "if open_status (tk_status k) then \<exists>k'. map_of (rn_records r) i = Some k' \<and> tk_status k' = TkCancelled
          else map_of (rn_records r) i = Some k" if "map_of (rn_records r1) i = Some k" for i k
    proof -
      have "\<forall>(i, k) \<in> set (rn_records r1). if open_status (tk_status k)
          then \<exists>k'. map_of (rn_records r) i = Some k' \<and> tk_status k' = TkCancelled
          else map_of (rn_records r) i = Some k"
        using eff [OF dn] by (elim conjE)
      from bspec [OF this map_of_SomeD [OF that]] show ?thesis by (simp only: prod.case)
    qed
    have out: "\<forall>i. i \<notin> fst ` set (rn_records r1) \<longrightarrow> map_of (rn_records r) i = map_of (rn_records r1) i"
      using eff [OF dn] by (elim conjE)
    have none: "map_of (rn_records r) i = None" if "map_of (rn_records r1) i = None" for i
      using out that by (simp add: map_of_eq_None_iff)
    have comp: "completed (rn_records r) i = completed (rn_records r1) i" for i
      using now [of i] none [of i]
      by (cases "map_of (rn_records r1) i") (auto simp: completed_def open_status_def split: if_splits)
    have "final_ok (rn_records r) t" if "t \<in> set tasks" for t
    proof -
      have "record_ok (rn_records r1) True t \<or> (\<exists>k. map_of (rn_records r1) (dt_id t) = Some k \<and> tk_status k = TkPending)"
        using c(2) that tasks True by (auto simp: run_inv_def)
      then have "\<exists>k. map_of (rn_records r1) (dt_id t) = Some k \<and> (tk_status k = TkPending
          \<or> tk_status k = TkSkipped \<and> (\<exists>d \<in> set (task_deps t). \<not> completed (rn_records r1) d)
          \<or> settled (tk_status k) \<and> (tk_status k = TkCompleted \<longrightarrow> (\<forall>d \<in> set (task_deps t). completed (rn_records r1) d)))"
        unfolding record_ok_def by blast
      then obtain k where k: "map_of (rn_records r1) (dt_id t) = Some k"
        "tk_status k = TkPending \<or> tk_status k = TkSkipped \<and> (\<exists>d \<in> set (task_deps t). \<not> completed (rn_records r1) d)
          \<or> settled (tk_status k) \<and> (tk_status k = TkCompleted \<longrightarrow> (\<forall>d \<in> set (task_deps t). completed (rn_records r1) d))"
        by blast
      show ?thesis
      proof (cases "tk_status k = TkPending")
        case True
        with now [OF k(1)] show ?thesis by (auto simp: final_ok_def open_status_def)
      next
        case False
        with k(2) have "\<not> open_status (tk_status k)" by (auto simp: open_status_def settled_def)
        with now [OF k(1)] have "map_of (rn_records r) (dt_id t) = Some k" by simp
        with False k(2) show ?thesis unfolding final_ok_def settled_def comp
          by (intro exI [of _ k]) (auto split: task_state.split)
      qed
    qed
    moreover have "set (dnames (rn_records r)) = dag_ids tasks"
    proof -
      have "fst ` set (rn_records r1) \<union> set (dnames (rn_records r)) = dag_ids tasks"
        using eff [OF dn] names(1) by (simp add: dnames_def)
      moreover have "fst ` set (rn_records r1) \<subseteq> set (dnames (rn_records r))"
      proof (clarify)
        fix i k assume "(i, k) \<in> set (rn_records r1)"
        then have "map_of (rn_records r1) i = Some k" using at by auto
        from now [OF this] have "map_of (rn_records r) i \<noteq> None" by (auto split: if_splits)
        then show "fst (i, k) \<in> set (dnames (rn_records r))" by (simp add: set_dnames dget_def)
      qed
      ultimately show ?thesis by auto
    qed
    ultimately show ?thesis using eff [OF dn] names(2) by auto
  qed
qed

lemma all_completed:
  assumes "topo S ts" "\<forall>i \<in> S. completed records i"
    and "\<forall>t \<in> set ts. final_ok records t \<and> (\<forall>k. map_of records (dt_id t) = Some k \<longrightarrow> tk_status k \<in> {TkCompleted, TkSkipped})"
  shows "\<forall>t \<in> set ts. completed records (dt_id t)"
  using assms
proof (induction S ts rule: topo.induct)
  case (2 S t ts)
  have d: "\<forall>d \<in> set (task_deps t). completed records d" using "2.prems"(1,2) by auto
  obtain k where k: "map_of records (dt_id t) = Some k" "tk_status k \<noteq> TkSkipped"
    using "2.prems"(3) d by (fastforce simp: final_ok_def)
  then have "completed records (dt_id t)" using "2.prems"(3) by (auto simp: completed_def)
  then show ?case using "2.IH" "2.prems" by simp
qed simp

lemma run_dag_completed:
  assumes "run_dag e g tasks s = Inr (OCompleted, r)" "t \<in> set tasks"
  shows "completed (rn_records r) (dt_id t)"
proof -
  obtain d where d: "validate_dag tasks = Inr d" and o: "OCompleted = overall_status r"
    using assms(1) by (rule run_dag_parts)
  note fin = run_dag_final [OF assms(1)]
  have st: "list_all (\<lambda>x. x = TkCompleted \<or> x = TkSkipped) (map (\<lambda>(_, k). tk_status k) (rn_records r))"
    using o by (simp add: overall_status_def Let_def split: if_splits)
  have "\<forall>t \<in> set (concat (dr_ranks d)). completed (rn_records r) (dt_id t)"
  proof (rule all_completed [OF ranks_are_tasks(1) [OF d]])
    show "\<forall>t \<in> set (concat (dr_ranks d)). final_ok (rn_records r) t
        \<and> (\<forall>k. map_of (rn_records r) (dt_id t) = Some k \<longrightarrow> tk_status k \<in> {TkCompleted, TkSkipped})"
      using fin ranks_are_tasks(3) [OF d] st by (auto simp: list_all_iff dest!: map_of_SomeD)
  qed simp
  with assms(2) ranks_are_tasks(3) [OF d] show ?thesis by blast
qed

text \<open>C37: What a run of a task graph reports. When the runner returns, whatever the SDK did and wherever the
  signal was raised, it has exactly one record per task and no task is left pending or running; a
  completed task had all its dependencies completed, a skipped one had a dependency that did not
  complete, and the overall outcome is completed only if every task of the graph completed.\<close>

theorem dag_run_outcome:
  assumes "run_dag e g tasks s = Inr (out, r)"
  shows "set (dnames (rn_records r)) = dag_ids tasks \<and> distinct (dnames (rn_records r))
    \<and> (\<forall>t \<in> set tasks. final_ok (rn_records r) t \<and> (out = OCompleted \<longrightarrow> completed (rn_records r) (dt_id t)))"
  using run_dag_final [OF assms] run_dag_completed [of e g tasks s r] assms by blast

definition ex_env :: "(task_record \<Rightarrow> run_script) \<Rightarrow> dag_env" where
  "ex_env sdk = \<lparr>de_sdk = sdk, de_now = 7, de_before = (\<lambda>_. False), de_task = (\<lambda>_. False), de_after = (\<lambda>n. 1 < n)\<rparr>"

definition ex_empty :: task_store where
  "ex_empty = \<lparr>ts_root = ''/work'', ts_files = [], ts_artifacts = []\<rparr>"

definition ex_fail :: "task_record \<Rightarrow> run_script" where
  \<comment> \<open>task \<open>b\<close> fails to start\<close>
  "ex_fail k = (if tk_id k = ''b'' then ex_script\<lparr>sc_create := Some ''no agent''\<rparr> else ex_script)"

lemma ex_fail_run:
  "map_sum (\<lambda>_. ()) (\<lambda>(out, r). (out, map (\<lambda>(i, k). (i, tk_status k)) (rn_records r)))
     (run_dag ((ex_env ex_fail)\<lparr>de_after := \<lambda>_. False\<rparr>) ''g'' ex_dag ex_empty)
   = Inr (OFailed, [(''a'', TkCompleted), (''b'', TkFailed), (''c'', TkCompleted), (''d'', TkSkipped)])"
  by code_simp

theorem dag_run_outcome_witness:
  "\<exists>r. run_dag ((ex_env ex_fail)\<lparr>de_after := \<lambda>_. False\<rparr>) ''g'' ex_dag ex_empty = Inr (OFailed, r)
    \<and> set (dnames (rn_records r)) = dag_ids ex_dag \<and> (\<forall>t \<in> set ex_dag. final_ok (rn_records r) t)"
proof -
  obtain r where "run_dag ((ex_env ex_fail)\<lparr>de_after := \<lambda>_. False\<rparr>) ''g'' ex_dag ex_empty = Inr (OFailed, r)"
    using ex_fail_run by (cases "run_dag ((ex_env ex_fail)\<lparr>de_after := \<lambda>_. False\<rparr>) ''g'' ex_dag ex_empty") auto
  from this dag_run_outcome [OF this] show ?thesis by blast
qed



end
