(* ===== verification/Redaction.thy ===== *)
theory Redaction
  imports Json
begin

text \<open>
  Redaction of secrets and the quoting of logged command lines (\<^verbatim>\<open>src/runtime/redaction.ts\<close>).  The three
  global regular expressions are scanners: a matcher looks at the text from a position on, with the
  character before it, and answers with the length of its match and the replacement;
  \<open>replace_from\<close> is \<^verbatim>\<open>String.prototype.replace\<close> with the global flag.  The members of an object are
  visited in the order of the list.  SHA-256 is a parameter.
\<close>

section \<open>Scanners\<close>

type_synonym matcher = "char option \<Rightarrow> string \<Rightarrow> (nat \<times> string) option"

definition ci_prefix :: "string \<Rightarrow> string \<Rightarrow> bool" where
  "ci_prefix w s = starts_with w (to_lower s)"

definition is_word :: "char \<Rightarrow> bool" where
  \<comment> \<open>\<^verbatim>\<open>\w\<close>\<close>
  "is_word c = (is_alnum c \<or> c = CHR ''_'')"

definition boundary :: "char option \<Rightarrow> string \<Rightarrow> bool" where
  \<comment> \<open>\<^verbatim>\<open>\b\<close> between a character and the text after it\<close>
  "boundary prev s = ((case prev of None \<Rightarrow> False | Some c \<Rightarrow> is_word c) \<noteq> (case s of [] \<Rightarrow> False | c # _ \<Rightarrow> is_word c))"

fun replace_from :: "matcher \<Rightarrow> char option \<Rightarrow> nat \<Rightarrow> string \<Rightarrow> string" where
  "replace_from m prev skip [] = []"
| "replace_from m prev (Suc k) (c # s) = replace_from m (Some c) k s"
| "replace_from m prev 0 (c # s) = (case m prev (c # s) of
     None \<Rightarrow> c # replace_from m (Some c) 0 s
   | Some (n, by) \<Rightarrow> by @ replace_from m (Some c) (n - 1) s)"

definition replace_all :: "matcher \<Rightarrow> string \<Rightarrow> string" where
  "replace_all m s = replace_from m None 0 s"

definition value_length :: "string \<Rightarrow> nat" where
  \<comment> \<open>length of the longest prefix in \<^verbatim>\<open>[^\s,;]\<close>\<close>
  "value_length s = length (takeWhile (\<lambda>c. \<not> is_ws c \<and> c \<noteq> CHR '','' \<and> c \<noteq> CHR '';'') s)"

definition ws_length :: "string \<Rightarrow> nat" where
  "ws_length s = length (takeWhile is_ws s)"

definition bearer_length :: "string \<Rightarrow> nat option" where
  \<comment> \<open>\<^verbatim>\<open>bearer\s+[^\s,;]+\<close>\<close>
  "bearer_length s = (if \<not> ci_prefix ''bearer'' s then None else
     let w = ws_length (drop 6 s); v = value_length (drop (6 + w) s)
     in if w = 0 \<or> v = 0 then None else Some (6 + w + v))"

definition BEARER :: matcher where
  "BEARER prev s = (if boundary prev s then map_option (\<lambda>n. (n, ''Bearer <redacted>'')) (bearer_length s) else None)"

definition secret_names :: "string list" where
  "secret_names = [''authorization'', ''cookie'', ''token'', ''secret'', ''password'', ''passwd'', ''api_key'', ''api-key'', ''apikey'']"

definition assignment_at :: "string \<Rightarrow> string \<Rightarrow> (nat \<times> string) option" where
  \<comment> \<open>the match for one name: \<^verbatim>\<open>\s*([=:])\s*(?:bearer\s+)?[^\s,;]+\<close> after it\<close>
  "assignment_at s w = (if \<not> ci_prefix w s then None else
     let n = length w; a = ws_length (drop n s) in
     (case drop (n + a) s of
        [] \<Rightarrow> None
      | sep # r \<Rightarrow> if sep \<noteq> CHR ''='' \<and> sep \<noteq> CHR '':'' then None else
          let b = ws_length r;
              v = (case bearer_length (drop b r) of Some k \<Rightarrow> k | None \<Rightarrow> value_length (drop b r))
          in if v = 0 then None else Some (n + a + 1 + b + v, take n s @ [sep] @ ''<redacted>'')))"

definition ASSIGNMENT :: matcher where
  "ASSIGNMENT prev s = (if \<not> boundary prev s then None else
     case List.map_filter (assignment_at s) secret_names of [] \<Rightarrow> None | x # _ \<Rightarrow> Some x)"

definition token_prefixes :: "string list" where
  "token_prefixes = [''github_pat_'', ''ghp_'', ''gho_'', ''ghu_'', ''ghs_'', ''ghr_'', ''sk-'']"

definition token_at :: "string \<Rightarrow> string \<Rightarrow> nat option" where
  \<comment> \<open>\<^verbatim>\<open>[A-Za-z0-9_-]{8,}\b\<close> after the prefix: the longest run that ends at a boundary\<close>
  "token_at s p = (if \<not> ci_prefix p s then None else
     let r = drop (length p) s; run = length (takeWhile (\<lambda>c. is_word c \<or> c = CHR ''-'') r)
     in map_option (\<lambda>n. length p + n)
       (find (\<lambda>n. boundary (Some (r ! (n - 1))) (drop n r)) (rev [8 ..< Suc run])))"

definition TOKEN_PREFIX :: matcher where
  "TOKEN_PREFIX prev s = (if \<not> boundary prev s then None else
     case List.map_filter (token_at s) token_prefixes of [] \<Rightarrow> None | n # _ \<Rightarrow> Some (n, ''<redacted>''))"

section \<open>redact\<close>

definition REDACTED :: string where "REDACTED = ''<redacted>''"

definition SENSITIVE_KEY :: "string \<Rightarrow> bool" where
  "SENSITIVE_KEY k = list_ex (\<lambda>w. str_includes w (to_lower k))
     (secret_names @ [''prompt'', ''command'', ''argv'', ''stdin'', ''body''])"

record redaction_limits =
  rl_depth :: nat
  rl_entries :: nat
  rl_string :: nat

definition default_limits :: redaction_limits where
  "default_limits = \<lparr>rl_depth = 6, rl_entries = 100, rl_string = 2048\<rparr>"

definition redact_string :: "nat \<Rightarrow> string \<Rightarrow> string" where
  "redact_string n s = replace_all TOKEN_PREFIX (replace_all ASSIGNMENT (replace_all BEARER
     (if n < length s then take n s @ ''<truncated>'' else s)))"

definition sensitive :: "string option \<Rightarrow> bool" where
  "sensitive k = (case k of None \<Rightarrow> False | Some k \<Rightarrow> SENSITIVE_KEY k)"

fun visit :: "redaction_limits \<Rightarrow> nat \<Rightarrow> string option \<Rightarrow> json \<Rightarrow> nat \<Rightarrow> json \<times> nat"
and visit_items :: "redaction_limits \<Rightarrow> nat \<Rightarrow> nat \<Rightarrow> json list \<Rightarrow> nat \<Rightarrow> json list \<times> nat"
and visit_members :: "redaction_limits \<Rightarrow> nat \<Rightarrow> (string \<times> json) list \<Rightarrow> (string \<times> json) list \<Rightarrow> nat \<Rightarrow> (string \<times> json) list \<times> nat" where
  \<comment> \<open>the last argument and result is the count of members seen; \<open>visit_items\<close> counts the items left\<close>
  "visit l d k v n = (if sensitive k then (JStr REDACTED, n)
     else if rl_depth l < d then (JStr ''<truncated:depth>'', n)
     else (case v of
       JStr s \<Rightarrow> (JStr (redact_string (rl_string l) s), n)
     | JArr xs \<Rightarrow> (let (ys, n') = visit_items l (Suc d) (rl_entries l) xs n in (JArr ys, n'))
     | JObj fs \<Rightarrow> (let (gs, n') = visit_members l (Suc d) fs [] n in (JObj gs, n'))
     | _ \<Rightarrow> (v, n)))"
| "visit_items l d m [] n = ([], n)"
| "visit_items l d m (x # xs) n = (if m = 0 then ([], n) else
     let (y, n') = visit l d None x n; (ys, n'') = visit_items l d (m - 1) xs n' in (y # ys, n''))"
| "visit_members l d [] out n = (out, n)"
| "visit_members l d ((k, x) # fs) out n = (if rl_entries l < Suc n
     then (dput ''__truncated__'' (JStr ''<truncated:entries>'') out, Suc n)
     else let (y, n') = visit l d (Some k) x (Suc n) in visit_members l d fs (dput k y out) n')"

declare visit.simps [simp del]

definition redact :: "redaction_limits \<Rightarrow> json \<Rightarrow> json" where
  "redact l v = fst (visit l 0 None v 0)"

definition redactText :: "nat \<Rightarrow> string \<Rightarrow> string" where
  \<comment> \<open>\<^verbatim>\<open>String(redact(value, ...))\<close> of a string\<close>
  "redactText n s = (case redact (default_limits\<lparr>rl_string := n\<rparr>) (JStr s) of JStr t \<Rightarrow> t | _ \<Rightarrow> [])"

section \<open>Command lines\<close>

definition control_char :: "char \<Rightarrow> bool" where
  "control_char c = (let n = (of_char c :: nat) in n < 32 \<or> (127 \<le> n \<and> n < 160))"

definition escape_control :: "char \<Rightarrow> string" where
  "escape_control c = (if \<not> control_char c then [c] else
     if c = CHR 0x09 then [CHR 0x5C, CHR ''t''] else if c = CHR 0x0D then [CHR 0x5C, CHR ''r'']
     else if c = CHR 0x0A then [CHR 0x5C, CHR ''n'']
     else [CHR 0x5C, CHR ''x'', hex_digit (of_char c div 16), hex_digit (of_char c mod 16)])"

definition escapeControlCharacters :: "string \<Rightarrow> string" where
  "escapeControlCharacters s = concat (map escape_control s)"

definition option_names :: "string list" where
  "option_names = [''token'', ''api_key'', ''api-key'', ''apikey'', ''secret'', ''password'', ''passwd'', ''auth'']"

definition SENSITIVE_OPTION :: "string \<Rightarrow> bool" where
  "SENSITIVE_OPTION s = list_ex (\<lambda>w. to_lower s = ''--'' @ w) option_names"

definition line_terminator :: "char \<Rightarrow> bool" where
  \<comment> \<open>what \<^verbatim>\<open>.\<close> does not match, below 256\<close>
  "line_terminator c = (c = CHR 0x0A \<or> c = CHR 0x0D)"

definition key_value_length :: "string \<Rightarrow> nat option" where
  \<comment> \<open>length of the first group of \<^verbatim>\<open>SENSITIVE_KEY_VALUE\<close>, when it matches\<close>
  "key_value_length s = (case List.map_filter (\<lambda>w. let p = ''--'' @ w @ ''='' in
       if ci_prefix p s \<and> drop (length p) s \<noteq> [] \<and> \<not> list_ex line_terminator (drop (length p) s)
       then Some (length p) else None) option_names of
     [] \<Rightarrow> None | n # _ \<Rightarrow> Some n)"

fun squeeze_breaks :: "string \<Rightarrow> string" where
  \<comment> \<open>\<^verbatim>\<open>replace(/[\r\n\t]+/g, ' ')\<close>\<close>
  "squeeze_breaks [] = []"
| "squeeze_breaks (c # s) = (if c = CHR 0x0A \<or> c = CHR 0x0D \<or> c = CHR 0x09
     then (case s of [] \<Rightarrow> '' '' | d # _ \<Rightarrow> if d = CHR 0x0A \<or> d = CHR 0x0D \<or> d = CHR 0x09 then squeeze_breaks s
       else CHR '' '' # squeeze_breaks s)
     else c # squeeze_breaks s)"

definition prompt_digest :: "(string \<Rightarrow> string) \<Rightarrow> string \<Rightarrow> string" where
  "prompt_digest sha arg = ''<prompt: '' @ dec_nat (utf8_bytes arg) @ ''B sha256:'' @ take 16 (sha arg) @ '' '' @ [CHR 0x22]
     @ escapeControlCharacters (squeeze_breaks (redactText 4096 (take 32 arg))) @ ''...'' @ [CHR 0x22] @ ''>''"

definition redact_arg :: "(string \<Rightarrow> string) \<Rightarrow> string option \<Rightarrow> bool \<Rightarrow> string \<Rightarrow> string" where
  \<comment> \<open>one argument, with the one before it and whether it is the last\<close>
  "redact_arg sha before final arg =
     (if (case before of None \<Rightarrow> False | Some b \<Rightarrow> SENSITIVE_OPTION b) then ''<redacted>''
      else (case key_value_length arg of
        Some n \<Rightarrow> take n arg @ ''<redacted>''
      | None \<Rightarrow> if 80 < length arg \<or> final \<and> \<not> starts_with ''-'' arg \<and> 30 < length arg
          then prompt_digest sha arg else escapeControlCharacters (redactText 4096 arg)))"

fun redact_args :: "(string \<Rightarrow> string) \<Rightarrow> string option \<Rightarrow> string list \<Rightarrow> string list" where
  "redact_args sha before [] = []"
| "redact_args sha before (a # as) = redact_arg sha before (as = []) a # redact_args sha (Some a) as"

definition redactArgv :: "(string \<Rightarrow> string) \<Rightarrow> string list \<Rightarrow> string list" where
  "redactArgv sha argv = redact_args sha None argv"

definition shell_plain :: "char \<Rightarrow> bool" where
  "shell_plain c = (is_alnum c \<or> c \<in> set ''_./:@%+=,-'')"

definition shell_escape :: "char \<Rightarrow> string" where
  "shell_escape c = (if c = CHR 0x27 then [CHR 0x27, CHR 0x5C, CHR 0x27, CHR 0x27] else [c])"

definition shellQuote :: "string \<Rightarrow> string" where
  "shellQuote s = (if s \<noteq> [] \<and> list_all shell_plain s then s
     else CHR 0x27 # concat (map shell_escape s) @ [CHR 0x27])"

definition formatRedactedCommandLine :: "(string \<Rightarrow> string) \<Rightarrow> string \<Rightarrow> string list \<Rightarrow> string" where
  "formatRedactedCommandLine sha exe argv =
     shellQuote (escapeControlCharacters exe) @ '' '' @ join '' '' (map shellQuote (redactArgv sha argv))"

section \<open>Examples\<close>

lemma redaction_examples:
  "replace_all BEARER ''s bearer t0k;'' = ''s Bearer <redacted>;''"
  "replace_all ASSIGNMENT ''a token=1'' = ''a token=<redacted>''"
  by code_simp+

section \<open>Structure of redacted values\<close>

fun hidden :: "json \<Rightarrow> bool"
and hidden_items :: "json list \<Rightarrow> bool"
and hidden_members :: "(string \<times> json) list \<Rightarrow> bool" where
  \<comment> \<open>every member with a sensitive name holds the redaction mark\<close>
  "hidden (JArr xs) = hidden_items xs"
| "hidden (JObj fs) = hidden_members fs"
| "hidden v = True"
| "hidden_items [] = True"
| "hidden_items (x # xs) = (hidden x \<and> hidden_items xs)"
| "hidden_members [] = True"
| "hidden_members ((k, x) # fs) = ((SENSITIVE_KEY k \<longrightarrow> x = JStr REDACTED) \<and> hidden x \<and> hidden_members fs)"

fun nesting :: "json \<Rightarrow> nat"
and nesting_items :: "json list \<Rightarrow> nat"
and nesting_members :: "(string \<times> json) list \<Rightarrow> nat" where
  "nesting (JArr xs) = Suc (nesting_items xs)"
| "nesting (JObj fs) = Suc (nesting_members fs)"
| "nesting v = 0"
| "nesting_items [] = 0"
| "nesting_items (x # xs) = max (nesting x) (nesting_items xs)"
| "nesting_members [] = 0"
| "nesting_members ((k, x) # fs) = max (nesting x) (nesting_members fs)"

lemma hidden_members_dput:
  "hidden_members fs \<Longrightarrow> (SENSITIVE_KEY k \<longrightarrow> x = JStr REDACTED) \<Longrightarrow> hidden x \<Longrightarrow> hidden_members (dput k x fs)"
  by (induction k x fs rule: dput.induct) auto

lemma nesting_members_dput: "nesting_members (dput k x fs) \<le> max (nesting x) (nesting_members fs)"
  by (induction k x fs rule: dput.induct) auto

lemma truncated_not_sensitive: "\<not> SENSITIVE_KEY ''__truncated__''"
  by code_simp

lemma visit_hidden:
  "hidden (fst (visit l d k v n)) \<and> nesting (fst (visit l d k v n)) \<le> Suc (rl_depth l) - d
     \<and> (sensitive k \<longrightarrow> fst (visit l d k v n) = JStr REDACTED)"
  "hidden_items (fst (visit_items l d m xs n)) \<and> nesting_items (fst (visit_items l d m xs n)) \<le> Suc (rl_depth l) - d"
  "hidden_members out \<Longrightarrow> nesting_members out \<le> Suc (rl_depth l) - d \<Longrightarrow>
     hidden_members (fst (visit_members l d fs out n)) \<and> nesting_members (fst (visit_members l d fs out n)) \<le> Suc (rl_depth l) - d"
proof (induction l d k v n and l d m xs n and l d fs out n rule: visit_visit_items_visit_members.induct)
  case (1 l d k v n)
  show ?case
  proof (cases v)
    case (JArr xs)
    with 1 show ?thesis by (simp add: visit.simps [of l d k] Let_def split: prod.splits) fastforce
  next
    case (JObj fs)
    with 1 show ?thesis by (simp add: visit.simps [of l d k] Let_def split: prod.splits) fastforce
  qed (simp_all add: visit.simps)
next
  case (3 l d m x xs n)
  then show ?case by (simp add: Let_def split: prod.splits) fastforce
next
  case (5 l d k x fs out n)
  show ?case
  proof (cases "rl_entries l < Suc n")
    case True
    then show ?thesis using 5(3,4) truncated_not_sensitive nesting_members_dput [of "''__truncated__''" "JStr ''<truncated:entries>''" out]
      by (simp add: hidden_members_dput)
  next
    case False
    obtain y n' where y: "visit l d (Some k) x (Suc n) = (y, n')" by fastforce
    note a = 5(1) [OF False, unfolded y]
    have "hidden_members (dput k y out)" using a 5(3) by (simp add: hidden_members_dput sensitive_def)
    moreover have "nesting_members (dput k y out) \<le> Suc (rl_depth l) - d"
      by (rule order_trans [OF nesting_members_dput]) (use a 5(4) in simp)
    ultimately show ?thesis using 5(2) [OF False y [symmetric]] False y by simp
  qed
qed simp_all

text \<open>C26: Redaction hides sensitive members. In a redacted value, at every depth, a member whose name mentions a
  secret, a prompt, a command, arguments, input or a body holds only the redaction mark, and the
  value is nested at most one level deeper than the depth limit.\<close>

theorem redact_hides: "hidden (redact l v) \<and> nesting (redact l v) \<le> Suc (rl_depth l)"
  using visit_hidden(1) [of l 0 None v 0] by (simp add: redact_def)

section \<open>Quoted command lines\<close>

fun sh_words :: "bool \<Rightarrow> bool \<Rightarrow> string \<Rightarrow> string \<Rightarrow> string list option" where
  \<comment> \<open>how a POSIX shell reads words: inside quotes or not, whether a word has begun, the word so far;
    unquoted characters that may mean something to the shell are refused\<close>
  "sh_words q begun w [] = (if q then None else Some (if begun then [w] else []))"
| "sh_words True begun w (c # s) = (if c = CHR 0x27 then sh_words False True w s else sh_words True True (w @ [c]) s)"
| "sh_words False begun w (c # s) =
     (if c = CHR '' '' then (if begun then map_option (\<lambda>ws. w # ws) (sh_words False False [] s) else sh_words False False [] s)
      else if c = CHR 0x27 then sh_words True True w s
      else if c = CHR 0x5C then (case s of [] \<Rightarrow> None | d # s' \<Rightarrow> sh_words False True (w @ [d]) s')
      else if shell_plain c then sh_words False True (w @ [c]) s else None)"

lemma sh_words_quoted:
  "sh_words True begun w (concat (map shell_escape x) @ CHR 0x27 # s) = sh_words False True (w @ x) s"
  by (induction x arbitrary: begun w) (auto simp: shell_escape_def)

lemma sh_words_plain:
  "list_all shell_plain x \<Longrightarrow> x \<noteq> [] \<Longrightarrow> sh_words False begun w (x @ s) = sh_words False True (w @ x) s"
proof (induction x arbitrary: begun w)
  case (Cons c x)
  have "c \<noteq> CHR '' ''" "c \<noteq> CHR 0x27" "c \<noteq> CHR 0x5C" using Cons.prems(1) by (auto simp: shell_plain_def is_alnum_def)
  with Cons show ?case by (cases "x = []") simp_all
qed simp

lemma sh_words_shellQuote: "sh_words False begun w (shellQuote x @ s) = sh_words False True (w @ x) s"
  by (cases "x \<noteq> [] \<and> list_all shell_plain x") (auto simp: shellQuote_def sh_words_plain sh_words_quoted)

lemma sh_words_join: "ws \<noteq> [] \<Longrightarrow> sh_words False False [] (join '' '' (map shellQuote ws)) = Some ws"
proof (induction ws)
  case (Cons x ws)
  show ?case
  proof (cases ws)
    case Nil
    then show ?thesis using sh_words_shellQuote [of False "[]" x "[]"] by simp
  next
    case (Cons y ys)
    then show ?thesis using Cons.IH sh_words_shellQuote [of False "[]" x] by simp
  qed
qed simp


end
