(* ===== verification/Persist.thy ===== *)
theory Persist
  imports Redaction
begin

text \<open>
  Persistent execution (\<^verbatim>\<open>src/persist/state.ts\<close>, \<^verbatim>\<open>src/persist/decision.ts\<close>): the state file with its reader,
  the operator's start, stop and done, and the decision whether a stopped turn continues.  The
  directory lock makes each operation one step on the file.  SHA-256, the clock and the outcome of
  the write are parameters.
\<close>

section \<open>State\<close>

record persist_state =
  ps_active :: bool
  ps_goal :: string
  ps_max :: int
  ps_consumed :: int
  ps_loop :: "int option"   \<comment> \<open>\<^verbatim>\<open>last_host_loop_count\<close>\<close>
  ps_revision :: int
  ps_deadline :: ms
  ps_created :: ms
  ps_done :: bool
  ps_event :: "string option"
  ps_at :: "ms option"      \<comment> \<open>\<^verbatim>\<open>last_decision_at_ms\<close>\<close>
  ps_reason :: "string option"
  ps_legacy :: bool         \<comment> \<open>\<^verbatim>\<open>legacy_v1\<close>, only in memory\<close>

definition MAX_PERSIST_LOOPS :: int where "MAX_PERSIST_LOOPS = 500"
definition DEFAULT_PERSIST_LOOPS :: int where "DEFAULT_PERSIST_LOOPS = 25"
definition DEFAULT_PERSIST_DEADLINE_MINUTES :: int where "DEFAULT_PERSIST_DEADLINE_MINUTES = 120"
definition MAX_PERSIST_DEADLINE_MINUTES :: int where "MAX_PERSIST_DEADLINE_MINUTES = 1440"
definition MAX_PERSIST_STATE_BYTES :: nat where "MAX_PERSIST_STATE_BYTES = 65536"

definition jnullable :: "('a \<Rightarrow> json) \<Rightarrow> 'a option \<Rightarrow> json" where
  "jnullable f v = (case v of None \<Rightarrow> JNull | Some x \<Rightarrow> f x)"

definition persist_json :: "persist_state \<Rightarrow> json" where
  \<comment> \<open>the object in memory, and what is written of it\<close>
  "persist_json s = JObj ([(''schema_version'', JNum 2), (''active'', JBool (ps_active s)), (''goal'', JStr (ps_goal s)),
     (''max_loops'', JNum (ps_max s)), (''consumed_loops'', JNum (ps_consumed s)),
     (''last_host_loop_count'', jnullable JNum (ps_loop s)), (''revision'', JNum (ps_revision s)),
     (''deadline_ms'', JNum (ps_deadline s)), (''created_at_ms'', JNum (ps_created s)), (''done'', JBool (ps_done s)),
     (''last_event_id'', jnullable JStr (ps_event s)), (''last_decision_at_ms'', jnullable JNum (ps_at s)),
     (''last_decision_reason'', jnullable JStr (ps_reason s))]
     @ (if ps_legacy s then [(''legacy_v1'', JBool True)] else []))"

section \<open>normalizePersistState\<close>

definition int_from :: "int \<Rightarrow> json option \<Rightarrow> int option" where
  \<comment> \<open>a safe integer that is at least \<open>lo\<close>\<close>
  "int_from lo v = (case jsafe_int v of Some n \<Rightarrow> if lo \<le> n then Some n else None | None \<Rightarrow> None)"

definition int_between :: "int \<Rightarrow> int \<Rightarrow> json option \<Rightarrow> int option" where
  "int_between lo hi v = (case int_from lo v of Some n \<Rightarrow> if n \<le> hi then Some n else None | None \<Rightarrow> None)"

definition nullable :: "(json option \<Rightarrow> 'a option) \<Rightarrow> json option \<Rightarrow> 'a option option" where
  \<comment> \<open>\<^verbatim>\<open>null\<close> or a value the reader accepts; absence is rejected\<close>
  "nullable f v = (if v = Some JNull then Some None else map_option Some (f v))"

definition short_string :: "nat \<Rightarrow> json option \<Rightarrow> string option" where
  "short_string n v = (case jstr v of Some s \<Rightarrow> if length s \<le> n then Some s else None | None \<Rightarrow> None)"

definition optional_reason :: "json option \<Rightarrow> string option option" where
  \<comment> \<open>\<^verbatim>\<open>null\<close> and absence are no reason\<close>
  "optional_reason v = (if v = None \<or> v = Some JNull then Some None else map_option Some (jstr v))"

definition normalize_v1 :: "json \<Rightarrow> bool \<Rightarrow> string \<Rightarrow> int \<Rightarrow> ms \<Rightarrow> ms \<Rightarrow> bool \<Rightarrow> persist_state" where
  "normalize_v1 v active goal max_loops deadline created completed = \<lparr>ps_active = active, ps_goal = goal, ps_max = max_loops,
     ps_consumed = opt_default 0 (int_from 0 (jget v ''consumed_loops'')),
     ps_loop = int_from 0 (jget v ''last_host_loop_count''),
     ps_revision = opt_default 0 (int_from 0 (jget v ''revision'')),
     ps_deadline = deadline, ps_created = created, ps_done = completed,
     ps_event = map_option (take 256) (jstr (jget v ''last_event_id'')),
     ps_at = int_from 0 (jget v ''last_decision_at_ms''),
     ps_reason = jstr (jget v ''last_decision_reason''), ps_legacy = True\<rparr>"

definition normalize_v2 :: "json \<Rightarrow> bool \<Rightarrow> string \<Rightarrow> int \<Rightarrow> ms \<Rightarrow> ms \<Rightarrow> bool \<Rightarrow> persist_state option" where
  "normalize_v2 v active goal max_loops deadline created completed =
     (case (int_between 0 MAX_PERSIST_LOOPS (jget v ''consumed_loops''),
            nullable (int_between 0 MAX_PERSIST_LOOPS) (jget v ''last_host_loop_count''),
            int_from 0 (jget v ''revision''), nullable (short_string 256) (jget v ''last_event_id''),
            nullable (int_from 0) (jget v ''last_decision_at_ms''), optional_reason (jget v ''last_decision_reason'')) of
        (Some consumed, Some loops, Some rn, Some event, Some at, Some reason) \<Rightarrow>
          Some \<lparr>ps_active = active, ps_goal = goal, ps_max = max_loops, ps_consumed = consumed, ps_loop = loops,
            ps_revision = rn, ps_deadline = deadline, ps_created = created, ps_done = completed, ps_event = event,
            ps_at = at, ps_reason = reason, ps_legacy = False\<rparr>
      | _ \<Rightarrow> None)"

definition goal_text :: "json option \<Rightarrow> string option" where
  "goal_text v = (case short_string 8192 v of Some g \<Rightarrow> if blank g then None else Some g | None \<Rightarrow> None)"

definition normalize_persist :: "json \<Rightarrow> persist_state option" where
  "normalize_persist v =
     (if jget v ''schema_version'' \<noteq> Some (JNum 1) \<and> jget v ''schema_version'' \<noteq> Some (JNum 2) then None else
      case (jbool (jget v ''active''), goal_text (jget v ''goal''), int_between 1 MAX_PERSIST_LOOPS (jget v ''max_loops''),
            int_from 1 (jget v ''deadline_ms''), int_from 1 (jget v ''created_at_ms''), jbool (jget v ''done'')) of
        (Some active, Some goal, Some max_loops, Some deadline, Some created, Some completed) \<Rightarrow>
          if jget v ''schema_version'' = Some (JNum 1)
          then Some (normalize_v1 v active goal max_loops deadline created completed)
          else normalize_v2 v active goal max_loops deadline created completed
      | _ \<Rightarrow> None)"

section \<open>decidePersist\<close>

definition bound_id :: "(string \<Rightarrow> string) \<Rightarrow> string \<Rightarrow> nat \<Rightarrow> string" where
  "bound_id sha value n = (let t = trim value in
     if length t \<le> n then t else take (n - 17) t @ ''_'' @ take 16 (sha t))"

definition nonblank_str :: "json option \<Rightarrow> string option" where
  "nonblank_str v = (case jstr v of Some s \<Rightarrow> if blank s then None else Some s | None \<Rightarrow> None)"

definition first_str :: "json \<Rightarrow> string list \<Rightarrow> string option" where
  \<comment> \<open>the first of the members that is a non-blank string\<close>
  "first_str input ks = (case List.map_filter (\<lambda>k. nonblank_str (jget input k)) ks of [] \<Rightarrow> None | s # _ \<Rightarrow> Some s)"

definition derive_event_id :: "(string \<Rightarrow> string) \<Rightarrow> json \<Rightarrow> int \<Rightarrow> string" where
  \<comment> \<open>called with a \<^verbatim>\<open>loop_count\<close> that is an integer\<close>
  "derive_event_id sha input n = (case first_str input [''event_id'', ''eventId''] of
     Some e \<Rightarrow> bound_id sha e 128
   | None \<Rightarrow> bound_id sha (join '':''
       ((case first_str input [''session_id'', ''sessionId''] of None \<Rightarrow> [] | Some s \<Rightarrow> [''session:'' @ bound_id sha s 64])
        @ (case first_str input [''turn_id'', ''turnId''] of None \<Rightarrow> [] | Some s \<Rightarrow> [''turn:'' @ bound_id sha s 64])
        @ [''loop:'' @ dec_int n])) 128)"

definition LF :: string where "LF = [CHR 0x0A]"

definition build_followup :: "persist_state \<Rightarrow> int \<Rightarrow> string" where
  \<comment> \<open>the dash of the first line is given by its UTF-8 code units\<close>
  "build_followup s observed = (let remaining = max 0 (min MAX_PERSIST_LOOPS (ps_max s) - (observed + 1)) in join LF
     [''OMCU persistent execution is active '' @ [CHR 0xE2, CHR 0x80, CHR 0x94] @ '' the boulder never stops.'',
      ''Goal: '' @ ps_goal s,
      ''Continuation '' @ dec_int (observed + 1) @ '' (about '' @ dec_int remaining @ '' left before the hard cap).'',
      ''Do NOT idle-stop or ask for confirmation on obvious next steps. Re-read the current repository truth and .omcu run state, then take the smallest reversible next step toward the goal and run targeted verification.'',
      ''Never fabricate completion: do not claim passes/verified/done. Verification requires fresh evidence and the omcu CLI verification transition.'',
      ''When the goal is genuinely met with evidence, run `omcu persist done` and then stop. To abort this loop entirely, run `omcu persist stop`.'',
      ''If you are truly blocked on something only the user can decide, state the blocker plainly and stop.''])"

datatype decision =
    Halt string  \<comment> \<open>the reason\<close>
  | Continue int persist_state string  \<comment> \<open>\<^verbatim>\<open>loop_count\<close>, \<^verbatim>\<open>next_state\<close> and the message\<close>

definition status_label :: "json \<Rightarrow> string" where
  "status_label input = (case nonblank_str (jget input ''status'') of Some s \<Rightarrow> trim s | None \<Rightarrow> ''missing'')"

definition next_persist :: "persist_state \<Rightarrow> int \<Rightarrow> int \<Rightarrow> string \<Rightarrow> ms \<Rightarrow> persist_state" where
  "next_persist s baseline n event now = \<lparr>ps_active = True, ps_goal = ps_goal s, ps_max = ps_max s, ps_consumed = baseline + 1,
     ps_loop = Some n, ps_revision = ps_revision s + 1, ps_deadline = ps_deadline s, ps_created = ps_created s, ps_done = False,
     ps_event = Some event, ps_at = Some (max now (opt_default (ps_created s) (ps_at s))),
     ps_reason = Some ''persist_active'', ps_legacy = False\<rparr>"

definition decide_persist :: "(string \<Rightarrow> string) \<Rightarrow> json \<Rightarrow> json \<Rightarrow> ms \<Rightarrow> decision" where
  "decide_persist sha raw input now = (case normalize_persist raw of
     None \<Rightarrow> Halt ''no_active_persist_state''
   | Some s \<Rightarrow>
     if \<not> ps_active s \<and> \<not> ps_done s then Halt ''no_active_persist_state''
     else if jget input ''status'' \<noteq> Some (JStr ''completed'') then Halt (''status_'' @ status_label input)
     else if ps_done s then Halt ''goal_marked_done''
     else if \<not> ps_active s then Halt ''no_active_persist_state''
     else if \<not> safe_integer now \<or> now \<le> 0 \<or> ps_deadline s \<le> now then Halt ''deadline_reached''
     else (case int_between 0 MAX_PERSIST_LOOPS (jget input ''loop_count'') of
       None \<Rightarrow> Halt ''loop_count_invalid''
     | Some n \<Rightarrow>
       if (case ps_loop s of Some k \<Rightarrow> n < k | None \<Rightarrow> False) then Halt ''loop_count_decreased''
       else let baseline = (if ps_legacy s then max (ps_consumed s) n else ps_consumed s) in
       if ps_max s \<le> baseline \<or> ps_max s \<le> n then Halt ''loop_budget_exhausted''
       else let event = derive_event_id sha input n in
       if ps_event s = Some event then Halt ''duplicate_event''
       else if ps_loop s = Some n then Halt ''duplicate_event''
       else Continue n (next_persist s baseline n event now) (build_followup s baseline)))"

section \<open>The state file\<close>

datatype persist_file =
    PAbsent
  | PUnsafe  \<comment> \<open>not a regular private file of the user of at most 64 KiB, or changed while opened\<close>
  | PText "json option"  \<comment> \<open>its value, \<open>None\<close> when it does not parse\<close>

datatype persist_error =
    E_PERSIST_STATE_CORRUPT | E_PERSIST_GOAL_INVALID | E_PERSIST_MAX_LOOPS_INVALID | E_PERSIST_DEADLINE_INVALID
  | E_PERSIST_CLOCK_INVALID | E_PERSIST_WRITE

definition read_persist :: "persist_file \<Rightarrow> persist_error + persist_state option" where
  "read_persist f = (case f of
     PAbsent \<Rightarrow> Inr None
   | PText (Some v) \<Rightarrow> (case normalize_persist v of Some s \<Rightarrow> Inr (Some s) | None \<Rightarrow> Inl E_PERSIST_STATE_CORRUPT)
   | _ \<Rightarrow> Inl E_PERSIST_STATE_CORRUPT)"

definition persist_file_of :: "persist_state \<Rightarrow> persist_file" where
  "persist_file_of s = (if MAX_PERSIST_STATE_BYTES < file_bytes (persist_json s) then PUnsafe else PText (Some (persist_json s)))"

definition write_persist :: "write_result \<Rightarrow> persist_state \<Rightarrow> (persist_file, persist_error, unit) act" where
  \<comment> \<open>\<^verbatim>\<open>atomicWriteJson\<close>: the old file or the new one, and an error in both unsuccessful cases\<close>
  "write_persist w s f = (case w of
     WriteOk \<Rightarrow> (Inr (), persist_file_of s)
   | WriteFailed \<Rightarrow> (Inl E_PERSIST_WRITE, f)
   | WriteUnknown \<Rightarrow> (Inl E_PERSIST_WRITE, persist_file_of s))"

definition read_file :: "(persist_file, persist_error, persist_state option) act" where
  "read_file f = (read_persist f, f)"

definition start_persist :: "write_result \<Rightarrow> string \<Rightarrow> int option \<Rightarrow> int option \<Rightarrow> ms \<Rightarrow> (persist_file, persist_error, persist_state) act" where
  "start_persist w goal0 loops minutes now = (let
     goal = trim goal0;
     max_loops = opt_default DEFAULT_PERSIST_LOOPS loops;
     deadline = opt_default DEFAULT_PERSIST_DEADLINE_MINUTES minutes
   in andthen (ensure (goal \<noteq> [] \<and> length goal \<le> 8192) E_PERSIST_GOAL_INVALID) (\<lambda>_.
      andthen (ensure (safe_integer max_loops \<and> 1 \<le> max_loops \<and> max_loops \<le> MAX_PERSIST_LOOPS) E_PERSIST_MAX_LOOPS_INVALID) (\<lambda>_.
      andthen (ensure (safe_integer deadline \<and> 1 \<le> deadline \<and> deadline \<le> MAX_PERSIST_DEADLINE_MINUTES) E_PERSIST_DEADLINE_INVALID) (\<lambda>_.
      andthen (ensure (safe_integer now \<and> 0 < now) E_PERSIST_CLOCK_INVALID) (\<lambda>_.
      andthen read_file (\<lambda>current. (let
          s = \<lparr>ps_active = True, ps_goal = redactText 8192 goal, ps_max = max_loops, ps_consumed = 0, ps_loop = None,
            ps_revision = (case current of None \<Rightarrow> 0 | Some c \<Rightarrow> ps_revision c) + 1, ps_deadline = now + deadline * 60000,
            ps_created = now, ps_done = False, ps_event = None, ps_at = None, ps_reason = None, ps_legacy = False\<rparr>
        in andthen (write_persist w s) (\<lambda>_. ret s))))))))"

definition change_persist :: "write_result \<Rightarrow> (persist_state \<Rightarrow> persist_state) \<Rightarrow> (persist_file, persist_error, persist_state option) act" where
  \<comment> \<open>the common part of \<^verbatim>\<open>stopPersist\<close> and \<^verbatim>\<open>completePersist\<close>\<close>
  "change_persist w upd f = (if f = PAbsent then (Inr None, f) else andthen read_file (\<lambda>current. case current of
     None \<Rightarrow> ret None
   | Some c \<Rightarrow> (let s = (upd c)\<lparr>ps_legacy := False, ps_active := False, ps_revision := ps_revision c + 1\<rparr> in
       andthen (write_persist w s) (\<lambda>_. ret (Some s)))) f)"

definition stop_persist :: "write_result \<Rightarrow> (persist_file, persist_error, persist_state option) act" where
  "stop_persist w = change_persist w (\<lambda>c. c\<lparr>ps_reason := Some ''stopped_by_operator''\<rparr>)"

definition complete_persist :: "write_result \<Rightarrow> (persist_file, persist_error, persist_state option) act" where
  "complete_persist w = change_persist w (\<lambda>c. c\<lparr>ps_done := True, ps_reason := Some ''completed_by_operator''\<rparr>)"

record persist_status =
  pt_state :: "persist_state option"
  pt_remaining :: "int option"
  pt_reason :: "string option"

definition persist_status :: "ms \<Rightarrow> persist_file \<Rightarrow> persist_error + persist_status" where
  "persist_status now f = rbind (read_persist f) (\<lambda>st. Inr (case st of
     None \<Rightarrow> \<lparr>pt_state = None, pt_remaining = None, pt_reason = None\<rparr>
   | Some s \<Rightarrow> (let remaining = max 0 (ps_max s - ps_consumed s) in
       \<lparr>pt_state = Some s, pt_remaining = Some remaining,
         pt_reason = (if ps_active s \<and> remaining = 0 \<and> ps_reason s = Some ''persist_active'' then Some ''loop_budget_exhausted''
           else if ps_active s \<and> ps_deadline s \<le> now \<and> ps_reason s = Some ''persist_active'' then Some ''deadline_reached''
           else ps_reason s)\<rparr>)))"

definition execute_decision :: "(string \<Rightarrow> string) \<Rightarrow> write_result \<Rightarrow> json \<Rightarrow> ms \<Rightarrow> (persist_file, persist_error, decision) act" where
  \<comment> \<open>\<^verbatim>\<open>executePersistDecision\<close>; the state it read is handed to \<^verbatim>\<open>decidePersist\<close> as an object\<close>
  "execute_decision sha w input now f = (if f = PAbsent then (Inr (Halt ''no_active_persist_state''), f)
     else andthen read_file (\<lambda>current.
       (let d = decide_persist sha (case current of None \<Rightarrow> JNull | Some s \<Rightarrow> persist_json s) input now
        in case d of Halt _ \<Rightarrow> ret d | Continue _ s _ \<Rightarrow> andthen (write_persist w s) (\<lambda>_. ret d))) f)"

end
