(* ===== verification/Bytes.thy ===== *)
theory Bytes
  imports Dates
begin

text \<open>
  Bounds on the size of JSON texts in bytes, shared by the theories of size-limited files.
\<close>

section \<open>Sizes\<close>

lemma utf8_bytes_append [simp]: "utf8_bytes (s @ t) = utf8_bytes s + utf8_bytes t"
  by (simp add: utf8_bytes_def)

lemma utf8_bytes_Nil [simp]: "utf8_bytes [] = 0"
  by (simp add: utf8_bytes_def)

lemma utf8_bytes_Cons [simp]: "utf8_bytes (c # s) = (if (of_char c :: nat) < 128 then 1 else 2) + utf8_bytes s"
  by (simp add: utf8_bytes_def)

lemma utf8_bytes_le: "utf8_bytes s \<le> 2 * length s"
  by (induction s) auto

lemma hex_digit_ascii: "n < 16 \<Longrightarrow> (of_char (hex_digit n) :: nat) < 128"
  by (simp add: hex_digit_def)

lemma escape_char_bytes: "utf8_bytes (escape_char c) \<le> 6"
proof -
  have "(of_char c :: nat) < 32 \<Longrightarrow> (of_char c :: nat) div 16 < 16" by simp
  then show ?thesis by (auto simp: escape_char_def Let_def hex_digit_ascii)
qed

lemma quote_bytes: "utf8_bytes (quote s) \<le> 6 * length s + 2"
proof -
  have "utf8_bytes (concat (map escape_char s)) \<le> 6 * length s"
  proof (induction s)
    case (Cons c s)
    then show ?case using escape_char_bytes [of c] by simp
  qed simp
  then show ?thesis by (simp add: quote_def)
qed

lemma dec_bytes:
  assumes "safe_integer n"
  shows "utf8_bytes (stringify (JNum n)) \<le> 34"
proof -
  have "nat n < 10 ^ 16" "nat (- n) < 10 ^ 16" using assms by (auto simp: safe_integer_def)
  then have "length (dec_nat (nat n)) \<le> 16" "length (dec_nat (nat (- n))) \<le> 16"
    by (auto intro!: length_dec_nat)
  then have "length (dec_int n) \<le> 17" by (simp add: dec_int_def)
  with utf8_bytes_le [of "dec_int n"] show ?thesis by simp
qed

lemma iso_length:
  assumes "valid_time t"
  shows "length (iso t) \<le> 27"
proof -
  define days r where "days = t div 86400000" and "r = t mod 86400000"
  obtain y m a where civil: "civil_of_days days = (y, m, a)" by (cases "civil_of_days days") auto
  note c = civil_round_trip [OF civil]
  have "\<bar>days\<bar> \<le> 100000000" using assms unfolding valid_time_def days_def by linarith
  then have "nat \<bar>y\<bar> < 10 ^ 6" using c(6,7) by simp
  moreover have "nat y < 10 ^ 4" if "y \<le> 9999" using that by simp
  ultimately have year: "length (iso_year y) \<le> 7"
    using padded_field(1) [of "nat y" 4] padded_field(1) [of "nat \<bar>y\<bar>" 6] by (auto simp: iso_year_def)
  have r: "0 \<le> r" "r < 86400000" unfolding r_def by auto
  have b: "nat m < 10 ^ 2" "nat a < 10 ^ 2" "nat (r div 3600000) < 10 ^ 2" "nat (r div 60000 mod 60) < 10 ^ 2"
    "nat (r div 1000 mod 60) < 10 ^ 2" "nat (r mod 1000) < 10 ^ 3"
    using c r by auto
  show ?thesis
    unfolding iso_def Let_def days_def [symmetric] r_def [symmetric] civil using year b [THEN padded_field(1)] by simp
qed

end
