(* ===== verification/PersistProperties.thy ===== *)
theory PersistProperties
  imports Persist Bytes
begin

text \<open>
  What the persist loop promises: the state it writes can be read again, at most the budget of loops is
  granted, each for a later host turn, and an operator's stop or done ends the loop until the next
  start.
\<close>

section \<open>Sequences of operations\<close>

datatype persist_op =
    Hook "string \<Rightarrow> string" write_result json ms
  | StopOp write_result
  | DoneOp write_result
  | StartOp write_result string "int option" "int option" ms

fun persist_step :: "persist_op \<Rightarrow> persist_file \<Rightarrow> decision option \<times> persist_file" where
  \<comment> \<open>the decision a hook returns, if it returns one, and the file after the operation\<close>
  "persist_step (Hook sha w input now) f = apfst (case_sum (\<lambda>_. None) Some) (execute_decision sha w input now f)"
| "persist_step (StopOp w) f = (None, snd (stop_persist w f))"
| "persist_step (DoneOp w) f = (None, snd (complete_persist w f))"
| "persist_step (StartOp w g l m now) f = (None, snd (start_persist w g l m now f))"

fun persist_run :: "persist_op list \<Rightarrow> persist_file \<Rightarrow> decision option list \<times> persist_file" where
  "persist_run [] f = ([], f)"
| "persist_run (x # xs) f = (let (d, f1) = persist_step x f; (ds, f2) = persist_run xs f1 in (d # ds, f2))"

fun is_start :: "persist_op \<Rightarrow> bool" where
  "is_start (StartOp _ _ _ _ _) = True"
| "is_start _ = False"

definition grants :: "decision option list \<Rightarrow> int list" where
  \<comment> \<open>the host loop counts of the granted continuations\<close>
  "grants ds = List.map_filter (\<lambda>d. case d of Some (Continue n _ _) \<Rightarrow> Some n | _ \<Rightarrow> None) ds"

lemma grants_simps [simp]:
  "grants [] = []"
  "grants (None # ds) = grants ds"
  "grants (Some (Halt x) # ds) = grants ds"
  "grants (Some (Continue n s m) # ds) = n # grants ds"
  by (simp_all add: grants_def map_filter_simps)

section \<open>Reading back what was written\<close>

definition persist_ok :: "persist_state \<Rightarrow> bool" where
  "persist_ok s = (\<not> blank (ps_goal s) \<and> length (ps_goal s) \<le> 8192 \<and> 1 \<le> ps_max s \<and> ps_max s \<le> MAX_PERSIST_LOOPS
     \<and> 0 \<le> ps_consumed s \<and> ps_consumed s \<le> MAX_PERSIST_LOOPS
     \<and> opt_all (\<lambda>n. 0 \<le> n \<and> n \<le> MAX_PERSIST_LOOPS) (ps_loop s) \<and> 0 \<le> ps_revision s \<and> safe_integer (ps_revision s)
     \<and> 1 \<le> ps_deadline s \<and> safe_integer (ps_deadline s) \<and> 1 \<le> ps_created s \<and> safe_integer (ps_created s)
     \<and> opt_all (\<lambda>e. length e \<le> 256) (ps_event s) \<and> opt_all (\<lambda>t. 0 \<le> t \<and> safe_integer t) (ps_at s))"

lemmas persist_ok_iff = persist_ok_def opt_all_iff

lemma int_from_Some: "int_from lo v = Some n \<longleftrightarrow> v = Some (JNum n) \<and> safe_integer n \<and> lo \<le> n"
  by (auto simp: int_from_def jsafe_int_def split: option.splits json.splits)

lemma int_between_Some: "int_between lo hi v = Some n \<longleftrightarrow> v = Some (JNum n) \<and> safe_integer n \<and> lo \<le> n \<and> n \<le> hi"
  by (auto simp: int_between_def int_from_def jsafe_int_def split: option.splits json.splits)

lemma short_string_Some: "short_string n v = Some s \<longleftrightarrow> v = Some (JStr s) \<and> length s \<le> n"
  by (auto simp: short_string_def jstr_def split: option.splits json.splits)

lemma goal_text_Some: "goal_text v = Some s \<longleftrightarrow> v = Some (JStr s) \<and> length s \<le> 8192 \<and> \<not> blank s"
  by (auto simp: goal_text_def short_string_def jstr_def split: option.splits json.splits)

lemma nullable_Some: "nullable f v = Some x \<longleftrightarrow> v = Some JNull \<and> x = None \<or> v \<noteq> Some JNull \<and> (\<exists>y. x = Some y \<and> f v = Some y)"
  by (auto simp: nullable_def)

lemma safe_small: "0 \<le> n \<Longrightarrow> n \<le> MAX_PERSIST_LOOPS \<Longrightarrow> safe_integer n"
  by (simp add: safe_integer_def MAX_PERSIST_LOOPS_def)

lemma persist_json_get:
  "jget (persist_json s) ''schema_version'' = Some (JNum 2)"
  "jget (persist_json s) ''active'' = Some (JBool (ps_active s))"
  "jget (persist_json s) ''goal'' = Some (JStr (ps_goal s))"
  "jget (persist_json s) ''max_loops'' = Some (JNum (ps_max s))"
  "jget (persist_json s) ''consumed_loops'' = Some (JNum (ps_consumed s))"
  "jget (persist_json s) ''last_host_loop_count'' = Some (jnullable JNum (ps_loop s))"
  "jget (persist_json s) ''revision'' = Some (JNum (ps_revision s))"
  "jget (persist_json s) ''deadline_ms'' = Some (JNum (ps_deadline s))"
  "jget (persist_json s) ''created_at_ms'' = Some (JNum (ps_created s))"
  "jget (persist_json s) ''done'' = Some (JBool (ps_done s))"
  "jget (persist_json s) ''last_event_id'' = Some (jnullable JStr (ps_event s))"
  "jget (persist_json s) ''last_decision_at_ms'' = Some (jnullable JNum (ps_at s))"
  "jget (persist_json s) ''last_decision_reason'' = Some (jnullable JStr (ps_reason s))"
  by (simp_all add: persist_json_def jget_def)

lemma nullable_jnullable:
  assumes "\<And>x. f (Some (g x)) = (if P x then Some x else None)" "\<And>x. g x \<noteq> JNull"
  shows "nullable f (Some (jnullable g v)) = (if \<forall>x. v = Some x \<longrightarrow> P x then Some v else None)"
  using assms by (cases v) (simp_all add: nullable_def jnullable_def)

lemma normalize_persist_json:
  "normalize_persist (persist_json s) = (if persist_ok s then Some (s\<lparr>ps_legacy := False\<rparr>) else None)"
proof -
  have a: "nullable (int_between 0 MAX_PERSIST_LOOPS) (Some (jnullable JNum (ps_loop s)))
      = (if \<forall>n. ps_loop s = Some n \<longrightarrow> 0 \<le> n \<and> n \<le> MAX_PERSIST_LOOPS then Some (ps_loop s) else None)"
    by (rule nullable_jnullable) (auto simp: int_between_def int_from_def jsafe_int_def safe_small split: option.splits)
  have b: "nullable (short_string 256) (Some (jnullable JStr (ps_event s)))
      = (if \<forall>e. ps_event s = Some e \<longrightarrow> length e \<le> 256 then Some (ps_event s) else None)"
    by (rule nullable_jnullable) (auto simp: short_string_def jstr_def)
  have c: "nullable (int_from 0) (Some (jnullable JNum (ps_at s)))
      = (if \<forall>t. ps_at s = Some t \<longrightarrow> 0 \<le> t \<and> safe_integer t then Some (ps_at s) else None)"
    by (rule nullable_jnullable) (auto simp: int_from_def jsafe_int_def split: option.splits)
  have d: "optional_reason (Some (jnullable JStr (ps_reason s))) = Some (ps_reason s)"
    by (cases "ps_reason s") (simp_all add: optional_reason_def jnullable_def jstr_def)
  have e: "int_between lo hi (Some (JNum n)) = (if safe_integer n \<and> lo \<le> n \<and> n \<le> hi then Some n else None)" for lo hi n
    by (auto simp: int_between_def int_from_def jsafe_int_def split: option.splits)
  have f: "int_from lo (Some (JNum n)) = (if safe_integer n \<and> lo \<le> n then Some n else None)" for lo n
    by (auto simp: int_from_def jsafe_int_def split: option.splits)
  have g: "goal_text (Some (JStr t)) = (if length t \<le> 8192 \<and> \<not> blank t then Some t else None)" for t
    by (auto simp: goal_text_def short_string_def jstr_def split: option.splits)
  have j: "jbool (Some (JBool x)) = Some x" for x by (simp add: jbool_def)
  show ?thesis
    unfolding normalize_persist_def normalize_v2_def persist_json_get a b c d e f g j
    by (auto simp: persist_ok_iff intro: safe_small)
qed

lemma normalize_v2_ok: "normalize_persist v = Some s \<Longrightarrow> \<not> ps_legacy s \<Longrightarrow> persist_ok s"
  by (auto simp: normalize_persist_def normalize_v2_def normalize_v1_def persist_ok_iff int_from_Some int_between_Some
      goal_text_Some nullable_Some short_string_Some split: option.splits if_splits)

section \<open>One decision\<close>

lemma decide_ContinueD:
  assumes "decide_persist sha v input now = Continue n s' msg"
  shows "\<exists>s. normalize_persist v = Some s \<and> ps_active s \<and> \<not> ps_done s
    \<and> s' = next_persist s (if ps_legacy s then max (ps_consumed s) n else ps_consumed s) n (derive_event_id sha input n) now
    \<and> (if ps_legacy s then max (ps_consumed s) n else ps_consumed s) < ps_max s \<and> 0 \<le> n \<and> n < ps_max s \<and> n \<le> MAX_PERSIST_LOOPS
    \<and> (\<forall>k. ps_loop s = Some k \<longrightarrow> k < n) \<and> 0 < now \<and> safe_integer now \<and> now < ps_deadline s"
proof -
  obtain s where s: "normalize_persist v = Some s" using assms by (cases "normalize_persist v") (auto simp: decide_persist_def)
  obtain m where m: "int_between 0 MAX_PERSIST_LOOPS (jget input ''loop_count'') = Some m"
    using assms s by (cases "int_between 0 MAX_PERSIST_LOOPS (jget input ''loop_count'')") (auto simp: decide_persist_def split: if_splits)
  show ?thesis
    using assms s m int_between_Some [of 0 MAX_PERSIST_LOOPS "jget input ''loop_count''" m]
    by (auto simp: decide_persist_def Let_def not_le not_less split: if_splits option.splits)
qed

definition on_file :: "persist_file \<Rightarrow> persist_state option" where
  \<comment> \<open>the readable state of the file\<close>
  "on_file f = (case read_persist f of Inr (Some s) \<Rightarrow> Some s | _ \<Rightarrow> None)"

lemma on_file_written:
  "on_file (persist_file_of s) = Some t \<Longrightarrow> t = s\<lparr>ps_legacy := False\<rparr> \<and> persist_ok s"
  by (auto simp: on_file_def persist_file_of_def read_persist_def normalize_persist_json split: if_splits sum.splits option.splits)

lemma execute_cases:
  assumes "execute_decision sha w input now f = (d, f')"
  shows "(f' = f \<and> (\<forall>n s m. d \<noteq> Inr (Continue n s m)))
    \<or> (\<exists>t n s' m. on_file f = Some t \<and> decide_persist sha (persist_json t) input now = Continue n s' m
        \<and> (f' = persist_file_of s' \<and> (d = Inr (Continue n s' m) \<or> d = Inl E_PERSIST_WRITE)))"
proof (cases "\<exists>t. on_file f = Some t")
  case False
  then have r: "read_persist f = Inr None \<or> (\<exists>e. read_persist f = Inl e)"
    by (auto simp: on_file_def split: sum.splits option.splits)
  have "normalize_persist JNull = None" by (simp add: normalize_persist_def jget_def)
  with r assms show ?thesis
    by (auto simp: execute_decision_def read_file_def andthen_def decide_persist_def split: if_splits)
next
  case True
  then obtain t where t: "on_file f = Some t" by blast
  then have r: "read_persist f = Inr (Some t)" "f \<noteq> PAbsent"
    by (auto simp: on_file_def read_persist_def split: sum.splits option.splits)
  show ?thesis
  proof (cases "decide_persist sha (persist_json t) input now")
    case (Halt x)
    with r assms show ?thesis by (auto simp: execute_decision_def read_file_def andthen_def)
  next
    case (Continue n s' m)
    with r t assms show ?thesis
      by (cases w) (auto simp: execute_decision_def read_file_def andthen_def write_persist_def)
  qed
qed

lemma change_cases:
  assumes "change_persist w upd f = (d, f')"
  shows "f' = f \<and> (\<forall>s. d \<noteq> Inr (Some s))
    \<or> (\<exists>c. on_file f = Some c \<and> f' = persist_file_of ((upd c)\<lparr>ps_legacy := False, ps_active := False, ps_revision := ps_revision c + 1\<rparr>))"
  using assms
  by (cases w) (auto simp: change_persist_def read_file_def andthen_def write_persist_def Let_def on_file_def read_persist_def
      split: if_splits persist_file.splits option.splits sum.splits)

section \<open>The budget\<close>

definition budget :: "persist_file \<Rightarrow> nat \<Rightarrow> int \<Rightarrow> int \<Rightarrow> bool" where
  \<comment> \<open>the file grants at most \<open>b\<close> continuations, for loop counts above \<open>k\<close> and below \<open>m\<close>\<close>
  "budget f b k m = (\<forall>s. on_file f = Some s \<longrightarrow> ps_max s - ps_consumed s \<le> int b \<and> ps_max s \<le> m
     \<and> (\<forall>n. (\<forall>j. ps_loop s = Some j \<longrightarrow> j < n) \<and> 0 \<le> n \<longrightarrow> k < n))"

lemma change_budget:
  assumes "change_persist w upd f = (d, f')" "budget f b k m"
    and "\<And>c. ps_max (upd c) = ps_max c \<and> ps_consumed (upd c) = ps_consumed c \<and> ps_loop (upd c) = ps_loop c"
  shows "budget f' b k m"
  using change_cases [OF assms(1)]
proof (elim disjE exE conjE)
  fix c assume c: "on_file f = Some c"
    "f' = persist_file_of ((upd c)\<lparr>ps_legacy := False, ps_active := False, ps_revision := ps_revision c + 1\<rparr>)"
  with assms(2,3) show ?thesis by (auto simp: budget_def dest!: on_file_written)
qed (use assms(2) in simp)

lemma persist_step_budget:
  assumes "persist_step x f = (d, f')" "budget f b k m" "\<not> is_start x"
  shows "(grants [d] = [] \<and> budget f' b k m) \<or> (\<exists>n. grants [d] = [n] \<and> 0 < b \<and> k < n \<and> n < m \<and> budget f' (b - 1) n m)"
proof (cases x)
  case (Hook sha w input now)
  with assms(1) obtain r where r: "execute_decision sha w input now f = (r, f')" "d = case_sum (\<lambda>_. None) Some r"
    by (cases "execute_decision sha w input now f") auto
  from execute_cases [OF r(1)] consider (same) "f' = f" "\<forall>n s m. r \<noteq> Inr (Continue n s m)"
    | (grant) t n s' msg where "on_file f = Some t" "decide_persist sha (persist_json t) input now = Continue n s' msg"
        "f' = persist_file_of s'" "r = Inr (Continue n s' msg) \<or> r = Inl E_PERSIST_WRITE"
    by blast
  then show ?thesis
  proof cases
    case same
    with assms(2) r(2) have "grants [d] = []" by (cases r; cases "projr r") (auto simp: grants_def map_filter_simps)
    with assms(2) \<open>f' = f\<close> show ?thesis by simp
  next
    case grant
    note t = grant(1,2) and f' = grant(3) and r' = grant(4)
    from decide_ContinueD [OF t(2)] obtain t' where t':
      "normalize_persist (persist_json t) = Some t'" "s' = next_persist t' (ps_consumed t') n (derive_event_id sha input n) now"
      "ps_consumed t' < ps_max t'" "0 \<le> n" "n < ps_max t'" "\<forall>j. ps_loop t' = Some j \<longrightarrow> j < n"
      by (auto simp: normalize_persist_json split: if_splits)
    have eq: "ps_consumed t' = ps_consumed t" "ps_max t' = ps_max t" "ps_loop t' = ps_loop t"
      using t'(1) by (auto simp: normalize_persist_json split: if_splits)
    have b: "ps_max t - ps_consumed t \<le> int b" "ps_max t \<le> m" "k < n"
      using assms(2) t(1) t'(4,6) eq by (auto simp: budget_def)
    have bud: "budget f' (b - 1) n m"
      unfolding budget_def f' using b t' eq by (auto simp: next_persist_def dest!: on_file_written)
    have "budget f' b k m"
      unfolding budget_def f' using b t' eq by (auto simp: next_persist_def dest!: on_file_written)
    with bud r' r(2) b t'(3,5) eq show ?thesis by auto
  qed
next
  case (StopOp w)
  with assms show ?thesis
    using change_budget [of w "\<lambda>c. c\<lparr>ps_reason := Some ''stopped_by_operator''\<rparr>" f "fst (stop_persist w f)" f' b k m]
    by (cases "stop_persist w f") (auto simp: stop_persist_def)
next
  case (DoneOp w)
  with assms show ?thesis
    using change_budget [of w "\<lambda>c. c\<lparr>ps_done := True, ps_reason := Some ''completed_by_operator''\<rparr>" f "fst (complete_persist w f)" f' b k m]
    by (cases "complete_persist w f") (auto simp: complete_persist_def)
qed (use assms(3) in \<open>simp\<close>)

lemma grants_Cons: "grants (d # ds) = grants [d] @ grants ds"
  by (simp add: grants_def map_filter_def)

lemma persist_run_budget:
  assumes "persist_run xs f = (ds, f')" "budget f b k m" "\<forall>x \<in> set xs. \<not> is_start x"
  shows "length (grants ds) \<le> b \<and> sorted_wrt (<) (grants ds) \<and> (\<forall>n \<in> set (grants ds). k < n \<and> n < m)"
  using assms
proof (induction xs arbitrary: f b k ds)
  case (Cons x xs)
  obtain d f1 ds1 where x: "persist_step x f = (d, f1)" "persist_run xs f1 = (ds1, f')" "ds = d # ds1"
    using Cons.prems(1) by (auto simp: Let_def split: prod.splits)
  have "\<not> is_start x" using Cons.prems(3) by simp
  from persist_step_budget [OF x(1) Cons.prems(2) this] show ?case
  proof (elim disjE exE conjE)
    assume "grants [d] = []" "budget f1 b k m"
    with Cons.IH [OF x(2)] Cons.prems(3) x(3) grants_Cons [of d ds1] show ?thesis by simp
  next
    fix n assume n: "grants [d] = [n]" "0 < b" "k < n" "n < m" "budget f1 (b - 1) n m"
    from Cons.IH [OF x(2) n(5)] Cons.prems(3)
    have "length (grants ds1) \<le> b - 1" "sorted_wrt (<) (grants ds1)" "\<forall>j \<in> set (grants ds1). n < j \<and> j < m" by auto
    with n x(3) grants_Cons [of d ds1] show ?thesis by auto
  qed
qed simp

section \<open>An ended loop\<close>

definition inactive :: "persist_file \<Rightarrow> bool" where
  "inactive f = (\<forall>s. on_file f = Some s \<longrightarrow> \<not> ps_active s)"

lemma change_inactive: "change_persist w upd f = (d, f') \<Longrightarrow> inactive f \<or> (\<exists>s. d = Inr (Some s)) \<Longrightarrow> inactive f'"
  using change_cases [of w upd f d f'] by (auto simp: inactive_def dest!: on_file_written)

lemma persist_step_inactive:
  assumes "persist_step x f = (d, f')" "inactive f" "\<not> is_start x"
  shows "grants [d] = [] \<and> inactive f'"
proof (cases x)
  case (Hook sha w input now)
  with assms(1) obtain r where r: "execute_decision sha w input now f = (r, f')" "d = case_sum (\<lambda>_. None) Some r"
    by (cases "execute_decision sha w input now f") auto
  have "\<not> (on_file f = Some t \<and> decide_persist sha (persist_json t) input now = Continue n s' m)" for t n s' m
    using assms(2) decide_ContinueD [of sha "persist_json t" input now n s' m]
    by (auto simp: inactive_def normalize_persist_json split: if_splits)
  with execute_cases [OF r(1)] have "f' = f" "\<forall>n s m. r \<noteq> Inr (Continue n s m)" by blast+
  then show ?thesis using assms(2) r(2) by (cases r; cases "projr r") (auto simp: grants_def map_filter_simps)
next
  case (StopOp w)
  with assms show ?thesis using change_inactive by (cases "stop_persist w f") (auto simp: stop_persist_def)
next
  case (DoneOp w)
  with assms show ?thesis using change_inactive by (cases "complete_persist w f") (auto simp: complete_persist_def)
qed (use assms(3) in \<open>simp\<close>)

lemma persist_run_inactive:
  assumes "persist_run xs f = (ds, f')" "inactive f" "\<forall>x \<in> set xs. \<not> is_start x"
  shows "grants ds = []"
  using assms
proof (induction xs arbitrary: f ds)
  case (Cons x xs)
  obtain d f1 ds1 where x: "persist_step x f = (d, f1)" "persist_run xs f1 = (ds1, f')" "ds = d # ds1"
    using Cons.prems(1) by (auto simp: Let_def split: prod.splits)
  have "\<not> is_start x" using Cons.prems(3) by simp
  with persist_step_inactive [OF x(1) Cons.prems(2)] Cons.IH [OF x(2)] Cons.prems(3) x(3) grants_Cons [of d ds1]
  show ?case by simp
qed simp

section \<open>The size of the file\<close>

lemma nullable_num_bytes: "(\<forall>n. v = Some n \<longrightarrow> safe_integer n) \<Longrightarrow> utf8_bytes (stringify (jnullable JNum v)) \<le> 34"
  using dec_bytes by (cases v) (simp_all add: jnullable_def)

lemma nullable_str_bytes: "(\<forall>t. v = Some t \<longrightarrow> length t \<le> k) \<Longrightarrow> utf8_bytes (stringify (jnullable JStr v)) \<le> 6 * k + 4"
proof (cases v)
  case (Some t)
  assume "\<forall>t. v = Some t \<longrightarrow> length t \<le> k"
  with Some quote_bytes [of t] show ?thesis by (simp add: jnullable_def)
qed (simp add: jnullable_def)

lemma pretty_nullable: "pretty i (jnullable JNum v) = stringify (jnullable JNum v)"
  "pretty i (jnullable JStr w) = stringify (jnullable JStr w)"
  by (cases v; cases w; simp add: jnullable_def)+

lemma persist_file_size:
  assumes "persist_ok s" "\<not> ps_legacy s" "\<forall>t. ps_reason s = Some t \<longrightarrow> length t \<le> 64"
  shows "file_bytes (persist_json s) \<le> MAX_PERSIST_STATE_BYTES"
proof -
  have safe: "safe_integer (ps_max s)" "safe_integer (ps_consumed s)" "safe_integer (ps_revision s)"
    "safe_integer (ps_deadline s)" "safe_integer (ps_created s)"
    using assms(1) by (auto simp: persist_ok_iff MAX_PERSIST_LOOPS_def safe_integer_def)
  have b: "utf8_bytes (stringify (JStr (ps_goal s))) \<le> 6 * 8192 + 2"
    using quote_bytes [of "ps_goal s"] assms(1) by (auto simp: persist_ok_iff)
  have l: "utf8_bytes (stringify (jnullable JNum (ps_loop s))) \<le> 34" "utf8_bytes (stringify (jnullable JNum (ps_at s))) \<le> 34"
    using assms(1) by (auto intro!: nullable_num_bytes simp: persist_ok_iff intro: safe_small)
  have e: "utf8_bytes (stringify (jnullable JStr (ps_event s))) \<le> 6 * 256 + 4"
    using assms(1) by (intro nullable_str_bytes) (auto simp: persist_ok_iff)
  have r: "utf8_bytes (stringify (jnullable JStr (ps_reason s))) \<le> 6 * 64 + 4"
    using assms(3) by (intro nullable_str_bytes) auto
  note d = safe [THEN dec_bytes]
  have t: "utf8_bytes (stringify (JBool x)) \<le> 5" for x by simp
  have v: "utf8_bytes (stringify (JNum 2)) \<le> 34" by (rule dec_bytes) (simp add: safe_integer_def)
  have q: "utf8_bytes (quote k) \<le> 6 * length k + 2" for k by (rule quote_bytes)
  note names = q [of "''schema_version''"] q [of "''active''"] q [of "''goal''"] q [of "''max_loops''"] q [of "''consumed_loops''"]
    q [of "''last_host_loop_count''"] q [of "''revision''"] q [of "''deadline_ms''"] q [of "''created_at_ms''"] q [of "''done''"]
    q [of "''last_event_id''"] q [of "''last_decision_at_ms''"] q [of "''last_decision_reason''"]
  have "file_bytes (persist_json s) \<le> 13 * 40 + 6 * (14 + 6 + 4 + 9 + 14 + 20 + 8 + 11 + 13 + 4 + 13 + 19 + 20) + 13 * 2
      + utf8_bytes (stringify (JNum 2)) + utf8_bytes (stringify (JBool (ps_active s))) + utf8_bytes (stringify (JStr (ps_goal s)))
      + utf8_bytes (stringify (JNum (ps_max s))) + utf8_bytes (stringify (JNum (ps_consumed s)))
      + utf8_bytes (stringify (jnullable JNum (ps_loop s))) + utf8_bytes (stringify (JNum (ps_revision s)))
      + utf8_bytes (stringify (JNum (ps_deadline s))) + utf8_bytes (stringify (JNum (ps_created s)))
      + utf8_bytes (stringify (JBool (ps_done s))) + utf8_bytes (stringify (jnullable JStr (ps_event s)))
      + utf8_bytes (stringify (jnullable JNum (ps_at s))) + utf8_bytes (stringify (jnullable JStr (ps_reason s)))"
    using names assms(2)
    by (simp add: file_bytes_def persist_json_def pretty_nullable numeral_2_eq_2 del: stringify.simps)
  with b l e r d t [of "ps_active s"] t [of "ps_done s"] v show ?thesis by (simp add: MAX_PERSIST_STATE_BYTES_def)
qed

section \<open>What operations write\<close>

lemma bound_id_length: "17 \<le> n \<Longrightarrow> length (bound_id sha t n) \<le> n"
  unfolding bound_id_def Let_def by (cases "length (sha (trim t)) \<le> 16") auto

lemma derive_event_id_length: "length (derive_event_id sha input n) \<le> 256"
proof -
  have "length (bound_id sha t 128) \<le> 256" for t using bound_id_length [of 128 sha t] by simp
  then show ?thesis by (simp add: derive_event_id_def Let_def split: option.split)
qed

definition v2_file :: "persist_file \<Rightarrow> bool" where
  \<comment> \<open>no file, or one with a valid state of the current version\<close>
  "v2_file f = (f = PAbsent \<or> (\<exists>s. on_file f = Some s \<and> \<not> ps_legacy s))"

definition good_op :: "persist_op \<Rightarrow> bool" where
  \<comment> \<open>a start whose redacted goal is still within bounds and whose deadline is a safe integer\<close>
  "good_op x = (case x of
     StartOp w g l m now \<Rightarrow> \<not> blank (redactText 8192 (trim g)) \<and> length (redactText 8192 (trim g)) \<le> 8192
       \<and> now \<le> 9000000000000000
   | _ \<Rightarrow> True)"

lemma on_file_ok: "on_file f = Some s \<Longrightarrow> \<not> ps_legacy s \<Longrightarrow> persist_ok s"
  by (auto simp: on_file_def read_persist_def dest: normalize_v2_ok split: persist_file.splits option.splits sum.splits)

lemma written_v2:
  assumes "persist_ok s" "\<not> ps_legacy s" "\<forall>t. ps_reason s = Some t \<longrightarrow> length t \<le> 64"
  shows "v2_file (persist_file_of s)"
  using persist_file_size [OF assms] assms(1,2)
  by (auto simp: v2_file_def persist_file_of_def on_file_def read_persist_def normalize_persist_json)

lemma next_ok:
  assumes "persist_ok s" "ps_consumed s < ps_max s" "0 \<le> n" "n \<le> MAX_PERSIST_LOOPS" "0 < now" "safe_integer now"
    and "ps_revision s < 9007199254740991"
  shows "persist_ok (next_persist s (ps_consumed s) n (derive_event_id sha input n) now)"
proof -
  have "0 \<le> opt_default (ps_created s) (ps_at s) \<and> safe_integer (opt_default (ps_created s) (ps_at s))"
    using assms(1) by (cases "ps_at s") (auto simp: persist_ok_iff)
  then have "0 \<le> max now (opt_default (ps_created s) (ps_at s)) \<and> safe_integer (max now (opt_default (ps_created s) (ps_at s)))"
    using assms(6) by (auto simp: max_def)
  with assms derive_event_id_length [of sha input n] show ?thesis
    by (auto simp: persist_ok_iff next_persist_def safe_integer_def)
qed

lemma change_v2:
  assumes "change_persist w upd f = (d, f')" "v2_file f" "\<forall>s. on_file f = Some s \<longrightarrow> ps_revision s < 9007199254740991"
    and "\<And>c. persist_ok c \<Longrightarrow> persist_ok (upd c)" "\<And>c t. ps_reason (upd c) = Some t \<Longrightarrow> length t \<le> 64"
    "\<And>c. ps_revision (upd c) = ps_revision c"
  shows "v2_file f'"
proof (cases "f' = f")
  case False
  with change_cases [OF assms(1)] obtain c where c: "on_file f = Some c"
    "f' = persist_file_of ((upd c)\<lparr>ps_legacy := False, ps_active := False, ps_revision := ps_revision c + 1\<rparr>)" by blast
  have "\<not> ps_legacy c" using assms(2) c(1) by (auto simp: v2_file_def on_file_def read_persist_def)
  then have ok: "persist_ok (upd c)" using on_file_ok [OF c(1)] assms(4) by blast
  have "persist_ok ((upd c)\<lparr>ps_legacy := False, ps_active := False, ps_revision := ps_revision c + 1\<rparr>)"
    using ok assms(3) c(1) assms(6) [of c] by (auto simp: persist_ok_iff safe_integer_def)
  then show ?thesis unfolding c(2) by (rule written_v2) (use assms(5) in auto)
qed (use assms(2) in simp)

lemma start_v2:
  assumes "start_persist w g l m now f = (d, f')" "v2_file f" "\<forall>s. on_file f = Some s \<longrightarrow> ps_revision s < 9007199254740991"
    "good_op (StartOp w g l m now)"
  shows "v2_file f'"
proof (cases "f' = f")
  case False
  let ?max = "opt_default DEFAULT_PERSIST_LOOPS l" and ?dl = "opt_default DEFAULT_PERSIST_DEADLINE_MINUTES m"
  obtain rn where rn: "0 \<le> rn" "rn < 9007199254740991"
    "f' = persist_file_of \<lparr>ps_active = True, ps_goal = redactText 8192 (trim g), ps_max = ?max, ps_consumed = 0, ps_loop = None,
            ps_revision = rn + 1, ps_deadline = now + ?dl * 60000,
            ps_created = now, ps_done = False, ps_event = None, ps_at = None, ps_reason = None, ps_legacy = False\<rparr>"
    and b: "1 \<le> ?max" "?max \<le> MAX_PERSIST_LOOPS" "1 \<le> ?dl" "?dl \<le> MAX_PERSIST_DEADLINE_MINUTES" "0 < now" "safe_integer now"
  proof -
    have r: "0 \<le> (case c of None \<Rightarrow> 0 | Some c \<Rightarrow> ps_revision c) \<and> (case c of None \<Rightarrow> 0 | Some c \<Rightarrow> ps_revision c) < 9007199254740991"
      if "read_persist f = Inr c" for c
    proof (cases c)
      case (Some x)
      then have "on_file f = Some x" using that by (simp add: on_file_def)
      moreover from this have "persist_ok x"
        using assms(2) by (auto simp: v2_file_def on_file_def read_persist_def intro: on_file_ok)
      ultimately show ?thesis using assms(3) Some by (auto simp: persist_ok_iff)
    qed simp
    show ?thesis
      using assms(1) False r that
      by (cases "read_persist f"; cases w)
        (auto simp: start_persist_def Let_def andthen_ensure read_file_def andthen_def write_persist_def split: if_splits)
  qed
  have "persist_ok \<lparr>ps_active = True, ps_goal = redactText 8192 (trim g), ps_max = ?max, ps_consumed = 0, ps_loop = None,
            ps_revision = rn + 1, ps_deadline = now + ?dl * 60000,
            ps_created = now, ps_done = False, ps_event = None, ps_at = None, ps_reason = None, ps_legacy = False\<rparr>"
    using rn(1,2) b assms(4) by (simp add: persist_ok_iff good_op_def safe_integer_def MAX_PERSIST_DEADLINE_MINUTES_def MAX_PERSIST_LOOPS_def)
  then show ?thesis unfolding rn(3) by (rule written_v2) simp_all
qed (use assms(2) in simp)

section \<open>A start that locks the loop out\<close>

text \<open>
  The goal is bounded before it is redacted, and redaction may lengthen it: a goal that repeats a short
  bearer credential is accepted and written, and the file is rejected by every later operation, the
  next start included.
\<close>

definition bearer_piece :: string where "bearer_piece = ''bearer x ''"
definition redacted_piece :: string where "redacted_piece = ''Bearer <redacted> ''"

lemma bearer_piece: "p = None \<or> p = Some CHR '' '' \<Longrightarrow> replace_from BEARER p 0 (bearer_piece @ s) = redacted_piece @ replace_from BEARER (Some CHR '' '') 0 s"
  by (elim disjE) (simp_all add: bearer_piece_def redacted_piece_def BEARER_def bearer_length_def boundary_def is_word_def is_alnum_def ci_prefix_def
      starts_with_def to_lower_def to_lower_char_def ws_length_def value_length_def is_ws_def eval_nat_numeral)

lemma ci_prefix_simps:
  "ci_prefix [] s = True" "ci_prefix (w # ws) [] = False"
  "ci_prefix (w # ws) (c # s) = (to_lower_char c = w \<and> ci_prefix ws s)"
  by (auto simp: ci_prefix_def starts_with_def to_lower_def)

lemma assignment_none: "\<forall>w \<in> set secret_names. \<not> ci_prefix w s \<Longrightarrow> ASSIGNMENT p s = None"
  by (simp add: ASSIGNMENT_def assignment_at_def secret_names_def map_filter_simps)

lemma token_none: "\<forall>w \<in> set token_prefixes. \<not> ci_prefix w s \<Longrightarrow> TOKEN_PREFIX p s = None"
  by (simp add: TOKEN_PREFIX_def token_at_def token_prefixes_def map_filter_simps)

lemma lower_piece:
  "to_lower_char (CHR ''B'') = CHR ''b''" "to_lower_char (CHR ''e'') = CHR ''e''" "to_lower_char (CHR ''a'') = CHR ''a''"
  "to_lower_char (CHR ''r'') = CHR ''r''" "to_lower_char (CHR '' '') = CHR '' ''" "to_lower_char (CHR ''<'') = CHR ''<''"
  "to_lower_char (CHR ''d'') = CHR ''d''" "to_lower_char (CHR ''c'') = CHR ''c''" "to_lower_char (CHR ''t'') = CHR ''t''"
  "to_lower_char (CHR ''>'') = CHR ''>''"
  by code_simp+

lemma assignment_piece: "replace_from ASSIGNMENT p 0 (redacted_piece @ s) = redacted_piece @ replace_from ASSIGNMENT (Some CHR '' '') 0 s"
  by (simp add: redacted_piece_def assignment_none secret_names_def ci_prefix_simps lower_piece)

lemma token_piece: "replace_from TOKEN_PREFIX p 0 (redacted_piece @ s) = redacted_piece @ replace_from TOKEN_PREFIX (Some CHR '' '') 0 s"
  by (simp add: redacted_piece_def token_none token_prefixes_def ci_prefix_simps lower_piece)

lemma pieces:
  "replace_from BEARER (Some CHR '' '') 0 (concat (replicate n bearer_piece) @ ''x'') = concat (replicate n redacted_piece) @ ''x''"
  "replace_from ASSIGNMENT (Some CHR '' '') 0 (concat (replicate n redacted_piece) @ ''x'') = concat (replicate n redacted_piece) @ ''x''"
  "replace_from TOKEN_PREFIX (Some CHR '' '') 0 (concat (replicate n redacted_piece) @ ''x'') = concat (replicate n redacted_piece) @ ''x''"
proof -
  have x: "to_lower_char (CHR ''x'') = CHR ''x''" by code_simp
  have e: "BEARER (Some CHR '' '') ''x'' = None" "ASSIGNMENT (Some CHR '' '') ''x'' = None" "TOKEN_PREFIX (Some CHR '' '') ''x'' = None"
    by (simp_all add: assignment_none token_none secret_names_def token_prefixes_def ci_prefix_simps BEARER_def bearer_length_def x)
  show "replace_from BEARER (Some CHR '' '') 0 (concat (replicate n bearer_piece) @ ''x'') = concat (replicate n redacted_piece) @ ''x''"
    by (induction n) (simp_all add: e bearer_piece)
  show "replace_from ASSIGNMENT (Some CHR '' '') 0 (concat (replicate n redacted_piece) @ ''x'') = concat (replicate n redacted_piece) @ ''x''"
    by (induction n) (simp_all add: e assignment_piece)
  show "replace_from TOKEN_PREFIX (Some CHR '' '') 0 (concat (replicate n redacted_piece) @ ''x'') = concat (replicate n redacted_piece) @ ''x''"
    by (induction n) (simp_all add: e token_piece)
qed

lemma pieces_start:
  "replace_all BEARER (concat (replicate (Suc n) bearer_piece) @ ''x'') = concat (replicate (Suc n) redacted_piece) @ ''x''"
  "replace_all ASSIGNMENT (concat (replicate (Suc n) redacted_piece) @ ''x'') = concat (replicate (Suc n) redacted_piece) @ ''x''"
  "replace_all TOKEN_PREFIX (concat (replicate (Suc n) redacted_piece) @ ''x'') = concat (replicate (Suc n) redacted_piece) @ ''x''"
  using pieces [of n] by (simp_all add: replace_all_def bearer_piece assignment_piece token_piece)

lemma length_pieces: "length (concat (replicate n bearer_piece)) = 9 * n" "length (concat (replicate n redacted_piece)) = 18 * n"
  by (induction n) (simp_all add: bearer_piece_def redacted_piece_def)

lemma redacted_goal:
  assumes "n < 900"
  shows "redactText 8192 (concat (replicate (Suc n) bearer_piece) @ ''x'') = concat (replicate (Suc n) redacted_piece) @ ''x''"
proof -
  have "\<not> 8192 < length (concat (replicate (Suc n) bearer_piece) @ ''x'')"
    using assms length_pieces(1) [of "Suc n"] by simp
  then show ?thesis
    using pieces_start [of n]
    by (simp add: redactText_def redact_def visit.simps default_limits_def redact_string_def sensitive_def del: replicate_Suc)
qed

lemma trim_goal: "trim (concat (replicate (Suc n) bearer_piece) @ ''x'') = concat (replicate (Suc n) bearer_piece) @ ''x''"
proof -
  let ?g = "concat (replicate (Suc n) bearer_piece) @ ''x''"
  have "ltrim ?g = ?g" "ltrim (rev ?g) = rev ?g"
    by (simp_all add: ltrim_self_iff bearer_piece_def is_ws_def)
  then show ?thesis unfolding trim_def by simp
qed

lemma start_locks_out:
  "case start_persist WriteOk (concat (replicate 900 bearer_piece) @ ''x'') None None 1000 PAbsent of
     (Inr _, f) \<Rightarrow> read_persist f = Inl E_PERSIST_STATE_CORRUPT | _ \<Rightarrow> False"
proof -
  let ?g = "concat (replicate (Suc 899) bearer_piece) @ ''x''"
  have r: "redactText 8192 ?g = concat (replicate (Suc 899) redacted_piece) @ ''x''" by (rule redacted_goal) simp
  have l: "length ?g \<le> 8192" "?g \<noteq> []" using length_pieces(1) [of "Suc 899"] by simp_all
  have t: "trim ?g = ?g" by (rule trim_goal)
  have "\<not> length (redactText 8192 ?g) \<le> 8192" unfolding r using length_pieces(2) [of "Suc 899"] by simp
  then have bad: "\<not> persist_ok s" if "ps_goal s = redactText 8192 ?g" for s using that by (simp add: persist_ok_iff)
  have "case start_persist WriteOk ?g None None 1000 PAbsent of
     (Inr _, f) \<Rightarrow> read_persist f = Inl E_PERSIST_STATE_CORRUPT | _ \<Rightarrow> False"
    unfolding start_persist_def t Let_def
    using l bad
    by (simp add: andthen_ensure safe_integer_def DEFAULT_PERSIST_LOOPS_def MAX_PERSIST_LOOPS_def DEFAULT_PERSIST_DEADLINE_MINUTES_def
        MAX_PERSIST_DEADLINE_MINUTES_def andthen_def read_file_def read_persist_def write_persist_def persist_file_of_def normalize_persist_json
        del: replicate_Suc)
  moreover have "Suc 899 = 900" by simp
  ultimately show ?thesis by metis
qed

section \<open>Files of the first version\<close>

text \<open>
  The state read from a file of version 1 is handed to the decision as an object of version 2, so the
  rule that counts the host's loops of an old file applies only when the raw file is decided on; and
  an old file with a large counter is readable until a stop or done rewrites it.
\<close>

definition ex_v1 :: "int \<Rightarrow> json" where
  "ex_v1 n = JObj [(''schema_version'', JNum 1), (''active'', JBool True), (''goal'', JStr ''g''), (''max_loops'', JNum 5),
     (''deadline_ms'', JNum 900), (''created_at_ms'', JNum 100), (''done'', JBool False), (''consumed_loops'', JNum n)]"

definition consumed_after :: "decision \<Rightarrow> int option" where
  "consumed_after d = (case d of Continue _ s _ \<Rightarrow> Some (ps_consumed s) | Halt _ \<Rightarrow> None)"

lemma legacy_baseline_lost:
  "consumed_after (decide_persist (\<lambda>_. ''0'') (ex_v1 0) (JObj [(''status'', JStr ''completed''), (''loop_count'', JNum 2)]) 500) = Some 3"
  "map_option (\<lambda>t. consumed_after (decide_persist (\<lambda>_. ''0'') (persist_json t) (JObj [(''status'', JStr ''completed''), (''loop_count'', JNum 2)]) 500))
     (on_file (PText (Some (ex_v1 0)))) = Some (Some 1)"
  by code_simp+

lemma stop_corrupts_legacy:
  "is_ok (read_persist (PText (Some (ex_v1 501)))) \<and> read_persist (snd (stop_persist WriteOk (PText (Some (ex_v1 501))))) = Inl E_PERSIST_STATE_CORRUPT"
proof -
  have "map_sum id (map_option ps_consumed) (read_persist (PText (Some (ex_v1 501)))) = Inr (Some 501)" by code_simp
  then obtain c where c: "read_persist (PText (Some (ex_v1 501))) = Inr (Some c)" "ps_consumed c = 501"
    by (cases "read_persist (PText (Some (ex_v1 501)))") auto
  then have "\<not> persist_ok (c\<lparr>ps_reason := r, ps_legacy := False, ps_active := False, ps_revision := n\<rparr>)" for r n
    by (simp add: persist_ok_def MAX_PERSIST_LOOPS_def)
  with c(1) show ?thesis
    by (simp add: stop_persist_def change_persist_def read_file_def andthen_def write_persist_def Let_def persist_file_of_def)
      (simp add: read_persist_def normalize_persist_json)
qed

section \<open>Properties\<close>

text \<open>C27: The loop budget. Whatever a host sends, between two starts the persist loop continues at most as many
  times as loops are left, and each continuation is for a host loop count above all earlier ones,
  above the recorded one and below the maximum; write failures never add to it.\<close>

theorem persist_budget:
  assumes "persist_run xs f = (ds, f')" "read_persist f = Inr (Some s)" "\<forall>x \<in> set xs. \<not> is_start x"
  shows "length (grants ds) \<le> nat (ps_max s - ps_consumed s) \<and> sorted_wrt (<) (grants ds)
    \<and> (\<forall>n \<in> set (grants ds). 0 \<le> n \<and> n < ps_max s \<and> (\<forall>k. ps_loop s = Some k \<longrightarrow> k < n))"
proof -
  let ?k = "case ps_loop s of None \<Rightarrow> -1 | Some k \<Rightarrow> max k (-1)"
  have "budget f (nat (ps_max s - ps_consumed s)) ?k (ps_max s)"
    using assms(2) by (auto simp: budget_def on_file_def split: option.splits)
  from persist_run_budget [OF assms(1) this assms(3)] show ?thesis by (auto split: option.splits)
qed

definition ex_persist :: persist_state where
  "ex_persist = \<lparr>ps_active = True, ps_goal = ''ship'', ps_max = 3, ps_consumed = 1, ps_loop = Some 0, ps_revision = 4,
     ps_deadline = 900, ps_created = 100, ps_done = False, ps_event = None, ps_at = None, ps_reason = None, ps_legacy = False\<rparr>"

definition ex_hook :: "int \<Rightarrow> persist_op" where
  "ex_hook n = Hook (\<lambda>_. ''0'') WriteOk (JObj [(''status'', JStr ''completed''), (''loop_count'', JNum n)]) 500"

definition ex_file :: persist_file where
  "ex_file = PText (Some (persist_json ex_persist))"

lemma ex_file_read: "read_persist ex_file = Inr (Some ex_persist)"
  by (simp add: ex_file_def read_persist_def normalize_persist_json) code_simp

lemma hook_grants:
  assumes "read_persist f = Inr (Some s)" "decide_persist sha (persist_json s) input now = Continue n s' m"
    and "persist_ok s'" "\<not> ps_legacy s'" "\<forall>t. ps_reason s' = Some t \<longrightarrow> length t \<le> 64"
  shows "persist_step (Hook sha WriteOk input now) f = (Some (Continue n s' m), PText (Some (persist_json s')))"
  using assms(1,2) persist_file_size [OF assms(3-5)]
  by (auto simp: execute_decision_def read_file_def andthen_def write_persist_def persist_file_of_def read_persist_def)

lemma ex_decisions:
  "(case decide_persist (\<lambda>_. ''0'') (persist_json ex_persist) (JObj [(''status'', JStr ''completed''), (''loop_count'', JNum 1)]) 500 of
      Continue n s' m \<Rightarrow> n = 1 \<and> persist_ok s' \<and> \<not> ps_legacy s' \<and> opt_all (\<lambda>t. length t \<le> 64) (ps_reason s')
        \<and> decide_persist (\<lambda>_. ''0'') (persist_json s') (JObj [(''status'', JStr ''completed''), (''loop_count'', JNum 1)]) 500 = Halt ''duplicate_event''
    | _ \<Rightarrow> False)"
  by code_simp

lemma ex_grants: "grants (fst (persist_run [ex_hook 1, ex_hook 1] ex_file)) = [1]"
proof -
  let ?i = "JObj [(''status'', JStr ''completed''), (''loop_count'', JNum 1)]"
  obtain s' m where d: "decide_persist (\<lambda>_. ''0'') (persist_json ex_persist) ?i 500 = Continue 1 s' m"
    "persist_ok s'" "\<not> ps_legacy s'" "\<forall>t. ps_reason s' = Some t \<longrightarrow> length t \<le> 64"
    "decide_persist (\<lambda>_. ''0'') (persist_json s') ?i 500 = Halt ''duplicate_event''"
    using ex_decisions by (auto simp: opt_all_iff split: decision.splits)
  have a: "persist_step (ex_hook 1) ex_file = (Some (Continue 1 s' m), PText (Some (persist_json s')))"
    unfolding ex_hook_def by (rule hook_grants [OF ex_file_read d(1-4)])
  have "s'\<lparr>ps_legacy := False\<rparr> = s'" using d(3) by simp
  then have b: "persist_step (ex_hook 1) (PText (Some (persist_json s'))) = (Some (Halt ''duplicate_event''), PText (Some (persist_json s')))"
    using d(2,5) by (simp add: ex_hook_def execute_decision_def read_file_def andthen_def read_persist_def normalize_persist_json)
  show ?thesis by (simp add: a b)
qed

theorem persist_budget_witness:
  "grants (fst (persist_run [ex_hook 1, ex_hook 1] ex_file)) = [1]
    \<and> length (grants (fst (persist_run [ex_hook 1, ex_hook 1] ex_file))) \<le> 2"
proof -
  obtain ds f' where r: "persist_run [ex_hook 1, ex_hook 1] ex_file = (ds, f')" by fastforce
  have "length (grants ds) \<le> 2"
    using persist_budget [OF r ex_file_read] by (simp add: ex_hook_def ex_persist_def)
  then show ?thesis using ex_grants r by simp
qed

text \<open>An ended loop stays ended. After the operator's stop or done has been recorded, no hook continues the
  turn until the next start.\<close>

theorem persist_end_final:
  assumes "stop_persist w f = (Inr (Some s), f1) \<or> complete_persist w f = (Inr (Some s), f1)"
    and "persist_run xs f1 = (ds, f')" "\<forall>x \<in> set xs. \<not> is_start x"
  shows "grants ds = []"
proof (rule persist_run_inactive [OF assms(2) _ assms(3)])
  show "inactive f1" using assms(1) change_inactive by (auto simp: stop_persist_def complete_persist_def)
qed

theorem persist_end_final_witness: "grants (fst (persist_run [ex_hook 1, ex_hook 2] (snd (stop_persist WriteOk ex_file)))) = []"
proof -
  have "ex_file \<noteq> PAbsent" by (simp add: ex_file_def)
  then obtain s f1 where s: "stop_persist WriteOk ex_file = (Inr (Some s), f1)"
    by (simp add: stop_persist_def change_persist_def read_file_def andthen_def write_persist_def ex_file_read Let_def)
  obtain ds f' where "persist_run [ex_hook 1, ex_hook 2] f1 = (ds, f')" by fastforce
  with persist_end_final [of WriteOk ex_file s f1, OF disjI1 [OF s] this] s show ?thesis by (simp add: ex_hook_def)
qed



end
