(* ===== verification/Catalog.thy ===== *)
theory Catalog
  imports Policy
begin

text \<open>
  The catalog of agent roles (\<^verbatim>\<open>src/agents/catalog.ts\<close>): the built-in roles, the lookup of roles and profiles
  and the discovery of custom agents in a project.  The files of a project are given: for each
  search directory its entries with their text, \<open>None\<close> where a read throws.
\<close>

section \<open>Built-in roles\<close>

definition role_architect :: agent_role where
  "role_architect = \<lparr>
     ro_id = ''omcu-agent-architect'', ro_name = ''omcu-architect'', ro_file = ''agents/omcu-architect.md'',
     ro_fallback = Some ''agents/architect.md'',
     ro_aliases = [''architect'', ''omc_architect'', ''omx_architect'', ''oracle'', ''omo_oracle''],
     ro_mode = ''either'', ro_category = ''architecture'',
     ro_model = \<lparr>mr_preferred = Some ''claude-3-7-sonnet-thought'', mr_tier = Reasoning, mr_effort = Some HighEffort, mr_exact = None, mr_fallback = [Smart]\<rparr>,
     ro_tools = \<lparr>tp_allow = [''read_file'', ''grep_search'', ''find_by_name'', ''list_dir''],
       tp_deny = [''write_to_file'', ''replace_file_content'', ''run_command''], tp_classes = [ReadTools],
       tp_scope = ScopeNone\<rparr>,
     ro_delegation = \<lparr>dp_can = True, dp_depth = 1, dp_roles = Some [''omcu-explorer'', ''omcu-analyst'', ''omcu-critic'']\<rparr>,
     ro_eligibility = \<lparr>el_local = True, el_cloud = True, el_background = False, el_team = True, el_reason = None\<rparr>,
     ro_workspace = \<lparr>wp_worktree = False, wp_isolation = ReadOnly\<rparr>,
     ro_context = \<lparr>cx_skills = [''omcu-setup''], cx_rules = [''oh-my-cursor'']\<rparr>,
     ro_artifacts = \<lparr>ac_inputs = [''goal'', ''requirements''], ac_outputs = [''architecture-spec'', ''decision-record''], ac_pattern = Some ''.omcu/artifacts/arch-*.md''\<rparr>,
     ro_profiles = [
       \<lparr>sp_id = ''default'', sp_source = ''omcu'', sp_name = ''omcu-architect'',
         sp_description = ''Canonical balanced architectural boundary and lifecycle enforcement.'', sp_model = None,
         sp_tools = None, sp_delegation = None,
         sp_differences = ''Native Cursor read-only subagent with single-level delegation boundary.''\<rparr>,
       \<lparr>sp_id = ''omc'', sp_source = ''omc'', sp_name = ''omc_architect'',
         sp_description = ''High-level system boundary, lifecycle constraints, and invariants analysis.'',
         sp_model = None, sp_tools = None, sp_delegation = None,
         sp_differences = ''Eliminates shell command execution; enforces read-only codebase access.''\<rparr>,
       \<lparr>sp_id = ''omx'', sp_source = ''omx'', sp_name = ''omx_architect'',
         sp_description = ''Structural decomposition, component boundaries, and dependency integrity.'',
         sp_model = None, sp_tools = None, sp_delegation = None,
         sp_differences = ''Replaces proprietary planner integration with Cursor SDK subagent profiles.''\<rparr>,
       \<lparr>sp_id = ''omo-oracle'', sp_source = ''omo'', sp_name = ''omo_oracle'',
         sp_description = ''Clean-room high-reasoning oracle architecture advisor exploring foundational trade-offs.'',
         sp_model = Some \<lparr>mo_preferred = None, mo_tier = Some Reasoning, mo_effort = Some HighEffort, mo_exact = None, mo_fallback = None\<rparr>,
         sp_tools = None, sp_delegation = None,
         sp_differences = ''Clean-room specification without proprietary prompt duplication.''\<rparr>],
     ro_default = ''default'',
     ro_differences = ''Uses native Cursor read-only subagents instead of unbounded shell sessions.'',
     ro_custom = None\<rparr>"

definition role_critic :: agent_role where
  "role_critic = \<lparr>
     ro_id = ''omcu-agent-critic'', ro_name = ''omcu-critic'', ro_file = ''agents/omcu-critic.md'',
     ro_fallback = Some ''agents/critic.md'',
     ro_aliases = [''critic'', ''omc_critic'', ''momus'', ''omo_momus''],
     ro_mode = ''subagent'', ro_category = ''review'',
     ro_model = \<lparr>mr_preferred = Some ''claude-3-7-sonnet-thought'', mr_tier = Reasoning, mr_effort = Some HighEffort, mr_exact = None, mr_fallback = [Smart]\<rparr>,
     ro_tools = \<lparr>tp_allow = [''read_file'', ''grep_search'', ''find_by_name'', ''list_dir''],
       tp_deny = [''write_to_file'', ''replace_file_content'', ''run_command''], tp_classes = [ReadTools],
       tp_scope = ScopeNone\<rparr>,
     ro_delegation = \<lparr>dp_can = False, dp_depth = 0, dp_roles = None\<rparr>,
     ro_eligibility = \<lparr>el_local = True, el_cloud = True, el_background = False, el_team = True, el_reason = None\<rparr>,
     ro_workspace = \<lparr>wp_worktree = False, wp_isolation = ReadOnly\<rparr>,
     ro_context = \<lparr>cx_skills = [], cx_rules = [''oh-my-cursor'']\<rparr>,
     ro_artifacts = \<lparr>ac_inputs = [''plan'', ''diff''], ac_outputs = [''critique-report''], ac_pattern = Some ''.omcu/artifacts/critique-*.md''\<rparr>,
     ro_profiles = [
       \<lparr>sp_id = ''default'', sp_source = ''omcu'', sp_name = ''omcu-critic'',
         sp_description = ''Adversarial plan and diff critique identifying flaws and unstated assumptions.'',
         sp_model = None, sp_tools = None, sp_delegation = None,
         sp_differences = ''Read-only tool sandbox; cannot execute shell commands or write code.''\<rparr>,
       \<lparr>sp_id = ''omc'', sp_source = ''omc'', sp_name = ''omc_critic'',
         sp_description = ''Adversarial review of implementation plans and proposed code diffs.'', sp_model = None,
         sp_tools = None, sp_delegation = None,
         sp_differences = ''Strict leaf agent that cannot spawn nested subagents.''\<rparr>,
       \<lparr>sp_id = ''omo-momus'', sp_source = ''omo'', sp_name = ''omo_momus'',
         sp_description = ''Clean-room adversarial challenger identifying subtle regression risks.'',
         sp_model = Some \<lparr>mo_preferred = None, mo_tier = Some Reasoning, mo_effort = Some HighEffort, mo_exact = None, mo_fallback = None\<rparr>,
         sp_tools = None, sp_delegation = None,
         sp_differences = ''Clean-room persona specification strictly bounded to critique generation.''\<rparr>],
     ro_default = ''default'',
     ro_differences = ''Read-only tool sandbox; cannot execute shell commands or write code.'',
     ro_custom = None\<rparr>"

definition role_debugger :: agent_role where
  "role_debugger = \<lparr>
     ro_id = ''omcu-agent-debugger'', ro_name = ''omcu-debugger'', ro_file = ''agents/omcu-debugger.md'',
     ro_fallback = Some ''agents/debugger.md'',
     ro_aliases = [''debugger'', ''omc_debugger'', ''omc-debugger'', ''omx_debugger'', ''omx-debugger'', ''tracer'',
       ''omx_tracer'', ''omx-tracer''],
     ro_mode = ''either'', ro_category = ''debugging'',
     ro_model = \<lparr>mr_preferred = Some ''claude-3-5-sonnet'', mr_tier = Smart, mr_effort = Some MediumEffort, mr_exact = None, mr_fallback = [Fast]\<rparr>,
     ro_tools = \<lparr>tp_allow = [''read_file'', ''grep_search'', ''find_by_name'', ''list_dir'', ''run_command''],
       tp_deny = [''write_to_file'', ''replace_file_content''], tp_classes = [ReadTools, ShellTools],
       tp_scope = ScopeNone\<rparr>,
     ro_delegation = \<lparr>dp_can = False, dp_depth = 0, dp_roles = None\<rparr>,
     ro_eligibility = \<lparr>el_local = True, el_cloud = True, el_background = True, el_team = True, el_reason = None\<rparr>,
     ro_workspace = \<lparr>wp_worktree = False, wp_isolation = ReadOnly\<rparr>,
     ro_context = \<lparr>cx_skills = [], cx_rules = [''oh-my-cursor'']\<rparr>,
     ro_artifacts = \<lparr>ac_inputs = [''error-log'', ''stack-trace''], ac_outputs = [''root-cause-analysis''], ac_pattern = Some ''.omcu/artifacts/debug-*.md''\<rparr>,
     ro_profiles = [
       \<lparr>sp_id = ''default'', sp_source = ''omcu'', sp_name = ''omcu-debugger'',
         sp_description = ''Root cause investigation and diagnostic reproduction without code mutation.'',
         sp_model = None, sp_tools = None, sp_delegation = None,
         sp_differences = ''Diagnostic command execution allowed; source mutation forbidden.''\<rparr>,
       \<lparr>sp_id = ''omc'', sp_source = ''omc'', sp_name = ''omc_debugger'',
         sp_description = ''Call stack tracing, failure isolation, and regression verification.'', sp_model = None,
         sp_tools = None, sp_delegation = None,
         sp_differences = ''Isolated diagnostic sandbox with read-only repository view.''\<rparr>,
       \<lparr>sp_id = ''omx'', sp_source = ''omx'', sp_name = ''omx_debugger'',
         sp_description = ''Systematic diagnostic hypothesis testing with structured error parsing.'', sp_model = None,
         sp_tools = None, sp_delegation = None,
         sp_differences = ''Integrates directly with Cursor test runner output streams.''\<rparr>,
       \<lparr>sp_id = ''omx-tracer'', sp_source = ''omx'', sp_name = ''omx-tracer'',
         sp_description = ''Call graph and data flow tracer analyzing execution paths.'', sp_model = None,
         sp_tools = None, sp_delegation = None,
         sp_differences = ''Produces structured telemetry records without interactive pty.''\<rparr>],
     ro_default = ''default'',
     ro_differences = ''Equipped with structured diagnostic tools and vitest runners; cannot edit code.'',
     ro_custom = None\<rparr>"

definition role_executor :: agent_role where
  "role_executor = \<lparr>
     ro_id = ''omcu-agent-executor'', ro_name = ''omcu-executor'', ro_file = ''agents/omcu-executor.md'',
     ro_fallback = Some ''agents/executor.md'',
     ro_aliases = [''executor'', ''implementer'', ''omcu-implementer'', ''omc_executor'', ''omx_executor'', ''junior'',
       ''omo_junior'', ''hephaestus'', ''omo_hephaestus''],
     ro_mode = ''either'', ro_category = ''execution'',
     ro_model = \<lparr>mr_preferred = Some ''claude-3-5-sonnet'', mr_tier = Smart, mr_effort = None, mr_exact = None, mr_fallback = [Fast]\<rparr>,
     ro_tools = \<lparr>tp_allow = [''read_file'', ''grep_search'', ''find_by_name'', ''list_dir'', ''write_to_file'', ''replace_file_content'', ''run_command''],
       tp_deny = [], tp_classes = [ReadTools, WriteTools, ShellTools], tp_scope = ScopeAll\<rparr>,
     ro_delegation = \<lparr>dp_can = False, dp_depth = 0, dp_roles = None\<rparr>,
     ro_eligibility = \<lparr>el_local = True, el_cloud = True, el_background = True, el_team = True, el_reason = None\<rparr>,
     ro_workspace = \<lparr>wp_worktree = False, wp_isolation = Shared\<rparr>,
     ro_context = \<lparr>cx_skills = [], cx_rules = [''oh-my-cursor'']\<rparr>,
     ro_artifacts = \<lparr>ac_inputs = [''plan-step'', ''spec''], ac_outputs = [''execution-diff'', ''receipt''], ac_pattern = Some ''.omcu/artifacts/exec-*.json''\<rparr>,
     ro_profiles = [
       \<lparr>sp_id = ''default'', sp_source = ''omcu'', sp_name = ''omcu-executor'',
         sp_description = ''Scoped code modifications strictly following implementation plan.'', sp_model = None,
         sp_tools = None, sp_delegation = None,
         sp_differences = ''Enforces generation fencing and atomic transaction boundaries.''\<rparr>,
       \<lparr>sp_id = ''omc'', sp_source = ''omc'', sp_name = ''omc_executor'',
         sp_description = ''Generation-fenced code changes with atomic state recording.'', sp_model = None,
         sp_tools = None, sp_delegation = None,
         sp_differences = ''Relies on OMCU atomic file transactions instead of external shell lock.''\<rparr>,
       \<lparr>sp_id = ''omx'', sp_source = ''omx'', sp_name = ''omx_executor'',
         sp_description = ''Direct targeted implementation preserving test invariants.'', sp_model = None,
         sp_tools = None, sp_delegation = None,
         sp_differences = ''Bound to local worktree directory or explicit change list.''\<rparr>,
       \<lparr>sp_id = ''omo-junior'', sp_source = ''omo'', sp_name = ''omo_junior'',
         sp_description = ''Fast scoped code modifications with low token overhead.'',
         sp_model = Some \<lparr>mo_preferred = None, mo_tier = Some Fast, mo_effort = None, mo_exact = None, mo_fallback = Some [Smart]\<rparr>,
         sp_tools = None, sp_delegation = None,
         sp_differences = ''Prioritizes lightweight low-cost models for simple execution steps.''\<rparr>,
       \<lparr>sp_id = ''omo-hephaestus'', sp_source = ''omo'', sp_name = ''omo_hephaestus'',
         sp_description = ''Clean-room comprehensive builder implementing multi-file feature sets.'',
         sp_model = Some \<lparr>mo_preferred = None, mo_tier = Some Smart, mo_effort = None, mo_exact = None, mo_fallback = None\<rparr>,
         sp_tools = None, sp_delegation = None,
         sp_differences = ''Clean-room implementation persona adhering to architectural plan.''\<rparr>],
     ro_default = ''default'',
     ro_differences = ''Subject to OMCU lease boundaries and generation fencing.'',
     ro_custom = None\<rparr>"

definition role_explorer :: agent_role where
  "role_explorer = \<lparr>
     ro_id = ''omcu-agent-explore'', ro_name = ''omcu-explorer'', ro_file = ''agents/omcu-explorer.md'',
     ro_fallback = Some ''agents/explorer.md'',
     ro_aliases = [''explorer'', ''explore'', ''omcu-explore'', ''omc_explore'', ''omx_explore'', ''hermes'', ''omo_hermes''],
     ro_mode = ''subagent'', ro_category = ''reconnaissance'',
     ro_model = \<lparr>mr_preferred = Some ''claude-3-5-haiku'', mr_tier = Fast, mr_effort = None, mr_exact = None, mr_fallback = [Smart]\<rparr>,
     ro_tools = \<lparr>tp_allow = [''read_file'', ''grep_search'', ''find_by_name'', ''list_dir''],
       tp_deny = [''write_to_file'', ''replace_file_content'', ''run_command''], tp_classes = [ReadTools],
       tp_scope = ScopeNone\<rparr>,
     ro_delegation = \<lparr>dp_can = False, dp_depth = 0, dp_roles = None\<rparr>,
     ro_eligibility = \<lparr>el_local = True, el_cloud = True, el_background = True, el_team = True, el_reason = None\<rparr>,
     ro_workspace = \<lparr>wp_worktree = False, wp_isolation = ReadOnly\<rparr>,
     ro_context = \<lparr>cx_skills = [], cx_rules = [''oh-my-cursor'']\<rparr>,
     ro_artifacts = \<lparr>ac_inputs = [''query'', ''scope''], ac_outputs = [''reconnaissance-report''], ac_pattern = Some ''.omcu/artifacts/explore-*.md''\<rparr>,
     ro_profiles = [
       \<lparr>sp_id = ''default'', sp_source = ''omcu'', sp_name = ''omcu-explorer'',
         sp_description = ''Fast repository reconnaissance and symbol discovery without file edits.'', sp_model = None,
         sp_tools = None, sp_delegation = None,
         sp_differences = ''Scoped with read-only tools and symbol grep utilities.''\<rparr>,
       \<lparr>sp_id = ''omc'', sp_source = ''omc'', sp_name = ''omc_explore'',
         sp_description = ''Codebase reconnaissance mapping directories, types, and dependencies.'', sp_model = None,
         sp_tools = None, sp_delegation = None, sp_differences = ''Subagent runtime with zero mutation capability.''\<rparr>,
       \<lparr>sp_id = ''omx'', sp_source = ''omx'', sp_name = ''omx_explore'',
         sp_description = ''Structural symbol grep and pattern reconnaissance across files.'', sp_model = None,
         sp_tools = None, sp_delegation = None,
         sp_differences = ''Uses native Cursor file indexing instead of background python processes.''\<rparr>,
       \<lparr>sp_id = ''omo-hermes'', sp_source = ''omo'', sp_name = ''omo_hermes'',
         sp_description = ''Clean-room fast reconnaissance messenger mapping codebase topology.'',
         sp_model = Some \<lparr>mo_preferred = None, mo_tier = Some Fast, mo_effort = None, mo_exact = None, mo_fallback = None\<rparr>,
         sp_tools = None, sp_delegation = None,
         sp_differences = ''Clean-room exploration persona strictly bounded to fast information gathering.''\<rparr>],
     ro_default = ''default'',
     ro_differences = ''Scoped with read-only tools and symbol grep utilities.'',
     ro_custom = None\<rparr>"

definition role_planner :: agent_role where
  "role_planner = \<lparr>
     ro_id = ''omcu-agent-planner'', ro_name = ''omcu-planner'', ro_file = ''agents/omcu-planner.md'',
     ro_fallback = Some ''agents/planner.md'',
     ro_aliases = [''planner'', ''omc_planner'', ''omx_planner'', ''prometheus'', ''omo_prometheus''],
     ro_mode = ''either'', ro_category = ''planning'',
     ro_model = \<lparr>mr_preferred = Some ''claude-3-7-sonnet-thought'', mr_tier = Reasoning, mr_effort = Some HighEffort, mr_exact = None, mr_fallback = [Smart]\<rparr>,
     ro_tools = \<lparr>tp_allow = [''read_file'', ''grep_search'', ''find_by_name'', ''list_dir'', ''write_to_file'', ''replace_file_content''],
       tp_deny = [''run_command''], tp_classes = [ReadTools, WriteTools], tp_scope = MarkdownOnly\<rparr>,
     ro_delegation = \<lparr>dp_can = True, dp_depth = 1, dp_roles = Some [''omcu-explorer'']\<rparr>,
     ro_eligibility = \<lparr>el_local = True, el_cloud = True, el_background = False, el_team = True, el_reason = None\<rparr>,
     ro_workspace = \<lparr>wp_worktree = False, wp_isolation = Shared\<rparr>,
     ro_context = \<lparr>cx_skills = [''omcu-ralplan''], cx_rules = [''oh-my-cursor'']\<rparr>,
     ro_artifacts = \<lparr>ac_inputs = [''task'', ''context''], ac_outputs = [''plan-dag'', ''milestones''], ac_pattern = Some ''.omcu/artifacts/plan-*.md''\<rparr>,
     ro_profiles = [
       \<lparr>sp_id = ''default'', sp_source = ''omcu'', sp_name = ''omcu-planner'',
         sp_description = ''Build a file-level implementation plan from repository evidence.'', sp_model = None,
         sp_tools = None, sp_delegation = None,
         sp_differences = ''Generates structured JSON task DAGs; write scope limited to markdown.''\<rparr>,
       \<lparr>sp_id = ''omc'', sp_source = ''omc'', sp_name = ''omc_planner'',
         sp_description = ''Dependency-ordered DAG batch task generation for workflow coordination.'', sp_model = None,
         sp_tools = None, sp_delegation = None,
         sp_differences = ''Outputs compatible with Cursor DAG runner and cookbook executor.''\<rparr>,
       \<lparr>sp_id = ''omx'', sp_source = ''omx'', sp_name = ''omx_planner'',
         sp_description = ''Step-by-step phased execution plan with strict acceptance criteria.'', sp_model = None,
         sp_tools = None, sp_delegation = None,
         sp_differences = ''Encapsulated into Markdown artifacts without invoking shell scripts.''\<rparr>,
       \<lparr>sp_id = ''omo-prometheus'', sp_source = ''omo'', sp_name = ''omo_prometheus'',
         sp_description = ''Clean-room foresight planner synthesizing requirements into verifiable milestones.'',
         sp_model = Some \<lparr>mo_preferred = None, mo_tier = Some Reasoning, mo_effort = Some HighEffort, mo_exact = None, mo_fallback = None\<rparr>,
         sp_tools = None, sp_delegation = None,
         sp_differences = ''Clean-room planning persona with strict milestone decomposition.''\<rparr>],
     ro_default = ''default'',
     ro_differences = ''Generates structured JSON task DAGs compatible with cookbook runner.'',
     ro_custom = None\<rparr>"

definition role_qa_tester :: agent_role where
  "role_qa_tester = \<lparr>
     ro_id = ''omcu-agent-qa-tester'', ro_name = ''omcu-qa-tester'', ro_file = ''agents/omcu-qa-tester.md'',
     ro_fallback = Some ''agents/qa-tester.md'',
     ro_aliases = [''qa-tester'', ''qa'', ''omcu-qa'', ''omc_qa_tester'', ''omx_qa_tester'', ''athena'', ''omo_athena''],
     ro_mode = ''either'', ro_category = ''testing'',
     ro_model = \<lparr>mr_preferred = Some ''claude-3-5-sonnet'', mr_tier = Smart, mr_effort = Some MediumEffort, mr_exact = None, mr_fallback = [Fast]\<rparr>,
     ro_tools = \<lparr>tp_allow = [''read_file'', ''grep_search'', ''find_by_name'', ''list_dir'', ''write_to_file'', ''replace_file_content'', ''run_command''],
       tp_deny = [], tp_classes = [ReadTools, WriteTools, ShellTools], tp_scope = ScopeAll\<rparr>,
     ro_delegation = \<lparr>dp_can = False, dp_depth = 0, dp_roles = None\<rparr>,
     ro_eligibility = \<lparr>el_local = True, el_cloud = True, el_background = True, el_team = True, el_reason = None\<rparr>,
     ro_workspace = \<lparr>wp_worktree = False, wp_isolation = Shared\<rparr>,
     ro_context = \<lparr>cx_skills = [''omcu-qa''], cx_rules = [''oh-my-cursor'']\<rparr>,
     ro_artifacts = \<lparr>ac_inputs = [''specification'', ''implementation''], ac_outputs = [''test-suite'', ''qa-verdict''], ac_pattern = Some ''.omcu/artifacts/qa-*.json''\<rparr>,
     ro_profiles = [
       \<lparr>sp_id = ''default'', sp_source = ''omcu'', sp_name = ''omcu-qa-tester'',
         sp_description = ''Adversarial dynamic test execution and failure reproduction.'', sp_model = None,
         sp_tools = None, sp_delegation = None,
         sp_differences = ''Adheres to repository-specific Vitest suites with isolated temporary directories.''\<rparr>,
       \<lparr>sp_id = ''omc'', sp_source = ''omc'', sp_name = ''omc_qa_tester'',
         sp_description = ''Automated test suite authoring and adversarial boundary checking.'', sp_model = None,
         sp_tools = None, sp_delegation = None,
         sp_differences = ''Constrained to test authoring and execution; no prod code modification.''\<rparr>,
       \<lparr>sp_id = ''omx'', sp_source = ''omx'', sp_name = ''omx_qa_tester'',
         sp_description = ''Dynamic test generation, failure reproduction, and regression detection.'', sp_model = None,
         sp_tools = None, sp_delegation = None,
         sp_differences = ''Executes via npm test runner without external container requirements.''\<rparr>,
       \<lparr>sp_id = ''omo-athena'', sp_source = ''omo'', sp_name = ''omo_athena'',
         sp_description = ''Clean-room strategic test validator and quality champion.'',
         sp_model = Some \<lparr>mo_preferred = None, mo_tier = Some Smart, mo_effort = None, mo_exact = None, mo_fallback = None\<rparr>,
         sp_tools = None, sp_delegation = None,
         sp_differences = ''Clean-room test validation persona emphasizing hostile boundary probing.''\<rparr>],
     ro_default = ''default'',
     ro_differences = ''Adheres to repository-specific Vitest unit and integration suites.'',
     ro_custom = None\<rparr>"

definition role_scientist :: agent_role where
  "role_scientist = \<lparr>
     ro_id = ''omcu-agent-scientist'', ro_name = ''omcu-scientist'', ro_file = ''agents/omcu-scientist.md'',
     ro_fallback = Some ''agents/scientist.md'',
     ro_aliases = [''scientist'', ''omc_scientist'', ''omx_scientist''],
     ro_mode = ''subagent'', ro_category = ''research'',
     ro_model = \<lparr>mr_preferred = Some ''claude-3-7-sonnet-thought'', mr_tier = Reasoning, mr_effort = Some MediumEffort, mr_exact = None, mr_fallback = [Smart]\<rparr>,
     ro_tools = \<lparr>tp_allow = [''read_file'', ''grep_search'', ''find_by_name'', ''list_dir'', ''run_command'', ''write_to_file'', ''replace_file_content''],
       tp_deny = [], tp_classes = [ReadTools, WriteTools, ShellTools], tp_scope = MarkdownOnly\<rparr>,
     ro_delegation = \<lparr>dp_can = False, dp_depth = 0, dp_roles = None\<rparr>,
     ro_eligibility = \<lparr>el_local = True, el_cloud = True, el_background = True, el_team = True, el_reason = None\<rparr>,
     ro_workspace = \<lparr>wp_worktree = False, wp_isolation = Shared\<rparr>,
     ro_context = \<lparr>cx_skills = [], cx_rules = [''oh-my-cursor'']\<rparr>,
     ro_artifacts = \<lparr>ac_inputs = [''hypothesis'', ''benchmark-spec''], ac_outputs = [''empirical-report'', ''telemetry''], ac_pattern = Some ''.omcu/artifacts/scientist-*.json''\<rparr>,
     ro_profiles = [
       \<lparr>sp_id = ''default'', sp_source = ''omcu'', sp_name = ''omcu-scientist'',
         sp_description = ''Conducts empirical benchmarking and hypothesis testing.'', sp_model = None, sp_tools = None,
         sp_delegation = None, sp_differences = ''Emits structured telemetry JSON to .omcu/artifacts/.''\<rparr>,
       \<lparr>sp_id = ''omc'', sp_source = ''omc'', sp_name = ''omc_scientist'',
         sp_description = ''Empirical experimentation and benchmark validation.'', sp_model = None, sp_tools = None,
         sp_delegation = None, sp_differences = ''Produces verifiable JSON artifacts instead of raw console output.''\<rparr>,
       \<lparr>sp_id = ''omx'', sp_source = ''omx'', sp_name = ''omx_scientist'',
         sp_description = ''Performance metrics capture and invariant proof.'', sp_model = None, sp_tools = None,
         sp_delegation = None, sp_differences = ''Bound to read-only benchmarks without persistent system mutation.''\<rparr>],
     ro_default = ''default'',
     ro_differences = ''Emits structured telemetry JSON to .omcu/artifacts/.'',
     ro_custom = None\<rparr>"

definition role_verifier :: agent_role where
  "role_verifier = \<lparr>
     ro_id = ''omcu-agent-verifier'', ro_name = ''omcu-verifier'', ro_file = ''agents/omcu-verifier.md'',
     ro_fallback = Some ''agents/verifier.md'',
     ro_aliases = [''verifier'', ''omc_verifier'', ''omx_verifier''],
     ro_mode = ''subagent'', ro_category = ''verification'',
     ro_model = \<lparr>mr_preferred = Some ''claude-3-7-sonnet-thought'', mr_tier = Reasoning, mr_effort = Some HighEffort, mr_exact = None, mr_fallback = [Smart]\<rparr>,
     ro_tools = \<lparr>tp_allow = [''read_file'', ''grep_search'', ''find_by_name'', ''list_dir'', ''run_command''],
       tp_deny = [''write_to_file'', ''replace_file_content''], tp_classes = [ReadTools, ShellTools],
       tp_scope = ScopeNone\<rparr>,
     ro_delegation = \<lparr>dp_can = False, dp_depth = 0, dp_roles = None\<rparr>,
     ro_eligibility = \<lparr>el_local = True, el_cloud = True, el_background = False, el_team = True, el_reason = None\<rparr>,
     ro_workspace = \<lparr>wp_worktree = False, wp_isolation = ReadOnly\<rparr>,
     ro_context = \<lparr>cx_skills = [''omcu-accept''], cx_rules = [''oh-my-cursor'']\<rparr>,
     ro_artifacts = \<lparr>ac_inputs = [''target-state'', ''proof-command''], ac_outputs = [''verification-verdict'', ''proof-log''], ac_pattern = Some ''.omcu/artifacts/verdict-*.json''\<rparr>,
     ro_profiles = [
       \<lparr>sp_id = ''default'', sp_source = ''omcu'', sp_name = ''omcu-verifier'',
         sp_description = ''Authoritative completion verifier requiring fresh build/test proof.'', sp_model = None,
         sp_tools = None, sp_delegation = None,
         sp_differences = ''Never self-approves unverified code; requires nonzero automated proof.''\<rparr>,
       \<lparr>sp_id = ''omc'', sp_source = ''omc'', sp_name = ''omc_verifier'',
         sp_description = ''Gatekeeper requiring nonzero automated proof before accepting changes.'', sp_model = None,
         sp_tools = None, sp_delegation = None,
         sp_differences = ''Read-only codebase access; write operations strictly forbidden.''\<rparr>,
       \<lparr>sp_id = ''omx'', sp_source = ''omx'', sp_name = ''omx_verifier'',
         sp_description = ''Release gatekeeper validating invariant checks and zero regression.'', sp_model = None,
         sp_tools = None, sp_delegation = None,
         sp_differences = ''Runs as a strict leaf validator in the verification stage.''\<rparr>],
     ro_default = ''default'',
     ro_differences = ''Never self-approves unverified code; requires nonzero automated proof.'',
     ro_custom = None\<rparr>"

definition role_writer :: agent_role where
  "role_writer = \<lparr>
     ro_id = ''omcu-agent-writer'', ro_name = ''omcu-writer'', ro_file = ''agents/omcu-writer.md'',
     ro_fallback = Some ''agents/writer.md'',
     ro_aliases = [''writer'', ''omc_writer'', ''omx_writer''],
     ro_mode = ''either'', ro_category = ''documentation'',
     ro_model = \<lparr>mr_preferred = Some ''claude-3-5-haiku'', mr_tier = Fast, mr_effort = None, mr_exact = None, mr_fallback = [Smart]\<rparr>,
     ro_tools = \<lparr>tp_allow = [''read_file'', ''grep_search'', ''find_by_name'', ''list_dir'', ''write_to_file'', ''replace_file_content''],
       tp_deny = [''run_command''], tp_classes = [ReadTools, WriteTools], tp_scope = MarkdownOnly\<rparr>,
     ro_delegation = \<lparr>dp_can = False, dp_depth = 0, dp_roles = None\<rparr>,
     ro_eligibility = \<lparr>el_local = True, el_cloud = True, el_background = True, el_team = True, el_reason = None\<rparr>,
     ro_workspace = \<lparr>wp_worktree = False, wp_isolation = Shared\<rparr>,
     ro_context = \<lparr>cx_skills = [], cx_rules = [''oh-my-cursor'']\<rparr>,
     ro_artifacts = \<lparr>ac_inputs = [''codebase-changes'', ''doc-scope''], ac_outputs = [''documentation-update'', ''changelog''], ac_pattern = Some ''docs/**''\<rparr>,
     ro_profiles = [
       \<lparr>sp_id = ''default'', sp_source = ''omcu'', sp_name = ''omcu-writer'',
         sp_description = ''Drafts technical documentation, guides, and changelogs.'', sp_model = None, sp_tools = None,
         sp_delegation = None,
         sp_differences = ''Scoped strictly to docs/ and markdown assets; shell access disabled.''\<rparr>,
       \<lparr>sp_id = ''omc'', sp_source = ''omc'', sp_name = ''omc_writer'',
         sp_description = ''Technical documentation authoring and documentation parity.'', sp_model = None,
         sp_tools = None, sp_delegation = None,
         sp_differences = ''Writes exclusively markdown files; code modification forbidden.''\<rparr>,
       \<lparr>sp_id = ''omx'', sp_source = ''omx'', sp_name = ''omx_writer'',
         sp_description = ''Release documentation, API docs, and architecture documentation.'', sp_model = None,
         sp_tools = None, sp_delegation = None,
         sp_differences = ''Single-purpose leaf agent with zero subprocess execution permissions.''\<rparr>],
     ro_default = ''default'',
     ro_differences = ''Scoped strictly to docs/ and markdown assets.'',
     ro_custom = None\<rparr>"

definition role_analyst :: agent_role where
  "role_analyst = \<lparr>
     ro_id = ''omcu-agent-analyst'', ro_name = ''omcu-analyst'', ro_file = ''agents/omcu-analyst.md'',
     ro_fallback = Some ''agents/analyst.md'',
     ro_aliases = [''analyst'', ''omx_analyst'', ''metis'', ''omo_metis''],
     ro_mode = ''subagent'', ro_category = ''analysis'',
     ro_model = \<lparr>mr_preferred = Some ''claude-3-5-sonnet'', mr_tier = Smart, mr_effort = None, mr_exact = None, mr_fallback = [Fast]\<rparr>,
     ro_tools = \<lparr>tp_allow = [''read_file'', ''grep_search'', ''find_by_name'', ''list_dir''],
       tp_deny = [''write_to_file'', ''replace_file_content'', ''run_command''], tp_classes = [ReadTools],
       tp_scope = ScopeNone\<rparr>,
     ro_delegation = \<lparr>dp_can = False, dp_depth = 0, dp_roles = None\<rparr>,
     ro_eligibility = \<lparr>el_local = True, el_cloud = True, el_background = False, el_team = True, el_reason = None\<rparr>,
     ro_workspace = \<lparr>wp_worktree = False, wp_isolation = ReadOnly\<rparr>,
     ro_context = \<lparr>cx_skills = [], cx_rules = [''oh-my-cursor'']\<rparr>,
     ro_artifacts = \<lparr>ac_inputs = [''user-prompt'', ''problem-statement''], ac_outputs = [''requirements-sheet'', ''acceptance-criteria''], ac_pattern = Some ''.omcu/artifacts/analyst-*.md''\<rparr>,
     ro_profiles = [
       \<lparr>sp_id = ''default'', sp_source = ''omcu'', sp_name = ''omcu-analyst'',
         sp_description = ''Analyzes user prompts and extracts formal acceptance criteria.'', sp_model = None,
         sp_tools = None, sp_delegation = None,
         sp_differences = ''Generates structured JSON/Markdown intake sheets without side effects.''\<rparr>,
       \<lparr>sp_id = ''omx'', sp_source = ''omx'', sp_name = ''omx_analyst'',
         sp_description = ''Intake and ambiguity analysis agent extracting formal criteria.'', sp_model = None,
         sp_tools = None, sp_delegation = None, sp_differences = ''Read-only intake without modifying project state.''\<rparr>,
       \<lparr>sp_id = ''omo-metis'', sp_source = ''omo'', sp_name = ''omo_metis'',
         sp_description = ''Clean-room user intent clarification, edge-case discovery, and intake sheets.'',
         sp_model = Some \<lparr>mo_preferred = None, mo_tier = Some Smart, mo_effort = None, mo_exact = None, mo_fallback = None\<rparr>,
         sp_tools = None, sp_delegation = None,
         sp_differences = ''Clean-room analysis persona clarifying ambiguous user requirements.''\<rparr>],
     ro_default = ''default'',
     ro_differences = ''Generates structured JSON/Markdown intake sheets.'',
     ro_custom = None\<rparr>"

definition role_build_fixer :: agent_role where
  "role_build_fixer = \<lparr>
     ro_id = ''omcu-agent-build-fixer'', ro_name = ''omcu-build-fixer'', ro_file = ''agents/omcu-build-fixer.md'',
     ro_fallback = Some ''agents/build-fixer.md'',
     ro_aliases = [''build-fixer'', ''omx_build_fixer''],
     ro_mode = ''subagent'', ro_category = ''debugging'',
     ro_model = \<lparr>mr_preferred = Some ''claude-3-5-haiku'', mr_tier = Fast, mr_effort = None, mr_exact = None, mr_fallback = [Smart]\<rparr>,
     ro_tools = \<lparr>tp_allow = [''read_file'', ''grep_search'', ''find_by_name'', ''list_dir'', ''write_to_file'', ''replace_file_content'', ''run_command''],
       tp_deny = [], tp_classes = [ReadTools, WriteTools, ShellTools], tp_scope = PathScoped\<rparr>,
     ro_delegation = \<lparr>dp_can = False, dp_depth = 0, dp_roles = None\<rparr>,
     ro_eligibility = \<lparr>el_local = True, el_cloud = True, el_background = True, el_team = True, el_reason = None\<rparr>,
     ro_workspace = \<lparr>wp_worktree = False, wp_isolation = Shared\<rparr>,
     ro_context = \<lparr>cx_skills = [], cx_rules = [''oh-my-cursor'']\<rparr>,
     ro_artifacts = \<lparr>ac_inputs = [''compiler-error'', ''diagnostic-span''], ac_outputs = [''build-fix-diff''], ac_pattern = Some ''.omcu/artifacts/build-fix-*.json''\<rparr>,
     ro_profiles = [
       \<lparr>sp_id = ''default'', sp_source = ''omcu'', sp_name = ''omcu-build-fixer'',
         sp_description = ''Applies minimal non-behavioral diffs to resolve compiler/type errors.'', sp_model = None,
         sp_tools = None, sp_delegation = None,
         sp_differences = ''Restricted to touch only lines identified by compiler error spans.''\<rparr>,
       \<lparr>sp_id = ''omx'', sp_source = ''omx'', sp_name = ''omx_build_fixer'',
         sp_description = ''Minimal diff compiler error fixer with rollback guarantee on persistent error.'',
         sp_model = None, sp_tools = None, sp_delegation = None,
         sp_differences = ''Restricted to error span paths; never refactors surrounding code.''\<rparr>],
     ro_default = ''default'',
     ro_differences = ''Restricted to touch only lines identified by compiler error spans.'',
     ro_custom = None\<rparr>"

definition role_code_simplifier :: agent_role where
  "role_code_simplifier = \<lparr>
     ro_id = ''omcu-agent-code-simplifier'', ro_name = ''omcu-code-simplifier'', ro_file = ''agents/omcu-code-simplifier.md'',
     ro_fallback = Some ''agents/code-simplifier.md'',
     ro_aliases = [''code-simplifier'', ''omx_code_simplifier''],
     ro_mode = ''subagent'', ro_category = ''refactoring'',
     ro_model = \<lparr>mr_preferred = Some ''claude-3-5-sonnet'', mr_tier = Smart, mr_effort = None, mr_exact = None, mr_fallback = [Fast]\<rparr>,
     ro_tools = \<lparr>tp_allow = [''read_file'', ''grep_search'', ''find_by_name'', ''list_dir'', ''write_to_file'', ''replace_file_content'', ''run_command''],
       tp_deny = [], tp_classes = [ReadTools, WriteTools, ShellTools], tp_scope = ScopeAll\<rparr>,
     ro_delegation = \<lparr>dp_can = False, dp_depth = 0, dp_roles = None\<rparr>,
     ro_eligibility = \<lparr>el_local = True, el_cloud = True, el_background = True, el_team = True, el_reason = None\<rparr>,
     ro_workspace = \<lparr>wp_worktree = False, wp_isolation = Shared\<rparr>,
     ro_context = \<lparr>cx_skills = [], cx_rules = [''oh-my-cursor'']\<rparr>,
     ro_artifacts = \<lparr>ac_inputs = [''target-file'', ''complexity-metric''], ac_outputs = [''simplified-diff'', ''invariant-proof''], ac_pattern = Some ''.omcu/artifacts/simplify-*.json''\<rparr>,
     ro_profiles = [
       \<lparr>sp_id = ''default'', sp_source = ''omcu'', sp_name = ''omcu-code-simplifier'',
         sp_description = ''Reduces cyclomatic complexity and dead code while preserving test invariants.'',
         sp_model = None, sp_tools = None, sp_delegation = None,
         sp_differences = ''Requires full test suite pass before and after each simplification step.''\<rparr>,
       \<lparr>sp_id = ''omx'', sp_source = ''omx'', sp_name = ''omx_code_simplifier'',
         sp_description = ''Bounded complexity reduction without behavior change.'', sp_model = None, sp_tools = None,
         sp_delegation = None, sp_differences = ''Reverts changes automatically if any existing test fails.''\<rparr>],
     ro_default = ''default'',
     ro_differences = ''Requires full test suite pass before and after each simplification step.'',
     ro_custom = None\<rparr>"

definition role_git_master :: agent_role where
  "role_git_master = \<lparr>
     ro_id = ''omcu-agent-git-master'', ro_name = ''omcu-git-master'', ro_file = ''agents/omcu-git-master.md'',
     ro_fallback = Some ''agents/git-master.md'',
     ro_aliases = [''git-master'', ''omx_git_master''],
     ro_mode = ''either'', ro_category = ''operations'',
     ro_model = \<lparr>mr_preferred = Some ''claude-3-5-haiku'', mr_tier = Fast, mr_effort = None, mr_exact = None, mr_fallback = [Smart]\<rparr>,
     ro_tools = \<lparr>tp_allow = [''read_file'', ''grep_search'', ''find_by_name'', ''list_dir'', ''run_command''],
       tp_deny = [''write_to_file'', ''replace_file_content''], tp_classes = [ReadTools, ShellTools],
       tp_scope = ScopeNone\<rparr>,
     ro_delegation = \<lparr>dp_can = False, dp_depth = 0, dp_roles = None\<rparr>,
     ro_eligibility = \<lparr>el_local = True, el_cloud = False, el_background = False, el_team = False, el_reason = Some ''Git operations require exclusive repository lock and cannot run in parallel teams.''\<rparr>,
     ro_workspace = \<lparr>wp_worktree = False, wp_isolation = Shared\<rparr>,
     ro_context = \<lparr>cx_skills = [], cx_rules = [''oh-my-cursor'']\<rparr>,
     ro_artifacts = \<lparr>ac_inputs = [''staged-diff'', ''branch-name''], ac_outputs = [''atomic-commit'', ''branch-log''], ac_pattern = Some ''.omcu/artifacts/git-*.json''\<rparr>,
     ro_profiles = [
       \<lparr>sp_id = ''default'', sp_source = ''omcu'', sp_name = ''omcu-git-master'',
         sp_description = ''Enforces imperative commit conventions, branch isolation, and atomic commits.'',
         sp_model = None, sp_tools = None, sp_delegation = None,
         sp_differences = ''Runs locally with reflog protection; ineligible for parallel team execution.''\<rparr>,
       \<lparr>sp_id = ''omx'', sp_source = ''omx'', sp_name = ''omx_git_master'',
         sp_description = ''Atomic commit author and branch hygiene expert.'', sp_model = None, sp_tools = None,
         sp_delegation = None,
         sp_differences = ''Operates directly with git lock guards; cannot mutate un-staged files.''\<rparr>],
     ro_default = ''default'',
     ro_differences = ''Ineligible for parallel team orchestration; enforces single-threaded repo git lock.'',
     ro_custom = None\<rparr>"

definition role_lead :: agent_role where
  "role_lead = \<lparr>
     ro_id = ''omcu-agent-lead'', ro_name = ''omcu-lead'', ro_file = ''agents/omcu-lead.md'',
     ro_fallback = Some ''agents/lead.md'',
     ro_aliases = [''lead'', ''omo_lead''],
     ro_mode = ''primary'', ro_category = ''coordination'',
     ro_model = \<lparr>mr_preferred = Some ''claude-3-7-sonnet-thought'', mr_tier = Reasoning, mr_effort = Some HighEffort, mr_exact = None, mr_fallback = [Smart]\<rparr>,
     ro_tools = \<lparr>tp_allow = [''read_file'', ''grep_search'', ''find_by_name'', ''list_dir'', ''write_to_file'', ''replace_file_content'', ''run_command''],
       tp_deny = [], tp_classes = [ReadTools, WriteTools, ShellTools], tp_scope = ScopeAll\<rparr>,
     ro_delegation = \<lparr>dp_can = True, dp_depth = 1, dp_roles = Some [''omcu-worker'', ''omcu-inspector'', ''omcu-explorer'']\<rparr>,
     ro_eligibility = \<lparr>el_local = True, el_cloud = True, el_background = True, el_team = True, el_reason = None\<rparr>,
     ro_workspace = \<lparr>wp_worktree = False, wp_isolation = Shared\<rparr>,
     ro_context = \<lparr>cx_skills = [], cx_rules = [''oh-my-cursor'']\<rparr>,
     ro_artifacts = \<lparr>ac_inputs = [''project-goal'', ''task-list''], ac_outputs = [''worktree-manifest'', ''lead-synthesis''], ac_pattern = Some ''.omcu/artifacts/lead-*.json''\<rparr>,
     ro_profiles = [
       \<lparr>sp_id = ''default'', sp_source = ''omcu'', sp_name = ''omcu-lead'',
         sp_description = ''Coordinates subagents running in separate worktrees and merges results.'', sp_model = None,
         sp_tools = None, sp_delegation = None, sp_differences = ''Clean-room independent persona specification.''\<rparr>,
       \<lparr>sp_id = ''omo-lead'', sp_source = ''omo'', sp_name = ''omo_lead'',
         sp_description = ''Clean-room multi-worktree orchestrator allocating tasks and evaluating completions.'',
         sp_model = Some \<lparr>mo_preferred = None, mo_tier = Some Reasoning, mo_effort = Some HighEffort, mo_exact = None, mo_fallback = None\<rparr>,
         sp_tools = None, sp_delegation = None,
         sp_differences = ''Clean-room persona coordinating isolated worktree workers.''\<rparr>],
     ro_default = ''default'',
     ro_differences = ''Clean-room independent persona specification coordinating Cursor subagents.'',
     ro_custom = None\<rparr>"

definition role_worker :: agent_role where
  "role_worker = \<lparr>
     ro_id = ''omcu-agent-worker'', ro_name = ''omcu-worker'', ro_file = ''agents/omcu-worker.md'',
     ro_fallback = Some ''agents/worker.md'',
     ro_aliases = [''worker'', ''omo_worker''],
     ro_mode = ''subagent'', ro_category = ''execution'',
     ro_model = \<lparr>mr_preferred = Some ''claude-3-5-sonnet'', mr_tier = Smart, mr_effort = None, mr_exact = None, mr_fallback = [Fast]\<rparr>,
     ro_tools = \<lparr>tp_allow = [''read_file'', ''grep_search'', ''find_by_name'', ''list_dir'', ''write_to_file'', ''replace_file_content'', ''run_command''],
       tp_deny = [], tp_classes = [ReadTools, WriteTools, ShellTools], tp_scope = WorktreeOnly\<rparr>,
     ro_delegation = \<lparr>dp_can = False, dp_depth = 0, dp_roles = None\<rparr>,
     ro_eligibility = \<lparr>el_local = True, el_cloud = True, el_background = True, el_team = True, el_reason = None\<rparr>,
     ro_workspace = \<lparr>wp_worktree = True, wp_isolation = IsolatedWorktree\<rparr>,
     ro_context = \<lparr>cx_skills = [], cx_rules = [''oh-my-cursor'']\<rparr>,
     ro_artifacts = \<lparr>ac_inputs = [''worktree-task'', ''worktree-path''], ac_outputs = [''worktree-commit'', ''task-receipt''], ac_pattern = Some ''.omcu/artifacts/worker-*.json''\<rparr>,
     ro_profiles = [
       \<lparr>sp_id = ''default'', sp_source = ''omcu'', sp_name = ''omcu-worker'',
         sp_description = ''Executes coding tasks confined strictly to assigned worktree directory.'', sp_model = None,
         sp_tools = None, sp_delegation = None, sp_differences = ''Clean-room independent persona specification.''\<rparr>,
       \<lparr>sp_id = ''omo-worker'', sp_source = ''omo'', sp_name = ''omo_worker'',
         sp_description = ''Clean-room isolated worktree worker operating inside designated worktree.'',
         sp_model = Some \<lparr>mo_preferred = None, mo_tier = Some Smart, mo_effort = None, mo_exact = None, mo_fallback = None\<rparr>,
         sp_tools = None, sp_delegation = None,
         sp_differences = ''Strict worktree boundary enforcement with zero escape to parent repository.''\<rparr>],
     ro_default = ''default'',
     ro_differences = ''Clean-room independent persona specification; restricted to worktree directory.'',
     ro_custom = None\<rparr>"

definition role_inspector :: agent_role where
  "role_inspector = \<lparr>
     ro_id = ''omcu-agent-inspector'', ro_name = ''omcu-inspector'', ro_file = ''agents/omcu-inspector.md'',
     ro_fallback = Some ''agents/inspector.md'',
     ro_aliases = [''inspector'', ''omo_inspector'', ''argus'', ''omo_argus''],
     ro_mode = ''subagent'', ro_category = ''review'',
     ro_model = \<lparr>mr_preferred = Some ''claude-3-5-sonnet'', mr_tier = Smart, mr_effort = None, mr_exact = None, mr_fallback = [Fast]\<rparr>,
     ro_tools = \<lparr>tp_allow = [''read_file'', ''grep_search'', ''find_by_name'', ''list_dir''],
       tp_deny = [''write_to_file'', ''replace_file_content'', ''run_command''], tp_classes = [ReadTools],
       tp_scope = ScopeNone\<rparr>,
     ro_delegation = \<lparr>dp_can = False, dp_depth = 0, dp_roles = None\<rparr>,
     ro_eligibility = \<lparr>el_local = True, el_cloud = True, el_background = False, el_team = True, el_reason = None\<rparr>,
     ro_workspace = \<lparr>wp_worktree = False, wp_isolation = ReadOnly\<rparr>,
     ro_context = \<lparr>cx_skills = [], cx_rules = [''oh-my-cursor'']\<rparr>,
     ro_artifacts = \<lparr>ac_inputs = [''worktree-branch'', ''contract-spec''], ac_outputs = [''audit-verdict''], ac_pattern = Some ''.omcu/artifacts/inspector-*.json''\<rparr>,
     ro_profiles = [
       \<lparr>sp_id = ''default'', sp_source = ''omcu'', sp_name = ''omcu-inspector'',
         sp_description = ''Performs isolated read-only audit of completed worktree branches against contracts.'',
         sp_model = None, sp_tools = None, sp_delegation = None,
         sp_differences = ''Clean-room independent persona specification; strictly read-only inspection.''\<rparr>,
       \<lparr>sp_id = ''omo-inspector'', sp_source = ''omo'', sp_name = ''omo_inspector'',
         sp_description = ''Clean-room contract audit of isolated worktrees before merge.'', sp_model = None,
         sp_tools = None, sp_delegation = None,
         sp_differences = ''Evaluates branch diffs against contracts without modifying working tree.''\<rparr>,
       \<lparr>sp_id = ''omo-argus'', sp_source = ''omo'', sp_name = ''omo_argus'',
         sp_description = ''Clean-room deep invariant inspector guarding system boundaries and contracts.'',
         sp_model = Some \<lparr>mo_preferred = None, mo_tier = Some Smart, mo_effort = None, mo_exact = None, mo_fallback = None\<rparr>,
         sp_tools = None, sp_delegation = None,
         sp_differences = ''Clean-room persona guarding contract invariants and API consistency.''\<rparr>],
     ro_default = ''default'',
     ro_differences = ''Clean-room independent persona specification; strictly read-only inspection.'',
     ro_custom = None\<rparr>"

definition role_reviewer :: agent_role where
  "role_reviewer = \<lparr>
     ro_id = ''omcu-agent-reviewer'', ro_name = ''omcu-reviewer'', ro_file = ''agents/omcu-reviewer.md'',
     ro_fallback = Some ''agents/reviewer.md'',
     ro_aliases = [''reviewer'', ''omc_reviewer'', ''omc-reviewer'', ''omx_reviewer'', ''omx-reviewer'', ''security-reviewer'',
       ''omcu-security-reviewer'', ''omx_security_reviewer'', ''omx-security-reviewer''],
     ro_mode = ''subagent'', ro_category = ''review'',
     ro_model = \<lparr>mr_preferred = Some ''claude-3-5-sonnet'', mr_tier = Smart, mr_effort = None, mr_exact = None, mr_fallback = [Fast]\<rparr>,
     ro_tools = \<lparr>tp_allow = [''read_file'', ''grep_search'', ''find_by_name'', ''list_dir''],
       tp_deny = [''write_to_file'', ''replace_file_content'', ''run_command''], tp_classes = [ReadTools],
       tp_scope = ScopeNone\<rparr>,
     ro_delegation = \<lparr>dp_can = False, dp_depth = 0, dp_roles = None\<rparr>,
     ro_eligibility = \<lparr>el_local = True, el_cloud = True, el_background = False, el_team = True, el_reason = None\<rparr>,
     ro_workspace = \<lparr>wp_worktree = False, wp_isolation = ReadOnly\<rparr>,
     ro_context = \<lparr>cx_skills = [], cx_rules = [''oh-my-cursor'']\<rparr>,
     ro_artifacts = \<lparr>ac_inputs = [''diff'', ''guidelines''], ac_outputs = [''review-feedback''], ac_pattern = Some ''.omcu/artifacts/review-*.md''\<rparr>,
     ro_profiles = [
       \<lparr>sp_id = ''default'', sp_source = ''omcu'', sp_name = ''omcu-reviewer'',
         sp_description = ''Review code changes for bugs, regression risk, and convention fit.'', sp_model = None,
         sp_tools = None, sp_delegation = None,
         sp_differences = ''Purely advisory feedback; cannot self-approve or write code.''\<rparr>,
       \<lparr>sp_id = ''omc'', sp_source = ''omc'', sp_name = ''omc_reviewer'',
         sp_description = ''Structured code review with actionable feedback.'', sp_model = None, sp_tools = None,
         sp_delegation = None, sp_differences = ''Read-only tool policy; no execution or file writes.''\<rparr>,
       \<lparr>sp_id = ''omx'', sp_source = ''omx'', sp_name = ''omx_reviewer'',
         sp_description = ''Dual-review verifier and diff safety auditor.'', sp_model = None, sp_tools = None,
         sp_delegation = None, sp_differences = ''Produces structured findings list with explicit severity tiers.''\<rparr>,
       \<lparr>sp_id = ''omx-security-reviewer'', sp_source = ''omx'', sp_name = ''omx-security-reviewer'',
         sp_description = ''Security and vulnerability auditor evaluating dependencies and attack surfaces.'',
         sp_model = None, sp_tools = None, sp_delegation = None,
         sp_differences = ''Read-only security review without executing untrusted code.''\<rparr>],
     ro_default = ''default'',
     ro_differences = ''Purely advisory feedback; cannot self-approve or write code.'',
     ro_custom = None\<rparr>"

definition role_provenance_agent :: agent_role where
  "role_provenance_agent = \<lparr>
     ro_id = ''omcu-agent-provenance-agent'', ro_name = ''omcu-provenance-agent'', ro_file = ''agents/omcu-provenance-agent.md'',
     ro_fallback = None,
     ro_aliases = [''provenance-agent''],
     ro_mode = ''subagent'', ro_category = ''verification'',
     ro_model = \<lparr>mr_preferred = None, mr_tier = Fast, mr_effort = None, mr_exact = None, mr_fallback = []\<rparr>,
     ro_tools = \<lparr>tp_allow = [''read_file''], tp_deny = [''write_to_file'', ''replace_file_content'', ''run_command''],
       tp_classes = [ReadTools], tp_scope = ScopeNone\<rparr>,
     ro_delegation = \<lparr>dp_can = False, dp_depth = 0, dp_roles = None\<rparr>,
     ro_eligibility = \<lparr>el_local = True, el_cloud = False, el_background = False, el_team = False, el_reason = Some ''Test fixture only''\<rparr>,
     ro_workspace = \<lparr>wp_worktree = False, wp_isolation = ReadOnly\<rparr>,
     ro_context = \<lparr>cx_skills = [], cx_rules = []\<rparr>,
     ro_artifacts = \<lparr>ac_inputs = [''nonce''], ac_outputs = [''provenance-ack''], ac_pattern = None\<rparr>,
     ro_profiles = [
       \<lparr>sp_id = ''default'', sp_source = ''omcu'', sp_name = ''omcu-provenance-agent'',
         sp_description = ''Provenance and role-policy verification custom agent.'', sp_model = None, sp_tools = None,
         sp_delegation = None, sp_differences = ''Single-purpose provenance probe fixture.''\<rparr>],
     ro_default = ''default'',
     ro_differences = ''Provenance and role-policy verification fixture.'',
     ro_custom = None\<rparr>"

definition CANONICAL_AGENT_ROLES :: "agent_role list" where
  "CANONICAL_AGENT_ROLES = [role_architect, role_critic, role_debugger, role_executor, role_explorer, role_planner, role_qa_tester,
     role_scientist, role_verifier, role_writer, role_analyst, role_build_fixer, role_code_simplifier,
     role_git_master, role_lead, role_worker, role_inspector, role_reviewer, role_provenance_agent]"

section \<open>Lookup\<close>

definition swap_char :: "char \<Rightarrow> char \<Rightarrow> string \<Rightarrow> string" where
  \<comment> \<open>\<^verbatim>\<open>replace(/a/g, 'b')\<close>\<close>
  "swap_char a b s = map (\<lambda>c. if c = a then b else c) s"

definition role_names :: "agent_role \<Rightarrow> string list" where
  "role_names r = ro_id r # ro_name r # ro_aliases r"

definition name_candidates :: "string \<Rightarrow> string list" where
  "name_candidates s = (let raw = to_lower (trim s) in [raw, swap_char (CHR ''_'') (CHR ''-'') raw, swap_char (CHR ''-'') (CHR ''_'') raw])"

definition get_agent_role :: "string \<Rightarrow> agent_role option" where
  "get_agent_role s = find (\<lambda>r. list_ex (\<lambda>c. c \<in> set (role_names r)) (name_candidates s)) CANONICAL_AGENT_ROLES"

definition list_agent_roles :: "string option \<Rightarrow> string option \<Rightarrow> agent_role list" where
  \<comment> \<open>the filters \<^verbatim>\<open>source\<close> and \<^verbatim>\<open>category\<close>, an empty one being absent\<close>
  "list_agent_roles source category = (let
     by_category = (case category of None \<Rightarrow> CANONICAL_AGENT_ROLES
       | Some c \<Rightarrow> if c = [] then CANONICAL_AGENT_ROLES else filter (\<lambda>r. ro_category r = to_lower c) CANONICAL_AGENT_ROLES)
   in case source of None \<Rightarrow> by_category
      | Some s \<Rightarrow> if s = [] \<or> s = ''all'' then by_category
          else filter (\<lambda>r. list_ex (\<lambda>p. to_lower (sp_source p) = to_lower s
            \<or> to_lower s = ''custom'' \<and> ro_custom r = Some True) (ro_profiles r)) by_category)"

datatype catalog_error = E_ROLE_NOT_FOUND string | E_PROFILE_NOT_FOUND string string

definition resolve_role_and_profile :: "string \<Rightarrow> string option \<Rightarrow> catalog_error + agent_role \<times> source_profile" where
  "resolve_role_and_profile role_name profile_name = (case get_agent_role role_name of
     None \<Rightarrow> Inl (E_ROLE_NOT_FOUND role_name)
   | Some role \<Rightarrow> (let
       requested = (case profile_name of None \<Rightarrow> ro_default role | Some p \<Rightarrow> to_lower (trim p));
       by_id = find (\<lambda>p. sp_id p = requested) (ro_profiles role);
       by_source = find (\<lambda>p. sp_source p = requested) (ro_profiles role);
       by_default = find (\<lambda>p. sp_id p = ro_default role) (ro_profiles role)
     in case (case by_id of Some p \<Rightarrow> Some p | None \<Rightarrow> (case by_source of Some p \<Rightarrow> Some p | None \<Rightarrow> by_default)) of
          None \<Rightarrow> Inl (E_PROFILE_NOT_FOUND requested (ro_name role))
        | Some p \<Rightarrow> Inr (role, p)))"

section \<open>Custom agents\<close>

definition is_newline :: "char \<Rightarrow> bool" where
  "is_newline c = (c = CHR 0x0A \<or> c = CHR 0x0D)"

fun line_starts :: "bool \<Rightarrow> string \<Rightarrow> string list" where
  \<comment> \<open>the suffixes of a text where \<^verbatim>\<open>^\<close> matches with the multiline flag\<close>
  "line_starts start [] = (if start then [[]] else [])"
| "line_starts start (c # s) = (if start then [c # s] else []) @ line_starts (is_newline c) s"

definition description_at :: "string \<Rightarrow> string option" where
  \<comment> \<open>the group of \<^verbatim>\<open>^description:\s*(.+)$\<close> at a line start: when only white space follows the colon, the
    expression gives one character of it back\<close>
  "description_at s = (if \<not> starts_with ''description:'' s then None else
     let r = drop 12 s; w = takeWhile is_ws r; rest = dropWhile is_ws r in
     if rest \<noteq> [] then Some (takeWhile (\<lambda>c. \<not> is_newline c) rest)
     else case filter (\<lambda>c. \<not> is_newline c) (rev w) of [] \<Rightarrow> None | c # _ \<Rightarrow> Some [c])"

definition custom_description :: "string \<Rightarrow> string" where
  "custom_description content = (case List.map_filter description_at (line_starts True content) of
     [] \<Rightarrow> ''Custom user agent'' | d # _ \<Rightarrow> trim d)"

definition custom_read_only :: "string \<Rightarrow> bool" where
  \<comment> \<open>\<^verbatim>\<open>/^readonly:\s*true/m\<close>\<close>
  "custom_read_only content = list_ex (\<lambda>s. starts_with ''readonly:'' s \<and> starts_with ''true'' (dropWhile is_ws (drop 9 s)))
     (line_starts True content)"

definition custom_agent :: "string \<Rightarrow> string \<Rightarrow> string \<Rightarrow> agent_role" where
  \<comment> \<open>from the directory, the name and the text of the file\<close>
  "custom_agent dir name content = (let ro = custom_read_only content in \<lparr>
     ro_id = ''custom-agent-'' @ name, ro_name = name, ro_file = dir @ ''/'' @ name @ ''.md'', ro_fallback = None,
     ro_aliases = [name], ro_mode = ''subagent'', ro_category = ''execution'',
     ro_model = \<lparr>mr_preferred = None, mr_tier = Smart, mr_effort = None, mr_exact = None, mr_fallback = [Fast]\<rparr>,
     ro_tools = \<lparr>tp_allow = (if ro then [''read_file'', ''grep_search'', ''find_by_name'', ''list_dir'']
         else [''read_file'', ''grep_search'', ''find_by_name'', ''list_dir'', ''write_to_file'', ''replace_file_content'']),
       tp_deny = (if ro then [''write_to_file'', ''replace_file_content'', ''run_command''] else []),
       tp_classes = (if ro then [ReadTools] else [ReadTools, WriteTools]), tp_scope = (if ro then ScopeNone else PathScoped)\<rparr>,
     ro_delegation = \<lparr>dp_can = False, dp_depth = 0, dp_roles = None\<rparr>,
     ro_eligibility = \<lparr>el_local = True, el_cloud = False, el_background = False, el_team = False,
       el_reason = Some ''Custom agent requires explicit review before team eligibility''\<rparr>,
     ro_workspace = \<lparr>wp_worktree = False, wp_isolation = (if ro then ReadOnly else Shared)\<rparr>,
     ro_context = \<lparr>cx_skills = [], cx_rules = [''oh-my-cursor'']\<rparr>,
     ro_artifacts = \<lparr>ac_inputs = [''prompt''], ac_outputs = [''response''], ac_pattern = None\<rparr>,
     ro_profiles = [\<lparr>sp_id = ''default'', sp_source = ''custom'', sp_name = name, sp_description = custom_description content,
       sp_model = None, sp_tools = None, sp_delegation = None, sp_differences = ''User-defined custom agent.''\<rparr>],
     ro_default = ''default'', ro_differences = ''Project-local custom agent.'', ro_custom = Some True\<rparr>)"

definition agent_base_name :: "string \<Rightarrow> string" where
  \<comment> \<open>\<^verbatim>\<open>path.basename(file, '.md')\<close> of a file with that suffix\<close>
  "agent_base_name file = take (length file - 3) file"

fun discover_in :: "string \<Rightarrow> (string \<times> string option) list \<Rightarrow> agent_role list" where
  \<comment> \<open>a read that throws ends the directory\<close>
  "discover_in dir [] = []"
| "discover_in dir ((file, content) # fs) =
     (if \<not> ends_with ''.md'' file \<or> get_agent_role (agent_base_name file) \<noteq> None then discover_in dir fs
      else case content of None \<Rightarrow> [] | Some text \<Rightarrow> custom_agent dir (agent_base_name file) text # discover_in dir fs)"

definition discover_custom_agents :: "(string \<times> string option) list \<Rightarrow> (string \<times> string option) list \<Rightarrow> agent_role list" where
  \<comment> \<open>the entries of \<^verbatim>\<open>.cursor/agents\<close> and \<^verbatim>\<open>agents/custom\<close>, none when the directory is missing\<close>
  "discover_custom_agents cursor_agents custom = discover_in ''.cursor/agents'' cursor_agents @ discover_in ''agents/custom'' custom"

end
