(* ===== verification/CatalogProperties.thy ===== *)
theory CatalogProperties
  imports Catalog
begin

text \<open>
  The lookup of roles is unambiguous and total, and custom agents are confined.
\<close>

section \<open>Names of roles\<close>

text \<open>The key of a name: its lower-case text with dashes for underscores.  Every candidate of a lookup has the
  same key, and no key belongs to two roles.\<close>

definition role_key :: "string \<Rightarrow> string" where
  "role_key s = swap_char (CHR ''_'') (CHR ''-'') s"

lemma role_key_swap: "role_key (swap_char (CHR ''-'') (CHR ''_'') s) = role_key s" "role_key (swap_char (CHR ''_'') (CHR ''-'') s) = role_key s"
  by (simp_all add: role_key_def swap_char_def)

lemma candidate_key: "c \<in> set (name_candidates s) \<Longrightarrow> role_key c = role_key (to_lower (trim s))"
  by (auto simp: name_candidates_def Let_def role_key_swap)

lemma role_keys_distinct: "distinct (concat (map (\<lambda>r. remdups (map role_key (role_names r))) CANONICAL_AGENT_ROLES))"
  by code_simp

lemma distinct_blocks:
  assumes "distinct (concat (map f xs))" "x \<in> set xs" "y \<in> set xs" "k \<in> set (f x)" "k \<in> set (f y)"
  shows "x = y"
  using assms by (induction xs) auto

lemma role_names_unique:
  assumes "r \<in> set CANONICAL_AGENT_ROLES" "q \<in> set CANONICAL_AGENT_ROLES"
    "c \<in> set (name_candidates s)" "c \<in> set (role_names r)" "d \<in> set (name_candidates s)" "d \<in> set (role_names q)"
  shows "r = q"
proof -
  have "role_key d = role_key c" using candidate_key [OF assms(3)] candidate_key [OF assms(5)] by simp
  then have "role_key c \<in> role_key ` set (role_names r)" "role_key c \<in> role_key ` set (role_names q)"
    using assms(4,6) by (metis imageI)+
  then show ?thesis by (intro distinct_blocks [OF role_keys_distinct assms(1,2), of "role_key c"]) simp_all
qed

lemma get_agent_role_iff:
  "get_agent_role s = Some r \<longleftrightarrow> r \<in> set CANONICAL_AGENT_ROLES \<and> (\<exists>c. c \<in> set (name_candidates s) \<and> c \<in> set (role_names r))"
  unfolding get_agent_role_def list_ex_iff
  by (subst find_unique) (auto intro: role_names_unique)

lemma default_profiles: "list_all (\<lambda>r. find (\<lambda>p. sp_id p = ro_default r) (ro_profiles r) \<noteq> None) CANONICAL_AGENT_ROLES"
  by code_simp

lemma resolve_total:
  assumes "get_agent_role s = Some r"
  shows "\<exists>p. resolve_role_and_profile s pr = Inr (r, p)"
proof -
  have "r \<in> set CANONICAL_AGENT_ROLES" using assms by (simp add: get_agent_role_iff)
  then obtain p where "find (\<lambda>p. sp_id p = ro_default r) (ro_profiles r) = Some p"
    using default_profiles by (auto simp: list_all_iff)
  with assms show ?thesis
    by (auto simp: resolve_role_and_profile_def Let_def split: option.splits)
qed

lemma profile_of_role:
  assumes "resolve_role_and_profile s pr = Inr (r, p)"
  shows "get_agent_role s = Some r \<and> p \<in> set (ro_profiles r)"
  using assms by (auto simp: resolve_role_and_profile_def Let_def find_Some_iff split: option.splits)

text \<open>The lookup of a role is unambiguous and total. A name resolves exactly to the built-in role one of whose
  names is a spelling of it (case, dashes and underscores apart, no two roles sharing a name), it
  always resolves together with a profile of that role whatever profile is asked for, and the only
  error of a lookup is that no role has the name.\<close>

theorem role_lookup:
  "((\<exists>p. resolve_role_and_profile s pr = Inr (r, p) \<and> p \<in> set (ro_profiles r))
      \<longleftrightarrow> r \<in> set CANONICAL_AGENT_ROLES \<and> (\<exists>c. c \<in> set (name_candidates s) \<and> c \<in> set (role_names r)))
   \<and> (resolve_role_and_profile s pr = Inl e \<longleftrightarrow> e = E_ROLE_NOT_FOUND s \<and> get_agent_role s = None)"
proof (intro conjI)
  show "(\<exists>p. resolve_role_and_profile s pr = Inr (r, p) \<and> p \<in> set (ro_profiles r))
      \<longleftrightarrow> r \<in> set CANONICAL_AGENT_ROLES \<and> (\<exists>c. c \<in> set (name_candidates s) \<and> c \<in> set (role_names r))"
    unfolding get_agent_role_iff [symmetric] using resolve_total profile_of_role by metis
  show "resolve_role_and_profile s pr = Inl e \<longleftrightarrow> e = E_ROLE_NOT_FOUND s \<and> get_agent_role s = None"
  proof (cases "get_agent_role s")
    case None
    then show ?thesis by (auto simp: resolve_role_and_profile_def)
  next
    case (Some q)
    with resolve_total [OF Some, of pr] show ?thesis by auto
  qed
qed

section \<open>Custom agents\<close>

lemma discover_in_agents:
  "a \<in> set (discover_in dir fs) \<Longrightarrow> \<exists>name body. a = custom_agent dir name body \<and> get_agent_role name = None"
  by (induction dir fs rule: discover_in.induct) (auto split: if_splits option.splits)

lemma custom_agent_role:
  assumes "a \<in> set (discover_custom_agents xs ys)"
  obtains dir name body where "a = custom_agent dir name body" "get_agent_role name = None"
  using assms discover_in_agents unfolding discover_custom_agents_def by fastforce

definition file_tools :: "string list" where
  "file_tools = [''read_file'', ''grep_search'', ''find_by_name'', ''list_dir'', ''write_to_file'', ''replace_file_content'']"

lemma custom_agent_parts:
  "ro_name (custom_agent d n t) = n" "\<not> el_team (ro_eligibility (custom_agent d n t))"
  "\<not> el_cloud (ro_eligibility (custom_agent d n t))" "\<not> el_background (ro_eligibility (custom_agent d n t))"
  "dp_depth (ro_delegation (custom_agent d n t)) = 0" "\<not> dp_can (ro_delegation (custom_agent d n t))"
  "set (tp_allow (ro_tools (custom_agent d n t))) \<subseteq> set file_tools"
  "p \<in> set (ro_profiles (custom_agent d n t)) \<Longrightarrow> sp_tools p = None"
  by (auto simp: custom_agent_def Let_def file_tools_def)

lemma no_override: "Option.bind pr sp_tools = None \<Longrightarrow> override_or k pr d = d"
  by (simp add: override_or_def)

lemma invocation_bounds:
  assumes "validate_agent_invocation a opts pr = Inr q" "dp_depth (ro_delegation a) = 0" "Option.bind pr sp_tools = None"
  shows "ep_depth q \<le> 0" "set (ep_allowed q) \<subseteq> set (tp_allow (ro_tools a))"
    "in_parent opts = None \<Longrightarrow> ep_scope q = tp_scope (ro_tools a)"
proof -
  have "ep_depth q \<le> 0 \<and> set (ep_allowed q) \<subseteq> set (tp_allow (ro_tools a)) \<and> (in_parent opts = None \<longrightarrow> ep_scope q = tp_scope (ro_tools a))"
  proof (cases "in_parent opts")
    case None
    then have "q = \<lparr>ep_allowed = tp_allow (ro_tools a), ep_denied = tp_deny (ro_tools a), ep_scope = tp_scope (ro_tools a),
      ep_depth = 0, ep_delegate = False, ep_isolation = wp_isolation (ro_workspace a)\<rparr>"
      using assms by (simp add: validate_agent_invocation_def no_override split: if_splits)
    then show ?thesis by simp
  next
    case (Some p)
    then have "q = intersect_policy p a pr"
      using assms(1) by (simp add: validate_agent_invocation_def split: if_splits)
    then have "ep_depth q = min 0 (max 0 (ep_depth p - 1))" "ep_allowed q = filter (\<lambda>t. t \<in> set (ep_allowed p)) (tp_allow (ro_tools a))"
      using assms(2,3) by (simp_all add: intersect_policy_def Let_def no_override)
    with Some show ?thesis by simp
  qed
  then show "ep_depth q \<le> 0" "set (ep_allowed q) \<subseteq> set (tp_allow (ro_tools a))"
    "in_parent opts = None \<Longrightarrow> ep_scope q = tp_scope (ro_tools a)" by simp_all
qed

lemma exhausted_depth: "ep_depth q \<le> 0 \<Longrightarrow> \<not> is_ok (delegate q (child # rest))"
  by (cases child) (simp add: validate_agent_invocation_def)

lemma ineligible_invocation:
  "\<not> el_team (ro_eligibility a) \<Longrightarrow> \<not> el_cloud (ro_eligibility a) \<Longrightarrow> \<not> el_background (ro_eligibility a) \<Longrightarrow>
   in_team_worker opts \<or> in_cloud opts \<or> in_background opts \<Longrightarrow> \<not> is_ok (validate_agent_invocation a opts pr)"
  by (elim disjE) (simp_all add: validate_agent_invocation_def)

lemma tool_not_allowed: "tool \<notin> set (ep_allowed q) \<Longrightarrow> validate_tool_call q tool \<noteq> Inr ()"
  by (simp add: validate_tool_call_def)

lemma no_scope: "ep_scope q = ScopeNone \<Longrightarrow> validate_file_write cwd q f root w = Inl E_PERMISSION_DENIED"
  by (simp add: validate_file_write_def)

text \<open>C31: Custom agents are confined. An agent discovered in a project never shadows a built-in role; invoking
  it is refused in a team, in the cloud and in the background, and otherwise gives a policy under
  which every further invocation is refused and no tool beside the six file tools is allowed; one
  that declares itself read-only may not write any file when it is invoked at the top.\<close>

theorem custom_agents_confined:
  assumes a: "a \<in> set (discover_custom_agents xs ys)" and pr: "pr \<in> insert None (Some ` set (ro_profiles a))"
  shows "get_agent_role (ro_name a) = None
    \<and> (in_team_worker opts \<or> in_cloud opts \<or> in_background opts \<longrightarrow> \<not> is_ok (validate_agent_invocation a opts pr))
    \<and> (validate_agent_invocation a opts pr = Inr q \<longrightarrow>
         \<not> is_ok (delegate q (child # rest))
         \<and> (tool \<notin> set file_tools \<longrightarrow> validate_tool_call q tool \<noteq> Inr ())
         \<and> (tp_scope (ro_tools a) = ScopeNone \<and> in_parent opts = None \<longrightarrow> validate_file_write cwd q f root w = Inl E_PERMISSION_DENIED))"
proof -
  from a obtain dir name body where c: "a = custom_agent dir name body" and n: "get_agent_role name = None"
    by (rule custom_agent_role)
  note el = custom_agent_parts [where d = dir and n = name and t = body, folded c]
  have ov: "Option.bind pr sp_tools = None" using pr el(8) by auto
  note q = invocation_bounds [OF _ el(5) ov]
  have parts: "\<not> is_ok (delegate q (child # rest))" "tool \<notin> set file_tools \<Longrightarrow> validate_tool_call q tool \<noteq> Inr ()"
    "tp_scope (ro_tools a) = ScopeNone \<Longrightarrow> in_parent opts = None \<Longrightarrow> validate_file_write cwd q f root w = Inl E_PERMISSION_DENIED"
    if "validate_agent_invocation a opts pr = Inr q"
    using q [OF that] el(7) exhausted_depth tool_not_allowed no_scope by (blast, blast, metis)
  show ?thesis using n el(1) ineligible_invocation [OF el(2-4)] parts by blast
qed


definition ex_files :: "(string \<times> string option) list" where
  "ex_files = [(''README'', None), (''Executor.md'', Some []), (''helper.md'', Some (''description: helps'' @ [CHR 0x0A] @ ''readonly: true''))]"

definition ex_invocation :: invocation where
  "ex_invocation = \<lparr>in_cloud = False, in_team_worker = False, in_background = False, in_parent = None\<rparr>"

theorem custom_agents_confined_witness:
  "\<exists>a q. discover_custom_agents ex_files [] = [a] \<and> ro_name a = ''helper'' \<and> get_agent_role ''helper'' = None
     \<and> validate_agent_invocation a ex_invocation None = Inr q
     \<and> \<not> is_ok (delegate q [(a, ex_invocation, None)]) \<and> validate_tool_call q ''run_command'' \<noteq> Inr ()
     \<and> \<not> is_ok (validate_agent_invocation a (ex_invocation\<lparr>in_team_worker := True\<rparr>) None)
     \<and> validate_file_write ''/'' q ''a.md'' ''/p'' None = Inl E_PERMISSION_DENIED"
proof -
  have files: "discover_custom_agents ex_files [] = [custom_agent ''.cursor/agents'' ''helper'' (''description: helps'' @ [CHR 0x0A] @ ''readonly: true'')]"
    by code_simp
  define a where "a = custom_agent ''.cursor/agents'' ''helper'' (''description: helps'' @ [CHR 0x0A] @ ''readonly: true'')"
  have mem: "a \<in> set (discover_custom_agents ex_files [])" using files by (simp add: a_def)
  obtain q where q: "validate_agent_invocation a ex_invocation None = Inr q"
    by (simp add: validate_agent_invocation_def ex_invocation_def)
  have scope: "tp_scope (ro_tools a) = ScopeNone" unfolding a_def by code_simp
  have tool: "''run_command'' \<notin> set file_tools" by code_simp
  have name: "ro_name a = ''helper''" by (simp add: a_def custom_agent_parts(1))
  from custom_agents_confined [OF mem, of None ex_invocation q "(a, ex_invocation, None)" "[]" "''run_command''" "''/''" "''a.md''" "''/p''" None]
    custom_agents_confined [OF mem, of None "ex_invocation\<lparr>in_team_worker := True\<rparr>" q "(a, ex_invocation, None)" "[]" "''run_command''"]
    q scope tool files name
  show ?thesis by (auto simp: ex_invocation_def a_def)
qed

end
