(* ===== verification/Categories.thy ===== *)
theory Categories
  imports AgentTypes
begin

text \<open>
  Semantic categories and their routing presets (\<^verbatim>\<open>src/routing/categories.ts\<close>), and the resolution of a
  category name, which is the lookup of its key: lower case without slashes, dashes and underscores.
\<close>

section \<open>Presets\<close>

datatype runtime_preference = PreferLocal | PreferCloud | EitherRuntime

datatype latency_cost = LowLatency | LowCost | Balanced | HighCapability

datatype router_mode = AutoRouter | ExactRouter | TieredRouter

record category_policy =
  cp_id :: string
  cp_name :: string
  cp_description :: string
  cp_tier :: routing_class
  cp_effort :: "reasoning_effort option"
  cp_vision :: "bool option"
  cp_tools :: "bool option"
  cp_runtime :: "runtime_preference option"
  cp_latency :: "latency_cost option"
  cp_preferred :: "string option"
  cp_fallback :: "routing_class list"
  cp_mode :: "router_mode option"
  cp_aliases :: "string list"

definition category_visual_engineering :: category_policy where
  "category_visual_engineering = \<lparr>cp_id = ''visual-engineering'', cp_name = ''Visual Engineering'',
     cp_description = ''Frontend UI/UX design and visual implementation requiring vision and tool precision'',
     cp_tier = Smart, cp_effort = Some MediumEffort, cp_vision = Some True, cp_tools = Some True,
     cp_runtime = Some PreferCloud, cp_latency = Some Balanced, cp_preferred = Some ''claude-3-5-sonnet'',
     cp_fallback = [Smart, Reasoning], cp_mode = Some AutoRouter,
     cp_aliases = [''visual_engineering'', ''visualengineering'', ''ui-engineering'']\<rparr>"

definition category_ultrabrain :: category_policy where
  "category_ultrabrain = \<lparr>cp_id = ''ultrabrain'', cp_name = ''Ultrabrain'',
     cp_description = ''Maximum-depth reasoning for complex algorithms, hard bugs, and system architecture'',
     cp_tier = Reasoning, cp_effort = Some HighEffort, cp_vision = Some False, cp_tools = Some True,
     cp_runtime = Some PreferCloud, cp_latency = Some HighCapability, cp_preferred = Some ''claude-3-7-sonnet-thought'',
     cp_fallback = [Reasoning, Smart], cp_mode = Some TieredRouter,
     cp_aliases = [''ultra-brain'', ''ultrabrain-reasoning'', ''heavy-reasoning'']\<rparr>"

definition category_deep :: category_policy where
  "category_deep = \<lparr>cp_id = ''deep'', cp_name = ''Deep Reasoning'',
     cp_description = ''Specialized deep analytical reasoning for mathematical or logic-dense specifications'',
     cp_tier = Reasoning, cp_effort = Some HighEffort, cp_vision = Some False, cp_tools = Some True,
     cp_runtime = Some PreferCloud, cp_latency = Some HighCapability, cp_preferred = Some ''o3-mini'',
     cp_fallback = [Reasoning, Smart], cp_mode = Some TieredRouter,
     cp_aliases = [''deep-reasoning'', ''deepthink'']\<rparr>"

definition category_artistry :: category_policy where
  "category_artistry = \<lparr>cp_id = ''artistry'', cp_name = ''Artistry'',
     cp_description = ''Creative design, styling, and visual nuance exploration'',
     cp_tier = Smart, cp_effort = Some MediumEffort, cp_vision = Some True, cp_tools = Some True,
     cp_runtime = Some PreferCloud, cp_latency = Some Balanced, cp_preferred = Some ''claude-3-5-sonnet'',
     cp_fallback = [Smart, Fast], cp_mode = Some AutoRouter,
     cp_aliases = [''creative'', ''styling'', ''visual-art'']\<rparr>"

definition category_quick :: category_policy where
  "category_quick = \<lparr>cp_id = ''quick'', cp_name = ''Quick'',
     cp_description = ''Ultra-low latency operations, small edits, and rapid sanity checks'',
     cp_tier = Fast, cp_effort = Some LowEffort, cp_vision = Some False, cp_tools = Some True,
     cp_runtime = Some EitherRuntime, cp_latency = Some LowLatency, cp_preferred = Some ''claude-3-5-haiku'',
     cp_fallback = [Fast, Smart], cp_mode = Some AutoRouter,
     cp_aliases = [''fast'', ''speed'', ''rapid'']\<rparr>"

definition category_unspecified_low :: category_policy where
  "category_unspecified_low = \<lparr>cp_id = ''unspecified-low'', cp_name = ''Unspecified Low Cost'',
     cp_description = ''Budget-conscious execution when model requirements are minimal'',
     cp_tier = Fast, cp_effort = Some LowEffort, cp_vision = Some False, cp_tools = Some True,
     cp_runtime = Some EitherRuntime, cp_latency = Some LowCost, cp_preferred = Some ''gpt-4o-mini'',
     cp_fallback = [Fast, Smart], cp_mode = Some AutoRouter,
     cp_aliases = [''unspecified_low'', ''low-tier'', ''economy'']\<rparr>"

definition category_unspecified_high :: category_policy where
  "category_unspecified_high = \<lparr>cp_id = ''unspecified-high'', cp_name = ''Unspecified High Capability'',
     cp_description = ''Balanced high-capability default when role does not specify exact constraints'',
     cp_tier = Smart, cp_effort = Some MediumEffort, cp_vision = Some True, cp_tools = Some True,
     cp_runtime = Some PreferCloud, cp_latency = Some Balanced, cp_preferred = Some ''claude-3-5-sonnet'',
     cp_fallback = [Smart, Reasoning], cp_mode = Some AutoRouter,
     cp_aliases = [''unspecified_high'', ''high-tier'', ''general'']\<rparr>"

definition category_writing :: category_policy where
  "category_writing = \<lparr>cp_id = ''writing'', cp_name = ''Writing & Editorial'',
     cp_description = ''Prose, documentation drafting, changelogs, and user-facing communications'',
     cp_tier = Smart, cp_effort = Some LowEffort, cp_vision = Some False, cp_tools = Some False,
     cp_runtime = Some PreferCloud, cp_latency = Some Balanced, cp_preferred = Some ''claude-3-5-sonnet'',
     cp_fallback = [Smart, Fast], cp_mode = Some AutoRouter,
     cp_aliases = [''prose'', ''editorial'', ''copywriting'']\<rparr>"

definition category_architecture :: category_policy where
  "category_architecture = \<lparr>cp_id = ''architecture'', cp_name = ''Architecture'',
     cp_description = ''System design, boundary specification, interface contracts, and module decomposition'',
     cp_tier = Reasoning, cp_effort = Some HighEffort, cp_vision = Some False, cp_tools = Some True,
     cp_runtime = Some PreferCloud, cp_latency = Some HighCapability, cp_preferred = Some ''claude-3-7-sonnet-thought'',
     cp_fallback = [Reasoning, Smart], cp_mode = Some TieredRouter,
     cp_aliases = [''sys-arch'', ''system-design'']\<rparr>"

definition category_planning :: category_policy where
  "category_planning = \<lparr>cp_id = ''planning'', cp_name = ''Planning'',
     cp_description = ''Multi-step goal breakdown, dependency DAG ordering, and milestone planning'',
     cp_tier = Reasoning, cp_effort = Some MediumEffort, cp_vision = Some False, cp_tools = Some True,
     cp_runtime = Some PreferCloud, cp_latency = Some Balanced, cp_preferred = Some ''claude-3-7-sonnet-thought'',
     cp_fallback = [Reasoning, Smart], cp_mode = Some TieredRouter,
     cp_aliases = [''planner'', ''roadmap'']\<rparr>"

definition category_execution :: category_policy where
  "category_execution = \<lparr>cp_id = ''execution'', cp_name = ''Execution'',
     cp_description = ''Core software engineering, code changes, and mechanical implementation'',
     cp_tier = Smart, cp_effort = Some LowEffort, cp_vision = Some False, cp_tools = Some True,
     cp_runtime = Some PreferCloud, cp_latency = Some Balanced, cp_preferred = Some ''claude-3-5-sonnet'',
     cp_fallback = [Smart, Fast], cp_mode = Some AutoRouter,
     cp_aliases = [''coder'', ''developer'', ''implementer'']\<rparr>"

definition category_research :: category_policy where
  "category_research = \<lparr>cp_id = ''research'', cp_name = ''Research & Reconnaissance'',
     cp_description = ''Deep codebase investigation, upstream API research, and fact verification'',
     cp_tier = Reasoning, cp_effort = Some MediumEffort, cp_vision = Some False, cp_tools = Some True,
     cp_runtime = Some PreferCloud, cp_latency = Some Balanced, cp_preferred = Some ''claude-3-7-sonnet-thought'',
     cp_fallback = [Reasoning, Smart], cp_mode = Some TieredRouter,
     cp_aliases = [''investigation'', ''explore'', ''deepsearch'']\<rparr>"

definition category_review :: category_policy where
  "category_review = \<lparr>cp_id = ''review'', cp_name = ''Review & Audit'',
     cp_description = ''Rigorous code review, invariants verification, and defect detection'',
     cp_tier = Reasoning, cp_effort = Some HighEffort, cp_vision = Some False, cp_tools = Some True,
     cp_runtime = Some PreferCloud, cp_latency = Some HighCapability, cp_preferred = Some ''claude-3-7-sonnet-thought'',
     cp_fallback = [Reasoning, Smart], cp_mode = Some TieredRouter,
     cp_aliases = [''code-review'', ''critic'', ''audit'']\<rparr>"

definition category_security :: category_policy where
  "category_security = \<lparr>cp_id = ''security'', cp_name = ''Security & Vulnerability Analysis'',
     cp_description = ''Security auditing, attack vector modeling, boundary taint analysis'',
     cp_tier = Reasoning, cp_effort = Some HighEffort, cp_vision = Some False, cp_tools = Some True,
     cp_runtime = Some PreferCloud, cp_latency = Some HighCapability, cp_preferred = Some ''o3-mini'',
     cp_fallback = [Reasoning, Smart], cp_mode = Some TieredRouter,
     cp_aliases = [''sec'', ''infosec'', ''pentest'']\<rparr>"

definition category_qa_testing :: category_policy where
  "category_qa_testing = \<lparr>cp_id = ''QA/testing'', cp_name = ''QA & Testing'',
     cp_description = ''Test case generation, fixture construction, edge case exploration, and regression testing'',
     cp_tier = Smart, cp_effort = Some MediumEffort, cp_vision = Some False, cp_tools = Some True,
     cp_runtime = Some PreferCloud, cp_latency = Some Balanced, cp_preferred = Some ''claude-3-5-sonnet'',
     cp_fallback = [Smart, Fast], cp_mode = Some AutoRouter,
     cp_aliases = [''qa'', ''testing'', ''qa/testing'', ''qa-testing'', ''qa_testing'']\<rparr>"

definition category_product_ux :: category_policy where
  "category_product_ux = \<lparr>cp_id = ''product/UX'', cp_name = ''Product & UX'',
     cp_description = ''User experience flows, user journey analysis, and product requirements refinement'',
     cp_tier = Smart, cp_effort = Some MediumEffort, cp_vision = Some True, cp_tools = Some False,
     cp_runtime = Some PreferCloud, cp_latency = Some Balanced, cp_preferred = Some ''claude-3-5-sonnet'',
     cp_fallback = [Smart, Fast], cp_mode = Some AutoRouter,
     cp_aliases = [''product'', ''ux'', ''product/ux'', ''product-ux'', ''product_ux'']\<rparr>"

definition category_documentation :: category_policy where
  "category_documentation = \<lparr>cp_id = ''documentation'', cp_name = ''Documentation'',
     cp_description = ''Reference docs, API guides, READMEs, and technical tutorials'',
     cp_tier = Fast, cp_effort = Some LowEffort, cp_vision = Some False, cp_tools = Some True,
     cp_runtime = Some EitherRuntime, cp_latency = Some LowLatency, cp_preferred = Some ''claude-3-5-haiku'',
     cp_fallback = [Fast, Smart], cp_mode = Some AutoRouter,
     cp_aliases = [''docs'', ''manuals'', ''technical-writing'']\<rparr>"

definition category_data_analysis :: category_policy where
  "category_data_analysis = \<lparr>cp_id = ''data/analysis'', cp_name = ''Data & Analysis'',
     cp_description = ''Metrics analysis, benchmark interpretation, logs aggregation, and structured data synthesis'',
     cp_tier = Smart, cp_effort = Some MediumEffort, cp_vision = Some False, cp_tools = Some True,
     cp_runtime = Some PreferCloud, cp_latency = Some Balanced, cp_preferred = Some ''gpt-4o'',
     cp_fallback = [Smart, Reasoning], cp_mode = Some AutoRouter,
     cp_aliases = [''data'', ''analytics'', ''data/analysis'', ''data-analysis'', ''data_analysis'']\<rparr>"

definition PRESET_CATEGORIES :: "category_policy list" where
  "PRESET_CATEGORIES = [category_visual_engineering, category_ultrabrain, category_deep, category_artistry, category_quick,
     category_unspecified_low, category_unspecified_high, category_writing, category_architecture,
     category_planning, category_execution, category_research, category_review, category_security,
     category_qa_testing, category_product_ux, category_documentation, category_data_analysis]"

section \<open>Resolution\<close>

definition squeeze :: "string \<Rightarrow> string" where
  \<comment> \<open>\<^verbatim>\<open>replace(/[/_-]/g, '')\<close>\<close>
  "squeeze s = filter (\<lambda>c. c \<noteq> CHR ''/'' \<and> c \<noteq> CHR ''_'' \<and> c \<noteq> CHR ''-'') s"

definition preset_matches :: "string \<Rightarrow> category_policy \<Rightarrow> bool" where
  "preset_matches normalized p = (to_lower (cp_id p) = normalized \<or> squeeze (to_lower (cp_id p)) = squeeze normalized
     \<or> list_ex (\<lambda>a. to_lower a = normalized \<or> squeeze (to_lower a) = squeeze normalized) (cp_aliases p))"

definition resolve_category_policy :: "string \<Rightarrow> category_policy option" where
  "resolve_category_policy name = (if name = [] then None else find (preset_matches (to_lower (trim name))) PRESET_CATEGORIES)"

section \<open>Keys\<close>

definition category_key :: "string \<Rightarrow> string" where
  "category_key s = squeeze (to_lower s)"

definition category_keys :: "category_policy \<Rightarrow> string set" where
  "category_keys p = category_key ` set (cp_id p # cp_aliases p)"

lemma preset_matches_iff: "preset_matches (to_lower n) p \<longleftrightarrow> category_key n \<in> category_keys p"
  unfolding preset_matches_def category_keys_def category_key_def list_ex_iff by (simp add: image_iff) metis

definition key_table :: "string list list" where
  "key_table = [[''visualengineering'', ''uiengineering''],
     [''ultrabrain'', ''ultrabrainreasoning'', ''heavyreasoning''],
     [''deep'', ''deepreasoning'', ''deepthink''],
     [''artistry'', ''creative'', ''styling'', ''visualart''],
     [''quick'', ''fast'', ''speed'', ''rapid''],
     [''unspecifiedlow'', ''lowtier'', ''economy''],
     [''unspecifiedhigh'', ''hightier'', ''general''],
     [''writing'', ''prose'', ''editorial'', ''copywriting''],
     [''architecture'', ''sysarch'', ''systemdesign''],
     [''planning'', ''planner'', ''roadmap''],
     [''execution'', ''coder'', ''developer'', ''implementer''],
     [''research'', ''investigation'', ''explore'', ''deepsearch''],
     [''review'', ''codereview'', ''critic'', ''audit''],
     [''security'', ''sec'', ''infosec'', ''pentest''],
     [''qa'', ''testing'', ''qatesting''],
     [''product'', ''ux'', ''productux''],
     [''documentation'', ''docs'', ''manuals'', ''technicalwriting''],
     [''data'', ''analytics'', ''dataanalysis'']]"

lemma key_table: "map (\<lambda>p. remdups (map category_key (cp_id p # cp_aliases p))) PRESET_CATEGORIES = key_table"
  by code_simp

lemma key_table_distinct: "distinct (concat key_table)"
  by code_simp

lemma keys_index:
  assumes "i < length PRESET_CATEGORIES"
  shows "category_keys (PRESET_CATEGORIES ! i) = set (key_table ! i)"
proof -
  have "key_table ! i = remdups (map category_key (cp_id (PRESET_CATEGORIES ! i) # cp_aliases (PRESET_CATEGORIES ! i)))"
    unfolding key_table [symmetric] using assms by (rule nth_map)
  then show ?thesis unfolding category_keys_def by (simp only: set_remdups set_map)
qed

lemma distinct_concat_nth:
  assumes "distinct (concat xss)" "i < j" "j < length xss"
  shows "set (xss ! i) \<inter> set (xss ! j) = {}"
proof -
  have "distinct (concat (take j xss @ (xss ! j) # drop (Suc j) xss))"
    using assms(1) id_take_nth_drop [OF assms(3)] by simp
  moreover have "xss ! i \<in> set (take j xss)" using assms(2,3) by (auto simp: in_set_conv_nth)
  ultimately show ?thesis by auto
qed

lemma keys_unique:
  assumes "p \<in> set PRESET_CATEGORIES" "q \<in> set PRESET_CATEGORIES" "k \<in> category_keys p" "k \<in> category_keys q"
  shows "p = q"
proof -
  obtain i j where i: "i < length PRESET_CATEGORIES" "p = PRESET_CATEGORIES ! i"
    and j: "j < length PRESET_CATEGORIES" "q = PRESET_CATEGORIES ! j"
    using assms(1,2) unfolding in_set_conv_nth by blast
  have len: "length key_table = length PRESET_CATEGORIES" unfolding key_table [symmetric] by (rule length_map)
  have "k \<in> set (key_table ! i)" "k \<in> set (key_table ! j)"
    using assms(3,4) keys_index [OF i(1)] keys_index [OF j(1)] i(2) j(2) by simp_all
  moreover have "set (key_table ! i) \<inter> set (key_table ! j) = {}" if "i \<noteq> j"
    using that i(1) j(1) len distinct_concat_nth [OF key_table_distinct, of i j] distinct_concat_nth [OF key_table_distinct, of j i]
    by (cases "i < j") auto
  ultimately have "i = j" by blast
  then show ?thesis using i(2) j(2) by simp
qed

lemma no_empty_key: "[] \<notin> set (concat key_table)"
  by code_simp

text \<open>Categories resolve by key. A name resolves to a preset exactly when the preset is in the table and
  the key of the trimmed name (lower case, without slashes, dashes and underscores) is the key of its
  identifier or of one of its aliases; no key belongs to two presets, so the order of the table does
  not matter.\<close>

theorem category_resolves_by_key:
  "resolve_category_policy name = Some p \<longleftrightarrow> p \<in> set PRESET_CATEGORIES \<and> category_key (trim name) \<in> category_keys p"
proof (cases "name = []")
  case True
  have "[] \<notin> category_keys p" if p: "p \<in> set PRESET_CATEGORIES"
  proof -
    obtain i where i: "i < length PRESET_CATEGORIES" "p = PRESET_CATEGORIES ! i" using p unfolding in_set_conv_nth by blast
    have "length key_table = length PRESET_CATEGORIES" unfolding key_table [symmetric] by (rule length_map)
    then have "key_table ! i \<in> set key_table" using i(1) by simp
    then show ?thesis using no_empty_key keys_index [OF i(1)] i(2) by auto
  qed
  with True show ?thesis by (auto simp: resolve_category_policy_def category_key_def squeeze_def to_lower_def)
next
  case False
  then have "resolve_category_policy name = find (preset_matches (to_lower (trim name))) PRESET_CATEGORIES"
    by (simp add: resolve_category_policy_def)
  also have "\<dots> = Some p \<longleftrightarrow> p \<in> set PRESET_CATEGORIES \<and> preset_matches (to_lower (trim name)) p"
    by (rule find_unique) (use keys_unique in \<open>auto simp: preset_matches_iff\<close>)
  finally show ?thesis by (simp add: preset_matches_iff)
qed

end
