(* ===== verification/Routing.thy ===== *)
theory Routing
  imports Categories Catalog
begin

text \<open>
  The route of an agent to a model (\<^verbatim>\<open>src/agents/routing.ts\<close>): the seven steps from an explicit model to an
  unavailable result.  The history of a route is a list of notes, one constructor for each text the
  code appends; the field \<^verbatim>\<open>reason\<close>, a sentence about the last step, is left out.
\<close>

section \<open>Types\<close>

datatype run_target = LocalRun | CloudRun | ExternalRun

datatype route_step =
  ExplicitModel | ProfileConstraint | UserOverride | CategoryStep | CompatibleFallback | ExternalProvider | UnavailableStep

datatype route_note =
    NoteExplicit string | NoteExplicitUnavailable string
  | NoteConstraint string string | NoteConstraintMissing string | NoteExact
  | NoteOverride string string
  | NoteTier routing_class "string option" string | NoteTierDefault string routing_class
  | NoteFallback "routing_class list" | NoteIncompatible string routing_class | NoteCompatible string routing_class
  | NoteSkipCategory | NoteSkipFallback
  | NoteExternal string string | NoteNoExternal | NoteUnavailable

record route_options =
  rq_profile :: "string option"
  rq_model :: "string option"
  rq_runtime :: "run_target option"
  rq_category :: "string option"
  rq_provider :: "string option"
  rq_external_provider :: "string option"
  rq_external_model :: "string option"
  rq_overrides :: "(string \<times> string) list"
  rq_available :: "string list option"
  rq_strict :: bool
  rq_vision :: "bool option"
  rq_tools :: "bool option"

record route =
  rt_agent :: string
  rt_profile :: string
  rt_model :: string
  rt_runtime :: run_target
  rt_provider :: string
  rt_tier :: routing_class
  rt_effort :: "reasoning_effort option"
  rt_step :: route_step
  rt_history :: "route_note list"
  rt_compatible :: bool
  rt_available :: "string list"
  rt_category :: "string option"

section \<open>Models\<close>

fun DEFAULT_CURSOR_MODELS :: "routing_class \<Rightarrow> string list" where
  "DEFAULT_CURSOR_MODELS Reasoning = [''claude-3-7-sonnet-thought'', ''o3-mini'', ''o1'', ''deepseek-r1'']"
| "DEFAULT_CURSOR_MODELS Smart = [''claude-3-5-sonnet'', ''gpt-4o'', ''gemini-2.0-pro'']"
| "DEFAULT_CURSOR_MODELS Fast = [''claude-3-5-haiku'', ''gpt-4o-mini'', ''gemini-2.0-flash'', ''cursor-small'']"

definition default_model_for_provider :: "string \<Rightarrow> string" where
  "default_model_for_provider provider = (let p = to_lower (trim provider) in
     if p = ''claude'' then ''claude-3-7-sonnet''
     else if p = ''codex'' then ''o3-mini''
     else if p = ''gemini'' then ''gemini-2.0-pro''
     else if p = ''antigravity'' \<or> p = ''agy'' then ''gemini-2.0-pro''
     else if p = ''grok'' then ''grok-3''
     else if p = ''opencode'' \<or> p = ''omo'' then ''opencode-default''
     else if p = ''cursor'' then ''claude-3-5-sonnet''
     else ''default'')"

definition model_supports :: "string \<Rightarrow> bool option \<Rightarrow> bool option \<Rightarrow> run_target \<Rightarrow> bool" where
  "model_supports model vision tools runtime = (let lower = to_lower model in
     if vision = Some True \<and> (str_includes ''deepseek-r1'' lower \<or> str_includes ''o3-mini'' lower \<or> str_includes ''cursor-small'' lower)
     then False
     else if tools = Some True \<and> str_includes ''deepseek-r1'' lower then False
     else if runtime = LocalRun \<and> \<not> str_includes ''local'' lower \<and> \<not> str_includes ''cursor-small'' lower \<and> lower \<noteq> ''auto''
     then False else True)"

section \<open>Pieces of the ladder\<close>

definition given :: "string option \<Rightarrow> string option" where
  \<comment> \<open>a truthy string\<close>
  "given s = (case s of None \<Rightarrow> None | Some x \<Rightarrow> if x = [] then None else Some x)"

definition or_else :: "'a option \<Rightarrow> 'a option \<Rightarrow> 'a option" where
  \<comment> \<open>\<^verbatim>\<open>a ?? b\<close>\<close>
  "or_else a b = (case a of None \<Rightarrow> b | Some x \<Rightarrow> Some x)"

definition is_cursor :: "string \<Rightarrow> bool" where
  "is_cursor p = (to_lower (trim p) = ''cursor'')"

definition explicit_external :: "route_options \<Rightarrow> bool" where
  "explicit_external opts = ((case given (rq_provider opts) of None \<Rightarrow> False | Some p \<Rightarrow> \<not> is_cursor p)
     \<or> given (rq_external_provider opts) \<noteq> None)"

definition available_models :: "route_options \<Rightarrow> string list" where
  "available_models opts = (case rq_available opts of Some ms \<Rightarrow> ms
     | None \<Rightarrow> DEFAULT_CURSOR_MODELS Reasoning @ DEFAULT_CURSOR_MODELS Smart @ DEFAULT_CURSOR_MODELS Fast)"

definition category_preset :: "agent_role \<Rightarrow> route_options \<Rightarrow> category_policy option" where
  "category_preset role opts = (case given (rq_category opts) of Some c \<Rightarrow> resolve_category_policy c
     | None \<Rightarrow> resolve_category_policy (ro_category role))"

definition constraint_model :: "agent_role \<Rightarrow> source_profile \<Rightarrow> string option" where
  "constraint_model role profile = given (or_else (Option.bind (sp_model profile) mo_preferred)
     (if mr_exact (ro_model role) = Some True then mr_preferred (ro_model role) else None))"

definition override_model :: "agent_role \<Rightarrow> route_options \<Rightarrow> string option" where
  \<comment> \<open>the value of the first key that names the role\<close>
  "override_model role opts = (case find (\<lambda>(k, v). to_lower k = to_lower (ro_name role) \<or> to_lower k = to_lower (ro_id role)) (rq_overrides opts) of
     None \<Rightarrow> None | Some (k, v) \<Rightarrow> if k = [] then None else given (Some v))"

definition effective_tier :: "agent_role \<Rightarrow> source_profile \<Rightarrow> route_options \<Rightarrow> category_policy option \<Rightarrow> routing_class" where
  "effective_tier role profile opts preset = (if given (rq_category opts) \<noteq> None \<and> preset \<noteq> None then cp_tier (the preset)
     else case or_else (Option.bind (sp_model profile) mo_tier) (map_option cp_tier preset) of
       Some t \<Rightarrow> t | None \<Rightarrow> mr_tier (ro_model role))"

definition preferred_model :: "agent_role \<Rightarrow> source_profile \<Rightarrow> route_options \<Rightarrow> category_policy option \<Rightarrow> string option" where
  "preferred_model role profile opts preset =
     (if given (rq_category opts) \<noteq> None \<and> given (Option.bind preset cp_preferred) \<noteq> None then Option.bind preset cp_preferred
      else or_else (Option.bind (sp_model profile) mo_preferred) (or_else (Option.bind preset cp_preferred) (mr_preferred (ro_model role))))"

definition route_effort :: "agent_role \<Rightarrow> source_profile \<Rightarrow> route_options \<Rightarrow> category_policy option \<Rightarrow> reasoning_effort option" where
  "route_effort role profile opts preset =
     (if given (rq_category opts) \<noteq> None \<and> Option.bind preset cp_effort \<noteq> None then Option.bind preset cp_effort
      else or_else (Option.bind (sp_model profile) mo_effort) (or_else (Option.bind preset cp_effort) (mr_effort (ro_model role))))"

definition tier_candidates :: "routing_class list \<Rightarrow> (routing_class \<times> string) list" where
  "tier_candidates tiers = concat (map (\<lambda>t. map (Pair t) (DEFAULT_CURSOR_MODELS t)) tiers)"

fun fallback_search :: "(string \<Rightarrow> bool) \<Rightarrow> (string \<Rightarrow> bool) \<Rightarrow> (routing_class \<times> string) list \<Rightarrow> route_note list \<times> (routing_class \<times> string) option" where
  \<comment> \<open>the two loops of step 5, with the notes they append\<close>
  "fallback_search avail fits [] = ([], None)"
| "fallback_search avail fits ((t, m) # rest) =
     (if \<not> avail m then fallback_search avail fits rest
      else if \<not> fits m then (let (ns, r) = fallback_search avail fits rest in (NoteIncompatible m t # ns, r))
      else ([NoteCompatible m t], Some (t, m)))"

section \<open>The ladder\<close>

definition external_route :: "agent_role \<Rightarrow> route_options \<Rightarrow> routing_class \<Rightarrow> route \<Rightarrow> route" where
  \<comment> \<open>steps 6 and 7, after the notes of the route so far\<close>
  "external_route role opts tier r = (case given (or_else (rq_provider opts) (rq_external_provider opts)) of
     Some p \<Rightarrow> if \<not> is_cursor p then (let target = to_lower (trim p);
           model = (case or_else (rq_external_model opts) (rq_model opts) of Some m \<Rightarrow> m | None \<Rightarrow> default_model_for_provider target)
         in r\<lparr>rt_model := model, rt_runtime := ExternalRun, rt_provider := target, rt_tier := tier,
              rt_effort := mr_effort (ro_model role), rt_step := ExternalProvider,
              rt_history := rt_history r @ [NoteExternal target model], rt_compatible := False\<rparr>)
       else r\<lparr>rt_tier := tier, rt_effort := None, rt_history := rt_history r @ [NoteNoExternal, NoteUnavailable]\<rparr>
   | None \<Rightarrow> r\<lparr>rt_tier := tier, rt_effort := None, rt_history := rt_history r @ [NoteNoExternal, NoteUnavailable]\<rparr>)"

definition cursor_route :: "agent_role \<Rightarrow> source_profile \<Rightarrow> route_options \<Rightarrow> category_policy option \<Rightarrow> route \<Rightarrow> route + route" where
  \<comment> \<open>steps 4 and 5: \<open>Inl\<close> a selected route, \<open>Inr\<close> the route so far when nothing was selected\<close>
  "cursor_route role profile opts preset r = (let
     tier = effective_tier role profile opts preset;
     preferred = preferred_model role profile opts preset;
     effort = route_effort role profile opts preset;
     avail = (\<lambda>m. m \<in> set (rt_available r));
     fits = (\<lambda>m. model_supports m (or_else (Option.bind preset cp_vision) (rq_vision opts))
       (or_else (Option.bind preset cp_tools) (rq_tools opts)) (rt_runtime r));
     notes = rt_history r @ [NoteTier tier preferred (case preset of Some p \<Rightarrow> cp_id p | None \<Rightarrow> ''default'')];
     pick = (\<lambda>m ns. r\<lparr>rt_model := m, rt_tier := tier, rt_effort := effort, rt_step := CategoryStep, rt_history := ns, rt_compatible := True\<rparr>);
     select_tier = (case find (\<lambda>m. avail m \<and> fits m) (DEFAULT_CURSOR_MODELS tier) of
       Some m \<Rightarrow> Inl (pick m (notes @ [NoteTierDefault m tier]))
     | None \<Rightarrow> (let tiers = (case preset of Some p \<Rightarrow> cp_fallback p | None \<Rightarrow> mr_fallback (ro_model role));
           (ns, found) = fallback_search avail fits (tier_candidates tiers);
           notes' = notes @ NoteFallback tiers # ns
         in case found of
              Some (t, m) \<Rightarrow> Inl (r\<lparr>rt_model := m, rt_tier := t, rt_effort := Some LowEffort, rt_step := CompatibleFallback,
                rt_history := notes', rt_compatible := True\<rparr>)
            | None \<Rightarrow> Inr (r\<lparr>rt_history := notes'\<rparr>)))
   in case given preferred of
        Some m \<Rightarrow> if avail m \<and> fits m then Inl (pick m notes) else select_tier
      | None \<Rightarrow> select_tier)"

definition late_route :: "agent_role \<Rightarrow> source_profile \<Rightarrow> route_options \<Rightarrow> category_policy option \<Rightarrow> route \<Rightarrow> route" where
  \<comment> \<open>steps 3 to 7\<close>
  "late_route role profile opts preset r = (case override_model role opts of
     Some m \<Rightarrow> r\<lparr>rt_model := m, rt_step := UserOverride, rt_history := rt_history r @ [NoteOverride m (ro_name role)], rt_compatible := True\<rparr>
   | None \<Rightarrow> (let tier = effective_tier role profile opts preset in
       if \<not> explicit_external opts then
         (case cursor_route role profile opts preset r of Inl chosen \<Rightarrow> chosen | Inr r' \<Rightarrow> external_route role opts tier r')
       else external_route role opts tier (r\<lparr>rt_history := rt_history r @ [NoteSkipCategory, NoteSkipFallback]\<rparr>)))"

definition blank_route :: "agent_role \<Rightarrow> source_profile \<Rightarrow> route_options \<Rightarrow> route" where
  \<comment> \<open>the fields all results share and the values of an unavailable result\<close>
  "blank_route role profile opts = \<lparr>rt_agent = ro_name role, rt_profile = sp_id profile, rt_model = ''none'',
     rt_runtime = (case rq_runtime opts of Some r \<Rightarrow> r | None \<Rightarrow> if el_cloud (ro_eligibility role) then CloudRun else LocalRun),
     rt_provider = ''cursor'', rt_tier = mr_tier (ro_model role), rt_effort = mr_effort (ro_model role),
     rt_step = UnavailableStep, rt_history = [], rt_compatible = False, rt_available = available_models opts,
     rt_category = map_option cp_id (category_preset role opts)\<rparr>"

definition constrained_route :: "agent_role \<Rightarrow> source_profile \<Rightarrow> route_options \<Rightarrow> category_policy option \<Rightarrow> route \<Rightarrow> route" where
  \<comment> \<open>steps 2 to 7\<close>
  "constrained_route role profile opts preset r = (case constraint_model role profile of
     None \<Rightarrow> late_route role profile opts preset r
   | Some m \<Rightarrow> (let found = NoteConstraint m (sp_id profile) in
       if m \<in> set (rt_available r) then
         r\<lparr>rt_model := m, rt_step := ProfileConstraint,
           rt_tier := (case Option.bind (sp_model profile) mo_tier of Some t \<Rightarrow> t | None \<Rightarrow> mr_tier (ro_model role)),
           rt_effort := or_else (Option.bind (sp_model profile) mo_effort) (mr_effort (ro_model role)),
           rt_history := [found], rt_compatible := True\<rparr>
       else if mr_exact (ro_model role) = Some True then r\<lparr>rt_history := [found, NoteConstraintMissing m, NoteExact]\<rparr>
       else late_route role profile opts preset (r\<lparr>rt_history := [found, NoteConstraintMissing m]\<rparr>)))"

definition resolve_agent_route :: "agent_role \<Rightarrow> source_profile \<Rightarrow> route_options \<Rightarrow> route" where
  "resolve_agent_route role profile opts = (let
     r = blank_route role profile opts;
     preset = category_preset role opts
   in case given (rq_model opts) of
        Some model \<Rightarrow> if explicit_external opts then constrained_route role profile opts preset r
          else (let requested = trim model in
            if rq_strict opts \<and> rq_available opts \<noteq> None \<and> requested \<notin> set (the (rq_available opts))
            then r\<lparr>rt_history := [NoteExplicit requested, NoteExplicitUnavailable requested]\<rparr>
            else r\<lparr>rt_model := requested, rt_step := ExplicitModel, rt_history := [NoteExplicit requested], rt_compatible := True\<rparr>)
      | None \<Rightarrow> constrained_route role profile opts preset r)"

definition explain_agent_route :: "string \<Rightarrow> route_options \<Rightarrow> catalog_error + route" where
  "explain_agent_route name opts = rbind (resolve_role_and_profile name (rq_profile opts))
     (\<lambda>(role, profile). Inr (resolve_agent_route role profile opts))"

section \<open>What a route may be\<close>

definition demands :: "route_options \<Rightarrow> category_policy option \<Rightarrow> run_target \<Rightarrow> string \<Rightarrow> bool" where
  \<comment> \<open>a model meets the capabilities the category or else the request asks for\<close>
  "demands opts preset runtime m = model_supports m (or_else (Option.bind preset cp_vision) (rq_vision opts))
     (or_else (Option.bind preset cp_tools) (rq_tools opts)) runtime"

definition fallback_tiers :: "agent_role \<Rightarrow> category_policy option \<Rightarrow> routing_class list" where
  "fallback_tiers role preset = (case preset of Some p \<Rightarrow> cp_fallback p | None \<Rightarrow> mr_fallback (ro_model role))"

definition route_justified :: "agent_role \<Rightarrow> source_profile \<Rightarrow> route_options \<Rightarrow> route \<Rightarrow> bool" where
  "route_justified role profile opts rt = (let
     preset = category_preset role opts;
     offered = (\<lambda>m. m \<in> set (available_models opts));
     unforced = (given (rq_model opts) = None \<and> override_model role opts = None \<and> \<not> explicit_external opts)
   in if rt_step rt = ExternalProvider
      then rt_runtime rt = ExternalRun
        \<and> (\<exists>p. given (or_else (rq_provider opts) (rq_external_provider opts)) = Some p \<and> \<not> is_cursor p
            \<and> rt_provider rt = to_lower (trim p)
            \<and> rt_model rt = (case or_else (rq_external_model opts) (rq_model opts) of Some m \<Rightarrow> m | None \<Rightarrow> default_model_for_provider (rt_provider rt)))
      else rt_provider rt = ''cursor'' \<and> rt_runtime rt = rt_runtime (blank_route role profile opts)
        \<and> (case rt_step rt of
             ExplicitModel \<Rightarrow> \<not> explicit_external opts \<and> map_option trim (given (rq_model opts)) = Some (rt_model rt)
               \<and> (rq_strict opts \<and> rq_available opts \<noteq> None \<longrightarrow> offered (rt_model rt))
           | ProfileConstraint \<Rightarrow> constraint_model role profile = Some (rt_model rt) \<and> offered (rt_model rt)
           | UserOverride \<Rightarrow> override_model role opts = Some (rt_model rt)
           | CategoryStep \<Rightarrow> unforced \<and> offered (rt_model rt) \<and> demands opts preset (rt_runtime rt) (rt_model rt)
           | CompatibleFallback \<Rightarrow> unforced \<and> offered (rt_model rt) \<and> demands opts preset (rt_runtime rt) (rt_model rt)
               \<and> (rt_tier rt, rt_model rt) \<in> set (tier_candidates (fallback_tiers role preset))
           | _ \<Rightarrow> rt_model rt = ''none'' \<and> \<not> rt_compatible rt))"

text \<open>A route under construction: an unavailable result of this role and request whose notes may differ.\<close>

definition pending :: "agent_role \<Rightarrow> source_profile \<Rightarrow> route_options \<Rightarrow> route \<Rightarrow> bool" where
  "pending role profile opts r = (rt_model r = ''none'' \<and> rt_runtime r = rt_runtime (blank_route role profile opts)
     \<and> rt_provider r = ''cursor'' \<and> rt_step r = UnavailableStep \<and> \<not> rt_compatible r \<and> rt_available r = available_models opts)"

lemma pending_simps [simp]:
  "pending role profile opts (blank_route role profile opts)"
  "pending role profile opts (r\<lparr>rt_history := ns\<rparr>) = pending role profile opts r"
  by (simp_all add: pending_def blank_route_def)

lemma pending_justified: "pending role profile opts r \<Longrightarrow> route_justified role profile opts r"
  by (simp add: pending_def route_justified_def Let_def)

lemma external_justified:
  assumes "pending role profile opts r"
  shows "route_justified role profile opts (external_route role opts tier r)"
proof (cases "given (or_else (rq_provider opts) (rq_external_provider opts))")
  case None
  with assms show ?thesis by (simp add: external_route_def pending_def route_justified_def Let_def)
next
  case (Some p)
  with assms show ?thesis
    by (cases "is_cursor p") (simp_all add: external_route_def pending_def route_justified_def Let_def cong: option.case_cong)
qed

lemma fallback_found:
  "snd (fallback_search avail fits xs) = Some (t, m) \<Longrightarrow> (t, m) \<in> set xs \<and> avail m \<and> fits m"
  by (induction avail fits xs rule: fallback_search.induct) (auto split: if_splits prod.splits)

lemma fallback_none:
  "snd (fallback_search avail fits xs) = None \<Longrightarrow> (t, m) \<in> set xs \<Longrightarrow> \<not> (avail m \<and> fits m)"
  by (induction avail fits xs rule: fallback_search.induct) (auto split: if_splits prod.splits)

lemma cursor_route_cases:
  fixes role profile opts preset r
  defines "tier \<equiv> effective_tier role profile opts preset" and "fits \<equiv> demands opts preset (rt_runtime r)"
    and "avail \<equiv> (\<lambda>m. m \<in> set (rt_available r))"
  obtains
    (chosen) m ns where "cursor_route role profile opts preset r = Inl (r\<lparr>rt_model := m, rt_tier := tier,
        rt_effort := route_effort role profile opts preset, rt_step := CategoryStep, rt_history := ns, rt_compatible := True\<rparr>)"
      "avail m" "fits m"
  | (fallback) t m ns where "cursor_route role profile opts preset r = Inl (r\<lparr>rt_model := m, rt_tier := t,
        rt_effort := Some LowEffort, rt_step := CompatibleFallback, rt_history := ns, rt_compatible := True\<rparr>)"
      "avail m" "fits m" "(t, m) \<in> set (tier_candidates (fallback_tiers role preset))"
  | (nothing) ns where "cursor_route role profile opts preset r = Inr (r\<lparr>rt_history := ns\<rparr>)"
      "\<And>m. m \<in> set (DEFAULT_CURSOR_MODELS tier) \<Longrightarrow> \<not> (avail m \<and> fits m)"
      "\<And>t m. (t, m) \<in> set (tier_candidates (fallback_tiers role preset)) \<Longrightarrow> \<not> (avail m \<and> fits m)"
      "\<And>m. given (preferred_model role profile opts preset) = Some m \<Longrightarrow> \<not> (avail m \<and> fits m)"
proof -
  define preferred where "preferred = given (preferred_model role profile opts preset)"
  define first where "first = find (\<lambda>m. avail m \<and> fits m) (DEFAULT_CURSOR_MODELS tier)"
  obtain ns found where search: "fallback_search avail fits (tier_candidates (fallback_tiers role preset)) = (ns, found)"
    by (cases "fallback_search avail fits (tier_candidates (fallback_tiers role preset))")
  define hist where "hist = rt_history r @ [NoteTier tier (preferred_model role profile opts preset) (case preset of Some p \<Rightarrow> cp_id p | None \<Rightarrow> ''default'')]"
  define pick where "pick = (\<lambda>m ns. r\<lparr>rt_model := m, rt_tier := tier, rt_effort := route_effort role profile opts preset,
    rt_step := CategoryStep, rt_history := ns, rt_compatible := True\<rparr>)"
  define select_tier where "select_tier = (case first of Some m \<Rightarrow> Inl (pick m (hist @ [NoteTierDefault m tier]))
     | None \<Rightarrow> (case found of
              Some (t, m) \<Rightarrow> Inl (r\<lparr>rt_model := m, rt_tier := t, rt_effort := Some LowEffort, rt_step := CompatibleFallback,
                rt_history := hist @ NoteFallback (fallback_tiers role preset) # ns, rt_compatible := True\<rparr>)
            | None \<Rightarrow> Inr (r\<lparr>rt_history := hist @ NoteFallback (fallback_tiers role preset) # ns\<rparr>)))"
  have fits: "fits = (\<lambda>m. model_supports m (or_else (Option.bind preset cp_vision) (rq_vision opts))
       (or_else (Option.bind preset cp_tools) (rq_tools opts)) (rt_runtime r))"
    unfolding fits_def demands_def by simp
  have route: "cursor_route role profile opts preset r = (case preferred of
      Some m \<Rightarrow> if avail m \<and> fits m then Inl (pick m hist) else select_tier | None \<Rightarrow> select_tier)"
    using search unfolding cursor_route_def Let_def select_tier_def pick_def hist_def first_def preferred_def fits avail_def tier_def fallback_tiers_def
    by (simp split: option.splits)
  show thesis
  proof (cases "\<exists>m. preferred = Some m \<and> avail m \<and> fits m")
    case True
    then obtain m where m: "preferred = Some m" "avail m" "fits m" by blast
    then have "cursor_route role profile opts preset r = Inl (pick m hist)" unfolding route by simp
    with m(2,3) show thesis unfolding pick_def by (intro chosen)
  next
    case False
    then have select: "cursor_route role profile opts preset r = select_tier" unfolding route by (auto split: option.splits)
    show thesis
    proof (cases first)
      case (Some m)
      then have m: "avail m" "fits m" unfolding first_def find_Some_iff by auto
      have "cursor_route role profile opts preset r = Inl (pick m (hist @ [NoteTierDefault m tier]))"
        unfolding select select_tier_def Some by simp
      with m show thesis unfolding pick_def by (intro chosen)
    next
      case None
      note none = None
      then have tierless: "m \<in> set (DEFAULT_CURSOR_MODELS tier) \<Longrightarrow> \<not> (avail m \<and> fits m)" for m
        unfolding first_def find_None_iff by blast
      show thesis
      proof (cases found)
        case (Some tm)
        obtain t m where tm: "tm = (t, m)" by (cases tm)
        have f: "(t, m) \<in> set (tier_candidates (fallback_tiers role preset)) \<and> avail m \<and> fits m"
          by (rule fallback_found) (simp add: search Some tm)
        have "cursor_route role profile opts preset r = Inl (r\<lparr>rt_model := m, rt_tier := t, rt_effort := Some LowEffort,
            rt_step := CompatibleFallback, rt_history := hist @ NoteFallback (fallback_tiers role preset) # ns, rt_compatible := True\<rparr>)"
          unfolding select select_tier_def none Some tm by simp
        with f show thesis by (intro fallback) blast+
      next
        case None
        have unfit: "\<not> (avail m \<and> fits m)" if "(t, m) \<in> set (tier_candidates (fallback_tiers role preset))" for t m
          by (rule fallback_none [OF _ that]) (simp add: search None)
        have pref: "\<not> (avail m \<and> fits m)" if "given (preferred_model role profile opts preset) = Some m" for m
          using False that unfolding preferred_def by blast
        have "cursor_route role profile opts preset r = Inr (r\<lparr>rt_history := hist @ NoteFallback (fallback_tiers role preset) # ns\<rparr>)"
          unfolding select select_tier_def none None by simp
        then show thesis by (rule nothing) (fact tierless, fact unfit, fact pref)
      qed
    qed
  qed
qed

lemma late_justified:
  assumes "pending role profile opts r" "given (rq_model opts) = None \<or> explicit_external opts"
  shows "route_justified role profile opts (late_route role profile opts (category_preset role opts) r)"
proof (cases "override_model role opts")
  case (Some m)
  with assms(1) show ?thesis by (simp add: late_route_def pending_def route_justified_def Let_def)
next
  case None
  note none = None
  show ?thesis
  proof (cases "explicit_external opts")
    case True
    then show ?thesis using none assms(1) by (simp add: late_route_def Let_def external_justified)
  next
    case False
    then have un: "given (rq_model opts) = None" using assms(2) by simp
    show ?thesis
    proof (cases rule: cursor_route_cases [of role profile opts "category_preset role opts" r])
      case (chosen m ns)
      with none False un assms(1) show ?thesis by (simp add: late_route_def Let_def pending_def route_justified_def)
    next
      case (fallback t m ns)
      with none False un assms(1) show ?thesis by (simp add: late_route_def Let_def pending_def route_justified_def)
    next
      case (nothing ns)
      with none False assms(1) show ?thesis by (simp add: late_route_def Let_def external_justified)
    qed
  qed
qed

lemma constrained_justified:
  assumes p: "pending role profile opts r" and u: "given (rq_model opts) = None \<or> explicit_external opts"
  shows "route_justified role profile opts (constrained_route role profile opts (category_preset role opts) r)"
proof (cases "constraint_model role profile")
  case None
  then show ?thesis using late_justified [OF p u] by (simp add: constrained_route_def)
next
  case (Some m)
  consider "m \<in> set (rt_available r)" | "m \<notin> set (rt_available r)" "mr_exact (ro_model role) = Some True"
    | "m \<notin> set (rt_available r)" "mr_exact (ro_model role) \<noteq> Some True" by blast
  then show ?thesis
  proof cases
    case 1
    with Some p show ?thesis by (simp add: constrained_route_def Let_def pending_def route_justified_def)
  next
    case 2
    with Some p show ?thesis by (simp add: constrained_route_def Let_def pending_justified)
  next
    case 3
    with Some p u show ?thesis by (simp add: constrained_route_def Let_def late_justified)
  qed
qed

lemma resolve_justified: "route_justified role profile opts (resolve_agent_route role profile opts)"
proof -
  define r where "r = blank_route role profile opts"
  have p: "pending role profile opts r" unfolding r_def by (rule pending_simps)
  show ?thesis
  proof (cases "given (rq_model opts)")
    case None
    with constrained_justified [OF p] show ?thesis by (simp add: resolve_agent_route_def Let_def r_def)
  next
    case (Some m)
    note some = Some
    show ?thesis
    proof (cases "explicit_external opts")
      case True
      with Some constrained_justified [OF p] show ?thesis by (simp add: resolve_agent_route_def Let_def r_def)
    next
      case False
      show ?thesis
      proof (cases "rq_strict opts \<and> rq_available opts \<noteq> None \<and> trim m \<notin> set (the (rq_available opts))")
        case True
        with some False p show ?thesis by (simp add: resolve_agent_route_def Let_def r_def [symmetric] pending_justified)
      next
        case ok: False
        have "resolve_agent_route role profile opts = (if rq_strict opts \<and> rq_available opts \<noteq> None \<and> trim m \<notin> set (the (rq_available opts))
            then r\<lparr>rt_history := [NoteExplicit (trim m), NoteExplicitUnavailable (trim m)]\<rparr>
            else r\<lparr>rt_model := trim m, rt_step := ExplicitModel, rt_history := [NoteExplicit (trim m)], rt_compatible := True\<rparr>)"
          unfolding resolve_agent_route_def Let_def r_def using some False by simp
        then have "resolve_agent_route role profile opts = r\<lparr>rt_model := trim m, rt_step := ExplicitModel, rt_history := [NoteExplicit (trim m)], rt_compatible := True\<rparr>"
          unfolding if_not_P [OF ok] .
        with some False ok p show ?thesis by (auto simp: pending_def route_justified_def Let_def available_models_def)
      qed
    qed
  qed
qed


section \<open>A route is found when there is one\<close>

lemma late_found:
  assumes "pending role profile opts r" "\<not> explicit_external opts" "preset = category_preset role opts"
    "m \<in> set (available_models opts)" "demands opts preset (rt_runtime r) m"
    "m \<in> set (DEFAULT_CURSOR_MODELS (effective_tier role profile opts preset)) \<or> (t, m) \<in> set (tier_candidates (fallback_tiers role preset))"
  shows "rt_step (late_route role profile opts preset r) \<noteq> UnavailableStep"
proof (cases "override_model role opts")
  case (Some m)
  then show ?thesis by (simp add: late_route_def)
next
  case None
  have avail: "rt_available r = available_models opts" using assms(1) by (simp add: pending_def)
  show ?thesis
    by (cases rule: cursor_route_cases [of role profile opts preset r])
      (use None assms(2,4-6) avail in \<open>auto simp: late_route_def Let_def\<close>)
qed

text \<open>C33: A model is found when there is one. If an offered model of the effective tier or of a fallback tier meets
  the demanded capabilities, the role does not insist on an exact model, no other provider is asked
  for and an explicitly requested model is offered, then the route is not unavailable.\<close>

theorem route_found_if_possible:
  assumes "\<not> explicit_external opts" "mr_exact (ro_model role) \<noteq> Some True"
    "list_all (\<lambda>m. trim m \<in> set (available_models opts)) (case given (rq_model opts) of None \<Rightarrow> [] | Some m \<Rightarrow> [m])"
    "(t, m) \<in> set (tier_candidates (effective_tier role profile opts (category_preset role opts) # fallback_tiers role (category_preset role opts)))"
    "m \<in> set (available_models opts)" "demands opts (category_preset role opts) (rt_runtime (blank_route role profile opts)) m"
  shows "rt_step (resolve_agent_route role profile opts) \<noteq> UnavailableStep"
proof -
  define r where "r = blank_route role profile opts"
  have p: "pending role profile opts r" unfolding r_def by (rule pending_simps)
  have m: "m \<in> set (DEFAULT_CURSOR_MODELS (effective_tier role profile opts (category_preset role opts)))
      \<or> (t, m) \<in> set (tier_candidates (fallback_tiers role (category_preset role opts)))"
    using assms(4) by (auto simp: tier_candidates_def)
  have late: "rt_step (late_route role profile opts (category_preset role opts) (r\<lparr>rt_history := ns\<rparr>)) \<noteq> UnavailableStep" for ns
    by (rule late_found [OF _ assms(1) refl assms(5) _ m]) (use p assms(6) in \<open>simp_all add: r_def\<close>)
  from late [of "rt_history r"]
  have late': "rt_step (late_route role profile opts (category_preset role opts) r) \<noteq> UnavailableStep" by simp
  show ?thesis
  proof (cases "given (rq_model opts)")
    case None
    then show ?thesis using late late' assms(2)
      by (cases "constraint_model role profile") (simp_all add: resolve_agent_route_def constrained_route_def Let_def r_def [symmetric])
  next
    case (Some m')
    then show ?thesis using assms(1,3) by (auto simp: resolve_agent_route_def Let_def available_models_def)
  qed
qed

definition ex_request :: route_options where
  "ex_request = \<lparr>rq_profile = None, rq_model = None, rq_runtime = None, rq_category = Some ''Deep Think'', rq_provider = Some ''cursor'',
     rq_external_provider = None, rq_external_model = None, rq_overrides = [(''other'', ''x'')], rq_available = Some [''gpt-4o'', ''deepseek-r1''],
     rq_strict = True, rq_vision = Some True, rq_tools = None\<rparr>"

theorem route_found_if_possible_witness:
  "rt_step (resolve_agent_route role_executor (hd (ro_profiles role_executor)) ex_request) \<noteq> UnavailableStep
     \<and> rt_model (resolve_agent_route role_executor (hd (ro_profiles role_executor)) ex_request) = ''gpt-4o''"
proof -
  have "\<not> explicit_external ex_request" "mr_exact (ro_model role_executor) \<noteq> Some True"
    "list_all (\<lambda>m. trim m \<in> set (available_models ex_request)) (case given (rq_model ex_request) of None \<Rightarrow> [] | Some m \<Rightarrow> [m])"
    by code_simp+
  moreover have "list_ex (\<lambda>(t, m). m = ''gpt-4o'') (tier_candidates (effective_tier role_executor (hd (ro_profiles role_executor)) ex_request (category_preset role_executor ex_request)
      # fallback_tiers role_executor (category_preset role_executor ex_request)))"
    by code_simp
  moreover have "''gpt-4o'' \<in> set (available_models ex_request)"
    "demands ex_request (category_preset role_executor ex_request) (rt_runtime (blank_route role_executor (hd (ro_profiles role_executor)) ex_request)) ''gpt-4o''"
    by code_simp+
  moreover have "rt_model (resolve_agent_route role_executor (hd (ro_profiles role_executor)) ex_request) = ''gpt-4o''"
    by code_simp
  ultimately show ?thesis
    using route_found_if_possible [of ex_request role_executor _ "''gpt-4o''" "hd (ro_profiles role_executor)"] by (auto simp: list_ex_iff)
qed

section \<open>Limits\<close>

text \<open>An empty provider hides an external provider: the request is external, so the category steps are skipped, and
  no provider is left for step 6.  And a user override or an explicit model without the strict check is
  selected although it is not offered.\<close>

lemma empty_provider_hides_external:
  "let rt = resolve_agent_route role_executor (hd (ro_profiles role_executor))
       (ex_request\<lparr>rq_provider := Some [], rq_external_provider := Some ''codex''\<rparr>)
   in rt_step rt = UnavailableStep \<and> rt_history rt = [NoteSkipCategory, NoteSkipFallback, NoteNoExternal, NoteUnavailable]"
  by code_simp

lemma override_unchecked:
  "let rt = resolve_agent_route role_executor (hd (ro_profiles role_executor)) (ex_request\<lparr>rq_overrides := [(''OMCU-executor'', ''no-such'')],
      rq_provider := Some ''codex''\<rparr>)
   in rt_model rt = ''no-such'' \<and> rt_step rt = UserOverride \<and> rt_provider rt = ''cursor'' \<and> ''no-such'' \<notin> set (rt_available rt)"
  by code_simp

end
