(* ===== verification/JsonText.thy ===== *)
theory JsonText
  imports Json "HOL-Library.Char_ord" "HOL-Library.List_Lexorder"
begin

text \<open>
  JSON as text: the reader (\<^verbatim>\<open>JSON.parse\<close>) with its inverse \<open>stringify\<close>, and the canonical text of a
  value (\<^verbatim>\<open>canonicalJson\<close> of \<^verbatim>\<open>src/runtime/journal.ts\<close>), which the digests of the journal are taken over.
  A plain integer in the safe range is read here; the value of any other number text, which the
  host rounds to a double, is the parameter \<open>num\<close> of the reader.  An escape of a code unit
  above 255 is outside the strings of the model and read as an error.
\<close>

section \<open>Reading\<close>

definition json_ws :: "char \<Rightarrow> bool" where
  "json_ws c = (c = CHR '' '' \<or> c = CHR 0x09 \<or> c = CHR 0x0A \<or> c = CHR 0x0D)"

definition skip_ws :: "string \<Rightarrow> string" where
  "skip_ws s = dropWhile json_ws s"

definition hex_value :: "char \<Rightarrow> nat option" where
  "hex_value c = (let n = of_char c in
     if 48 \<le> n \<and> n \<le> 57 then Some (n - 48) else if 97 \<le> n \<and> n \<le> 102 then Some (n - 87)
     else if 65 \<le> n \<and> n \<le> 70 then Some (n - 55) else None)"

definition hex4 :: "char \<Rightarrow> char \<Rightarrow> char \<Rightarrow> char \<Rightarrow> char option" where
  "hex4 a b c d = (case (hex_value a, hex_value b, hex_value c, hex_value d) of
     (Some w, Some x, Some y, Some z) \<Rightarrow> (let n = ((w * 16 + x) * 16 + y) * 16 + z in if n < 256 then Some (char_of n) else None)
   | _ \<Rightarrow> None)"

definition unescape_char :: "char \<Rightarrow> char option" where
  "unescape_char c = (if c = CHR 0x22 then Some (CHR 0x22) else if c = CHR 0x5C then Some (CHR 0x5C)
     else if c = CHR ''/'' then Some (CHR ''/'') else if c = CHR ''b'' then Some (CHR 0x08)
     else if c = CHR ''f'' then Some (CHR 0x0C) else if c = CHR ''n'' then Some (CHR 0x0A)
     else if c = CHR ''r'' then Some (CHR 0x0D) else if c = CHR ''t'' then Some (CHR 0x09) else None)"

definition cons_char :: "char \<Rightarrow> (string \<times> string) option \<Rightarrow> (string \<times> string) option" where
  "cons_char c r = map_option (\<lambda>(s, rest). (c # s, rest)) r"

function read_chars :: "string \<Rightarrow> (string \<times> string) option" where
  \<comment> \<open>the characters of a string up to its closing quote, and the text after it\<close>
  "read_chars [] = None"
| "read_chars (c # s) = (
     if c = CHR 0x22 then Some ([], s)
     else if (of_char c :: nat) < 32 then None
     else if c \<noteq> CHR 0x5C then cons_char c (read_chars s)
     else case s of
       [] \<Rightarrow> None
     | e # s' \<Rightarrow> if e = CHR ''u''
         then (case s' of h1 # h2 # h3 # h4 # s'' \<Rightarrow> (case hex4 h1 h2 h3 h4 of None \<Rightarrow> None | Some d \<Rightarrow> cons_char d (read_chars s'')) | _ \<Rightarrow> None)
         else (case unescape_char e of None \<Rightarrow> None | Some d \<Rightarrow> cons_char d (read_chars s')))"
  by pat_completeness auto

termination by (relation "measure length") auto

definition exponent_text :: "string \<Rightarrow> bool" where
  "exponent_text r = (case r of [] \<Rightarrow> True | c # x \<Rightarrow> (c = CHR ''e'' \<or> c = CHR ''E'')
     \<and> (let d = (case x of s # y \<Rightarrow> if s = CHR ''+'' \<or> s = CHR ''-'' then y else x | [] \<Rightarrow> []) in d \<noteq> [] \<and> list_all is_digit d))"

definition unsigned :: "string \<Rightarrow> string" where
  "unsigned s = (case s of c # r \<Rightarrow> if c = CHR ''-'' then r else s | [] \<Rightarrow> [])"

definition number_text :: "string \<Rightarrow> bool" where
  "number_text s = (let i = takeWhile is_digit (unsigned s); r = dropWhile is_digit (unsigned s) in
     i \<noteq> [] \<and> (hd i = CHR ''0'' \<longrightarrow> tl i = []) \<and>
     (case r of c # r' \<Rightarrow> if c = CHR ''.'' then takeWhile is_digit r' \<noteq> [] \<and> exponent_text (dropWhile is_digit r') else exponent_text r
      | [] \<Rightarrow> True))"

definition integer_value :: "string \<Rightarrow> int" where
  "integer_value s = (if s \<noteq> unsigned s then - int (undec_nat (unsigned s)) else int (undec_nat s))"

definition read_number :: "(string \<Rightarrow> json) \<Rightarrow> string \<Rightarrow> json option" where
  "read_number num s = (if \<not> number_text s then None
     else if list_all is_digit (unsigned s) \<and> safe_integer (integer_value s) then Some (JNum (integer_value s)) else Some (num s))"

definition number_char :: "char \<Rightarrow> bool" where
  "number_char c = (is_digit c \<or> c = CHR ''-'' \<or> c = CHR ''+'' \<or> c = CHR ''.'' \<or> c = CHR ''e'' \<or> c = CHR ''E'')"

fun read_value :: "(string \<Rightarrow> json) \<Rightarrow> nat \<Rightarrow> string \<Rightarrow> (json \<times> string) option"
and read_items :: "(string \<Rightarrow> json) \<Rightarrow> nat \<Rightarrow> string \<Rightarrow> (json list \<times> string) option"
and read_members :: "(string \<Rightarrow> json) \<Rightarrow> nat \<Rightarrow> string \<Rightarrow> ((string \<times> json) list \<times> string) option" where
  "read_value num 0 s = None"
| "read_value num (Suc n) s = (case skip_ws s of [] \<Rightarrow> None | c # r \<Rightarrow>
     if c = CHR 0x22 then map_option (\<lambda>(x, r'). (JStr x, r')) (read_chars r)
     else if c = CHR ''['' then (case skip_ws r of
         d # r' \<Rightarrow> if d = CHR '']'' then Some (JArr [], r') else map_option (\<lambda>(xs, q). (JArr xs, q)) (read_items num n r)
       | [] \<Rightarrow> None)
     else if c = CHR ''{'' then (case skip_ws r of
         d # r' \<Rightarrow> if d = CHR ''}'' then Some (JObj [], r') else map_option (\<lambda>(fs, q). (JObj fs, q)) (read_members num n r)
       | [] \<Rightarrow> None)
     else if take 4 (c # r) = ''null'' then Some (JNull, drop 4 (c # r))
     else if take 4 (c # r) = ''true'' then Some (JBool True, drop 4 (c # r))
     else if take 5 (c # r) = ''false'' then Some (JBool False, drop 5 (c # r))
     else map_option (\<lambda>v. (v, dropWhile number_char (c # r))) (read_number num (takeWhile number_char (c # r))))"
| "read_items num 0 s = None"
| "read_items num (Suc n) s = (case read_value num n s of None \<Rightarrow> None | Some (v, r) \<Rightarrow>
     (case skip_ws r of [] \<Rightarrow> None | c # q \<Rightarrow>
        if c = CHR '']'' then Some ([v], q)
        else if c = CHR '','' then map_option (\<lambda>(vs, q'). (v # vs, q')) (read_items num n q)
        else None))"
| "read_members num 0 s = None"
| "read_members num (Suc n) s = (case skip_ws s of [] \<Rightarrow> None | c # r \<Rightarrow>
     if c \<noteq> CHR 0x22 then None else (case read_chars r of None \<Rightarrow> None | Some (k, r1) \<Rightarrow>
       (case skip_ws r1 of [] \<Rightarrow> None | d # r2 \<Rightarrow>
         if d \<noteq> CHR '':'' then None else (case read_value num n r2 of None \<Rightarrow> None | Some (v, r3) \<Rightarrow>
           (case skip_ws r3 of [] \<Rightarrow> None | e # q \<Rightarrow>
              if e = CHR ''}'' then Some ([(k, v)], q)
              else if e = CHR '','' then map_option (\<lambda>(fs, q'). ((k, v) # fs, q')) (read_members num n q)
              else None)))))"

definition json_parse :: "(string \<Rightarrow> json) \<Rightarrow> string \<Rightarrow> json option" where
  \<comment> \<open>\<^verbatim>\<open>JSON.parse\<close>, \<open>None\<close> when it throws; of two nested calls of the reader one consumes a character\<close>
  "json_parse num s = (case read_value num (2 * length s + 2) s of
     Some (v, r) \<Rightarrow> if skip_ws r = [] then Some v else None | None \<Rightarrow> None)"

section \<open>Canonical text\<close>

definition sorted_members :: "(string \<times> 'a) list \<Rightarrow> (string \<times> 'a) list" where
  \<comment> \<open>the members in the order of their names, a repeated one with its last value\<close>
  "sorted_members ps = map (\<lambda>k. (k, the (map_of (rev ps) k))) (sort (remdups (map fst ps)))"

fun canonical_json :: "json \<Rightarrow> string"
and canonical_items :: "json list \<Rightarrow> string list"
and canonical_members :: "(string \<times> json) list \<Rightarrow> (string \<times> string) list" where
  "canonical_json (JArr xs) = ''['' @ join '','' (canonical_items xs) @ '']''"
| "canonical_json (JObj fs) = ''{'' @ join '','' (map (\<lambda>(k, t). quote k @ '':'' @ t) (sorted_members (canonical_members fs))) @ ''}''"
| "canonical_json v = stringify v"
| "canonical_items [] = []"
| "canonical_items (x # xs) = canonical_json x # canonical_items xs"
| "canonical_members [] = []"
| "canonical_members ((k, v) # fs) = (k, canonical_json v) # canonical_members fs"

lemma parse_examples:
  "json_parse JFrac ''{\"a\": [1, -20 , 1.5e3, true], \"b\" : { } }'' = Some (JObj [(''a'', JArr [JNum 1, JNum (-20), JFrac ''1.5e3'', JBool True]), (''b'', JObj [])])"
  "json_parse JFrac ''[01]'' = None" "json_parse JFrac ''[1,]'' = None"
  "canonical_json (JObj [(''b'', JNull), (''a'', JNum 2), (''b'', JNum 1)]) = ''{\"a\":2,\"b\":1}''"
  by code_simp+


section \<open>What is written reads back\<close>

lemma control_chars:
  "char_of (34::nat) = CHR 0x22" "char_of (92::nat) = CHR 0x5C" "char_of (8::nat) = CHR 0x08" "char_of (9::nat) = CHR 0x09"
  "char_of (10::nat) = CHR 0x0A" "char_of (12::nat) = CHR 0x0C" "char_of (13::nat) = CHR 0x0D"
  by code_simp+

lemma hex4_control:
  assumes "n < 32"
  shows "hex4 (CHR ''0'') (CHR ''0'') (hex_digit (n div 16)) (hex_digit (n mod 16)) = Some (char_of n)"
proof -
  have h: "hex_value (hex_digit k) = Some k" if "k < 16" for k :: nat
    using that by (auto simp: hex_value_def hex_digit_def Let_def)
  have z: "hex_value (CHR ''0'') = Some 0" by code_simp
  have "n div 16 < 16" "n mod 16 < 16" "n div 16 * 16 + n mod 16 = n" using assms by auto
  with assms show ?thesis by (simp add: hex4_def h z)
qed

lemma read_escape: "read_chars (escape_char c @ t) = cons_char c (read_chars t)"
proof -
  define n where "n = (of_char c :: nat)"
  have c: "c = char_of n" by (simp add: n_def)
  have n: "n < 256" by (simp add: n_def)
  consider "n = 34" | "n = 92" | "n = 8" | "n = 9" | "n = 10" | "n = 12" | "n = 13"
    | "n < 32" "n \<notin> {8, 9, 10, 12, 13}" | "32 \<le> n" "n \<noteq> 34" "n \<noteq> 92" by fastforce
  then show ?thesis
  proof cases
    case 8
    then have e: "escape_char c = [CHR 0x5C, CHR ''u'', CHR ''0'', CHR ''0'', hex_digit (n div 16), hex_digit (n mod 16)]"
      unfolding escape_char_def Let_def n_def [symmetric] by simp
    have "hex4 (CHR ''0'') (CHR ''0'') (hex_digit (n div 16)) (hex_digit (n mod 16)) = Some c"
      using hex4_control [OF 8(1)] c by simp
    then show ?thesis unfolding e by simp
  next
    case 9
    then have e: "escape_char c = [c]" unfolding escape_char_def Let_def n_def [symmetric] by simp
    have "c \<noteq> CHR 0x22" "c \<noteq> CHR 0x5C" "\<not> (of_char c :: nat) < 32" using 9 by (auto simp: n_def)
    then show ?thesis unfolding e by simp
  qed (simp_all add: escape_char_def Let_def n_def [symmetric] unescape_char_def, simp_all add: c control_chars)
qed

lemma read_string: "read_chars (concat (map escape_char s) @ CHR 0x22 # rest) = Some (s, rest)"
  by (induction s) (simp_all add: read_escape cons_char_def)


lemma digit_not_zero: "0 < n \<Longrightarrow> n < 10 \<Longrightarrow> digit n \<noteq> CHR ''0''"
proof -
  assume "0 < n" "n < 10"
  then have "(of_char (digit n) :: nat) \<noteq> of_char (CHR ''0'')" by (simp add: of_char_digit)
  then show ?thesis by auto
qed

lemma dec_nat_head: "0 < n \<Longrightarrow> hd (dec_nat n) \<noteq> CHR ''0''"
proof (induction n rule: dec_nat.induct)
  case (1 n)
  show ?case
  proof (cases "n < 10")
    case True
    with 1 show ?thesis by (simp add: dec_nat.simps [of n] digit_not_zero)
  next
    case False
    then have "hd (dec_nat (n div 10)) \<noteq> CHR ''0''" using 1 by simp
    with False show ?thesis by (simp add: dec_nat.simps [of n] hd_append)
  qed
qed

lemma dec_nat_zero: "dec_nat 0 = ''0''"
  by code_simp

lemma minus_no_digit: "\<not> is_digit (CHR ''-'')"
  by code_simp

lemma take_digits: "takeWhile is_digit (dec_nat n) = dec_nat n" "dropWhile is_digit (dec_nat n) = []"
  using dec_nat_digits [of n] by (simp_all add: list_all_iff)

lemma unsigned_dec_nat: "unsigned (dec_nat n) = dec_nat n"
  using dec_nat_digits [of n] minus_no_digit by (cases "dec_nat n") (auto simp: unsigned_def)

lemma read_number_dec: "safe_integer i \<Longrightarrow> read_number num (dec_int i) = Some (JNum i)"
proof -
  assume safe: "safe_integer i"
  have u: "unsigned (dec_int i) = dec_nat (nat \<bar>i\<bar>)"
    by (simp add: dec_int_def unsigned_dec_nat) (simp add: unsigned_def)
  have z: "hd (dec_nat m) = CHR ''0'' \<longrightarrow> tl (dec_nat m) = []" for m
    by (cases "m = 0") (auto simp: dec_nat_zero dec_nat_head)
  have t: "number_text (dec_int i)" unfolding number_text_def u take_digits Let_def using z by simp
  have v: "integer_value (dec_int i) = i"
    by (simp add: integer_value_def u) (simp add: dec_int_def)
  show ?thesis unfolding read_number_def v u using t dec_nat_digits safe by simp
qed

lemma number_chars_dec: "list_all number_char (dec_int i)"
proof -
  have "list_all number_char (dec_nat n)" for n
    using dec_nat_digits [of n] by (auto simp: number_char_def list_all_iff)
  then show ?thesis by (simp add: dec_int_def) (simp add: number_char_def)
qed

text \<open>The texts of the numbers a value holds: safe integers and the texts \<open>num\<close> gives back.\<close>

fun json_ok :: "(string \<Rightarrow> json) \<Rightarrow> json \<Rightarrow> bool" where
  "json_ok num (JNum i) = safe_integer i"
| "json_ok num (JFrac t) = (read_number num t = Some (JFrac t))"
| "json_ok num (JArr xs) = list_all (json_ok num) xs"
| "json_ok num (JObj fs) = list_all (\<lambda>(k, v). json_ok num v) fs"
| "json_ok num v = True"

lemma exponent_chars: "exponent_text r \<Longrightarrow> list_all number_char r"
  by (auto simp: exponent_text_def number_char_def list_all_iff Let_def split: list.splits if_splits)

lemma digits_split:
  assumes "list_all P (dropWhile is_digit u)" "\<And>c. is_digit c \<Longrightarrow> P c"
  shows "list_all P u"
proof -
  have "list_all P (takeWhile is_digit u)" using assms(2) by (auto simp: list_all_iff dest: set_takeWhileD)
  then show ?thesis using assms(1) by (metis list_all_append takeWhile_dropWhile_id)
qed

lemma unsigned_cases: "t = unsigned t \<or> t = CHR ''-'' # unsigned t"
  by (cases t) (simp_all add: unsigned_def)

lemma number_text_chars:
  assumes "number_text t"
  shows "t \<noteq> []" "list_all number_char t" "is_digit (hd t) \<or> hd t = CHR ''-''"
proof -
  define u where "u = unsigned t"
  have dig: "number_char c" if "is_digit c" for c using that by (simp add: number_char_def)
  have i: "takeWhile is_digit u \<noteq> []" using assms by (simp add: number_text_def u_def Let_def)
  then have hu: "u \<noteq> [] \<and> is_digit (hd u)" by (cases u) (auto split: if_splits)
  have "list_all number_char (dropWhile is_digit u)"
  proof (cases "dropWhile is_digit u")
    case Nil
    show ?thesis unfolding Nil by simp
  next
    case (Cons c r)
    show ?thesis
    proof (cases "c = CHR ''.''")
      case True
      then have "exponent_text (dropWhile is_digit r)" using assms Cons by (simp add: number_text_def u_def Let_def)
      then have "list_all number_char r" using dig by (rule digits_split [OF exponent_chars])
      with True Cons show ?thesis by (simp add: number_char_def)
    next
      case False
      then have "exponent_text (c # r)" using assms Cons by (simp add: number_text_def u_def Let_def)
      then show ?thesis unfolding Cons by (rule exponent_chars)
    qed
  qed
  then have u: "list_all number_char u" using dig by (rule digits_split)
  consider "t = u" | "t = CHR ''-'' # u" unfolding u_def using unsigned_cases by blast
  then show "t \<noteq> []" "list_all number_char t" "is_digit (hd t) \<or> hd t = CHR ''-''"
    using u hu by (cases; simp add: number_char_def)+
qed

lemma number_start:
  assumes "is_digit c \<or> c = CHR ''-''"
  shows "\<not> json_ws c" "c \<noteq> CHR 0x22" "c \<noteq> CHR ''[''" "c \<noteq> CHR ''{''" "c \<noteq> CHR ''n''" "c \<noteq> CHR ''t''" "c \<noteq> CHR ''f''" "c \<noteq> CHR '']''"
  using assms by (auto simp: is_digit_def json_ws_def)

definition delimited :: "string \<Rightarrow> bool" where
  "delimited rest = (case rest of [] \<Rightarrow> True | c # _ \<Rightarrow> \<not> number_char c)"

lemma read_value_number:
  assumes "read_number num t = Some v" "delimited rest" "0 < n"
  shows "read_value num n (t @ rest) = Some (v, rest)"
proof -
  have t: "number_text t" using assms(1) by (simp add: read_number_def split: if_splits)
  obtain c r where c: "t = c # r" using number_text_chars(1) [OF t] by (cases t) auto
  have st: "is_digit c \<or> c = CHR ''-''" using number_text_chars(3) [OF t] c by simp
  have ch: "\<forall>x \<in> set t. number_char x" using number_text_chars(2) [OF t] by (simp add: list_all_iff)
  have tw: "takeWhile number_char (t @ rest) = t" "dropWhile number_char (t @ rest) = rest"
    using ch assms(2) by (auto simp: delimited_def takeWhile_append2 dropWhile_append2 split: list.splits)
  obtain m where n: "n = Suc m" using assms(3) by (cases n) auto
  show ?thesis
    using number_start [OF st] tw assms(1) unfolding n c by (simp add: skip_ws_def)
qed

lemma stringify_start:
  "json_ok num v \<Longrightarrow> \<exists>c r. stringify v = c # r \<and> \<not> json_ws c \<and> c \<noteq> CHR '']'' \<and> c \<noteq> CHR ''}''"
proof (cases v)
  case (JNum i)
  moreover assume "json_ok num v"
  ultimately have "number_text (dec_int i)" using read_number_dec [of i num] by (simp add: read_number_def split: if_splits)
  with JNum number_text_chars(1,3) [of "dec_int i"] show ?thesis
    by (cases "dec_int i") (auto simp: is_digit_def json_ws_def)
next
  case (JFrac t)
  moreover assume "json_ok num v"
  ultimately have "number_text t" by (simp add: read_number_def split: if_splits)
  with JFrac number_text_chars(1,3) [of t] show ?thesis
    by (cases t) (auto simp: is_digit_def json_ws_def)
qed (auto simp: quote_def json_ws_def)

lemma delimited_after: "c = CHR '','' \<or> c = CHR '']'' \<or> c = CHR ''}'' \<Longrightarrow> delimited (c # rest)"
  by (auto simp: delimited_def number_char_def is_digit_def)

lemma skip_plain: "\<not> json_ws c \<Longrightarrow> skip_ws (c # r) = c # r"
  by (simp add: skip_ws_def)

lemma no_ws: "\<not> json_ws (CHR '','')" "\<not> json_ws (CHR '']'')" "\<not> json_ws (CHR ''}'')" "\<not> json_ws (CHR '':'')"
  "\<not> json_ws (CHR 0x22)" "\<not> json_ws (CHR ''['')" "\<not> json_ws (CHR ''{'')" "\<not> json_ws (CHR ''n'')" "\<not> json_ws (CHR ''t'')" "\<not> json_ws (CHR ''f'')"
  by (simp_all add: json_ws_def)

lemma join_Cons: "join sep (x # xs) = x @ (if xs = [] then [] else sep @ join sep xs)"
  by (cases xs) simp_all

lemma length_quote: "2 \<le> length (quote s)"
  by (simp add: quote_def)

lemma read_stringify:
  "json_ok num v \<Longrightarrow> delimited rest \<Longrightarrow> 2 * length (stringify v) \<le> n \<Longrightarrow> read_value num n (stringify v @ rest) = Some (v, rest)"
  "list_all (json_ok num) xs \<Longrightarrow> xs \<noteq> [] \<Longrightarrow> 2 * length (join '','' (stringify_list xs)) + 1 \<le> m \<Longrightarrow>
     read_items num m (join '','' (stringify_list xs) @ CHR '']'' # rest') = Some (xs, rest')"
  "list_all (\<lambda>(k, v). json_ok num v) fs \<Longrightarrow> fs \<noteq> [] \<Longrightarrow> 2 * length (join '','' (stringify_members fs)) + 1 \<le> l \<Longrightarrow>
     read_members num l (join '','' (stringify_members fs) @ CHR ''}'' # rest'') = Some (fs, rest'')"
proof (induction v and xs and fs arbitrary: n rest and m rest' and l rest'' rule: stringify_stringify_list_stringify_members.induct)
  case 1
  then show ?case by (cases n) (simp_all add: skip_plain no_ws)
next
  case (2 b)
  then show ?case by (cases n; cases b) (simp_all add: skip_plain no_ws)
next
  case (3 i)
  then have "0 < n" using number_text_chars(1) [of "dec_int i"] read_number_dec [of i num]
    by (cases "dec_int i") (auto simp: read_number_def split: if_splits)
  with 3 show ?case by (simp add: read_value_number read_number_dec)
next
  case (4 t)
  then have "number_text t" by (simp add: read_number_def split: if_splits)
  then have "0 < n" using number_text_chars(1) [of t] 4 by (cases t) auto
  with 4 show ?case by (simp add: read_value_number)
next
  case (5 s)
  then obtain k where "n = Suc k" using length_quote [of s] by (cases n) auto
  then show ?case by (simp add: quote_def skip_plain no_ws read_string)
next
  case (6 xs)
  then obtain k where n: "n = Suc k" by (cases n) auto
  show ?case
  proof (cases xs)
    case Nil
    then show ?thesis by (simp add: n skip_plain no_ws)
  next
    case (Cons y ys)
    have items: "read_items num k (join '','' (stringify_list xs) @ CHR '']'' # rest) = Some (xs, rest)"
      using 6 n Cons by simp
    obtain c r where c: "stringify y = c # r" "\<not> json_ws c" "c \<noteq> CHR '']''"
      using stringify_start [of num y] 6(2) Cons by auto
    then obtain q where "join '','' (stringify_list xs) = c # q" using Cons by (auto simp: join_Cons)
    with items c show ?thesis by (simp add: n skip_plain no_ws)
  qed
next
  case (7 fs)
  then obtain k where n: "n = Suc k" by (cases n) auto
  show ?case
  proof (cases fs)
    case Nil
    then show ?thesis by (simp add: n skip_plain no_ws)
  next
    case (Cons y ys)
    have items: "read_members num k (join '','' (stringify_members fs) @ CHR ''}'' # rest) = Some (fs, rest)"
      using 7 n Cons by simp
    obtain q where "join '','' (stringify_members fs) = CHR 0x22 # q" using Cons by (cases y) (auto simp: join_Cons quote_def)
    with items show ?thesis by (simp add: n skip_plain no_ws)
  qed
next
  case 8
  then show ?case by simp
next
  case (9 x xs)
  then obtain k where m: "m = Suc k" by (cases m) auto
  show ?case
  proof (cases "xs = []")
    case True
    with 9 m have "read_value num k (stringify x @ CHR '']'' # rest') = Some (x, CHR '']'' # rest')"
      by (simp add: delimited_after)
    with True show ?thesis by (simp add: m skip_plain no_ws)
  next
    case False
    with 9 m have "read_value num k (stringify x @ CHR '','' # join '','' (stringify_list xs) @ CHR '']'' # rest')
        = Some (x, CHR '','' # join '','' (stringify_list xs) @ CHR '']'' # rest')"
      by (simp add: delimited_after join_Cons)
    moreover have ne: "stringify_list xs \<noteq> []" using False by (cases xs) auto
    moreover have "read_items num k (join '','' (stringify_list xs) @ CHR '']'' # rest') = Some (xs, rest')"
      using 9 m False ne by (simp add: join_Cons)
    ultimately show ?thesis by (simp add: m join_Cons skip_plain no_ws)
  qed
next
  case 10
  then show ?case by simp
next
  case (11 key x fs)
  then obtain k where m: "l = Suc k" by (cases l) auto
  show ?case
  proof (cases "fs = []")
    case True
    with 11 m have "read_value num k (stringify x @ CHR ''}'' # rest'') = Some (x, CHR ''}'' # rest'')"
      by (simp add: delimited_after)
    with True show ?thesis by (simp add: m skip_plain no_ws quote_def read_string)
  next
    case False
    then have ne: "stringify_members fs \<noteq> []" by (cases fs) auto
    with 11 m have "read_value num k (stringify x @ CHR '','' # join '','' (stringify_members fs) @ CHR ''}'' # rest'')
        = Some (x, CHR '','' # join '','' (stringify_members fs) @ CHR ''}'' # rest'')"
      by (simp add: delimited_after join_Cons)
    moreover have "read_members num k (join '','' (stringify_members fs) @ CHR ''}'' # rest'') = Some (fs, rest'')"
      using 11 m False ne by (simp add: join_Cons)
    ultimately show ?thesis using ne by (simp add: m join_Cons skip_plain no_ws quote_def read_string)
  qed
qed

lemma parse_stringify: "json_ok num v \<Longrightarrow> json_parse num (stringify v) = Some v"
  using read_stringify(1) [of num v "[]" "2 * length (stringify v) + 2"]
  by (simp add: json_parse_def delimited_def skip_ws_def)

section \<open>Canonical values\<close>

fun canon :: "json \<Rightarrow> json"
and canon_items :: "json list \<Rightarrow> json list"
and canon_members :: "(string \<times> json) list \<Rightarrow> (string \<times> json) list" where
  "canon (JArr xs) = JArr (canon_items xs)"
| "canon (JObj fs) = JObj (sorted_members (canon_members fs))"
| "canon v = v"
| "canon_items [] = []"
| "canon_items (x # xs) = canon x # canon_items xs"
| "canon_members [] = []"
| "canon_members ((k, v) # fs) = (k, canon v) # canon_members fs"

lemma sorted_members_map: "sorted_members (map (\<lambda>(k, v). (k, f v)) ps) = map (\<lambda>(k, v). (k, f v)) (sorted_members ps)"
proof -
  have fst: "map fst (map (\<lambda>(k, v). (k, f v)) ps) = map fst ps" by (induction ps) auto
  have "the (map_of (rev (map (\<lambda>(k, v). (k, f v)) ps)) k) = f (the (map_of (rev ps) k))" if "k \<in> set (map fst ps)" for k
  proof -
    have "map_of (rev ps) k \<noteq> None" using that by (simp add: map_of_eq_None_iff)
    then show ?thesis by (auto simp: rev_map map_of_map)
  qed
  then show ?thesis unfolding sorted_members_def fst by simp
qed

lemma canonical_stringify:
  "canonical_json v = stringify (canon v)"
  "canonical_items xs = stringify_list (canon_items xs)"
  "canonical_members fs = map (\<lambda>(k, v). (k, stringify v)) (canon_members fs)"
proof (induction v and xs and fs rule: canonical_json_canonical_items_canonical_members.induct)
  case (2 fs)
  have members: "stringify_members ps = map (\<lambda>(k, t). quote k @ '':'' @ t) (map (\<lambda>(k, v). (k, stringify v)) ps)" for ps
    by (induction ps) auto
  show ?case by (simp add: 2 members sorted_members_map [symmetric] del: map_map)
qed auto

lemma sorted_members_sub: "set (sorted_members ps) \<subseteq> set ps"
proof
  fix x
  assume "x \<in> set (sorted_members ps)"
  then obtain k where k: "x = (k, the (map_of (rev ps) k))" "k \<in> set (map fst ps)" by (auto simp: sorted_members_def)
  then have "map_of (rev ps) k \<noteq> None" by (simp add: map_of_eq_None_iff)
  then show "x \<in> set ps" using k(1) map_of_SomeD by fastforce
qed

lemma canon_ok:
  "json_ok num v \<Longrightarrow> json_ok num (canon v)"
  "list_all (json_ok num) xs \<Longrightarrow> list_all (json_ok num) (canon_items xs)"
  "list_all (\<lambda>(k, v). json_ok num v) fs \<Longrightarrow> list_all (\<lambda>(k, v). json_ok num v) (canon_members fs)"
proof (induction v and xs and fs rule: canon_canon_items_canon_members.induct)
  case (2 fs)
  then show ?case using sorted_members_sub [of "canon_members fs"] by (auto simp: list_all_iff)
qed auto

lemma canonical_parse: "json_ok num v \<Longrightarrow> json_parse num (canonical_json v) = Some (canon v)"
  by (simp add: canonical_stringify parse_stringify canon_ok)

lemma canonical_inject:
  assumes "json_ok num v" "json_ok num w"
  shows "canonical_json v = canonical_json w \<longleftrightarrow> canon v = canon w"
  using assms canonical_parse by (metis canonical_stringify(1) option.inject)

lemma sorted_names: "map fst (sorted_members ps) = sort (remdups (map fst ps))"
  by (simp add: sorted_members_def comp_def)

lemma map_of_graph: "map_of (map (\<lambda>k. (k, f k)) ks) k = (if k \<in> set ks then Some (f k) else None)"
  by (induction ks) auto

lemma map_of_sorted_members: "map_of (rev (sorted_members ps)) k = map_of (rev ps) k"
proof -
  define ks where "ks = rev (sort (remdups (map fst ps)))"
  have "rev (sorted_members ps) = map (\<lambda>k. (k, the (map_of (rev ps) k))) ks"
    by (simp add: sorted_members_def ks_def rev_map)
  then have "map_of (rev (sorted_members ps)) k = (if k \<in> fst ` set ps then Some (the (map_of (rev ps) k)) else None)"
    by (simp add: map_of_graph) (simp add: ks_def)
  moreover have "k \<in> fst ` set ps \<longleftrightarrow> map_of (rev ps) k \<noteq> None" by (simp add: map_of_eq_None_iff)
  ultimately show ?thesis by auto
qed

lemma canon_members_map: "canon_members fs = map (\<lambda>(k, v). (k, canon v)) fs"
  by (induction fs) auto

lemma jget_canon: "jget (canon v) k = map_option canon (jget v k)"
  by (cases v) (simp_all add: jget_def map_of_sorted_members canon_members_map rev_map map_of_map)

lemma sorted_members_again: "sorted_members (sorted_members ps) = sorted_members ps"
proof -
  have "sort (remdups (map fst (sorted_members ps))) = sort (remdups (map fst ps))"
    unfolding sorted_names by (simp add: distinct_remdups_id sorted_sort_id)
  then show ?thesis by (simp add: sorted_members_def [of "sorted_members ps"] map_of_sorted_members) (simp add: sorted_members_def)
qed

lemma canon_canon:
  "canon (canon v) = canon v"
  "canon_items (canon_items xs) = canon_items xs"
  "canon_members (canon_members fs) = canon_members fs"
proof (induction v and xs and fs rule: canon_canon_items_canon_members.induct)
  case (2 fs)
  have "canon_members (sorted_members (canon_members fs)) = sorted_members (canon_members (canon_members fs))"
    by (simp add: canon_members_map sorted_members_map del: map_map)
  with 2 show ?case by (simp add: sorted_members_again)
qed auto

lemma printable_escape: "x \<in> set (escape_char c) \<Longrightarrow> 32 \<le> (of_char x :: nat)"
  by (auto simp: escape_char_def hex_digit_def Let_def split: if_splits)

lemma printable_quote: "x \<in> set (quote s) \<Longrightarrow> 32 \<le> (of_char x :: nat)"
  by (auto simp: quote_def dest: printable_escape)

lemma printable_number: "number_text t \<Longrightarrow> x \<in> set t \<Longrightarrow> 32 \<le> (of_char x :: nat)"
  using number_text_chars(2) [of t] by (auto simp: list_all_iff number_char_def is_digit_def Let_def)

lemma printable_text:
  "json_ok num v \<Longrightarrow> x \<in> set (stringify v) \<Longrightarrow> 32 \<le> (of_char x :: nat)"
  "list_all (json_ok num) vs \<Longrightarrow> x \<in> \<Union> (set ` set (stringify_list vs)) \<Longrightarrow> 32 \<le> (of_char x :: nat)"
  "list_all (\<lambda>(k, v). json_ok num v) fs \<Longrightarrow> x \<in> \<Union> (set ` set (stringify_members fs)) \<Longrightarrow> 32 \<le> (of_char x :: nat)"
proof (induction v and vs and fs rule: stringify_stringify_list_stringify_members.induct)
  case (3 i)
  then have "number_text (dec_int i)" using read_number_dec [of i num] by (simp add: read_number_def split: if_splits)
  with 3 printable_number show ?case by auto
next
  case (4 t)
  then have "number_text t" by (simp add: read_number_def split: if_splits)
  with 4 printable_number show ?case by auto
next
  case (6 xs)
  then consider "x = CHR ''[''" | "x = CHR '']''" | "x = CHR '',''" | "x \<in> \<Union> (set ` set (stringify_list xs))"
    using set_join [of "'',''" "stringify_list xs"] by fastforce
  then show ?case using 6 by cases simp_all
next
  case (7 fs)
  then consider "x = CHR ''{''" | "x = CHR ''}''" | "x = CHR '',''" | "x \<in> \<Union> (set ` set (stringify_members fs))"
    using set_join [of "'',''" "stringify_members fs"] by fastforce
  then show ?case using 7 by cases simp_all
qed (auto simp: printable_quote split: if_splits)

lemma canonical_printable: "json_ok num v \<Longrightarrow> x \<in> set (canonical_json v) \<Longrightarrow> 32 \<le> (of_char x :: nat)"
  unfolding canonical_stringify using printable_text(1) canon_ok(1) by blast

end
