(* ===== verification/Journal.thy ===== *)
theory Journal
  imports JsonText Bytes Redaction Paths
begin

text \<open>
  The append-only journal (\<^verbatim>\<open>src/runtime/journal.ts\<close>): a stream is a directory with the limits of the stream
  (\<^verbatim>\<open>meta.json\<close>), its head (\<^verbatim>\<open>head.json\<close>) and numbered segment files of one record a line; each record
  carries the digest of the one before it and its own digest over its canonical text.

  Files are regular and owned by the user, or \<open>BadFile\<close>; a segment is its text.  The digest, the value of
  a number text that is no safe integer and the comparison of such a number are given by the
  host; an append takes the instants it reads from the clock, and, when it is cut off, the number
  of characters of its line that reached the segment.
\<close>

section \<open>Types\<close>

record host =
  h_sha :: "string \<Rightarrow> string"
  h_num :: "string \<Rightarrow> json"
  h_above :: "json \<Rightarrow> int \<Rightarrow> bool" \<comment> \<open>comparison of a number that is no safe integer\<close>

datatype journal_error =
    E_JOURNAL_ABSENT | E_JOURNAL_INCOMPLETE_TAIL | E_JOURNAL_CORRUPT | E_JOURNAL_DIGEST_MISMATCH
  | E_JOURNAL_SEQUENCE_MISMATCH | E_JOURNAL_STREAM_MISMATCH | E_JOURNAL_UNSUPPORTED_VERSION
  | E_JOURNAL_HEAD_MISMATCH | E_JOURNAL_LIMIT | E_JOURNAL_RECORD_TOO_LARGE | E_JOURNAL_STREAM_ID_INVALID
  | E_JOURNAL_NON_TAIL_CORRUPTION | E_JOURNAL_NOT_REPAIRABLE | E_JOURNAL_OPTIONS_INCOMPATIBLE
  | E_JOURNAL_OPTIONS_INVALID | E_JOURNAL_RECORD_INVALID
  | E_INTERRUPTED \<comment> \<open>the write failed or the process ended\<close>
  | E_ENOENT \<comment> \<open>of the file system: no such file\<close>

record journal_limits =
  lm_record :: int
  lm_segment :: int
  lm_segment_records :: int
  lm_stream :: int

record journal_options =
  jo_record :: "int option"
  jo_segment :: "int option"
  jo_segment_records :: "int option"
  jo_stream :: "int option"
  jo_redact :: bool

record journal =
  jn_stream :: string
  jn_options :: journal_options
  jn_limits :: journal_limits

record journal_head =
  hd_sequence :: int
  hd_digest :: "string option"
  hd_active :: string
  hd_active_records :: "int option"
  hd_total :: int
  hd_bytes :: int
  hd_updated :: string

datatype meta_file = NoFile | BadFile | TextFile nat json \<comment> \<open>its size and its value\<close>

record journal_dir =
  jd_meta :: meta_file
  jd_head :: meta_file
  jd_segments :: "string dir"
  jd_receipts :: "json option dir"
  jd_quarantine :: "string dir"

definition DEFAULT_MAX_RECORD_BYTES :: int where "DEFAULT_MAX_RECORD_BYTES = 64 * 1024"
definition DEFAULT_MAX_METADATA_BYTES :: nat where "DEFAULT_MAX_METADATA_BYTES = 64 * 1024"
definition DEFAULT_MAX_SEGMENT_BYTES :: int where "DEFAULT_MAX_SEGMENT_BYTES = 2 * 1024 * 1024"
definition DEFAULT_MAX_SEGMENT_RECORDS :: int where "DEFAULT_MAX_SEGMENT_RECORDS = 5000"
definition DEFAULT_MAX_STREAM_RECORDS :: int where "DEFAULT_MAX_STREAM_RECORDS = 100000"

section \<open>Opening a journal\<close>

definition assert_safe_stream_id :: "string \<Rightarrow> journal_error + string" where
  "assert_safe_stream_id s =
     (if s = [] \<or> 512 < length s \<or> is_absolute s then Inl E_JOURNAL_STREAM_ID_INVALID
      else if 8 < length (segments s) then Inl E_JOURNAL_STREAM_ID_INVALID
      else if \<not> list_all (key_of_length 127) (segments s) then Inl E_JOURNAL_STREAM_ID_INVALID
      else Inr s)"

definition bad_limit :: "int option \<Rightarrow> bool" where
  "bad_limit n = (case n of None \<Rightarrow> False | Some i \<Rightarrow> \<not> safe_integer i \<or> i \<le> 0)"

definition open_journal :: "string \<Rightarrow> journal_options \<Rightarrow> journal_error + journal" where
  \<comment> \<open>the constructor\<close>
  "open_journal sid opts = rbind (assert_safe_stream_id sid) (\<lambda>sid.
     if bad_limit (jo_record opts) \<or> bad_limit (jo_segment opts) \<or> bad_limit (jo_segment_records opts) \<or> bad_limit (jo_stream opts)
     then Inl E_JOURNAL_OPTIONS_INVALID
     else let
       seg = opt_default DEFAULT_MAX_SEGMENT_BYTES (jo_segment opts);
       rec = opt_default (min DEFAULT_MAX_RECORD_BYTES seg) (jo_record opts)
     in if seg < rec then Inl E_JOURNAL_OPTIONS_INCOMPATIBLE
        else Inr \<lparr>jn_stream = sid, jn_options = opts, jn_limits = \<lparr>lm_record = rec, lm_segment = seg,
          lm_segment_records = opt_default DEFAULT_MAX_SEGMENT_RECORDS (jo_segment_records opts),
          lm_stream = opt_default DEFAULT_MAX_STREAM_RECORDS (jo_stream opts)\<rparr>\<rparr>)"

section \<open>Names of segments\<close>

definition segment_name :: "nat \<Rightarrow> string" where
  "segment_name i = pad_left 8 (dec_nat i) @ ''.jsonl''"

definition parse_segment :: "string \<Rightarrow> nat option" where
  \<comment> \<open>\<^verbatim>\<open>/^(\d{8})\.jsonl$/\<close>\<close>
  "parse_segment name = (if length name = 14 \<and> list_all is_digit (take 8 name) \<and> drop 8 name = ''.jsonl''
     then Some (undec_nat (take 8 name)) else None)"

definition segment_index :: "string \<Rightarrow> nat" where
  \<comment> \<open>\<^verbatim>\<open>parseSegmentIndex(name) ?? 1\<close>\<close>
  "segment_index name = opt_default 1 (parse_segment name)"

definition list_segments :: "journal_dir \<Rightarrow> string list" where
  \<comment> \<open>names of eight digits sort as their numbers\<close>
  "list_segments d = sort_key segment_index (filter (\<lambda>n. parse_segment n \<noteq> None) (dnames (jd_segments d)))"

definition segment_text :: "journal_dir \<Rightarrow> string \<Rightarrow> string" where
  "segment_text d name = opt_default [] (dget (jd_segments d) name)"

section \<open>Metadata\<close>

definition read_metadata :: "meta_file \<Rightarrow> journal_error + json option" where
  \<comment> \<open>a file with the text \<open>null\<close> reads as if it were missing\<close>
  "read_metadata f = (case f of NoFile \<Rightarrow> Inr None | BadFile \<Rightarrow> Inl E_JOURNAL_CORRUPT
     | TextFile n v \<Rightarrow> if DEFAULT_MAX_METADATA_BYTES < n then Inl E_JOURNAL_CORRUPT
         else if v = JNull then Inr None else Inr (Some v))"

definition positive :: "json option \<Rightarrow> int option" where
  "positive v = (case jsafe_int v of Some n \<Rightarrow> if 0 < n then Some n else None | None \<Rightarrow> None)"

definition natural :: "json option \<Rightarrow> int option" where
  "natural v = (case jsafe_int v of Some n \<Rightarrow> if 0 \<le> n then Some n else None | None \<Rightarrow> None)"

definition json_date :: "json option \<Rightarrow> bool" where
  \<comment> \<open>\<^verbatim>\<open>validDate\<close>\<close>
  "json_date v = (case jstr v of Some s \<Rightarrow> valid_date s | None \<Rightarrow> False)"

definition read_meta :: "string \<Rightarrow> journal_dir \<Rightarrow> journal_error + journal_limits option" where
  \<comment> \<open>the limits the file holds\<close>
  "read_meta sid d = rbind (read_metadata (jd_meta d)) (\<lambda>m. case m of None \<Rightarrow> Inr None | Some v \<Rightarrow>
     if jget v ''schema_version'' \<noteq> Some (JNum 1) \<or> jget v ''stream_id'' \<noteq> Some (JStr sid) \<or> \<not> json_date (jget v ''created_at'')
     then Inl E_JOURNAL_CORRUPT
     else (case (positive (jget v ''max_record_bytes''), positive (jget v ''max_segment_bytes''),
                 positive (jget v ''max_segment_records''), positive (jget v ''max_stream_records'')) of
        (Some r, Some s, Some n, Some m) \<Rightarrow>
          if s < r then Inl E_JOURNAL_CORRUPT
          else Inr (Some \<lparr>lm_record = r, lm_segment = s, lm_segment_records = n, lm_stream = m\<rparr>)
      | _ \<Rightarrow> Inl E_JOURNAL_CORRUPT))"

definition head_digest_of :: "int \<Rightarrow> json option \<Rightarrow> string option option" where
  \<comment> \<open>\<^verbatim>\<open>null\<close> for an empty stream, else sixty-four hexadecimal digits\<close>
  "head_digest_of n v = (if n = 0 then (if v = Some JNull then Some None else None)
     else case jstr v of Some s \<Rightarrow> if hex64 s then Some (Some s) else None | None \<Rightarrow> None)"

definition active_records_of :: "json option \<Rightarrow> int option option" where
  "active_records_of v = (case v of None \<Rightarrow> Some None | Some _ \<Rightarrow> map_option Some (natural v))"

definition read_head :: "string \<Rightarrow> journal_dir \<Rightarrow> journal_error + journal_head option" where
  "read_head sid d = rbind (read_metadata (jd_head d)) (\<lambda>m. case m of None \<Rightarrow> Inr None | Some v \<Rightarrow>
     if jget v ''schema_version'' \<noteq> Some (JNum 1) \<or> jget v ''stream_id'' \<noteq> Some (JStr sid) \<or> \<not> json_date (jget v ''updated_at'')
     then Inl E_JOURNAL_CORRUPT
     else (case (natural (jget v ''head_sequence''), jstr (jget v ''active_segment''), active_records_of (jget v ''active_segment_records''),
                 natural (jget v ''total_records''), natural (jget v ''total_bytes'')) of
        (Some n, Some active, Some recs, Some tot, Some bytes) \<Rightarrow>
          (case head_digest_of n (jget v ''head_digest'') of
             None \<Rightarrow> Inl E_JOURNAL_CORRUPT
           | Some dg \<Rightarrow> if parse_segment active = None then Inl E_JOURNAL_CORRUPT
               else Inr (Some \<lparr>hd_sequence = n, hd_digest = dg, hd_active = active, hd_active_records = recs,
                 hd_total = tot, hd_bytes = bytes, hd_updated = opt_default [] (jstr (jget v ''updated_at''))\<rparr>))
      | _ \<Rightarrow> Inl E_JOURNAL_CORRUPT))"

definition contradicts :: "int option \<Rightarrow> int \<Rightarrow> bool" where
  "contradicts opt n = (case opt of None \<Rightarrow> False | Some i \<Rightarrow> i \<noteq> n)"

definition resolve_limits :: "journal \<Rightarrow> journal_dir \<Rightarrow> journal_error + journal_limits" where
  "resolve_limits j d = rbind (read_meta (jn_stream j) d) (\<lambda>m. case m of
     None \<Rightarrow> rbind (read_head (jn_stream j) d) (\<lambda>h. if h \<noteq> None then Inl E_JOURNAL_CORRUPT else Inr (jn_limits j))
   | Some l \<Rightarrow> if contradicts (jo_record (jn_options j)) (lm_record l) \<or> contradicts (jo_segment (jn_options j)) (lm_segment l)
         \<or> contradicts (jo_segment_records (jn_options j)) (lm_segment_records l) \<or> contradicts (jo_stream (jn_options j)) (lm_stream l)
       then Inl E_JOURNAL_OPTIONS_INCOMPATIBLE
       else if lm_segment l < lm_record l then Inl E_JOURNAL_CORRUPT else Inr l)"

section \<open>Creation\<close>

definition has_artifacts :: "journal_dir \<Rightarrow> bool" where
  "has_artifacts d = (jd_meta d \<noteq> NoFile \<or> jd_head d \<noteq> NoFile \<or> jd_segments d \<noteq> [] \<or> jd_receipts d \<noteq> [] \<or> jd_quarantine d \<noteq> [])"

definition can_recover_partial_init :: "string \<Rightarrow> journal_dir \<Rightarrow> bool" where
  "can_recover_partial_init sid d = ((case jd_meta d of NoFile \<Rightarrow> True | BadFile \<Rightarrow> False
       | TextFile n v \<Rightarrow> n \<le> DEFAULT_MAX_METADATA_BYTES \<and> jget v ''schema_version'' = Some (JNum 1) \<and> jget v ''stream_id'' = Some (JStr sid))
     \<and> jd_head d = NoFile \<and> jd_quarantine d = [] \<and> jd_receipts d = [] \<and> (jd_segments d = [] \<or> jd_segments d = [(segment_name 1, [])]))"

definition meta_json :: "string \<Rightarrow> journal_limits \<Rightarrow> ms \<Rightarrow> json" where
  "meta_json sid l t = JObj [(''schema_version'', JNum 1), (''stream_id'', JStr sid), (''created_at'', jiso t),
     (''max_record_bytes'', JNum (lm_record l)), (''max_segment_bytes'', JNum (lm_segment l)),
     (''max_segment_records'', JNum (lm_segment_records l)), (''max_stream_records'', JNum (lm_stream l))]"

definition digest_json :: "string option \<Rightarrow> json" where
  "digest_json d = (case d of None \<Rightarrow> JNull | Some s \<Rightarrow> JStr s)"

definition head_json :: "string \<Rightarrow> journal_head \<Rightarrow> json" where
  "head_json sid h = JObj ([(''schema_version'', JNum 1), (''stream_id'', JStr sid), (''head_sequence'', JNum (hd_sequence h)),
     (''head_digest'', digest_json (hd_digest h)), (''active_segment'', JStr (hd_active h))]
     @ opt_member ''active_segment_records'' JNum (hd_active_records h)
     @ [(''total_records'', JNum (hd_total h)), (''total_bytes'', JNum (hd_bytes h)), (''updated_at'', JStr (hd_updated h))])"

definition json_file :: "json \<Rightarrow> meta_file" where
  \<comment> \<open>\<^verbatim>\<open>atomicWriteJson\<close>\<close>
  "json_file v = TextFile (file_bytes v) v"

definition init_unlocked :: "journal \<Rightarrow> ms \<Rightarrow> (journal_dir, journal_error, journal_head) act" where
  "init_unlocked j now d = (case read_head (jn_stream j) d of
     Inl e \<Rightarrow> (Inl e, d)
   | Inr (Some h) \<Rightarrow> (case resolve_limits j d of Inl e \<Rightarrow> (Inl e, d) | Inr _ \<Rightarrow> (Inr h, d))
   | Inr None \<Rightarrow> if has_artifacts d \<and> \<not> can_recover_partial_init (jn_stream j) d then (Inl E_JOURNAL_CORRUPT, d)
       else let h = \<lparr>hd_sequence = 0, hd_digest = None, hd_active = segment_name 1, hd_active_records = Some 0,
              hd_total = 0, hd_bytes = 0, hd_updated = iso now\<rparr>
         in (Inr h, d\<lparr>jd_meta := json_file (meta_json (jn_stream j) (jn_limits j) now),
              jd_segments := (if dget (jd_segments d) (segment_name 1) = None then dput (segment_name 1) [] (jd_segments d) else jd_segments d),
              jd_head := json_file (head_json (jn_stream j) h)\<rparr>))"

definition init :: "journal \<Rightarrow> ms \<Rightarrow> (journal_dir, journal_error, journal_head) act" where
  "init j now = init_unlocked j now"

section \<open>Records\<close>

definition drop_member :: "string \<Rightarrow> json \<Rightarrow> json" where
  "drop_member k v = (case v of JObj fs \<Rightarrow> JObj (filter (\<lambda>(k', _). k' \<noteq> k) fs) | _ \<Rightarrow> v)"

definition record_digest :: "host \<Rightarrow> json \<Rightarrow> string" where
  \<comment> \<open>the digest over all members but \<^verbatim>\<open>digest\<close>\<close>
  "record_digest host v = h_sha host (canonical_json (drop_member ''digest'' v))"

definition rec_sequence :: "json \<Rightarrow> int" where
  "rec_sequence v = opt_default 0 (jsafe_int (jget v ''sequence''))"

definition rec_previous :: "json \<Rightarrow> string option" where
  "rec_previous v = jstr (jget v ''previous_digest'')"

definition rec_digest :: "json \<Rightarrow> string" where
  "rec_digest v = opt_default [] (jstr (jget v ''digest''))"

definition hex_text :: "json option \<Rightarrow> bool" where
  "hex_text v = (case jstr v of Some s \<Rightarrow> hex64 s | None \<Rightarrow> False)"

definition validate_committed_record ::
  "host \<Rightarrow> string \<Rightarrow> int option \<Rightarrow> string option option \<Rightarrow> json \<Rightarrow> journal_error + json" where
  "validate_committed_record host sid expected_seq expected_prev v = (case jsafe_int (jget v ''sequence'') of
     None \<Rightarrow> Inl E_JOURNAL_CORRUPT
   | Some n \<Rightarrow>
       if n < 1 then Inl E_JOURNAL_CORRUPT
       else if jget v ''schema_version'' \<noteq> Some (JNum 1) then Inl E_JOURNAL_UNSUPPORTED_VERSION
       else if jget v ''stream_id'' \<noteq> Some (JStr sid) then Inl E_JOURNAL_STREAM_MISMATCH
       else if contradicts expected_seq n then Inl E_JOURNAL_SEQUENCE_MISMATCH
       else if (if n = 1 then jget v ''previous_digest'' \<noteq> Some JNull else \<not> hex_text (jget v ''previous_digest'')) then Inl E_JOURNAL_CORRUPT
       else if (case expected_prev of None \<Rightarrow> False | Some p \<Rightarrow> rec_previous v \<noteq> p) then Inl E_JOURNAL_DIGEST_MISMATCH
       else if \<not> hex_text (jget v ''digest'') then Inl E_JOURNAL_CORRUPT
       else if rec_digest v \<noteq> record_digest host v then Inl E_JOURNAL_DIGEST_MISMATCH
       else if \<not> json_date (jget v ''at'') then Inl E_JOURNAL_CORRUPT
       else Inr v)"

definition number_above :: "host \<Rightarrow> json option \<Rightarrow> int \<Rightarrow> bool" where
  \<comment> \<open>\<^verbatim>\<open>typeof v === 'number' && v > n\<close>\<close>
  "number_above host v n = (case v of Some (JNum i) \<Rightarrow> n < i | Some (JFrac t) \<Rightarrow> h_above host (JFrac t) n | _ \<Rightarrow> False)"

definition is_number :: "json option \<Rightarrow> bool" where
  "is_number v = (case v of Some (JNum _) \<Rightarrow> True | Some (JFrac _) \<Rightarrow> True | _ \<Rightarrow> False)"

section \<open>Lines\<close>

abbreviation newline :: char where "newline \<equiv> CHR 0x0A"

fun scan_lines :: "string \<Rightarrow> (string \<times> bool) list" where
  \<comment> \<open>the lines of a segment, and whether a newline ends them\<close>
  "scan_lines [] = []"
| "scan_lines (c # s) = (if c = newline then ([], True) # scan_lines s
     else case scan_lines s of [] \<Rightarrow> [([c], False)] | (l, b) # ls \<Rightarrow> (c # l, b) # ls)"

definition drop_cr :: "string \<Rightarrow> string" where
  "drop_cr s = (if ends_with [CHR 0x0D] s then butlast s else s)"

definition text_lines :: "string \<Rightarrow> string list" where
  \<comment> \<open>\<^verbatim>\<open>content.split(/\r?\n/)\<close>\<close>
  "text_lines s = (let ls = split_by (\<lambda>c. c = newline) s in map drop_cr (butlast ls) @ [last ls])"

definition count_segment_records :: "string \<Rightarrow> journal_limits \<Rightarrow> journal_error + int" where
  "count_segment_records content l = (if list_ex (\<lambda>(line, ended). \<not> ended \<or> max (lm_record l) (lm_segment l) < int (utf8_bytes line) \<or> blank line) (scan_lines content)
     then Inl E_JOURNAL_CORRUPT else Inr (int (length (scan_lines content))))"

section \<open>Appending\<close>

fun check_numbers :: "nat \<Rightarrow> nat \<Rightarrow> string list \<Rightarrow> journal_error + unit" where
  \<comment> \<open>the loop over the segments, the next one to be number \<open>i\<close>\<close>
  "check_numbers active i [] = Inr ()"
| "check_numbers active i (name # names) =
     (if parse_segment name \<noteq> Some i then Inl E_JOURNAL_CORRUPT
      else if active < i then Inl E_JOURNAL_INCOMPLETE_TAIL
      else check_numbers active (i + 1) names)"

definition check_segments :: "journal_head \<Rightarrow> string list \<Rightarrow> journal_error + unit" where
  \<comment> \<open>the segments are numbered from one up to the active one\<close>
  "check_segments h names = (let active = segment_index (hd_active h) in
     if names = [] then (if 0 < hd_sequence h \<or> 1 < active then Inl E_JOURNAL_CORRUPT else Inr ())
     else rbind (check_numbers active 1 names) (\<lambda>_. if length names < active then Inl E_JOURNAL_CORRUPT else Inr ()))"

definition last_line :: "string \<Rightarrow> string" where
  \<comment> \<open>of a text that ends with a newline\<close>
  "last_line s = last (split_by (\<lambda>c. c = newline) (butlast s))"

definition check_last_record :: "host \<Rightarrow> string \<Rightarrow> journal_head \<Rightarrow> string \<Rightarrow> journal_error + unit" where
  "check_last_record host sid h line = (let line = drop_cr line in
     if blank line then Inl E_JOURNAL_INCOMPLETE_TAIL
     else case json_parse (h_num host) line of
       None \<Rightarrow> Inl E_JOURNAL_INCOMPLETE_TAIL
     | Some v \<Rightarrow> (let n = jget v ''sequence'' in
         if \<not> is_number n then Inl E_JOURNAL_INCOMPLETE_TAIL
         else if number_above host n (hd_sequence h) then Inl E_JOURNAL_INCOMPLETE_TAIL
         else if n \<noteq> Some (JNum (hd_sequence h)) then Inl E_JOURNAL_CORRUPT
         else if jget v ''stream_id'' \<noteq> Some (JStr sid) then Inl E_JOURNAL_STREAM_MISMATCH
         else if jget v ''digest'' \<noteq> Some (digest_json (hd_digest h)) then Inl E_JOURNAL_DIGEST_MISMATCH
         else Inr ()))"

definition assert_no_incomplete_tail :: "host \<Rightarrow> string \<Rightarrow> journal_head \<Rightarrow> journal_limits \<Rightarrow> journal_dir \<Rightarrow> journal_error + unit" where
  "assert_no_incomplete_tail host sid h l d = (if parse_segment (hd_active h) = None then Inl E_JOURNAL_CORRUPT
     else rbind (check_segments h (list_segments d)) (\<lambda>_. case dget (jd_segments d) (hd_active h) of
       None \<Rightarrow> if hd_sequence h = 0 then Inr () else Inl E_JOURNAL_CORRUPT
     | Some content \<Rightarrow>
         if hd_sequence h = 0 then (if content \<noteq> [] then Inl E_JOURNAL_INCOMPLETE_TAIL else Inr ())
         else if content = [] then Inl E_JOURNAL_CORRUPT
         else let size = int (utf8_bytes content); window = min size (lm_record l + 128); line = last_line content
           in if last content \<noteq> newline then Inl E_JOURNAL_INCOMPLETE_TAIL
              else if \<not> (newline \<in> set (butlast content) \<and> int (utf8_bytes line) + 2 \<le> window) \<and> window < size then Inl E_JOURNAL_INCOMPLETE_TAIL
              else check_last_record host sid h line))"

record journal_input =
  ji_kind :: string
  ji_payload :: json
  ji_at :: "string option"

record append_times =
  at_init :: ms
  at_record :: ms
  at_head :: ms

definition record_material :: "journal \<Rightarrow> append_times \<Rightarrow> journal_input \<Rightarrow> journal_head \<Rightarrow> (string \<times> json) list" where
  "record_material j t input h = [(''schema_version'', JNum 1), (''stream_id'', JStr (jn_stream j)), (''sequence'', JNum (hd_sequence h + 1)),
     (''kind'', JStr (ji_kind input)),
     (''payload'', if jo_redact (jn_options j) then redact default_limits (ji_payload input) else ji_payload input),
     (''at'', JStr (case ji_at input of Some s \<Rightarrow> if valid_date s then s else iso (at_record t) | None \<Rightarrow> iso (at_record t))),
     (''previous_digest'', digest_json (hd_digest h))]"

definition new_record :: "host \<Rightarrow> journal \<Rightarrow> append_times \<Rightarrow> journal_input \<Rightarrow> journal_head \<Rightarrow> json" where
  "new_record host j t input h = (let m = record_material j t input h in
     JObj (m @ [(''digest'', JStr (h_sha host (canonical_json (JObj m))))]))"

record append_plan =
  ap_record :: json
  ap_line :: string
  ap_segment :: string
  ap_head :: journal_head

definition active_state :: "journal_head \<Rightarrow> journal_limits \<Rightarrow> journal_dir \<Rightarrow> journal_error + int \<times> int" where
  \<comment> \<open>the bytes and records of the active segment\<close>
  "active_state h l d = (case dget (jd_segments d) (hd_active h) of
     Some content \<Rightarrow> (let size = int (utf8_bytes content) in
       if lm_segment l < size then Inl E_JOURNAL_CORRUPT
       else rbind (if size = 0 then Inr 0 else count_segment_records content l) (\<lambda>n.
         if contradicts (hd_active_records h) n then Inl E_JOURNAL_CORRUPT
         else if lm_segment_records l < n then Inl E_JOURNAL_CORRUPT
         else Inr (size, n)))
   | None \<Rightarrow> if contradicts (hd_active_records h) 0 then Inl E_JOURNAL_CORRUPT else Inr (0, 0))"

definition append_record ::
  "host \<Rightarrow> journal \<Rightarrow> append_times \<Rightarrow> journal_input \<Rightarrow> (int \<times> string option) option \<Rightarrow> journal_head \<Rightarrow> journal_dir \<Rightarrow> journal_error + append_plan" where
  \<comment> \<open>the checks of an append and what it writes; \<open>expected\<close> is the fence the caller gives\<close>
  "append_record host j t input expected h d = rbind (resolve_limits j d) (\<lambda>l.
     rbind (assert_no_incomplete_tail host (jn_stream j) h l d) (\<lambda>_.
     if hd_total h \<noteq> hd_sequence h \<or> hd_bytes h < 0 \<or> hd_total h < 0 then Inl E_JOURNAL_CORRUPT
     else if expected \<noteq> None \<and> expected \<noteq> Some (hd_sequence h, hd_digest h) then Inl E_JOURNAL_HEAD_MISMATCH
     else if lm_stream l \<le> hd_total h then Inl E_JOURNAL_LIMIT
     else let
       rec = new_record host j t input h;
       line = canonical_json rec @ [newline];
       bytes = int (utf8_bytes line)
     in if lm_record l < bytes \<or> lm_segment l < bytes then Inl E_JOURNAL_RECORD_TOO_LARGE
        else rbind (active_state h l d) (\<lambda>(seg_bytes, seg_records). let
            rotate = (0 < seg_bytes \<and> lm_segment l < seg_bytes + bytes \<or> 0 < seg_records \<and> lm_segment_records l \<le> seg_records);
            segment = (if rotate then segment_name (segment_index (hd_active h) + 1) else hd_active h)
          in Inr \<lparr>ap_record = rec, ap_line = line, ap_segment = segment,
               ap_head = \<lparr>hd_sequence = hd_sequence h + 1, hd_digest = Some (rec_digest rec), hd_active = segment,
                 hd_active_records = Some ((if rotate then 0 else seg_records) + 1), hd_total = hd_total h + 1,
                 hd_bytes = hd_bytes h + bytes, hd_updated = iso (at_head t)\<rparr>\<rparr>)))"

definition write_segment :: "string \<Rightarrow> string \<Rightarrow> journal_dir \<Rightarrow> journal_dir" where
  "write_segment name txt d = d\<lparr>jd_segments := dput name (segment_text d name @ txt) (jd_segments d)\<rparr>"

definition append ::
  "host \<Rightarrow> journal \<Rightarrow> nat option \<Rightarrow> append_times \<Rightarrow> journal_input \<Rightarrow> (int \<times> string option) option
     \<Rightarrow> (journal_dir, journal_error, json) act" where
  \<comment> \<open>\<open>torn\<close> is \<open>Some k\<close> when the operation ends after \<open>k\<close> characters of the line were written, before the head is\<close>
  "append host j torn t input expected d = (if trim (ji_kind input) = [] then (Inl E_JOURNAL_RECORD_INVALID, d)
     else case (case read_head (jn_stream j) d of
         Inl e \<Rightarrow> (Inl e, d)
       | Inr None \<Rightarrow> init_unlocked j (at_init t) d
       | Inr (Some h) \<Rightarrow> (case read_meta (jn_stream j) d of Inl e \<Rightarrow> (Inl e, d)
           | Inr m \<Rightarrow> if m = None then (Inl E_JOURNAL_CORRUPT, d) else (Inr h, d))) of
       (Inl e, d') \<Rightarrow> (Inl e, d')
     | (Inr h, d') \<Rightarrow> (case append_record host j t input expected h d' of
         Inl e \<Rightarrow> (Inl e, d')
       | Inr p \<Rightarrow> (case torn of
           Some k \<Rightarrow> (Inl E_INTERRUPTED, write_segment (ap_segment p) (take k (ap_line p)) d')
         | None \<Rightarrow> (Inr (ap_record p), (write_segment (ap_segment p) (ap_line p) d')\<lparr>jd_head := json_file (head_json (jn_stream j) (ap_head p))\<rparr>))))"

section \<open>Reading\<close>

definition segment_too_large :: "journal \<Rightarrow> journal_dir \<Rightarrow> string \<Rightarrow> journal_error + unit" where
  "segment_too_large j d name = rbind (resolve_limits j d) (\<lambda>l.
     if lm_segment l < int (utf8_bytes (segment_text d name)) then Inl E_JOURNAL_CORRUPT else Inr ())"

record tail_state =
  ts_collected :: "json list" \<comment> \<open>the last record collected first\<close>
  ts_digest :: "string option"
  ts_sequence :: int

fun tail_lines :: "host \<Rightarrow> string \<Rightarrow> journal_head \<Rightarrow> nat \<Rightarrow> string list \<Rightarrow> tail_state \<Rightarrow> journal_error + tail_state" where
  \<comment> \<open>the lines of a segment from its end\<close>
  "tail_lines host sid h limit [] st = Inr st"
| "tail_lines host sid h limit (line # lines) st =
     (if limit \<le> length (ts_collected st) then Inr st
      else if blank line then tail_lines host sid h limit lines st
      else case json_parse (h_num host) line of
        None \<Rightarrow> if ts_sequence st = hd_sequence h \<and> ts_collected st = [] then tail_lines host sid h limit lines st else Inl E_JOURNAL_CORRUPT
      | Some v \<Rightarrow>
          if number_above host (jget v ''sequence'') (hd_sequence h) then tail_lines host sid h limit lines st
          else rbind (validate_committed_record host sid (Some (ts_sequence st)) None v) (\<lambda>v.
            if ts_digest st \<noteq> None \<and> Some (rec_digest v) \<noteq> ts_digest st then Inl E_JOURNAL_DIGEST_MISMATCH
            else tail_lines host sid h limit lines \<lparr>ts_collected = ts_collected st @ [v], ts_digest = rec_previous v, ts_sequence = rec_sequence v - 1\<rparr>))"

fun tail_segments :: "host \<Rightarrow> journal \<Rightarrow> journal_dir \<Rightarrow> journal_head \<Rightarrow> nat \<Rightarrow> string list \<Rightarrow> tail_state \<Rightarrow> journal_error + tail_state" where
  "tail_segments host j d h limit [] st = Inr st"
| "tail_segments host j d h limit (name # names) st =
     (if limit \<le> length (ts_collected st) then Inr st
      else rbind (segment_too_large j d name) (\<lambda>_.
        rbind (tail_lines host (jn_stream j) h limit (rev (text_lines (segment_text d name))) st) (tail_segments host j d h limit names)))"

definition tail :: "host \<Rightarrow> journal \<Rightarrow> int \<Rightarrow> journal_dir \<Rightarrow> journal_error + json list" where
  "tail host j limit d = (if \<not> safe_integer limit \<or> limit < 1 then Inr []
     else rbind (read_head (jn_stream j) d) (\<lambda>h. case h of None \<Rightarrow> Inr [] | Some h \<Rightarrow>
       if hd_sequence h = 0 then Inr []
       else rbind (tail_segments host j d h (nat limit) (rev (list_segments d))
           \<lparr>ts_collected = [], ts_digest = hd_digest h, ts_sequence = hd_sequence h\<rparr>)
         (\<lambda>st. Inr (rev (ts_collected st)))))"

record range_options =
  rg_from :: "int option"
  rg_to :: "int option"
  rg_limit :: "int option"
  rg_descending :: bool

record range_state =
  rs_count :: int
  rs_sequence :: int
  rs_previous :: "string option"
  rs_matched :: "json list"

definition match_record :: "bool \<Rightarrow> int \<Rightarrow> int \<Rightarrow> int \<Rightarrow> json \<Rightarrow> json list \<Rightarrow> json list" where
  \<comment> \<open>the records kept so far, with one more; a descending range keeps the last ones\<close>
  "match_record descending from' to limit v matched = (let n = rec_sequence v in
     if descending then
       (if max from' (to - limit + 1) \<le> n \<and> n \<le> to
        then (if int (length matched) < limit then matched @ [v] else tl matched @ [v]) else matched)
     else (if from' \<le> n \<and> n \<le> to \<and> int (length matched) < limit then matched @ [v] else matched))"

fun range_lines :: "host \<Rightarrow> string \<Rightarrow> journal_head \<Rightarrow> (json \<Rightarrow> json list \<Rightarrow> json list) \<Rightarrow> string list \<Rightarrow> range_state \<Rightarrow> journal_error + range_state" where
  "range_lines host sid h keep [] st = Inr st"
| "range_lines host sid h keep (line # lines) st =
     (if hd_sequence h \<le> rs_count st then Inr st
      else if blank line then (if lines = [] then Inr st else Inl E_JOURNAL_CORRUPT)
      else case json_parse (h_num host) line of None \<Rightarrow> Inl E_JOURNAL_CORRUPT
      | Some v \<Rightarrow> rbind (validate_committed_record host sid (Some (rs_sequence st)) (Some (rs_previous st)) v) (\<lambda>v.
          range_lines host sid h keep lines \<lparr>rs_count = rs_count st + 1, rs_sequence = rec_sequence v + 1,
            rs_previous = Some (rec_digest v), rs_matched = keep v (rs_matched st)\<rparr>))"

fun range_segments :: "host \<Rightarrow> journal \<Rightarrow> journal_dir \<Rightarrow> journal_head \<Rightarrow> (json \<Rightarrow> json list \<Rightarrow> json list) \<Rightarrow> string list \<Rightarrow> range_state \<Rightarrow> journal_error + range_state" where
  "range_segments host j d h keep [] st = Inr st"
| "range_segments host j d h keep (name # names) st =
     (if hd_sequence h \<le> rs_count st then Inr st
      else rbind (segment_too_large j d name) (\<lambda>_.
        rbind (range_lines host (jn_stream j) h keep (text_lines (segment_text d name)) st) (range_segments host j d h keep names)))"

definition read_range :: "host \<Rightarrow> journal \<Rightarrow> range_options \<Rightarrow> journal_dir \<Rightarrow> journal_error + json list" where
  "read_range host j opts d = rbind (read_head (jn_stream j) d) (\<lambda>h. case h of None \<Rightarrow> Inr [] | Some h \<Rightarrow>
     if hd_sequence h = 0 then Inr []
     else let
       from' = max 1 (opt_default 1 (rg_from opts));
       to = min (hd_sequence h) (opt_default (hd_sequence h) (rg_to opts));
       limit = opt_default 9007199254740991 (rg_limit opts)
     in if to < from' \<or> limit \<le> 0 then Inr []
        else rbind (range_segments host j d h (match_record (rg_descending opts) from' to limit) (list_segments d)
            \<lparr>rs_count = 0, rs_sequence = 1, rs_previous = None, rs_matched = []\<rparr>) (\<lambda>st.
          if rs_count st < hd_sequence h then Inl E_JOURNAL_CORRUPT
          else if rs_previous st \<noteq> hd_digest h then Inl E_JOURNAL_DIGEST_MISMATCH
          else let out = (if rg_descending opts then rev (rs_matched st) else rs_matched st)
            in Inr (if limit < int (length out) then take (nat limit) out else out)))"

end
