(* ===== verification/JournalVerify.thy ===== *)
theory JournalVerify
  imports Journal
begin

text \<open>
  Verification of a stream (\<^verbatim>\<open>Journal.verify\<close>): every segment is scanned line by line, each
  record checked against the one before it, and what was found is compared with the head.  The messages of the errors
  are not modelled.
\<close>

section \<open>Scanning a segment\<close>

record scanned =
  sc_line :: string
  sc_newline :: bool
  sc_length :: int \<comment> \<open>in bytes, with the newline\<close>
  sc_offset :: int
  sc_large :: bool
  sc_rest :: string \<comment> \<open>the text from the start of the line\<close>

definition CHUNK_SIZE :: int where "CHUNK_SIZE = 64 * 1024"

definition chunk_stops :: "int \<Rightarrow> int \<Rightarrow> int \<Rightarrow> bool" where
  \<comment> \<open>the chunk before the one with the newline ends with a line already too long: the scan stops there,
    with what it has of the line; only its offset and that it is too long are used\<close>
  "chunk_stops limit offset n = (offset + limit < (offset + n) div CHUNK_SIZE * CHUNK_SIZE)"

fun scan_from :: "int \<Rightarrow> int \<Rightarrow> (string \<times> bool) list \<Rightarrow> string \<Rightarrow> scanned list" where
  "scan_from limit offset [] s = []"
| "scan_from limit offset ((line, ended) # ls) s = (let size = int (utf8_bytes line) in
     if ended \<and> chunk_stops limit offset size
     then [\<lparr>sc_line = line, sc_newline = False, sc_length = size, sc_offset = offset, sc_large = True, sc_rest = s\<rparr>]
     else \<lparr>sc_line = line, sc_newline = ended, sc_length = size + (if ended then 1 else 0), sc_offset = offset, sc_large = limit < size, sc_rest = s\<rparr>
       # scan_from limit (offset + size + 1) ls (drop (length line + 1) s))"

definition scan_segment_lines :: "int \<Rightarrow> string \<Rightarrow> scanned list" where
  "scan_segment_lines limit content = scan_from limit 0 (scan_lines content) content"

section \<open>Verdicts\<close>

datatype verify_status = Valid | Incomplete_tail | Corrupt | Absent

record verify_error =
  ve_code :: journal_error
  ve_segment :: "string option"
  ve_sequence :: "json option"
  ve_offset :: "int option"

record verification =
  vf_ok :: bool
  vf_status :: verify_status
  vf_total :: int
  vf_sequence :: int
  vf_digest :: "string option"
  vf_error :: "verify_error option"
  vf_repairable :: bool
  vf_tail_bytes :: "int option"

definition unreadable :: "verify_status \<Rightarrow> journal_error \<Rightarrow> verification" where
  \<comment> \<open>a stream whose metadata are missing or wrong\<close>
  "unreadable status code = \<lparr>vf_ok = False, vf_status = status, vf_total = 0, vf_sequence = 0, vf_digest = None,
     vf_error = Some \<lparr>ve_code = code, ve_segment = None, ve_sequence = None, ve_offset = None\<rparr>, vf_repairable = False, vf_tail_bytes = None\<rparr>"

definition corrupt :: "journal_head \<Rightarrow> int \<Rightarrow> journal_error \<Rightarrow> string option \<Rightarrow> json option \<Rightarrow> int option \<Rightarrow> verification" where
  "corrupt h n code seg seq off = \<lparr>vf_ok = False, vf_status = Corrupt, vf_total = n, vf_sequence = hd_sequence h, vf_digest = hd_digest h,
     vf_error = Some \<lparr>ve_code = code, ve_segment = seg, ve_sequence = seq, ve_offset = off\<rparr>, vf_repairable = False, vf_tail_bytes = None\<rparr>"

definition incomplete_tail :: "journal_head \<Rightarrow> int \<Rightarrow> string \<Rightarrow> int \<Rightarrow> int \<Rightarrow> verification" where
  "incomplete_tail h n seg off bytes = \<lparr>vf_ok = False, vf_status = Incomplete_tail, vf_total = n, vf_sequence = hd_sequence h, vf_digest = hd_digest h,
     vf_error = Some \<lparr>ve_code = E_JOURNAL_INCOMPLETE_TAIL, ve_segment = Some seg, ve_sequence = None, ve_offset = Some off\<rparr>,
     vf_repairable = True, vf_tail_bytes = Some bytes\<rparr>"

definition valid_stream :: "journal_head \<Rightarrow> int \<Rightarrow> verification" where
  "valid_stream h n = \<lparr>vf_ok = True, vf_status = Valid, vf_total = n, vf_sequence = hd_sequence h, vf_digest = hd_digest h,
     vf_error = None, vf_repairable = False, vf_tail_bytes = None\<rparr>"

section \<open>Records\<close>

definition check_record :: "host \<Rightarrow> string \<Rightarrow> int \<Rightarrow> string option \<Rightarrow> json \<Rightarrow> (journal_error \<times> json option) option" where
  \<comment> \<open>the first thing wrong with a record, and the sequence the error carries\<close>
  "check_record host sid expected prev v = (let n = jget v ''sequence'' in
     if \<not> is_number n then Some (E_JOURNAL_CORRUPT, Some (JNum expected))
     else if jget v ''schema_version'' \<noteq> Some (JNum 1) then Some (E_JOURNAL_UNSUPPORTED_VERSION, n)
     else if jget v ''stream_id'' \<noteq> Some (JStr sid) then Some (E_JOURNAL_STREAM_MISMATCH, n)
     else if n \<noteq> Some (JNum expected) then Some (E_JOURNAL_SEQUENCE_MISMATCH, n)
     else if jget v ''previous_digest'' \<noteq> Some (digest_json prev) then Some (E_JOURNAL_DIGEST_MISMATCH, n)
     else if jget v ''digest'' \<noteq> Some (JStr (record_digest host v)) then Some (E_JOURNAL_DIGEST_MISMATCH, n)
     else if \<not> json_date (jget v ''at'') then Some (E_JOURNAL_CORRUPT, n)
     else None)"

record verify_state =
  vs_sequence :: int \<comment> \<open>expected\<close>
  vs_previous :: "string option"
  vs_total :: int
  vs_committed_end :: int
  vs_uncommitted :: "(string \<times> int) option"
  vs_bytes :: int
  vs_active_records :: int
  vs_last_segment :: "string option"
  vs_seg_records :: int
  vs_seg_bytes :: int

definition verify_start :: verify_state where
  "verify_start = \<lparr>vs_sequence = 1, vs_previous = None, vs_total = 0, vs_committed_end = 0, vs_uncommitted = None, vs_bytes = 0,
     vs_active_records = 0, vs_last_segment = None, vs_seg_records = 0, vs_seg_bytes = 0\<rparr>"

definition count_record :: "journal_limits \<Rightarrow> journal_head \<Rightarrow> string \<Rightarrow> scanned \<Rightarrow> json \<Rightarrow> verify_state \<Rightarrow> verification + verify_state" where
  \<comment> \<open>a record that passed the checks: counted, against the limits when the head covers it\<close>
  "count_record l h seg line v st = (let
     n = vs_sequence st;
     after = sc_offset line + sc_length line;
     st1 = st\<lparr>vs_previous := Some (rec_digest v), vs_sequence := n + 1, vs_total := vs_total st + 1\<rparr>;
     st2 = (if n \<le> hd_sequence h
       then st1\<lparr>vs_bytes := vs_bytes st + sc_length line, vs_last_segment := Some seg, vs_seg_records := vs_seg_records st + 1,
         vs_seg_bytes := vs_seg_bytes st + sc_length line,
         vs_active_records := vs_active_records st + (if seg = hd_active h then 1 else 0)\<rparr>
       else st1)
   in if n \<le> hd_sequence h \<and> lm_segment l < vs_seg_bytes st2 then Inl (corrupt h (vs_total st2) E_JOURNAL_CORRUPT (Some seg) (Some (JNum n)) (Some after))
      else if n \<le> hd_sequence h \<and> lm_segment_records l < vs_seg_records st2 then Inl (corrupt h (vs_total st2) E_JOURNAL_CORRUPT (Some seg) (Some (JNum n)) (Some after))
      else Inr (st2\<lparr>vs_committed_end := (if n = hd_sequence h then after else vs_committed_end st2),
        vs_uncommitted := (if n = hd_sequence h + 1 \<and> vs_uncommitted st2 = None then Some (seg, sc_offset line) else vs_uncommitted st2)\<rparr>))"

definition verify_line ::
  "host \<Rightarrow> string \<Rightarrow> journal_limits \<Rightarrow> journal_head \<Rightarrow> string \<Rightarrow> bool \<Rightarrow> int \<Rightarrow> scanned \<Rightarrow> verify_state \<Rightarrow> verification + verify_state" where
  \<comment> \<open>one line; \<open>Inl\<close> when the scan ends there\<close>
  "verify_line host sid l h seg is_last nbytes line st = (let
     off = sc_offset line;
     rest = nbytes - off;
     bad = corrupt h (vs_total st);
     tail = Inl (incomplete_tail h (vs_total st) seg off rest);
     committed = hd_sequence h \<le> vs_total st
   in if \<not> sc_newline line then
        (if is_last \<and> committed \<and> \<not> sc_large line \<and> rest \<le> lm_record l then tail
         else Inl (bad (if sc_large line \<or> lm_record l < rest then E_JOURNAL_RECORD_TOO_LARGE else E_JOURNAL_CORRUPT) (Some seg) None (Some off)))
      else if blank (sc_line line) then
        (if is_last \<and> committed \<and> rest \<le> lm_record l \<and> blank (sc_rest line) then tail
         else Inl (bad E_JOURNAL_CORRUPT (Some seg) None (Some off)))
      else if sc_large line \<or> lm_record l < sc_length line \<or> lm_segment l < sc_length line then
        Inl (bad E_JOURNAL_RECORD_TOO_LARGE (Some seg) (Some (JNum (vs_sequence st))) (Some off))
      else (case json_parse (h_num host) (sc_line line) of
        None \<Rightarrow> if is_last \<and> off + sc_length line = nbytes \<and> committed then
            (if sc_large line \<or> lm_record l < rest then Inl (bad E_JOURNAL_RECORD_TOO_LARGE (Some seg) (Some (JNum (vs_sequence st))) (Some off)) else tail)
          else Inl (bad E_JOURNAL_CORRUPT (Some seg) (Some (JNum (vs_sequence st))) (Some off))
      | Some v \<Rightarrow> (case check_record host sid (vs_sequence st) (vs_previous st) v of
          Some (code, n) \<Rightarrow> Inl (bad code (Some seg) n (Some off))
        | None \<Rightarrow> count_record l h seg line v st)))"

fun verify_lines ::
  "host \<Rightarrow> string \<Rightarrow> journal_limits \<Rightarrow> journal_head \<Rightarrow> string \<Rightarrow> bool \<Rightarrow> int \<Rightarrow> scanned list \<Rightarrow> verify_state \<Rightarrow> verification + verify_state" where
  "verify_lines host sid l h seg is_last nbytes [] st = Inr st"
| "verify_lines host sid l h seg is_last nbytes (line # lines) st =
     rbind (verify_line host sid l h seg is_last nbytes line st) (verify_lines host sid l h seg is_last nbytes lines)"

fun verify_segments ::
  "host \<Rightarrow> string \<Rightarrow> journal_limits \<Rightarrow> journal_head \<Rightarrow> journal_dir \<Rightarrow> nat \<Rightarrow> string list \<Rightarrow> verify_state \<Rightarrow> verification + verify_state" where
  "verify_segments host sid l h d i [] st = Inr st"
| "verify_segments host sid l h d i (seg # segs) st =
     (if parse_segment seg \<noteq> Some i then Inl (corrupt h (vs_total st) E_JOURNAL_CORRUPT None None None)
      else let content = segment_text d seg; size = int (utf8_bytes content) in
        if segs \<noteq> [] \<and> lm_segment l < size then Inl (corrupt h (vs_total st) E_JOURNAL_CORRUPT (Some seg) None (Some 0))
        else rbind (verify_lines host sid l h seg (segs = []) size (scan_segment_lines (max (lm_record l) (lm_segment l)) content)
              (st\<lparr>vs_seg_records := 0, vs_seg_bytes := 0\<rparr>))
            (verify_segments host sid l h d (i + 1) segs))"

section \<open>The head\<close>

definition beyond_active :: "journal_head \<Rightarrow> string list \<Rightarrow> string list" where
  "beyond_active h names = filter (\<lambda>s. segment_index (hd_active h) < segment_index s) names"

definition verify_head :: "journal_limits \<Rightarrow> journal_head \<Rightarrow> journal_dir \<Rightarrow> string list \<Rightarrow> verify_state \<Rightarrow> verification" where
  \<comment> \<open>the scanned totals against \<^verbatim>\<open>head.json\<close>\<close>
  "verify_head l h d names st = (let
     n = vs_total st;
     mismatch = corrupt h n E_JOURNAL_HEAD_MISMATCH None None None;
     expected_active = (if 0 < hd_sequence h then vs_last_segment st else Some (segment_name 1))
   in if hd_sequence h \<le> n \<and> expected_active \<noteq> None \<and> Some (hd_active h) \<noteq> expected_active then mismatch
      else if n = hd_sequence h then
        (if 0 < hd_sequence h \<and> hd_digest h \<noteq> vs_previous st then mismatch
         else if hd_total h \<noteq> n then mismatch
         else if hd_bytes h \<noteq> vs_bytes st then mismatch
         else if contradicts (hd_active_records h) (vs_active_records st) then mismatch
         else if lm_stream l < n then corrupt h n E_JOURNAL_LIMIT None None None
         else (case beyond_active h names of
           [] \<Rightarrow> valid_stream h n
         | extra # _ \<Rightarrow> (let bytes = int (utf8_bytes (segment_text d extra)) in
             if lm_segment l + lm_record l < bytes then corrupt h n E_JOURNAL_CORRUPT (Some extra) None (Some 0)
             else incomplete_tail h n extra 0 bytes)))
      else if hd_sequence h < n then
        (let seg = (case vs_uncommitted st of Some (s, _) \<Rightarrow> s | None \<Rightarrow> hd_active h);
             off = (case vs_uncommitted st of Some (_, k) \<Rightarrow> k | None \<Rightarrow> vs_committed_end st);
             bytes = int (utf8_bytes (segment_text d seg)) - off
         in if lm_segment l + lm_record l < bytes then corrupt h n E_JOURNAL_CORRUPT (Some seg) None (Some off)
            else incomplete_tail h n seg off bytes)
      else mismatch)"

definition verify_stream :: "host \<Rightarrow> journal \<Rightarrow> journal_dir \<Rightarrow> verification" where
  \<comment> \<open>\<^verbatim>\<open>verify\<close> without the completion of pending repairs\<close>
  "verify_stream host j d = (case read_meta (jn_stream j) d of
     Inl e \<Rightarrow> unreadable Corrupt E_JOURNAL_CORRUPT
   | Inr None \<Rightarrow> if has_artifacts d then unreadable Corrupt E_JOURNAL_CORRUPT else unreadable Absent E_JOURNAL_ABSENT
   | Inr (Some l) \<Rightarrow>
       if lm_segment l < lm_record l then unreadable Corrupt E_JOURNAL_CORRUPT
       else (case read_head (jn_stream j) d of
         Inl e \<Rightarrow> unreadable Corrupt E_JOURNAL_CORRUPT
       | Inr None \<Rightarrow> unreadable Corrupt E_JOURNAL_CORRUPT
       | Inr (Some h) \<Rightarrow> (let names = list_segments d in
           if names = [] then
             (if hd_sequence h = 0 then
                (if hd_total h \<noteq> 0 \<or> hd_bytes h \<noteq> 0 \<or> contradicts (hd_active_records h) 0 \<or> hd_active h \<noteq> segment_name 1
                 then unreadable Corrupt E_JOURNAL_HEAD_MISMATCH
                 else valid_stream h 0)
              else corrupt h 0 E_JOURNAL_HEAD_MISMATCH None None None)
           else (case verify_segments host (jn_stream j) l h d 1 names verify_start of
             Inl v \<Rightarrow> v
           | Inr st \<Rightarrow> verify_head l h d names st))))"

end
