(* ===== verification/JournalRepair.thy ===== *)
theory JournalRepair
  imports JournalVerify
begin

text \<open>
  Repair of an incomplete tail (\<^verbatim>\<open>repairIncompleteTail\<close>), the completion of a repair that was cut
  off (\<^verbatim>\<open>recoverPendingRepairIntents\<close>) and the receipts.  A repair is the sequence of its writes; it may end
  after any of them.  The paths a receipt and an intent name are those of the files of the stream, and a nonce is
  drawn until the names made of it are unused.
\<close>

section \<open>Receipts\<close>

record repair_env =
  re_path :: string \<comment> \<open>of the stream directory\<close>
  re_time :: ms
  re_repaired :: ms
  re_intent :: ms
  re_nonce :: "(string \<Rightarrow> bool) \<Rightarrow> string" \<comment> \<open>a nonce the predicate does not refuse\<close>

definition intent_name :: "string \<Rightarrow> bool" where
  "intent_name f = (starts_with ''repair-'' f \<and> ends_with ''.intent.json'' f)"

definition receipt_name :: "string \<Rightarrow> bool" where
  "receipt_name f = (starts_with ''repair-'' f \<and> ends_with ''.json'' f \<and> \<not> ends_with ''.intent.json'' f)"

definition quarantine_path :: "repair_env \<Rightarrow> string \<Rightarrow> string" where
  "quarantine_path e f = re_path e @ ''/quarantine/'' @ f"

definition receipt_path :: "repair_env \<Rightarrow> string \<Rightarrow> string" where
  "receipt_path e f = re_path e @ ''/receipts/'' @ f"

definition receipt_file :: "repair_env \<Rightarrow> string \<Rightarrow> string option" where
  \<comment> \<open>the file of the receipts directory at a path\<close>
  "receipt_file e p = (let prefix = receipt_path e [] in
     if starts_with prefix p \<and> CHR ''/'' \<notin> set (drop (length prefix) p) \<and> drop (length prefix) p \<noteq> [] then Some (drop (length prefix) p) else None)"

definition receipt_material ::
  "json \<Rightarrow> json \<Rightarrow> json \<Rightarrow> json \<Rightarrow> json \<Rightarrow> json \<Rightarrow> json \<Rightarrow> json \<Rightarrow> json \<Rightarrow> (string \<times> json) list" where
  "receipt_material sid at seg orig repaired truncated backup hseq hdig = [(''schema_version'', JNum 1), (''store_kind'', JStr ''journal_repair_receipt''),
     (''stream_id'', sid), (''repaired_at'', at), (''segment'', seg), (''original_bytes'', orig), (''repaired_bytes'', repaired),
     (''truncated_bytes'', truncated), (''backup_file'', backup), (''head_sequence'', hseq), (''head_digest'', hdig)]"

definition seal_receipt :: "host \<Rightarrow> (string \<times> json) list \<Rightarrow> json" where
  "seal_receipt host m = JObj (m @ [(''receipt_sha256'', JStr (h_sha host (canonical_json (JObj m))))])"

definition validate_repair_receipt :: "host \<Rightarrow> string \<Rightarrow> json \<Rightarrow> json option" where
  "validate_repair_receipt host sid v = (case (jstr (jget v ''repaired_at''), jstr (jget v ''segment''), natural (jget v ''original_bytes''),
       natural (jget v ''repaired_bytes''), natural (jget v ''truncated_bytes''), jstr (jget v ''backup_file''), natural (jget v ''head_sequence''),
       jget v ''head_digest'', jstr (jget v ''receipt_sha256'')) of
     (Some at, Some seg, Some orig, Some repaired, Some truncated, Some backup, Some hseq, Some hdig, Some sha) \<Rightarrow>
       (let m = receipt_material (JStr sid) (JStr at) (JStr seg) (JNum orig) (JNum repaired) (JNum truncated) (JStr backup) (JNum hseq) hdig in
        if jget v ''schema_version'' \<noteq> Some (JNum 1) \<or> jget v ''store_kind'' \<noteq> Some (JStr ''journal_repair_receipt'') \<or> jget v ''stream_id'' \<noteq> Some (JStr sid)
          \<or> \<not> key_of_length 127 seg \<or> hdig \<noteq> JNull \<and> jstr (Some hdig) = None \<or> sha \<noteq> h_sha host (canonical_json (JObj m))
        then None else Some (seal_receipt host m))
   | _ \<Rightarrow> None)"

section \<open>Completing a repair\<close>

definition nullish :: "json \<Rightarrow> json option \<Rightarrow> json" where
  \<comment> \<open>\<^verbatim>\<open>v ?? d\<close>\<close>
  "nullish d v = (case v of None \<Rightarrow> d | Some JNull \<Rightarrow> d | Some w \<Rightarrow> w)"

definition remove_segment :: "string \<Rightarrow> journal_dir \<Rightarrow> journal_dir" where
  "remove_segment seg d = d\<lparr>jd_segments := ddel seg (jd_segments d)\<rparr>"

definition orphan_name :: "repair_env \<Rightarrow> string \<Rightarrow> string \<Rightarrow> string" where
  "orphan_name e seg nonce = seg @ ''.orphaned-'' @ dec_int (re_time e) @ ''-'' @ nonce"

definition orphan_file :: "repair_env \<Rightarrow> journal_dir \<Rightarrow> string \<Rightarrow> string" where
  "orphan_file e d seg = orphan_name e seg (re_nonce e (\<lambda>n. dget (jd_quarantine d) (orphan_name e seg n) \<noteq> None))"

definition copy_orphan :: "repair_env \<Rightarrow> string \<Rightarrow> journal_dir \<Rightarrow> journal_dir" where
  "copy_orphan e seg d = (case dget (jd_segments d) seg of None \<Rightarrow> d
     | Some content \<Rightarrow> d\<lparr>jd_quarantine := dput (orphan_file e d seg) content (jd_quarantine d)\<rparr>)"

definition past :: "nat option \<Rightarrow> nat \<Rightarrow> string \<Rightarrow> bool" where
  \<comment> \<open>segments behind the repaired one, or behind the active one\<close>
  "past target active seg = (case parse_segment seg of None \<Rightarrow> False
     | Some i \<Rightarrow> (case target of Some k \<Rightarrow> k < i | None \<Rightarrow> False) \<or> active < i)"

definition quarantine_orphans :: "repair_env \<Rightarrow> nat option \<Rightarrow> nat \<Rightarrow> string list \<Rightarrow> journal_dir \<Rightarrow> journal_dir" where
  "quarantine_orphans e target active names = fold (\<lambda>seg d. remove_segment seg (copy_orphan e seg d)) (filter (past target active) names)"

definition truncation_done :: "host \<Rightarrow> json option \<Rightarrow> string \<Rightarrow> journal_dir \<Rightarrow> bool" where
  "truncation_done host repaired seg d = (case dget (jd_segments d) seg of None \<Rightarrow> True
     | Some content \<Rightarrow> repaired = Some (JNum (int (utf8_bytes content))) \<or> number_above host repaired (int (utf8_bytes content)))"

definition finish_intent :: "host \<Rightarrow> journal \<Rightarrow> repair_env \<Rightarrow> json \<Rightarrow> string \<Rightarrow> string \<Rightarrow> string \<Rightarrow> nat \<Rightarrow> journal_dir \<Rightarrow> journal_dir" where
  \<comment> \<open>what is left to do once the segment is truncated\<close>
  "finish_intent host j e v name seg final active d = (let
     target = parse_segment seg;
     d1 = (if (case target of Some k \<Rightarrow> active < k | None \<Rightarrow> False) \<and> jget v ''repaired_bytes'' = Some (JNum 0) then remove_segment seg d else d);
     d2 = quarantine_orphans e target active (list_segments d1) d1;
     m = receipt_material (JStr (jn_stream j)) (nullish (jiso (re_repaired e)) (jget v ''repaired_at'')) (JStr seg) (nullish (JNum 0) (jget v ''original_bytes''))
       (nullish JNull (jget v ''repaired_bytes'')) (nullish (JNum 0) (jget v ''truncated_bytes'')) (nullish (JStr []) (jget v ''backup_file''))
       (nullish (JNum 0) (jget v ''head_sequence'')) (nullish JNull (jget v ''head_digest''));
     d3 = (case receipt_file e final of None \<Rightarrow> d2
       | Some f \<Rightarrow> if dget (jd_receipts d2) f = None then d2\<lparr>jd_receipts := dput f (Some (seal_receipt host m)) (jd_receipts d2)\<rparr> else d2)
   in d3\<lparr>jd_receipts := ddel name (jd_receipts d3)\<rparr>)"

definition recover_intent :: "host \<Rightarrow> journal \<Rightarrow> repair_env \<Rightarrow> string \<Rightarrow> journal_dir \<Rightarrow> journal_dir" where
  "recover_intent host j e name d = (case dget (jd_receipts d) name of
     Some (Some v) \<Rightarrow> (case (jstr (jget v ''segment''), jstr (jget v ''final_receipt_path''), jstr (jget v ''receipt_sha256'')) of
         (Some seg, Some final, Some _) \<Rightarrow>
           if jget v ''store_kind'' = Some (JStr ''journal_repair_intent'') \<and> jget v ''stream_id'' = Some (JStr (jn_stream j))
             \<and> is_number (jget v ''repaired_bytes'') \<and> truncation_done host (jget v ''repaired_bytes'') seg d
           then (case read_head (jn_stream j) d of
               Inl _ \<Rightarrow> d \<comment> \<open>the error is ignored\<close>
             | Inr h \<Rightarrow> finish_intent host j e v name seg final (case h of Some h \<Rightarrow> segment_index (hd_active h) | None \<Rightarrow> 1) d)
           else d
       | _ \<Rightarrow> d)
   | _ \<Rightarrow> d)"

definition recover_pending_repair_intents :: "host \<Rightarrow> journal \<Rightarrow> repair_env \<Rightarrow> journal_dir \<Rightarrow> journal_dir" where
  "recover_pending_repair_intents host j e d = fold (recover_intent host j e) (filter intent_name (dnames (jd_receipts d))) d"

definition verify :: "host \<Rightarrow> journal \<Rightarrow> repair_env \<Rightarrow> journal_dir \<Rightarrow> verification \<times> journal_dir" where
  \<comment> \<open>completes pending repairs first, unless its caller holds the lock of the stream\<close>
  "verify host j e d = (let d' = (if list_ex intent_name (dnames (jd_receipts d)) then recover_pending_repair_intents host j e d else d)
     in (verify_stream host j d', d'))"

definition list_receipts :: "host \<Rightarrow> journal \<Rightarrow> repair_env \<Rightarrow> journal_dir \<Rightarrow> json list \<times> journal_dir" where
  "list_receipts host j e d = (let d' = (if list_ex intent_name (dnames (jd_receipts d)) then recover_pending_repair_intents host j e d else d)
     in (List.map_filter (\<lambda>f. case dget (jd_receipts d') f of Some (Some v) \<Rightarrow> validate_repair_receipt host (jn_stream j) v | _ \<Rightarrow> None)
          (sort (filter receipt_name (dnames (jd_receipts d')))), d'))"

section \<open>Repair\<close>

record repair_plan =
  rp_segment :: string
  rp_original :: int
  rp_repaired :: int
  rp_head :: journal_head
  rp_names :: "string list" \<comment> \<open>the segments when the repair started\<close>

definition plan_repair :: "host \<Rightarrow> journal \<Rightarrow> journal_dir \<Rightarrow> journal_error + repair_plan" where
  \<comment> \<open>the checks before the first write\<close>
  "plan_repair host j d = (let v = verify_stream host j d in case vf_status v of
     Valid \<Rightarrow> Inl E_JOURNAL_NOT_REPAIRABLE
   | Absent \<Rightarrow> Inl E_JOURNAL_ABSENT
   | Corrupt \<Rightarrow> Inl E_JOURNAL_NON_TAIL_CORRUPTION
   | Incomplete_tail \<Rightarrow> (case map_option (\<lambda>e. (ve_segment e, ve_offset e)) (vf_error v) of
       Some (Some seg, Some off) \<Rightarrow> (case dget (jd_segments d) seg of
           None \<Rightarrow> Inl E_JOURNAL_CORRUPT
         | Some content \<Rightarrow> rbind (read_meta (jn_stream j) d) (\<lambda>m. case m of None \<Rightarrow> Inl E_JOURNAL_CORRUPT | Some l \<Rightarrow>
             rbind (read_head (jn_stream j) d) (\<lambda>h. case h of None \<Rightarrow> Inl E_JOURNAL_CORRUPT | Some h \<Rightarrow> (let
               orig = int (utf8_bytes content);
               active = segment_index (hd_active h);
               target = parse_segment seg;
               room = (if (case target of Some k \<Rightarrow> active < k | None \<Rightarrow> False) then lm_segment l + lm_record l else lm_record l)
             in if orig - off < 0 \<or> room < orig - off \<or> lm_segment l + lm_record l < orig then Inl E_JOURNAL_NON_TAIL_CORRUPTION
                else if list_ex (\<lambda>s. past target active s \<and> lm_segment l + lm_record l < int (utf8_bytes (segment_text d s))) (list_segments d)
                  then Inl E_JOURNAL_NON_TAIL_CORRUPTION
                else Inr \<lparr>rp_segment = seg, rp_original = orig, rp_repaired = off, rp_head = h, rp_names = list_segments d\<rparr>))))
     | _ \<Rightarrow> Inl E_JOURNAL_NOT_REPAIRABLE))"

definition backup_name :: "repair_env \<Rightarrow> string \<Rightarrow> string \<Rightarrow> string" where
  "backup_name e seg nonce = seg @ ''.tail-corrupt-'' @ dec_int (re_time e) @ ''-'' @ nonce"

definition receipt_of :: "repair_env \<Rightarrow> string \<Rightarrow> string" where
  "receipt_of e nonce = ''repair-'' @ dec_int (re_time e) @ ''-'' @ nonce @ ''.json''"

definition intent_of :: "repair_env \<Rightarrow> string \<Rightarrow> string" where
  "intent_of e nonce = ''repair-'' @ dec_int (re_time e) @ ''-'' @ nonce @ ''.intent.json''"

definition repair_nonce :: "repair_env \<Rightarrow> string \<Rightarrow> journal_dir \<Rightarrow> string" where
  "repair_nonce e seg d = re_nonce e (\<lambda>n. dget (jd_quarantine d) (backup_name e seg n) \<noteq> None
     \<or> dget (jd_receipts d) (receipt_of e n) \<noteq> None \<or> dget (jd_receipts d) (intent_of e n) \<noteq> None)"

definition repair_material :: "journal \<Rightarrow> repair_env \<Rightarrow> repair_plan \<Rightarrow> string \<Rightarrow> (string \<times> json) list" where
  "repair_material j e p nonce = receipt_material (JStr (jn_stream j)) (jiso (re_repaired e)) (JStr (rp_segment p)) (JNum (rp_original p)) (JNum (rp_repaired p))
     (JNum (rp_original p - rp_repaired p)) (JStr (quarantine_path e (backup_name e (rp_segment p) nonce)))
     (JNum (hd_sequence (rp_head p))) (digest_json (hd_digest (rp_head p)))"

definition repair_intent :: "host \<Rightarrow> journal \<Rightarrow> repair_env \<Rightarrow> repair_plan \<Rightarrow> string \<Rightarrow> json" where
  "repair_intent host j e p nonce = (case seal_receipt host (repair_material j e p nonce) of
     JObj fs \<Rightarrow> JObj (dput ''store_kind'' (JStr ''journal_repair_intent'') fs
       @ [(''final_receipt_path'', JStr (receipt_path e (receipt_of e nonce))), (''intent_at'', jiso (re_intent e))])
   | v \<Rightarrow> v)"

fun take_bytes :: "int \<Rightarrow> string \<Rightarrow> string" where
  \<comment> \<open>a text truncated to a size that ends no character in its middle\<close>
  "take_bytes n [] = []"
| "take_bytes n (c # s) = (if int (utf8_bytes [c]) \<le> n then c # take_bytes (n - int (utf8_bytes [c])) s else [])"

definition truncate_segment :: "string \<Rightarrow> int \<Rightarrow> journal_dir \<Rightarrow> journal_dir" where
  "truncate_segment seg n d = d\<lparr>jd_segments := dput seg (take_bytes n (segment_text d seg)) (jd_segments d)\<rparr>"

definition put_receipt :: "string \<Rightarrow> json \<Rightarrow> journal_dir \<Rightarrow> journal_dir" where
  "put_receipt f v d = d\<lparr>jd_receipts := dput f (Some v) (jd_receipts d)\<rparr>"

definition repair_writes :: "host \<Rightarrow> journal \<Rightarrow> repair_env \<Rightarrow> repair_plan \<Rightarrow> string \<Rightarrow> (journal_dir \<Rightarrow> journal_dir) list" where
  \<comment> \<open>in their order: the backup, the intent, the truncation, the segments behind, the receipt\<close>
  "repair_writes host j e p nonce = (let
     seg = rp_segment p;
     active = segment_index (hd_active (rp_head p));
     target = parse_segment seg
   in [\<lambda>d. d\<lparr>jd_quarantine := dput (backup_name e seg nonce) (segment_text d seg) (jd_quarantine d)\<rparr>,
       put_receipt (intent_of e nonce) (repair_intent host j e p nonce),
       truncate_segment seg (rp_repaired p)]
     @ (if (case target of Some k \<Rightarrow> active < k | None \<Rightarrow> False) \<and> rp_repaired p = 0 then [remove_segment seg] else [])
     @ concat (map (\<lambda>s. [copy_orphan e s, remove_segment s]) (filter (past target active) (rp_names p)))
     @ [put_receipt (receipt_of e nonce) (seal_receipt host (repair_material j e p nonce)),
        \<lambda>d. d\<lparr>jd_receipts := ddel (intent_of e nonce) (jd_receipts d)\<rparr>])"

definition run_writes :: "(journal_dir \<Rightarrow> journal_dir) list \<Rightarrow> journal_dir \<Rightarrow> journal_dir" where
  "run_writes ws d = fold (\<lambda>w d. w d) ws d"

definition repair_incomplete_tail :: "host \<Rightarrow> journal \<Rightarrow> repair_env \<Rightarrow> nat option \<Rightarrow> (journal_dir, journal_error, json) act" where
  \<comment> \<open>\<open>Some k\<close> when the repair is cut off after \<open>k\<close> of its writes\<close>
  "repair_incomplete_tail host j e stop d = (case plan_repair host j d of
     Inl err \<Rightarrow> (Inl err, d)
   | Inr p \<Rightarrow> (let
       d1 = recover_pending_repair_intents host j e d;
       nonce = repair_nonce e (rp_segment p) d1;
       writes = repair_writes host j e p nonce
     in if dget (jd_segments d1) (rp_segment p) = None then (Inl E_ENOENT, d1)
        else (case stop of
          Some k \<Rightarrow> (Inl E_INTERRUPTED, run_writes (take k writes) d1)
        | None \<Rightarrow> (Inr (seal_receipt host (repair_material j e p nonce)), run_writes writes d1))))"

end
