(* ===== verification/JournalLines.thy ===== *)
theory JournalLines
  imports Journal
begin

text \<open>
  Texts of segments: a segment holds one canonical record a line, so its lines are read back by every
  way the journal splits it, also when an interrupted write left a piece of a line at its end.
\<close>

section \<open>Blocks of records\<close>

definition record_line :: "json \<Rightarrow> string" where
  "record_line r = canonical_json r @ [newline]"

definition block_text :: "json list \<Rightarrow> string" where
  "block_text rs = concat (map record_line rs)"

lemma block_text_simps [simp]: "block_text [] = []" "block_text (r # rs) = canonical_json r @ newline # block_text rs"
  "block_text (rs @ qs) = block_text rs @ block_text qs"
  by (simp_all add: block_text_def record_line_def)

text \<open>A record as it is read: canonical, an object, with numbers the reader gives back.\<close>

definition readable :: "host \<Rightarrow> json \<Rightarrow> bool" where
  "readable host r = (json_ok (h_num host) r \<and> canon r = r \<and> is_jobj r)"

lemma readable_parse: "readable host r \<Longrightarrow> json_parse (h_num host) (canonical_json r) = Some r"
  by (simp add: readable_def canonical_parse)

lemma readable_chars: "readable host r \<Longrightarrow> c \<in> set (canonical_json r) \<Longrightarrow> c \<noteq> newline \<and> c \<noteq> CHR 0x0D"
  using canonical_printable [of "h_num host" r c] by (auto simp: readable_def)

lemma readable_shape:
  assumes "readable host r"
  obtains t where "canonical_json r = CHR ''{'' # t @ ''}''"
proof -
  obtain fs where "r = JObj fs" using assms by (cases r) (auto simp: readable_def is_jobj_def)
  with that show thesis by simp
qed

lemma brace_not_blank: "\<not> blank (CHR ''{'' # t)"
  by (simp add: blank_def trim_def ltrim_def is_ws_def)

lemma readable_not_blank: "readable host r \<Longrightarrow> \<not> blank (canonical_json r)"
  using readable_shape brace_not_blank by metis

lemma canonical_not_Nil: "readable host r \<Longrightarrow> canonical_json r \<noteq> []"
  using readable_shape by (metis list.simps(3))

section \<open>Splitting\<close>

lemma scan_line:
  assumes "newline \<notin> set t"
  shows "scan_lines (t @ newline # s) = (t, True) # scan_lines s"
  using assms by (induction t) auto

lemma scan_end: "newline \<notin> set t \<Longrightarrow> scan_lines t = (if t = [] then [] else [(t, False)])"
  by (induction t) (auto split: if_splits)

lemma scan_block:
  assumes "list_all (readable host) rs" "newline \<notin> set t"
  shows "scan_lines (block_text rs @ t) = map (\<lambda>r. (canonical_json r, True)) rs @ (if t = [] then [] else [(t, False)])"
  using assms
proof (induction rs)
  case Nil
  then show ?case by (simp add: scan_end)
next
  case (Cons r rs)
  have "newline \<notin> set (canonical_json r)" using readable_chars [of host r] Cons.prems(1) by auto
  with Cons show ?case by (simp add: scan_line)
qed

lemma split_block:
  assumes "list_all (readable host) rs" "newline \<notin> set t"
  shows "split_by (\<lambda>c. c = newline) (block_text rs @ t) = map canonical_json rs @ [t]"
  using assms
proof (induction rs)
  case Nil
  then show ?case using split_by_plain [of t "\<lambda>c. c = newline"] by auto
next
  case (Cons r rs)
  have "\<forall>d \<in> set (canonical_json r). d \<noteq> newline" using readable_chars [of host r] Cons.prems(1) by auto
  with Cons split_by_append_sep [where P = "\<lambda>c. c = newline" and c = newline] show ?case by simp
qed

lemma drop_cr_readable: "readable host r \<Longrightarrow> drop_cr (canonical_json r) = canonical_json r"
proof -
  assume "readable host r"
  then have "CHR 0x0D \<notin> set (rev (canonical_json r))" using readable_chars [of host r "CHR 0x0D"] by auto
  then have "\<not> ends_with [CHR 0x0D] (canonical_json r)" unfolding ends_with_def starts_with_iff by auto
  then show ?thesis by (simp add: drop_cr_def)
qed

lemma text_lines_block:
  assumes "list_all (readable host) rs" "newline \<notin> set t"
  shows "text_lines (block_text rs @ t) = map canonical_json rs @ [t]"
proof -
  have "map drop_cr (map canonical_json rs) = map canonical_json rs"
    using assms(1) by (induction rs) (auto simp: drop_cr_readable)
  then show ?thesis unfolding text_lines_def Let_def split_block [OF assms] by simp
qed

lemma last_line_block:
  assumes "list_all (readable host) (rs @ [r])"
  shows "last_line (block_text (rs @ [r])) = canonical_json r"
proof -
  have "newline \<notin> set (canonical_json r)" using readable_chars [of host r] assms by auto
  moreover have "butlast (block_text (rs @ [r])) = block_text rs @ canonical_json r" by (simp add: butlast_append)
  ultimately show ?thesis using assms split_block [of host rs "canonical_json r"] by (simp add: last_line_def)
qed

section \<open>Segment names\<close>

lemma undec_pad: "undec_nat (pad_left n s) = undec_nat s"
  by (simp add: undec_zeros)

lemma parse_segment_name:
  assumes "i < 100000000"
  shows "parse_segment (segment_name i) = Some i"
proof -
  have l: "length (dec_nat i) \<le> 8" using length_dec_nat [of i 8] assms by simp
  then have p: "length (pad_left 8 (dec_nat i)) = 8" by simp
  have d: "list_all is_digit (pad_left 8 (dec_nat i))"
    using dec_nat_digits [of i] by (auto simp: list_all_iff is_digit_def)
  show ?thesis using p d by (simp add: parse_segment_def segment_name_def undec_pad del: pad_left.simps)
qed

lemma segment_index_name: "i < 100000000 \<Longrightarrow> segment_index (segment_name i) = i"
  by (simp add: segment_index_def parse_segment_name opt_default_def)

lemma segment_name_inject: "i < 100000000 \<Longrightarrow> j < 100000000 \<Longrightarrow> segment_name i = segment_name j \<longleftrightarrow> i = j"
  using parse_segment_name by (metis option.inject)

end
