(* ===== verification/JournalStore.thy ===== *)
theory JournalStore
  imports JournalLines
begin

text \<open>
  What a journal directory holds: the blocks of records of its segments, chained by their digests, under
  a head that counts them; and an append, which adds one record to them.
\<close>

lemma json_read_simps [simp]: "jstr (Some (JStr s)) = Some s" "jstr (Some JNull) = None" "jsafe_int (Some (JNum n)) = (if safe_integer n then Some n else None)"
  by (simp_all add: jstr_def jsafe_int_def)

section \<open>Chains of records\<close>

fun chain :: "host \<Rightarrow> string \<Rightarrow> int \<Rightarrow> string option \<Rightarrow> json list \<Rightarrow> bool" where
  "chain host sid n prev [] = True"
| "chain host sid n prev (r # rs) = (readable host r \<and> validate_committed_record host sid (Some n) (Some prev) r = Inr r
     \<and> chain host sid (n + 1) (Some (rec_digest r)) rs)"

definition last_digest :: "string option \<Rightarrow> json list \<Rightarrow> string option" where
  "last_digest prev rs = (if rs = [] then prev else Some (rec_digest (last rs)))"

lemma last_digest_simps [simp]: "last_digest prev [] = prev" "last_digest prev (r # rs) = last_digest (Some (rec_digest r)) rs"
  "last_digest prev (rs @ [r]) = Some (rec_digest r)"
  by (simp_all add: last_digest_def)

lemma chain_append: "chain host sid n prev (xs @ ys) \<longleftrightarrow> chain host sid n prev xs \<and> chain host sid (n + int (length xs)) (last_digest prev xs) ys"
  by (induction xs arbitrary: n prev) (simp_all add: add.assoc)

lemma chain_readable: "chain host sid n prev rs \<Longrightarrow> list_all (readable host) rs"
  by (induction rs arbitrary: n prev) auto

lemma committed_fields:
  assumes "validate_committed_record host sid (Some n) (Some prev) r = Inr r'"
  shows "r' = r" "jget r ''sequence'' = Some (JNum n)" "rec_sequence r = n" "1 \<le> n" "safe_integer n"
    "jget r ''schema_version'' = Some (JNum 1)" "jget r ''stream_id'' = Some (JStr sid)" "rec_previous r = prev"
    "jget r ''digest'' = Some (JStr (rec_digest r))" "hex64 (rec_digest r)" "rec_digest r = record_digest host r" "json_date (jget r ''at'')"
    "n = 1 \<longleftrightarrow> prev = None"
proof -
  obtain i where i: "jsafe_int (jget r ''sequence'') = Some i"
    using assms by (auto simp: validate_committed_record_def split: option.splits)
  note v = assms [unfolded validate_committed_record_def i, simplified]
  have all: "r' = r \<and> i = n \<and> 1 \<le> n \<and> jget r ''schema_version'' = Some (JNum 1) \<and> jget r ''stream_id'' = Some (JStr sid) \<and> rec_previous r = prev
      \<and> hex_text (jget r ''digest'') \<and> rec_digest r = record_digest host r \<and> json_date (jget r ''at'')
      \<and> (if n = 1 then jget r ''previous_digest'' = Some JNull else hex_text (jget r ''previous_digest''))"
    using v by (auto simp: contradicts_def split: if_splits)
  then show "r' = r" "1 \<le> n" "jget r ''schema_version'' = Some (JNum 1)" "jget r ''stream_id'' = Some (JStr sid)" "rec_previous r = prev"
    "rec_digest r = record_digest host r" "json_date (jget r ''at'')" by blast+
  show "jget r ''sequence'' = Some (JNum n)" "rec_sequence r = n" "safe_integer n"
    using i all unfolding jsafe_int_Some_iff rec_sequence_def opt_default_def by (auto simp: jsafe_int_def)
  show "jget r ''digest'' = Some (JStr (rec_digest r))" "hex64 (rec_digest r)"
    using all by (auto simp: hex_text_def rec_digest_def opt_default_def jstr_Some_iff split: option.splits)
  show "n = 1 \<longleftrightarrow> prev = None"
    using all by (auto simp: hex_text_def rec_previous_def jstr_def split: if_splits option.splits)
qed

section \<open>A stored stream\<close>

definition sane_limits :: "journal_limits \<Rightarrow> bool" where
  "sane_limits l = (0 < lm_record l \<and> lm_record l \<le> lm_segment l \<and> 0 < lm_segment_records l \<and> 0 < lm_stream l
     \<and> lm_stream l < 100000000 \<and> lm_stream l * lm_record l \<le> 9007199254740991)"

definition block_ok :: "journal_limits \<Rightarrow> json list \<Rightarrow> bool" where
  "block_ok l b = (int (utf8_bytes (block_text b)) \<le> lm_segment l \<and> int (length b) \<le> lm_segment_records l
     \<and> list_all (\<lambda>r. int (utf8_bytes (record_line r)) \<le> lm_record l) b)"

definition head_at :: "string \<Rightarrow> json list list \<Rightarrow> journal_head" where
  "head_at upd blocks = \<lparr>hd_sequence = int (length (concat blocks)), hd_digest = last_digest None (concat blocks),
     hd_active = segment_name (length blocks), hd_active_records = Some (int (length (last blocks))),
     hd_total = int (length (concat blocks)), hd_bytes = int (utf8_bytes (block_text (concat blocks))), hd_updated = upd\<rparr>"

definition good_blocks :: "host \<Rightarrow> string \<Rightarrow> journal_limits \<Rightarrow> json list list \<Rightarrow> bool" where
  "good_blocks host sid l blocks = (blocks \<noteq> [] \<and> ([] \<notin> set blocks \<or> blocks = [[]]) \<and> chain host sid 1 None (concat blocks)
     \<and> list_all (block_ok l) blocks \<and> int (length (concat blocks)) \<le> lm_stream l)"

definition files_hold :: "journal_dir \<Rightarrow> json list list \<Rightarrow> bool" where
  "files_hold d blocks = (list_segments d = map segment_name [1..<Suc (length blocks)]
     \<and> (\<forall>i < length blocks. dget (jd_segments d) (segment_name (Suc i)) = Some (block_text (blocks ! i))))"

definition opened :: "journal \<Rightarrow> journal_limits \<Rightarrow> journal_dir \<Rightarrow> bool" where
  "opened j l d = (read_meta (jn_stream j) d = Inr (Some l) \<and> resolve_limits j d = Inr l \<and> sane_limits l \<and> length (jn_stream j) \<le> 512)"

definition stored :: "host \<Rightarrow> journal \<Rightarrow> journal_limits \<Rightarrow> journal_dir \<Rightarrow> string \<Rightarrow> json list list \<Rightarrow> bool" where
  "stored host j l d upd blocks = (opened j l d \<and> read_head (jn_stream j) d = Inr (Some (head_at upd blocks))
     \<and> good_blocks host (jn_stream j) l blocks \<and> files_hold d blocks)"

lemma good_blocks_count:
  assumes "good_blocks host sid l blocks" "sane_limits l"
  shows "0 < length blocks" "length blocks < 100000000"
proof -
  have "length blocks \<le> length (concat blocks)" if "[] \<notin> set blocks"
    using that
  proof (induction blocks)
    case (Cons b bs)
    then have "b \<noteq> []" by force
    then have "Suc 0 \<le> length b" by (cases b) auto
    with Cons show ?case by simp
  qed simp
  then show "0 < length blocks" "length blocks < 100000000"
    using assms by (auto simp: good_blocks_def sane_limits_def)
qed

lemma check_numbers_ok:
  assumes "n + i \<le> Suc active" "n + i \<le> 100000000"
  shows "check_numbers active i (map segment_name [i..<i + n]) = Inr ()"
  using assms
proof (induction n arbitrary: i)
  case (Suc n)
  have "check_numbers active (Suc i) (map segment_name [Suc i..<Suc i + n]) = Inr ()"
    by (rule Suc.IH) (use Suc.prems in auto)
  moreover have "[i..<i + Suc n] = i # [Suc i..<Suc i + n]" by (simp add: upt_conv_Cons)
  ultimately show ?case using Suc.prems by (simp add: parse_segment_name)
qed simp

lemma check_segments_stored:
  assumes "0 < length blocks" "length blocks < 100000000"
  shows "check_segments (head_at upd blocks) (map segment_name [1..<Suc (length blocks)]) = Inr ()"
proof -
  have "check_numbers (length blocks) 1 (map segment_name [1..<1 + length blocks]) = Inr ()"
    by (rule check_numbers_ok) (use assms in auto)
  moreover have "[1..<1 + length blocks] = [1..<Suc (length blocks)]" by simp
  moreover have "[1..<Suc (length blocks)] \<noteq> []" using assms(1) by (cases blocks) auto
  ultimately show ?thesis using assms by (simp add: check_segments_def Let_def head_at_def segment_index_name del: upt_Suc)
qed

lemma last_block_text:
  assumes "files_hold d blocks" "blocks \<noteq> []"
  shows "dget (jd_segments d) (segment_name (length blocks)) = Some (block_text (last blocks))"
proof -
  have "length blocks - 1 < length blocks" using assms(2) by (cases blocks) auto
  then have "dget (jd_segments d) (segment_name (Suc (length blocks - 1))) = Some (block_text (blocks ! (length blocks - 1)))"
    using assms(1) unfolding files_hold_def by blast
  with assms(2) show ?thesis by (simp add: last_conv_nth)
qed

end
