(* ===== verification/JournalAppend.thy ===== *)
theory JournalAppend
  imports JournalStore
begin

text \<open>
  Appending to a stored stream: the checks of the tail pass, the new record continues the chain, and the
  files written hold the blocks with one more record.
\<close>

section \<open>The checks pass on a stored stream\<close>

lemma chain_last:
  assumes "chain host sid 1 None (xs @ [r])"
  shows "readable host r" "validate_committed_record host sid (Some (1 + int (length xs))) (Some (last_digest None xs)) r = Inr r"
  using assms by (auto simp: chain_append)

lemma good_blocks_cases:
  assumes "good_blocks host sid l blocks"
  obtains (empty) "blocks = [[]]"
  | (some) bs b r where "blocks = bs @ [b @ [r]]" "[] \<notin> set bs" "concat blocks = (concat bs @ b) @ [r]"
proof (cases "blocks = [[]]")
  case False
  then have ne: "blocks \<noteq> []" "[] \<notin> set blocks" using assms by (auto simp: good_blocks_def)
  obtain bs c where c: "blocks = bs @ [c]" using ne(1) by (cases blocks rule: rev_cases) auto
  then have "c \<noteq> []" using ne(2) by auto
  then obtain b r where "c = b @ [r]" by (cases c rule: rev_cases) auto
  with c ne(2) some show thesis by auto
qed (rule empty)

lemma concat_nil_blocks: "concat [[]] = []"
  by simp

lemma check_last_record_ok:
  assumes "readable host r" "validate_committed_record host sid (Some n) (Some prev) r = Inr r"
    "hd_sequence h = n" "hd_digest h = Some (rec_digest r)"
  shows "check_last_record host sid h (canonical_json r) = Inr ()"
  using committed_fields [OF assms(2)] assms(3,4) readable_not_blank [OF assms(1)] readable_parse [OF assms(1)] drop_cr_readable [OF assms(1)]
  by (simp add: check_last_record_def Let_def is_number_def number_above_def digest_json_def)

lemma assert_tail_ok:
  assumes "stored host j l d upd blocks"
  shows "assert_no_incomplete_tail host (jn_stream j) (head_at upd blocks) l d = Inr ()"
proof -
  have o: "sane_limits l" and g: "good_blocks host (jn_stream j) l blocks" and f: "files_hold d blocks"
    using assms by (auto simp: stored_def opened_def)
  note cnt = good_blocks_count [OF g o]
  have p: "parse_segment (hd_active (head_at upd blocks)) \<noteq> None" using cnt by (simp add: head_at_def parse_segment_name)
  have c: "check_segments (head_at upd blocks) (list_segments d) = Inr ()"
    using check_segments_stored [OF cnt] f by (simp add: files_hold_def del: upt_Suc)
  have t: "dget (jd_segments d) (hd_active (head_at upd blocks)) = Some (block_text (last blocks))"
    using last_block_text [OF f] cnt by (simp add: head_at_def)
  show ?thesis
  proof (cases rule: good_blocks_cases [OF g])
    case 1
    then show ?thesis using p c t by (simp add: assert_no_incomplete_tail_def head_at_def)
  next
    case (2 bs b r)
    have ch: "chain host (jn_stream j) 1 None ((concat bs @ b) @ [r])" using g 2(3) by (simp add: good_blocks_def)
    note last = chain_last [OF ch]
    have all: "list_all (readable host) (b @ [r])" using chain_readable [OF ch] by simp
    have ok: "block_ok l (b @ [r])" using g 2(1) by (simp add: good_blocks_def)
    have line: "last_line (block_text (b @ [r])) = canonical_json r" by (rule last_line_block [OF all])
    have bytes: "int (utf8_bytes (canonical_json r)) + 1 \<le> lm_record l"
      using ok by (simp add: block_ok_def record_line_def)
    have size: "int (utf8_bytes (block_text (b @ [r]))) = int (utf8_bytes (block_text b)) + int (utf8_bytes (canonical_json r)) + 1"
      by simp
    have bl: "butlast (block_text (b @ [r])) = block_text b @ canonical_json r" by (simp add: butlast_append)
    have window: "newline \<in> set (butlast (block_text (b @ [r]))) \<and>
        int (utf8_bytes (canonical_json r)) + 2 \<le> min (int (utf8_bytes (block_text (b @ [r])))) (lm_record l + 128)
        \<or> int (utf8_bytes (block_text (b @ [r]))) \<le> min (int (utf8_bytes (block_text (b @ [r])))) (lm_record l + 128)"
    proof (cases b)
      case Nil
      with size bytes show ?thesis by simp
    next
      case (Cons q qs)
      then have "newline \<in> set (block_text b)" "1 \<le> int (utf8_bytes (block_text b))" by simp_all
      then show ?thesis using size bytes bl by simp
    qed
    have rec: "check_last_record host (jn_stream j) (head_at upd blocks) (canonical_json r) = Inr ()"
      using last by (rule check_last_record_ok) (use 2(3) in \<open>simp_all add: head_at_def last_digest_def\<close>)
    have seq: "hd_sequence (head_at upd blocks) \<noteq> 0" using 2(3) by (simp add: head_at_def)
    have content: "dget (jd_segments d) (hd_active (head_at upd blocks)) = Some (block_text (b @ [r]))" using t 2(1) by simp
    show ?thesis
      unfolding assert_no_incomplete_tail_def c content using p seq line rec window by (auto simp: Let_def)
  qed
qed

lemma count_block:
  assumes "list_all (readable host) b" "block_ok l b"
  shows "count_segment_records (block_text b) l = Inr (int (length b))"
proof -
  have scan: "scan_lines (block_text b) = map (\<lambda>r. (canonical_json r, True)) b"
    using scan_block [OF assms(1), of "[]"] by simp
  have "\<not> blank (canonical_json r) \<and> \<not> (lm_record l < int (utf8_bytes (canonical_json r)))" if "r \<in> set b" for r
    using assms that readable_not_blank [of host r] by (auto simp: block_ok_def list_all_iff record_line_def)
  then show ?thesis by (auto simp: count_segment_records_def scan list_ex_iff)
qed

lemma active_state_ok:
  assumes "stored host j l d upd blocks"
  shows "active_state (head_at upd blocks) l d = Inr (int (utf8_bytes (block_text (last blocks))), int (length (last blocks)))"
proof -
  have g: "good_blocks host (jn_stream j) l blocks" and f: "files_hold d blocks" using assms by (auto simp: stored_def)
  have ne: "blocks \<noteq> []" using g by (simp add: good_blocks_def)
  have ok: "block_ok l (last blocks)" using g ne by (simp add: good_blocks_def list_all_iff)
  have "list_all (readable host) (concat blocks)" using g chain_readable by (auto simp: good_blocks_def)
  then have all: "list_all (readable host) (last blocks)" using ne by (auto simp: list_all_iff)
  have content: "dget (jd_segments d) (hd_active (head_at upd blocks)) = Some (block_text (last blocks))"
    using last_block_text [OF f ne] by (simp add: head_at_def)
  have nil: "utf8_bytes (block_text (last blocks)) = 0 \<longleftrightarrow> last blocks = []" by (cases "last blocks") auto
  show ?thesis
    unfolding active_state_def content using ok nil count_block [OF all ok]
    by (auto simp: Let_def block_ok_def head_at_def contradicts_def)
qed

section \<open>The new record\<close>

lemma drop_member_canon: "canon (drop_member k (canon v)) = canon (drop_member k v)"
proof (cases v)
  case (JObj fs)
  have sf: "sorted_members (filter (\<lambda>(k', _). k' \<noteq> k) (sorted_members ps)) = sorted_members (filter (\<lambda>(k', _). k' \<noteq> k) ps)" for ps :: "(string \<times> json) list"
  proof -
    have fst: "map fst (filter (\<lambda>(k', _). k' \<noteq> k) qs) = filter (\<lambda>k'. k' \<noteq> k) (map fst qs)" for qs :: "(string \<times> json) list"
      by (induction qs) auto
    have mo: "map_of (rev (filter (\<lambda>(k', _). k' \<noteq> k) qs)) k' = (if k' = k then None else map_of (rev qs) k')" for k' and qs :: "(string \<times> json) list"
    proof -
      have "map_of (filter (\<lambda>(k', _). k' \<noteq> k) qs) k' = (if k' = k then None else map_of qs k')" for qs :: "(string \<times> json) list"
        by (induction qs) auto
      then show ?thesis by (simp add: rev_filter)
    qed
    have names: "sort (remdups (map fst (filter (\<lambda>(k', _). k' \<noteq> k) (sorted_members ps)))) = sort (remdups (map fst (filter (\<lambda>(k', _). k' \<noteq> k) ps)))"
      unfolding fst sorted_names by (rule sorted_distinct_set_unique) (auto intro: distinct_filter)
    show ?thesis unfolding sorted_members_def [of "filter _ (sorted_members ps)"] names mo map_of_sorted_members
      by (simp add: sorted_members_def mo)
  qed
  have "filter (\<lambda>(k', _). k' \<noteq> k) (map (\<lambda>(k, v). (k, canon v)) gs) = map (\<lambda>(k, v). (k, canon v)) (filter (\<lambda>(k', _). k' \<noteq> k) gs)" for gs
    by (induction gs) auto
  then have cf: "canon_members (filter (\<lambda>(k', _). k' \<noteq> k) gs) = filter (\<lambda>(k', _). k' \<noteq> k) (canon_members gs)" for gs
    by (simp add: canon_members_map)
  have "canon (drop_member k (canon v)) = JObj (sorted_members (filter (\<lambda>(k', _). k' \<noteq> k) (canon_members (sorted_members (canon_members fs)))))"
    by (simp add: JObj drop_member_def cf)
  also have "canon_members (sorted_members (canon_members fs)) = sorted_members (canon_members fs)"
    using canon_canon(1) [of v] by (simp add: JObj)
      (metis canon_canon(3) canon_members_map sorted_members_map)
  finally show ?thesis by (simp add: JObj drop_member_def cf sf)
qed (simp_all add: drop_member_def canon_canon)

lemma record_digest_canon: "record_digest host (canon v) = record_digest host v"
  by (simp add: record_digest_def canonical_stringify(1) drop_member_canon)

lemma canonical_json_canon: "canonical_json (canon v) = canonical_json v"
  by (simp add: canonical_stringify canon_canon)

lemma dput_ok: "json_ok num v \<Longrightarrow> list_all (\<lambda>(k, v). json_ok num v) fs \<Longrightarrow> list_all (\<lambda>(k, v). json_ok num v) (dput k v fs)"
  by (induction k v fs rule: dput.induct) auto

lemma visit_ok:
  "json_ok num v \<Longrightarrow> json_ok num (fst (visit l d k v n))"
  "list_all (json_ok num) xs \<Longrightarrow> list_all (json_ok num) (fst (visit_items l d m xs n))"
  "list_all (\<lambda>(k, v). json_ok num v) fs \<Longrightarrow> list_all (\<lambda>(k, v). json_ok num v) out \<Longrightarrow>
     list_all (\<lambda>(k, v). json_ok num v) (fst (visit_members l d fs out n))"
proof (induction l d k v n and l d m xs n and l d fs out n rule: visit_visit_items_visit_members.induct)
  case (1 l d k v n)
  then show ?case
    by (subst visit.simps) (auto split: json.split prod.splits)
next
  case (3 l d m x xs n)
  then show ?case by (auto split: prod.splits simp: Let_def)
next
  case (5 l d k x fs out n)
  obtain y n' where y: "visit l d (Some k) x (Suc n) = (y, n')" by (cases "visit l d (Some k) x (Suc n)")
  show ?case
  proof (cases "rl_entries l < Suc n")
    case True
    with 5 show ?thesis by (simp add: dput_ok)
  next
    case False
    then have "json_ok num y" using 5(1) 5(3) y by simp
    then have "list_all (\<lambda>(k, v). json_ok num v) (dput k y out)" using 5(4) by (rule dput_ok)
    then show ?thesis using 5(2) [OF False y [symmetric]] 5(3) False y by simp
  qed
qed auto

lemma redact_ok: "json_ok num v \<Longrightarrow> json_ok num (redact l v)"
  by (simp add: redact_def visit_ok)

definition stored_payload :: "journal \<Rightarrow> journal_input \<Rightarrow> json" where
  "stored_payload j input = (if jo_redact (jn_options j) then redact default_limits (ji_payload input) else ji_payload input)"

definition stored_time :: "append_times \<Rightarrow> journal_input \<Rightarrow> string" where
  "stored_time t input = (case ji_at input of Some s \<Rightarrow> if valid_date s then s else iso (at_record t) | None \<Rightarrow> iso (at_record t))"

lemma new_record_members:
  "jget (new_record host j t input h) ''schema_version'' = Some (JNum 1)"
  "jget (new_record host j t input h) ''stream_id'' = Some (JStr (jn_stream j))"
  "jget (new_record host j t input h) ''sequence'' = Some (JNum (hd_sequence h + 1))"
  "jget (new_record host j t input h) ''kind'' = Some (JStr (ji_kind input))"
  "jget (new_record host j t input h) ''payload'' = Some (stored_payload j input)"
  "jget (new_record host j t input h) ''at'' = Some (JStr (stored_time t input))"
  "jget (new_record host j t input h) ''previous_digest'' = Some (digest_json (hd_digest h))"
  "jget (new_record host j t input h) ''digest'' = Some (JStr (h_sha host (canonical_json (JObj (record_material j t input h)))))"
  by (simp_all add: new_record_def record_material_def Let_def jget_def stored_payload_def stored_time_def)

lemma new_record_material: "drop_member ''digest'' (new_record host j t input h) = JObj (record_material j t input h)"
  by (simp add: new_record_def record_material_def Let_def drop_member_def)

lemma new_record_ok: "json_ok (h_num host) (ji_payload input) \<Longrightarrow> safe_integer (hd_sequence h + 1) \<Longrightarrow> json_ok (h_num host) (new_record host j t input h)"
  by (cases "hd_digest h") (simp_all add: new_record_def record_material_def Let_def redact_ok safe_integer_def digest_json_def)

lemma canon_scalars [simp]: "canon (JNum n) = JNum n" "canon (JStr s) = JStr s" "canon JNull = JNull" "canon (digest_json p) = digest_json p"
  by (simp_all add: digest_json_def split: option.splits)

lemma valid_date_iso: "valid_time t \<Longrightarrow> valid_date (iso t)"
  by (simp add: valid_date_def)

lemma new_record_valid:
  fixes host j t input h
  defines "r \<equiv> canon (new_record host j t input h)"
  assumes hex: "\<And>x. hex64 (h_sha host x)" and time: "valid_time (at_record t)" and payload: "json_ok (h_num host) (ji_payload input)"
    and safe: "safe_integer (hd_sequence h + 1)" and seq: "0 \<le> hd_sequence h" "hd_sequence h = 0 \<longleftrightarrow> hd_digest h = None"
    and dg: "\<And>s. hd_digest h = Some s \<Longrightarrow> hex64 s"
  shows "readable host r" "validate_committed_record host (jn_stream j) (Some (hd_sequence h + 1)) (Some (hd_digest h)) r = Inr r"
    "rec_digest r = rec_digest (new_record host j t input h)" "canonical_json r = canonical_json (new_record host j t input h)"
proof -
  have ok: "json_ok (h_num host) (new_record host j t input h)" by (rule new_record_ok [OF payload safe])
  have obj: "is_jobj r" by (simp add: r_def new_record_def Let_def is_jobj_def)
  then show "readable host r" by (simp add: readable_def r_def canon_ok ok canon_canon)
  have get: "jget r ''schema_version'' = Some (JNum 1)" "jget r ''stream_id'' = Some (JStr (jn_stream j))"
    "jget r ''sequence'' = Some (JNum (hd_sequence h + 1))" "jget r ''at'' = Some (JStr (stored_time t input))"
    "jget r ''previous_digest'' = Some (digest_json (hd_digest h))"
    "jget r ''digest'' = Some (JStr (h_sha host (canonical_json (JObj (record_material j t input h)))))"
    by (simp_all add: r_def jget_canon new_record_members)
  have d: "rec_digest r = h_sha host (canonical_json (JObj (record_material j t input h)))"
    by (simp add: rec_digest_def get opt_default_def)
  show "rec_digest r = rec_digest (new_record host j t input h)"
    by (simp add: d) (simp add: rec_digest_def new_record_members opt_default_def)
  show "canonical_json r = canonical_json (new_record host j t input h)" by (simp add: r_def canonical_json_canon)
  have rd: "record_digest host r = rec_digest r"
    by (simp add: r_def record_digest_canon) (simp add: d [unfolded r_def] record_digest_def new_record_material)
  have at: "json_date (jget r ''at'')"
    using time by (auto simp: get json_date_def stored_time_def valid_date_iso split: option.splits)
  have prev: "rec_previous r = hd_digest h" by (simp add: rec_previous_def get digest_json_def split: option.splits)
  have pd: "if hd_sequence h + 1 = 1 then jget r ''previous_digest'' = Some JNull else hex_text (jget r ''previous_digest'')"
    using seq dg by (auto simp: get digest_json_def hex_text_def split: option.splits)
  have hd: "hex_text (jget r ''digest'')" by (simp add: get hex_text_def hex)
  show "validate_committed_record host (jn_stream j) (Some (hd_sequence h + 1)) (Some (hd_digest h)) r = Inr r"
    using safe seq(1) pd [unfolded get] hd [unfolded get] rd at [unfolded get] prev by (simp add: validate_committed_record_def get contradicts_def)
qed

section \<open>The files written\<close>

lemma dnames_dput: "dnames (dput k v d) = (if k \<in> set (dnames d) then dnames d else dnames d @ [k])"
  by (induction k v d rule: dput.induct) (auto simp: dnames_def)

lemma insort_before: "f x \<le> f k \<Longrightarrow> insort_key f x (zs @ [k]) = insort_key f x zs @ [k]"
  by (induction zs) auto

lemma sort_key_snoc: "(\<And>x. x \<in> set xs \<Longrightarrow> f x \<le> f k) \<Longrightarrow> sort_key f (xs @ [k]) = sort_key f xs @ [k]"
proof -
  assume le: "\<And>x. x \<in> set xs \<Longrightarrow> f x \<le> f k"
  have "foldr (insort_key f) xs (zs @ [k]) = foldr (insort_key f) xs zs @ [k]" for zs
    using le by (induction xs) (auto simp: insort_before)
  from this [of "[]"] show ?thesis by (simp add: sort_key_def)
qed

lemma in_list_segments: "name \<in> set (list_segments d) \<longleftrightarrow> parse_segment name \<noteq> None \<and> dget (jd_segments d) name \<noteq> None"
  by (auto simp: list_segments_def set_dnames)

lemma list_segments_same: "dget (jd_segments d) name \<noteq> None \<Longrightarrow> list_segments (write_segment name txt d) = list_segments d"
  by (simp add: list_segments_def write_segment_def dnames_dput set_dnames)

lemma segment_absent:
  assumes "list_segments d = map segment_name [1..<Suc m]" "m + 1 < 100000000"
  shows "dget (jd_segments d) (segment_name (Suc m)) = None"
proof (rule ccontr)
  assume "dget (jd_segments d) (segment_name (Suc m)) \<noteq> None"
  then have "segment_name (Suc m) \<in> set (list_segments d)" using assms(2) by (simp add: in_list_segments parse_segment_name del: not_None_eq)
  then obtain i where "segment_name (Suc m) = segment_name i" "i \<le> m" using assms(1) by auto
  with assms(2) show False using segment_name_inject [of "Suc m" i] by simp
qed

lemma list_segments_new:
  assumes "list_segments d = map segment_name [1..<Suc m]" "m + 1 < 100000000"
  shows "list_segments (write_segment (segment_name (Suc m)) txt d) = map segment_name [1..<Suc (Suc m)]"
proof -
  let ?ns = "filter (\<lambda>n. parse_segment n \<noteq> None) (dnames (jd_segments d))"
  have new: "segment_name (Suc m) \<notin> set (dnames (jd_segments d))" using segment_absent [OF assms] by (simp add: set_dnames)
  have "segment_index x \<le> segment_index (segment_name (Suc m))" if "x \<in> set ?ns" for x
  proof -
    have "x \<in> set (list_segments d)" using that by (simp add: list_segments_def)
    then obtain i where "x = segment_name i" "i \<le> m" using assms(1) by auto
    with assms(2) show ?thesis by (simp add: segment_index_name)
  qed
  then have "sort_key segment_index (?ns @ [segment_name (Suc m)]) = list_segments d @ [segment_name (Suc m)]"
    unfolding list_segments_def by (rule sort_key_snoc)
  moreover have "filter (\<lambda>n. parse_segment n \<noteq> None) (dnames (jd_segments (write_segment (segment_name (Suc m)) txt d))) = ?ns @ [segment_name (Suc m)]"
    using new assms(2) by (simp add: write_segment_def dnames_dput parse_segment_name)
  ultimately show ?thesis using assms(1) by (simp add: list_segments_def)
qed

lemma files_hold_active:
  assumes "files_hold d (bs @ [b])" "length bs + 1 < 100000000"
  shows "files_hold (write_segment (segment_name (Suc (length bs))) (record_line r) d) (bs @ [b @ [r]])"
proof -
  have old: "dget (jd_segments d) (segment_name (Suc (length bs))) = Some (block_text b)"
    using assms(1) by (auto simp: files_hold_def nth_append)
  have names: "list_segments (write_segment (segment_name (Suc (length bs))) (record_line r) d) = list_segments d"
    by (rule list_segments_same) (simp add: old)
  have other: "segment_name (Suc i) \<noteq> segment_name (Suc (length bs))" if "i < length bs" for i
    using segment_name_inject [of "Suc i" "Suc (length bs)"] that assms(2) by simp
  show ?thesis
    using assms(1) other unfolding files_hold_def names
    by (auto simp: write_segment_def segment_text_def old opt_default_def nth_append record_line_def less_Suc_eq)
qed

lemma files_hold_rotated:
  assumes "files_hold d blocks" "length blocks + 1 < 100000000"
  shows "files_hold (write_segment (segment_name (Suc (length blocks))) (record_line r) d) (blocks @ [[r]])"
proof -
  have l: "list_segments d = map segment_name [1..<Suc (length blocks)]" using assms(1) by (simp add: files_hold_def)
  note names = list_segments_new [OF l assms(2)] and absent = segment_absent [OF l assms(2)]
  have other: "segment_name (Suc i) \<noteq> segment_name (Suc (length blocks))" if "i < length blocks" for i
    using segment_name_inject [of "Suc i" "Suc (length blocks)"] that assms(2) by simp
  show ?thesis
    using assms(1) other absent unfolding files_hold_def names
    by (auto simp: write_segment_def segment_text_def opt_default_def nth_append record_line_def less_Suc_eq simp del: upt_Suc)
qed

section \<open>The head written\<close>

lemma head_json_get:
  "jget (head_json sid h) ''schema_version'' = Some (JNum 1)"
  "jget (head_json sid h) ''stream_id'' = Some (JStr sid)"
  "jget (head_json sid h) ''updated_at'' = Some (JStr (hd_updated h))"
  "jget (head_json sid h) ''head_sequence'' = Some (JNum (hd_sequence h))"
  "jget (head_json sid h) ''head_digest'' = Some (digest_json (hd_digest h))"
  "jget (head_json sid h) ''active_segment'' = Some (JStr (hd_active h))"
  "jget (head_json sid h) ''active_segment_records'' = map_option JNum (hd_active_records h)"
  "jget (head_json sid h) ''total_records'' = Some (JNum (hd_total h))"
  "jget (head_json sid h) ''total_bytes'' = Some (JNum (hd_bytes h))"
  by (cases "hd_active_records h"; simp add: head_json_def opt_member_def jget_def)+

lemma pretty_digest: "pretty i (digest_json d) = stringify (digest_json d)"
  by (simp add: digest_json_def split: option.splits)

lemma digest_bytes: "\<forall>s. d = Some s \<longrightarrow> hex64 s \<Longrightarrow> utf8_bytes (stringify (digest_json d)) \<le> 6 * 64 + 4"
  using quote_bytes [of "the d"] by (cases d) (auto simp: digest_json_def hex64_def)

lemma head_file_size:
  assumes "safe_integer (hd_sequence h)" "safe_integer (hd_total h)" "safe_integer (hd_bytes h)" "hd_active_records h = Some n" "safe_integer n"
    "\<forall>s. hd_digest h = Some s \<longrightarrow> hex64 s" "length (hd_active h) \<le> 14" "length (hd_updated h) \<le> 100" "length sid \<le> 512"
  shows "file_bytes (head_json sid h) \<le> DEFAULT_MAX_METADATA_BYTES"
proof -
  note d = assms(1,2,3,5) [THEN dec_bytes]
  have one: "utf8_bytes (stringify (JNum 1)) \<le> 34" by (rule dec_bytes) (simp add: safe_integer_def)
  have q: "utf8_bytes (quote k) \<le> 6 * length k + 2" for k by (rule quote_bytes)
  note names = q [of "''schema_version''"] q [of "''stream_id''"] q [of "''head_sequence''"] q [of "''head_digest''"] q [of "''active_segment''"]
    q [of "''active_segment_records''"] q [of "''total_records''"] q [of "''total_bytes''"] q [of "''updated_at''"]
  have "file_bytes (head_json sid h) \<le> 9 * 40 + 6 * (14 + 9 + 13 + 11 + 14 + 22 + 13 + 11 + 10) + 9 * 2
      + utf8_bytes (stringify (JNum 1)) + utf8_bytes (quote sid) + utf8_bytes (stringify (JNum (hd_sequence h)))
      + utf8_bytes (stringify (digest_json (hd_digest h))) + utf8_bytes (quote (hd_active h)) + utf8_bytes (stringify (JNum n))
      + utf8_bytes (stringify (JNum (hd_total h))) + utf8_bytes (stringify (JNum (hd_bytes h))) + utf8_bytes (quote (hd_updated h))"
    using names assms(4)
    by (simp add: file_bytes_def head_json_def opt_member_def pretty_digest numeral_2_eq_2 del: stringify.simps(3))
  moreover have "utf8_bytes (quote sid) \<le> 6 * 512 + 2" "utf8_bytes (quote (hd_active h)) \<le> 6 * 14 + 2" "utf8_bytes (quote (hd_updated h)) \<le> 6 * 100 + 2"
    using q [of sid] q [of "hd_active h"] q [of "hd_updated h"] assms(7-9) by linarith+
  ultimately show ?thesis using one d digest_bytes [OF assms(6)] by (simp add: DEFAULT_MAX_METADATA_BYTES_def)
qed

lemma read_head_written:
  assumes "safe_integer (hd_sequence h)" "0 \<le> hd_sequence h" "safe_integer (hd_total h)" "0 \<le> hd_total h" "safe_integer (hd_bytes h)" "0 \<le> hd_bytes h"
    "hd_active_records h = Some n" "safe_integer n" "0 \<le> n" "hd_sequence h = 0 \<longleftrightarrow> hd_digest h = None" "\<forall>s. hd_digest h = Some s \<longrightarrow> hex64 s"
    "parse_segment (hd_active h) \<noteq> None" "hd_updated h = iso t" "valid_time t" "length sid \<le> 512"
  shows "read_head sid (d\<lparr>jd_head := json_file (head_json sid h)\<rparr>) = Inr (Some h)"
proof -
  have "length (hd_active h) = 14" using assms(12) by (auto simp: parse_segment_def split: if_splits)
  then have size: "file_bytes (head_json sid h) \<le> DEFAULT_MAX_METADATA_BYTES"
    using assms iso_length [of t] by - (rule head_file_size [where n = n], auto)
  have m: "read_metadata (json_file (head_json sid h)) = Inr (Some (head_json sid h))"
    using size by (simp add: read_metadata_def json_file_def head_json_def)
  have dg: "head_digest_of (hd_sequence h) (Some (digest_json (hd_digest h))) = Some (hd_digest h)"
    using assms(10,11) by (cases "hd_digest h") (auto simp: head_digest_of_def digest_json_def)
  have date: "json_date (Some (JStr (hd_updated h)))" using assms(13,14) by (simp add: json_date_def valid_date_iso)
  have recs: "active_records_of (map_option JNum (hd_active_records h)) = Some (hd_active_records h)"
    using assms(7-9) by (simp add: active_records_of_def natural_def)
  have nat: "natural (Some (JNum (hd_sequence h))) = Some (hd_sequence h)" "natural (Some (JNum (hd_total h))) = Some (hd_total h)"
    "natural (Some (JNum (hd_bytes h))) = Some (hd_bytes h)"
    using assms(1-6) by (simp_all add: natural_def)
  obtain i where i: "parse_segment (hd_active h) = Some i" using assms(12) by auto
  show ?thesis
    using m dg date recs nat i by (simp add: read_head_def head_json_get opt_default_def)
qed

lemma read_meta_frame [simp]:
  "read_meta sid (d\<lparr>jd_head := f\<rparr>) = read_meta sid d" "read_meta sid (write_segment n txt d) = read_meta sid d"
  "read_head sid (write_segment n txt d) = read_head sid d"
  by (simp_all add: read_meta_def read_head_def write_segment_def)

lemma resolve_limits_meta:
  "read_meta (jn_stream j) d = Inr (Some l) \<Longrightarrow> read_meta (jn_stream j) d' = Inr (Some l) \<Longrightarrow> resolve_limits j d' = resolve_limits j d"
  by (simp add: resolve_limits_def)

lemma opened_frame:
  assumes "opened j l d"
  shows "opened j l (d\<lparr>jd_head := f\<rparr>)" "opened j l (write_segment n txt d)"
  using assms resolve_limits_meta [of j d l "d\<lparr>jd_head := f\<rparr>"] resolve_limits_meta [of j d l "write_segment n txt d"]
  by (simp_all add: opened_def)

lemma files_hold_head [simp]: "files_hold (d\<lparr>jd_head := f\<rparr>) blocks = files_hold d blocks"
  by (simp add: files_hold_def list_segments_def)

section \<open>One more record\<close>

definition rotates :: "journal_limits \<Rightarrow> json list list \<Rightarrow> json \<Rightarrow> bool" where
  "rotates l blocks r = (last blocks \<noteq> [] \<and>
     (lm_segment l < int (utf8_bytes (block_text (last blocks))) + int (utf8_bytes (record_line r)) \<or> lm_segment_records l \<le> int (length (last blocks))))"

definition add_record :: "journal_limits \<Rightarrow> json list list \<Rightarrow> json \<Rightarrow> json list list" where
  "add_record l blocks r = (if rotates l blocks r then blocks @ [[r]] else butlast blocks @ [last blocks @ [r]])"

lemma concat_add_record: "blocks \<noteq> [] \<Longrightarrow> concat (add_record l blocks r) = concat blocks @ [r]"
proof (cases blocks rule: rev_cases)
  case (snoc bs b)
  then show ?thesis by (simp add: add_record_def)
qed simp

lemma block_bytes_cons: "int (utf8_bytes (block_text b)) = 0 \<longleftrightarrow> b = []"
  by (cases b) auto

lemma good_blocks_add:
  assumes g: "good_blocks host sid l blocks" and s: "sane_limits l"
    and r: "readable host r" "validate_committed_record host sid (Some (int (length (concat blocks)) + 1)) (Some (last_digest None (concat blocks))) r = Inr r"
    and size: "int (utf8_bytes (record_line r)) \<le> lm_record l" and room: "int (length (concat blocks)) < lm_stream l"
  shows "good_blocks host sid l (add_record l blocks r)"
proof -
  have ne: "blocks \<noteq> []" using g by (simp add: good_blocks_def)
  have c: "concat (add_record l blocks r) = concat blocks @ [r]" by (rule concat_add_record [OF ne])
  have ch: "chain host sid 1 None (concat blocks @ [r])"
    using g r by (simp add: good_blocks_def chain_append add.commute)
  obtain bs b where b: "blocks = bs @ [b]" using ne by (cases blocks rule: rev_cases) auto
  have nil: "[] \<notin> set (add_record l blocks r)"
    using g b by (auto simp: add_record_def rotates_def good_blocks_def)
  have one: "block_ok l [r]" using size s by (simp add: block_ok_def sane_limits_def record_line_def)
  have more: "block_ok l (b @ [r])" if "\<not> rotates l blocks r"
  proof (cases "b = []")
    case False
    have "block_ok l b" using g b by (simp add: good_blocks_def)
    with that False b size show ?thesis by (simp add: block_ok_def rotates_def record_line_def)
  qed (simp add: one)
  have "list_all (block_ok l) (add_record l blocks r)"
    using g b one more by (auto simp: add_record_def good_blocks_def)
  with ch nil c room show ?thesis by (auto simp: good_blocks_def)
qed

section \<open>An append on a stored stream\<close>

definition sha_hex :: "host \<Rightarrow> bool" where
  \<comment> \<open>a digest is sixty-four hexadecimal digits\<close>
  "sha_hex host = (\<forall>x. hex64 (h_sha host x))"

lemma total_bytes_le:
  assumes "list_all (block_ok l) blocks"
  shows "int (utf8_bytes (block_text (concat blocks))) \<le> int (length (concat blocks)) * lm_record l"
proof -
  have one: "int (utf8_bytes (block_text rs)) \<le> int (length rs) * lm_record l"
    if "list_all (\<lambda>r. int (utf8_bytes (record_line r)) \<le> lm_record l) rs" for rs
    using that by (induction rs) (auto simp: record_line_def algebra_simps)
  have "list_all (\<lambda>r. int (utf8_bytes (record_line r)) \<le> lm_record l) (concat blocks)"
    using assms by (auto simp: list_all_iff block_ok_def)
  then show ?thesis by (rule one)
qed

lemma record_line_canon: "record_line (canon v) = record_line v"
  by (simp add: record_line_def canonical_json_canon)

lemma rotates_canon: "rotates l blocks (canon v) = rotates l blocks v"
  by (simp add: rotates_def record_line_canon)

lemma append_record_stored:
  fixes host j t input d upd blocks
  defines "rec \<equiv> new_record host j t input (head_at upd blocks)"
  assumes "stored host j l d upd blocks"
  shows "append_record host j t input expected (head_at upd blocks) d =
    (if expected \<noteq> None \<and> expected \<noteq> Some (int (length (concat blocks)), last_digest None (concat blocks)) then Inl E_JOURNAL_HEAD_MISMATCH
     else if lm_stream l \<le> int (length (concat blocks)) then Inl E_JOURNAL_LIMIT
     else if lm_record l < int (utf8_bytes (record_line rec)) then Inl E_JOURNAL_RECORD_TOO_LARGE
     else Inr \<lparr>ap_record = rec, ap_line = record_line rec,
       ap_segment = (if rotates l blocks rec then segment_name (length blocks + 1) else segment_name (length blocks)),
       ap_head = \<lparr>hd_sequence = int (length (concat blocks)) + 1, hd_digest = Some (rec_digest rec),
         hd_active = (if rotates l blocks rec then segment_name (length blocks + 1) else segment_name (length blocks)),
         hd_active_records = Some ((if rotates l blocks rec then 0 else int (length (last blocks))) + 1),
         hd_total = int (length (concat blocks)) + 1, hd_bytes = int (utf8_bytes (block_text (concat blocks))) + int (utf8_bytes (record_line rec)),
         hd_updated = iso (at_head t)\<rparr>\<rparr>)"
proof -
  let ?h = "head_at upd blocks" and ?bytes = "int (utf8_bytes (record_line rec))"
  have lim: "resolve_limits j d = Inr l" "lm_record l \<le> lm_segment l" and sane: "sane_limits l" and g: "good_blocks host (jn_stream j) l blocks"
    using assms(2) by (auto simp: stored_def opened_def sane_limits_def)
  have fields: "hd_sequence ?h = int (length (concat blocks))" "hd_digest ?h = last_digest None (concat blocks)"
    "hd_total ?h = int (length (concat blocks))" "hd_bytes ?h = int (utf8_bytes (block_text (concat blocks)))" "hd_active ?h = segment_name (length blocks)"
    by (simp_all add: head_at_def)
  have idx: "segment_index (segment_name (length blocks)) = length blocks" using good_blocks_count [OF g sane] by (simp add: segment_index_name)
  have rot: "0 < int (utf8_bytes (block_text (last blocks))) \<and> lm_segment l < int (utf8_bytes (block_text (last blocks))) + ?bytes
      \<or> 0 < int (length (last blocks)) \<and> lm_segment_records l \<le> int (length (last blocks)) \<longleftrightarrow> rotates l blocks rec"
    using block_bytes_cons [of "last blocks"] by (auto simp: rotates_def)
  have big: "lm_record l < ?bytes \<or> lm_segment l < ?bytes \<longleftrightarrow> lm_record l < ?bytes" using lim(2) by auto
  have line: "canonical_json rec @ [newline] = record_line rec" by (simp add: record_line_def)
  show ?thesis
    by (simp only: append_record_def lim assert_tail_ok [OF assms(2)] active_state_ok [OF assms(2)] rec_def [symmetric]
        rbind_simps fields Let_def line big rot idx prod.case) simp
qed

lemma append_stored:
  fixes host j t input expected d upd blocks
  defines "rec \<equiv> new_record host j t input (head_at upd blocks)"
  assumes st: "stored host j l d upd blocks" and kind: "trim (ji_kind input) \<noteq> []"
  shows "append host j torn t input expected d =
    (if expected \<noteq> None \<and> expected \<noteq> Some (int (length (concat blocks)), last_digest None (concat blocks)) then (Inl E_JOURNAL_HEAD_MISMATCH, d)
     else if lm_stream l \<le> int (length (concat blocks)) then (Inl E_JOURNAL_LIMIT, d)
     else if lm_record l < int (utf8_bytes (record_line rec)) then (Inl E_JOURNAL_RECORD_TOO_LARGE, d)
     else let seg = (if rotates l blocks rec then segment_name (length blocks + 1) else segment_name (length blocks)) in
       (case torn of Some k \<Rightarrow> (Inl E_INTERRUPTED, write_segment seg (take k (record_line rec)) d)
        | None \<Rightarrow> (Inr rec, (write_segment seg (record_line rec) d)
            \<lparr>jd_head := json_file (head_json (jn_stream j) (head_at (iso (at_head t)) (add_record l blocks (canon rec))))\<rparr>)))"
proof -
  have hd: "read_head (jn_stream j) d = Inr (Some (head_at upd blocks))" and me: "read_meta (jn_stream j) d = Inr (Some l)"
    and ne: "blocks \<noteq> []"
    using st by (auto simp: stored_def opened_def good_blocks_def)
  have next_head: "\<lparr>hd_sequence = int (length (concat blocks)) + 1, hd_digest = Some (rec_digest rec),
         hd_active = (if rotates l blocks rec then segment_name (length blocks + 1) else segment_name (length blocks)),
         hd_active_records = Some ((if rotates l blocks rec then 0 else int (length (last blocks))) + 1),
         hd_total = int (length (concat blocks)) + 1, hd_bytes = int (utf8_bytes (block_text (concat blocks))) + int (utf8_bytes (record_line rec)),
         hd_updated = iso (at_head t)\<rparr> = head_at (iso (at_head t)) (add_record l blocks (canon rec))"
  proof -
    have c: "concat (add_record l blocks (canon rec)) = concat blocks @ [canon rec]" by (rule concat_add_record [OF ne])
    have dg: "rec_digest (canon rec) = rec_digest rec"
      by (simp add: rec_digest_def jget_canon rec_def new_record_members)
    have len: "length (add_record l blocks (canon rec)) = (if rotates l blocks rec then length blocks + 1 else length blocks)"
      using ne by (simp add: add_record_def rotates_canon)
    have lst: "length (last (add_record l blocks (canon rec))) = (if rotates l blocks rec then 0 else length (last blocks)) + 1"
      by (simp add: add_record_def rotates_canon)
    have bytes: "int (utf8_bytes (block_text [canon rec])) = int (utf8_bytes (record_line rec))"
      using record_line_canon [of rec] by (simp add: block_text_def)
    show ?thesis unfolding head_at_def c len lst using bytes dg by (simp add: record_line_def canonical_json_canon)
  qed
  show ?thesis
    unfolding append_def hd me using kind append_record_stored [OF st, of t input expected, folded rec_def]
    by (simp add: next_head [symmetric] Let_def split: option.splits)
qed

lemma head_at_fields:
  assumes g: "good_blocks host sid l blocks" and s: "sane_limits l"
  shows "safe_integer (hd_sequence (head_at upd blocks))" "safe_integer (hd_bytes (head_at upd blocks))"
    "safe_integer (int (length (last blocks)))" "hd_sequence (head_at upd blocks) = 0 \<longleftrightarrow> hd_digest (head_at upd blocks) = None"
    "\<And>x. hd_digest (head_at upd blocks) = Some x \<Longrightarrow> hex64 x"
proof -
  let ?n = "int (length (concat blocks))"
  have n: "?n \<le> lm_stream l" "lm_stream l < 100000000" using g s by (auto simp: good_blocks_def sane_limits_def)
  then show "safe_integer (hd_sequence (head_at upd blocks))" by (simp add: head_at_def safe_integer_def)
  have "?n * lm_record l \<le> lm_stream l * lm_record l" using n(1) s by (intro mult_right_mono) (auto simp: sane_limits_def)
  have "int (utf8_bytes (block_text (concat blocks))) \<le> 9007199254740991"
  proof -
    have "int (utf8_bytes (block_text (concat blocks))) \<le> ?n * lm_record l" using g by (intro total_bytes_le) (simp add: good_blocks_def)
    moreover have "lm_stream l * lm_record l \<le> 9007199254740991" using s by (simp add: sane_limits_def)
    ultimately show ?thesis using \<open>?n * lm_record l \<le> lm_stream l * lm_record l\<close> by linarith
  qed
  then show "safe_integer (hd_bytes (head_at upd blocks))" by (simp add: head_at_def safe_integer_def)
  have "length (last blocks) \<le> length (concat blocks)" using g by (cases blocks rule: rev_cases) (auto simp: good_blocks_def)
  with n show "safe_integer (int (length (last blocks)))" by (simp add: safe_integer_def)
  show "hd_sequence (head_at upd blocks) = 0 \<longleftrightarrow> hd_digest (head_at upd blocks) = None"
    by (auto simp: head_at_def last_digest_def)
  show "hex64 x" if "hd_digest (head_at upd blocks) = Some x" for x
  proof -
    have "concat blocks \<noteq> []" using that by (simp add: head_at_def last_digest_def split: if_splits)
    then obtain xs r where xr: "concat blocks = xs @ [r]" by (cases "concat blocks" rule: rev_cases) auto
    then have "chain host sid 1 None (xs @ [r])" using g by (simp add: good_blocks_def)
    from committed_fields(10) [OF chain_last(2) [OF this]] that xr show ?thesis by (simp add: head_at_def)
  qed
qed

lemma read_head_at:
  assumes g: "good_blocks host sid l blocks" and s: "sane_limits l" and t: "valid_time t" and sid: "length sid \<le> 512"
  shows "read_head sid (d\<lparr>jd_head := json_file (head_json sid (head_at (iso t) blocks))\<rparr>) = Inr (Some (head_at (iso t) blocks))"
proof (rule read_head_written)
  note f = head_at_fields [OF g s]
  show "safe_integer (hd_sequence (head_at (iso t) blocks))" "safe_integer (hd_bytes (head_at (iso t) blocks))"
    "hd_sequence (head_at (iso t) blocks) = 0 \<longleftrightarrow> hd_digest (head_at (iso t) blocks) = None"
    "safe_integer (int (length (last blocks)))"
    by (fact f)+
  show "\<forall>x. hd_digest (head_at (iso t) blocks) = Some x \<longrightarrow> hex64 x" using f(5) by blast
  show "safe_integer (hd_total (head_at (iso t) blocks))" using f(1) by (simp add: head_at_def)
  show "parse_segment (hd_active (head_at (iso t) blocks)) \<noteq> None"
    using good_blocks_count [OF g s] by (simp add: head_at_def parse_segment_name)
qed (use t sid in \<open>simp_all add: head_at_def\<close>)

lemma stored_after:
  fixes host j t input d upd blocks
  defines "rec \<equiv> new_record host j t input (head_at upd blocks)"
  assumes st: "stored host j l d upd blocks" and sha: "sha_hex host" and times: "valid_time (at_record t)" "valid_time (at_head t)"
    and payload: "json_ok (h_num host) (ji_payload input)"
    and room: "int (length (concat blocks)) < lm_stream l" and size: "int (utf8_bytes (record_line rec)) \<le> lm_record l"
  shows "stored host j l ((write_segment (if rotates l blocks rec then segment_name (length blocks + 1) else segment_name (length blocks)) (record_line rec) d)
      \<lparr>jd_head := json_file (head_json (jn_stream j) (head_at (iso (at_head t)) (add_record l blocks (canon rec))))\<rparr>)
      (iso (at_head t)) (add_record l blocks (canon rec))"
proof -
  have o: "opened j l d" and g: "good_blocks host (jn_stream j) l blocks" and f: "files_hold d blocks" using st by (auto simp: stored_def)
  have s: "sane_limits l" and sid: "length (jn_stream j) \<le> 512" using o by (auto simp: opened_def)
  note h = head_at_fields [OF g s]
  have seq: "hd_sequence (head_at upd blocks) = int (length (concat blocks))" "hd_digest (head_at upd blocks) = last_digest None (concat blocks)"
    by (simp_all add: head_at_def)
  have safe: "safe_integer (hd_sequence (head_at upd blocks) + 1)" using room s by (simp add: seq safe_integer_def sane_limits_def)
  have pos: "0 \<le> hd_sequence (head_at upd blocks)" by (simp add: seq)
  have dg: "hex64 x" if "hd_digest (head_at upd blocks) = Some x" for x using h(5) that by blast
  note new = new_record_valid [where host = host and j = j and t = t and input = input and h = "head_at upd blocks",
      OF sha [unfolded sha_hex_def, rule_format] times(1) payload safe pos h(4) dg, folded rec_def]
  have g': "good_blocks host (jn_stream j) l (add_record l blocks (canon rec))"
    using new(1,2) size room by (intro good_blocks_add [OF g s]) (simp_all add: record_line_canon seq)
  have ne: "blocks \<noteq> []" using g by (simp add: good_blocks_def)
  have cnt: "length (add_record l blocks (canon rec)) < 100000000" using good_blocks_count [OF g' s] by simp
  have files: "files_hold (write_segment (if rotates l blocks rec then segment_name (length blocks + 1) else segment_name (length blocks)) (record_line rec) d)
      (add_record l blocks (canon rec))"
  proof (cases "rotates l blocks rec")
    case True
    then show ?thesis using files_hold_rotated [OF f, of "canon rec"] cnt by (simp add: add_record_def rotates_canon record_line_canon)
  next
    case False
    obtain bs b where b: "blocks = bs @ [b]" using ne by (cases blocks rule: rev_cases) auto
    show ?thesis using files_hold_active [of d bs b "canon rec"] f False cnt b by (simp add: add_record_def rotates_canon record_line_canon)
  qed
  show ?thesis
    unfolding stored_def using opened_frame [OF o] read_head_at [OF g' s times(2) sid] g' files
    by (simp add: opened_frame [OF opened_frame(2) [OF o]])
qed

section \<open>A new stream\<close>

lemma open_journal_limits:
  assumes "open_journal sid opts = Inr j"
  shows "jn_stream j = sid" "length sid \<le> 512" "jn_options j = opts" "0 < lm_record (jn_limits j)" "lm_record (jn_limits j) \<le> lm_segment (jn_limits j)"
    "0 < lm_segment_records (jn_limits j)" "0 < lm_stream (jn_limits j)"
    "\<not> contradicts (jo_record opts) (lm_record (jn_limits j))" "\<not> contradicts (jo_segment opts) (lm_segment (jn_limits j))"
    "\<not> contradicts (jo_segment_records opts) (lm_segment_records (jn_limits j))" "\<not> contradicts (jo_stream opts) (lm_stream (jn_limits j))"
    "safe_integer (lm_segment (jn_limits j))" "safe_integer (lm_segment_records (jn_limits j))" "safe_integer (lm_stream (jn_limits j))"
  using assms
  by (auto simp: open_journal_def rbind_Inr_iff assert_safe_stream_id_def Let_def opt_default_def bad_limit_def contradicts_def
      DEFAULT_MAX_RECORD_BYTES_def DEFAULT_MAX_SEGMENT_BYTES_def DEFAULT_MAX_SEGMENT_RECORDS_def DEFAULT_MAX_STREAM_RECORDS_def safe_integer_def
      split: if_splits option.splits)

lemma meta_json_get:
  "jget (meta_json sid l t) ''schema_version'' = Some (JNum 1)" "jget (meta_json sid l t) ''stream_id'' = Some (JStr sid)"
  "jget (meta_json sid l t) ''created_at'' = Some (JStr (iso t))"
  "jget (meta_json sid l t) ''max_record_bytes'' = Some (JNum (lm_record l))" "jget (meta_json sid l t) ''max_segment_bytes'' = Some (JNum (lm_segment l))"
  "jget (meta_json sid l t) ''max_segment_records'' = Some (JNum (lm_segment_records l))" "jget (meta_json sid l t) ''max_stream_records'' = Some (JNum (lm_stream l))"
  by (simp_all add: meta_json_def jget_def jiso_def)

lemma meta_file_size:
  assumes "safe_integer (lm_record l)" "safe_integer (lm_segment l)" "safe_integer (lm_segment_records l)" "safe_integer (lm_stream l)"
    "length sid \<le> 512" "valid_time t"
  shows "file_bytes (meta_json sid l t) \<le> DEFAULT_MAX_METADATA_BYTES"
proof -
  note d = assms(1-4) [THEN dec_bytes]
  have one: "utf8_bytes (stringify (JNum 1)) \<le> 34" by (rule dec_bytes) (simp add: safe_integer_def)
  have q: "utf8_bytes (quote k) \<le> 6 * length k + 2" for k by (rule quote_bytes)
  note names = q [of "''schema_version''"] q [of "''stream_id''"] q [of "''created_at''"] q [of "''max_record_bytes''"] q [of "''max_segment_bytes''"]
    q [of "''max_segment_records''"] q [of "''max_stream_records''"]
  have "file_bytes (meta_json sid l t) \<le> 7 * 40 + 6 * (14 + 9 + 10 + 16 + 17 + 19 + 18) + 7 * 2
      + utf8_bytes (stringify (JNum 1)) + utf8_bytes (quote sid) + utf8_bytes (quote (iso t)) + utf8_bytes (stringify (JNum (lm_record l)))
      + utf8_bytes (stringify (JNum (lm_segment l))) + utf8_bytes (stringify (JNum (lm_segment_records l))) + utf8_bytes (stringify (JNum (lm_stream l)))"
    using names by (simp add: file_bytes_def meta_json_def jiso_def numeral_2_eq_2 del: stringify.simps(3))
  moreover have "utf8_bytes (quote sid) \<le> 6 * 512 + 2" "utf8_bytes (quote (iso t)) \<le> 6 * 27 + 2"
    using q [of sid] q [of "iso t"] assms(5) iso_length [OF assms(6)] by linarith+
  ultimately show ?thesis using one d by (simp add: DEFAULT_MAX_METADATA_BYTES_def)
qed

definition usable_limits :: "journal_limits \<Rightarrow> bool" where
  \<comment> \<open>segment numbers keep eight digits and the bytes of a full stream are a safe integer\<close>
  "usable_limits l = (lm_stream l < 100000000 \<and> lm_stream l * lm_record l \<le> 9007199254740991)"

definition blank_stream :: "journal \<Rightarrow> journal_dir \<Rightarrow> bool" where
  \<comment> \<open>no stream yet, or what an interrupted creation left\<close>
  "blank_stream j d = (jd_head d = NoFile \<and> can_recover_partial_init (jn_stream j) d)"

lemma init_stored:
  assumes j: "open_journal sid opts = Inr j" and u: "usable_limits (jn_limits j)" and t: "valid_time now" and b: "blank_stream j d"
  shows "fst (init_unlocked j now d) = Inr (head_at (iso now) [[]])" "stored host j (jn_limits j) (snd (init_unlocked j now d)) (iso now) [[]]"
proof -
  let ?l = "jn_limits j"
  note o = open_journal_limits [OF j]
  have s: "sane_limits ?l" using u o by (simp add: usable_limits_def sane_limits_def)
  have head: "read_head (jn_stream j) d = Inr None" using b by (simp add: blank_stream_def read_head_def read_metadata_def)
  have can: "can_recover_partial_init (jn_stream j) d" and segs: "jd_segments d = [] \<or> jd_segments d = [(segment_name 1, [])]"
    using b by (auto simp: blank_stream_def can_recover_partial_init_def)
  have h: "\<lparr>hd_sequence = 0, hd_digest = None, hd_active = segment_name 1, hd_active_records = Some 0, hd_total = 0, hd_bytes = 0, hd_updated = iso now\<rparr>
      = head_at (iso now) [[]]"
    by (simp add: head_at_def)
  define d' where "d' = d\<lparr>jd_meta := json_file (meta_json (jn_stream j) ?l now), jd_segments := [(segment_name 1, [])]\<rparr>"
  have result: "init_unlocked j now d = (Inr (head_at (iso now) [[]]), d'\<lparr>jd_head := json_file (head_json (jn_stream j) (head_at (iso now) [[]]))\<rparr>)"
    unfolding init_unlocked_def head using can segs by (cases d) (auto simp: Let_def head_at_def d'_def dget_def)
  have safe: "safe_integer (lm_record ?l)" using o s by (simp add: safe_integer_def)
  have size: "file_bytes (meta_json (jn_stream j) ?l now) \<le> DEFAULT_MAX_METADATA_BYTES"
    using safe o t by (intro meta_file_size) auto
  have meta: "read_meta (jn_stream j) d' = Inr (Some ?l)"
    using size safe o t
    by (simp add: read_meta_def d'_def read_metadata_def json_file_def meta_json_get positive_def json_date_def valid_date_iso)
      (simp add: meta_json_def)
  have limits: "resolve_limits j d' = Inr ?l" using meta o by (simp add: resolve_limits_def)
  have op: "opened j ?l d'" using meta limits s o(1,2) by (simp add: opened_def)
  have g: "good_blocks host (jn_stream j) ?l [[]]" using s by (simp add: good_blocks_def block_ok_def sane_limits_def)
  have files: "files_hold d' [[]]"
    by (simp add: files_hold_def list_segments_def d'_def dnames_def parse_segment_name dget_def)
  show "fst (init_unlocked j now d) = Inr (head_at (iso now) [[]])" by (simp add: result)
  show "stored host j ?l (snd (init_unlocked j now d)) (iso now) [[]]"
    unfolding result stored_def using opened_frame(1) [OF op] read_head_at [OF g s t] g files o(1,2) by simp
qed

end
