(* ===== verification/JournalReads.thy ===== *)
theory JournalReads
  imports JournalAppend
begin

text \<open>
  Reading a stream: a range is the slice of the committed records it names, also when an interrupted append
  left text behind them, and whatever a range returns is fixed by the digest of the head.
\<close>

section \<open>Committed records, with anything behind them\<close>

definition shows_blocks :: "journal_limits \<Rightarrow> journal_dir \<Rightarrow> json list list \<Rightarrow> bool" where
  \<comment> \<open>the first segments hold the blocks, the last of them with any further text\<close>
  "shows_blocks l d blocks = (\<exists>m \<ge> length blocks. list_segments d = map segment_name [1..<Suc m]
     \<and> (\<forall>i < length blocks. int (utf8_bytes (segment_text d (segment_name (Suc i)))) \<le> lm_segment l
         \<and> (\<exists>rest. text_lines (segment_text d (segment_name (Suc i))) = map canonical_json (blocks ! i) @ rest
              \<and> (Suc i < length blocks \<longrightarrow> rest = [[]]))))"

lemma files_show_blocks:
  assumes f: "files_hold d blocks" and g: "good_blocks host sid l blocks"
  shows "shows_blocks l d blocks"
proof -
  have "int (utf8_bytes (segment_text d (segment_name (Suc i)))) \<le> lm_segment l
      \<and> text_lines (segment_text d (segment_name (Suc i))) = map canonical_json (blocks ! i) @ [[]]" if i: "i < length blocks" for i
  proof -
    have t: "segment_text d (segment_name (Suc i)) = block_text (blocks ! i)"
      using f i by (simp add: files_hold_def segment_text_def opt_default_def)
    have "block_ok l (blocks ! i)" using g i by (simp add: good_blocks_def list_all_length)
    moreover have "list_all (readable host) (blocks ! i)"
      using g i chain_readable [of host sid 1 None "concat blocks"] by (force simp: good_blocks_def list_all_iff in_set_conv_nth)
    ultimately show ?thesis using text_lines_block [of host "blocks ! i" "[]"] by (simp add: t block_ok_def)
  qed
  then show ?thesis using f unfolding shows_blocks_def files_hold_def by blast
qed

definition readers_view :: "host \<Rightarrow> journal \<Rightarrow> journal_limits \<Rightarrow> journal_dir \<Rightarrow> string \<Rightarrow> json list list \<Rightarrow> bool" where
  \<comment> \<open>what is left of \<open>stored\<close> when an append was cut off\<close>
  "readers_view host j l d upd blocks = (opened j l d \<and> read_head (jn_stream j) d = Inr (Some (head_at upd blocks))
     \<and> good_blocks host (jn_stream j) l blocks \<and> shows_blocks l d blocks)"

lemma stored_readers_view: "stored host j l d upd blocks \<Longrightarrow> readers_view host j l d upd blocks"
  using files_show_blocks by (auto simp: stored_def readers_view_def)

section \<open>Ranges\<close>

lemma range_lines_block:
  assumes "chain host sid (rs_sequence st) (rs_previous st) b" "rs_count st + int (length b) \<le> hd_sequence h"
  shows "range_lines host sid h keep (map canonical_json b @ rest) st =
    range_lines host sid h keep rest \<lparr>rs_count = rs_count st + int (length b), rs_sequence = rs_sequence st + int (length b),
      rs_previous = last_digest (rs_previous st) b, rs_matched = fold keep b (rs_matched st)\<rparr>"
  using assms
proof (induction b arbitrary: st)
  case Nil
  then show ?case by (cases st) simp
next
  case (Cons r b)
  note r = Cons.prems(1) [simplified]
  let ?st = "\<lparr>rs_count = rs_count st + 1, rs_sequence = rec_sequence r + 1, rs_previous = Some (rec_digest r), rs_matched = keep r (rs_matched st)\<rparr>"
  have seq: "rec_sequence r = rs_sequence st" using committed_fields(3) [of host sid "rs_sequence st" "rs_previous st" r r] r by blast
  have "range_lines host sid h keep (map canonical_json (r # b) @ rest) st = range_lines host sid h keep (map canonical_json b @ rest) ?st"
    using r Cons.prems(2) readable_not_blank [of host r] readable_parse [of host r] by simp
  also have "\<dots> = range_lines host sid h keep rest \<lparr>rs_count = rs_count ?st + int (length b), rs_sequence = rs_sequence ?st + int (length b),
      rs_previous = last_digest (rs_previous ?st) b, rs_matched = fold keep b (rs_matched ?st)\<rparr>"
    by (rule Cons.IH) (use r seq Cons.prems(2) in simp_all)
  finally show ?case by (simp add: seq add.assoc)
qed

lemma range_lines_end: "rs_count st = hd_sequence h \<or> rest = [[]] \<Longrightarrow> range_lines host sid h keep rest st = Inr st"
  by (cases rest) (auto simp: blank_def)

lemma range_segments_blocks:
  assumes "resolve_limits j d = Inr l"
    "\<And>i. i < length blocks \<Longrightarrow> int (utf8_bytes (segment_text d (segment_name (Suc (k + i))))) \<le> lm_segment l
         \<and> (\<exists>rest. text_lines (segment_text d (segment_name (Suc (k + i)))) = map canonical_json (blocks ! i) @ rest \<and> (Suc i < length blocks \<longrightarrow> rest = [[]]))"
    "chain host (jn_stream j) (rs_sequence st) (rs_previous st) (concat blocks)" "rs_count st + int (length (concat blocks)) = hd_sequence h"
    "[] \<notin> set blocks" "k + length blocks \<le> m"
  shows "range_segments host j d h keep (map segment_name [Suc k..<Suc m]) st =
    Inr \<lparr>rs_count = hd_sequence h, rs_sequence = rs_sequence st + int (length (concat blocks)),
      rs_previous = last_digest (rs_previous st) (concat blocks), rs_matched = fold keep (concat blocks) (rs_matched st)\<rparr>"
  using assms(2-6)
proof (induction blocks arbitrary: k st)
  case Nil
  then have "rs_count st = hd_sequence h" by simp
  then show ?case by (cases "[Suc k..<Suc m]") (simp_all del: upt_Suc)
next
  case (Cons b bs)
  obtain rest where rest: "text_lines (segment_text d (segment_name (Suc k))) = map canonical_json b @ rest" "bs \<noteq> [] \<longrightarrow> rest = [[]]"
    and size: "int (utf8_bytes (segment_text d (segment_name (Suc k)))) \<le> lm_segment l"
    using Cons.prems(1) [of 0] by auto
  let ?st = "\<lparr>rs_count = rs_count st + int (length b), rs_sequence = rs_sequence st + int (length b),
      rs_previous = last_digest (rs_previous st) b, rs_matched = fold keep b (rs_matched st)\<rparr>"
  have ch: "chain host (jn_stream j) (rs_sequence st) (rs_previous st) b"
    "chain host (jn_stream j) (rs_sequence ?st) (rs_previous ?st) (concat bs)"
    using Cons.prems(2) by (simp_all add: chain_append)
  have b: "b \<noteq> []" using Cons.prems(4) by auto
  have "range_lines host (jn_stream j) h keep (map canonical_json b @ rest) st = range_lines host (jn_stream j) h keep rest ?st"
    by (rule range_lines_block [OF ch(1)]) (use Cons.prems(3) in simp)
  also have "\<dots> = Inr ?st" by (rule range_lines_end) (use rest(2) Cons.prems(3) in auto)
  finally have lines: "range_lines host (jn_stream j) h keep (map canonical_json b @ rest) st = Inr ?st" .
  have names: "[Suc k..<Suc m] = Suc k # [Suc (Suc k)..<Suc m]" using Cons.prems(5) by (simp add: upt_conv_Cons del: upt_Suc)
  have "range_segments host j d h keep (map segment_name [Suc (Suc k)..<Suc m]) ?st =
    Inr \<lparr>rs_count = hd_sequence h, rs_sequence = rs_sequence ?st + int (length (concat bs)),
      rs_previous = last_digest (rs_previous ?st) (concat bs), rs_matched = fold keep (concat bs) (rs_matched ?st)\<rparr>"
  proof (rule Cons.IH)
    fix i
    assume "i < length bs"
    then show "int (utf8_bytes (segment_text d (segment_name (Suc (Suc k + i))))) \<le> lm_segment l
         \<and> (\<exists>rest. text_lines (segment_text d (segment_name (Suc (Suc k + i)))) = map canonical_json (bs ! i) @ rest \<and> (Suc i < length bs \<longrightarrow> rest = [[]]))"
      using Cons.prems(1) [of "Suc i"] by simp
  qed (use Cons.prems(3-5) ch(2) in simp_all)
  moreover have "last_digest (last_digest (rs_previous st) b) (concat bs) = last_digest (rs_previous st) (b @ concat bs)"
    using b by (simp add: last_digest_def)
  moreover have "\<not> hd_sequence h \<le> rs_count st" using Cons.prems(3) b by (cases b) auto
  ultimately show ?case
    unfolding names using lines rest(1) size by (simp add: segment_too_large_def assms(1) add.assoc del: upt_Suc)
qed

lemma chain_sequences:
  assumes "chain host sid n prev rs" "i < length rs"
  shows "rec_sequence (rs ! i) = n + int i"
  using assms
proof (induction rs arbitrary: n prev i)
  case (Cons r rs)
  have "rec_sequence r = n" using committed_fields(3) [of host sid n prev r r] Cons.prems(1) by simp
  with Cons show ?case by (cases i) auto
qed simp

lemma filter_window:
  assumes "\<And>i. i < length rs \<Longrightarrow> f (rs ! i) = n + int i"
  shows "filter (\<lambda>r. a \<le> f r \<and> f r \<le> b) rs = drop (nat (a - n)) (take (nat (b - n + 1)) rs)"
  using assms
proof (induction rs arbitrary: n)
  case (Cons r rs)
  have r: "f r = n" using Cons.prems [of 0] by simp
  have ih: "filter (\<lambda>r. a \<le> f r \<and> f r \<le> b) rs = drop (nat (a - (n + 1))) (take (nat (b - (n + 1) + 1)) rs)"
    by (rule Cons.IH) (use Cons.prems [of "Suc _"] in simp)
  consider "b < n" | "n \<le> b" "n < a" | "n \<le> b" "a \<le> n" by linarith
  then show ?case
  proof cases
    case 1
    then show ?thesis using r ih by simp
  next
    case 2
    then have "nat (a - n) = Suc (nat (a - (n + 1)))" "nat (b - n + 1) = Suc (nat (b - (n + 1) + 1))" by simp_all
    with 2 r ih show ?thesis by simp
  next
    case 3
    then have "nat (a - n) = 0" "nat (a - (n + 1)) = 0" "nat (b - n + 1) = Suc (nat (b - (n + 1) + 1))" by simp_all
    with 3 r ih show ?thesis by simp
  qed
qed simp

lemma fold_ascending:
  "0 < limit \<Longrightarrow> int (length matched) \<le> limit \<Longrightarrow> fold (match_record False a b limit) rs matched
     = take (nat limit) (matched @ filter (\<lambda>r. a \<le> rec_sequence r \<and> rec_sequence r \<le> b) rs)"
proof (induction rs arbitrary: matched)
  case (Cons r rs)
  show ?case
  proof (cases "a \<le> rec_sequence r \<and> rec_sequence r \<le> b \<and> int (length matched) < limit")
    case True
    then have "match_record False a b limit r matched = matched @ [r]" by (simp add: match_record_def Let_def)
    moreover have "int (length (matched @ [r])) \<le> limit" using True by simp
    ultimately show ?thesis using True Cons.IH [of "matched @ [r]"] Cons.prems(1) by (simp del: take_append)
  next
    case False
    then have "match_record False a b limit r matched = matched" by (auto simp: match_record_def Let_def)
    moreover have "\<not> (a \<le> rec_sequence r \<and> rec_sequence r \<le> b) \<or> length matched = nat limit" using False Cons.prems by auto
    ultimately show ?thesis using Cons by auto
  qed
qed simp

lemma fold_descending:
  "int (length matched) + int (length (filter (\<lambda>r. max a (b - limit + 1) \<le> rec_sequence r \<and> rec_sequence r \<le> b) rs)) \<le> limit \<Longrightarrow>
   fold (match_record True a b limit) rs matched = matched @ filter (\<lambda>r. max a (b - limit + 1) \<le> rec_sequence r \<and> rec_sequence r \<le> b) rs"
  by (induction rs arbitrary: matched) (auto simp: match_record_def Let_def)

definition range_slice :: "range_options \<Rightarrow> json list \<Rightarrow> json list" where
  \<comment> \<open>what a range names of a list of records: the limit counts from the end that is read first\<close>
  "range_slice opts rs = (let
     slice = drop (nat (opt_default 1 (rg_from opts) - 1)) (take (nat (opt_default (int (length rs)) (rg_to opts))) rs)
   in take (nat (opt_default 9007199254740991 (rg_limit opts))) (if rg_descending opts then rev slice else slice))"

lemma take_min_nat: "take (nat (min (int (length rs)) b)) rs = take (nat b) rs"
  by (cases "b \<le> int (length rs)") (auto simp: min_def)

lemma drop_max_nat: "nat (max 1 a - 1) = nat (a - 1)"
  by (simp add: max_def)

lemma window_reverse:
  assumes "0 \<le> b" "b \<le> int (length rs)" "1 \<le> a" "0 < limit"
  shows "rev (drop (nat (max a (b - limit + 1) - 1)) (take (nat b) rs)) = take (nat limit) (rev (drop (nat (a - 1)) (take (nat b) rs)))"
proof -
  define t where "t = take (nat b) rs"
  have len: "length t = nat b" using assms(1,2) by (simp add: t_def)
  have "nat b - nat (max a (b - limit + 1) - 1) = min (nat limit) (nat b - nat (a - 1))" using assms by (simp add: max_def min_def) linarith
  then show ?thesis unfolding t_def [symmetric] by (simp add: rev_drop len)
qed

lemma read_range_view:
  assumes v: "readers_view host j l d upd blocks"
  shows "read_range host j opts d = Inr (range_slice opts (concat blocks))"
proof -
  let ?rs = "concat blocks" and ?n = "int (length (concat blocks))"
  have o: "opened j l d" and hd: "read_head (jn_stream j) d = Inr (Some (head_at upd blocks))"
    and g: "good_blocks host (jn_stream j) l blocks" and sh: "shows_blocks l d blocks"
    using v by (auto simp: readers_view_def)
  define a where "a = max 1 (opt_default 1 (rg_from opts))"
  define b where "b = min ?n (opt_default ?n (rg_to opts))"
  define limit where "limit = opt_default 9007199254740991 (rg_limit opts)"
  have slice: "range_slice opts ?rs = take (nat limit) (if rg_descending opts then rev (drop (nat (a - 1)) (take (nat b) ?rs)) else drop (nat (a - 1)) (take (nat b) ?rs))"
    unfolding range_slice_def a_def b_def limit_def Let_def take_min_nat drop_max_nat by simp
  have fields: "hd_sequence (head_at upd blocks) = ?n" "hd_digest (head_at upd blocks) = last_digest None ?rs" by (simp_all add: head_at_def)
  show ?thesis
  proof (cases "?n = 0 \<or> b < a \<or> limit \<le> 0")
    case True
    have a: "1 \<le> a" by (simp add: a_def)
    consider "?rs = []" | "b < a" | "limit \<le> 0" using True by auto
    then have "range_slice opts ?rs = []" unfolding slice
    proof cases
      case 1
      show "take (nat limit) (if rg_descending opts then rev (drop (nat (a - 1)) (take (nat b) ?rs)) else drop (nat (a - 1)) (take (nat b) ?rs)) = []"
        unfolding 1 by simp
    next
      case 2
      then have "nat b \<le> nat (a - 1)" by simp
      then show "take (nat limit) (if rg_descending opts then rev (drop (nat (a - 1)) (take (nat b) ?rs)) else drop (nat (a - 1)) (take (nat b) ?rs)) = []"
        by simp
    qed simp_all
    with True show ?thesis
      unfolding read_range_def hd by (auto simp: fields Let_def a_def [symmetric] b_def [symmetric] limit_def [symmetric])
  next
    case False
    then have ne: "[] \<notin> set blocks" using g by (auto simp: good_blocks_def)
    have ch: "chain host (jn_stream j) 1 None ?rs" using g by (simp add: good_blocks_def)
    obtain m where m: "length blocks \<le> m" "list_segments d = map segment_name [1..<Suc m]"
      "\<And>i. i < length blocks \<Longrightarrow> int (utf8_bytes (segment_text d (segment_name (Suc i)))) \<le> lm_segment l
         \<and> (\<exists>rest. text_lines (segment_text d (segment_name (Suc i))) = map canonical_json (blocks ! i) @ rest \<and> (Suc i < length blocks \<longrightarrow> rest = [[]]))"
      using sh unfolding shows_blocks_def by blast
    let ?keep = "match_record (rg_descending opts) a b limit"
    have seg: "range_segments host j d (head_at upd blocks) ?keep (map segment_name [Suc 0..<Suc m])
        \<lparr>rs_count = 0, rs_sequence = 1, rs_previous = None, rs_matched = []\<rparr> =
      Inr \<lparr>rs_count = hd_sequence (head_at upd blocks), rs_sequence = 1 + ?n, rs_previous = last_digest None ?rs, rs_matched = fold ?keep ?rs []\<rparr>"
      using range_segments_blocks [where k = 0 and st = "\<lparr>rs_count = 0, rs_sequence = 1, rs_previous = None, rs_matched = []\<rparr>"
          and blocks = blocks and d = d and l = l and j = j and host = host and m = m and h = "head_at upd blocks" and keep = ?keep] o m ch ne
      by (simp add: opened_def fields del: upt_Suc)
    have window: "filter (\<lambda>r. c \<le> rec_sequence r \<and> rec_sequence r \<le> b) ?rs = drop (nat (c - 1)) (take (nat b) ?rs)" for c
      using filter_window [of ?rs rec_sequence 1 c b] chain_sequences [OF ch] by simp
    have out: "(if rg_descending opts then rev (fold ?keep ?rs []) else fold ?keep ?rs []) = range_slice opts ?rs"
    proof (cases "rg_descending opts")
      case True
      have "length (drop (nat (max a (b - limit + 1) - 1)) (take (nat b) ?rs)) \<le> nat limit" using False by (simp add: b_def)
      then have "int (length (drop (nat (max a (b - limit + 1) - 1)) (take (nat b) ?rs))) \<le> limit" using False by linarith
      then have "fold ?keep ?rs [] = drop (nat (max a (b - limit + 1) - 1)) (take (nat b) ?rs)"
        using fold_descending [of "[]" a b limit ?rs] unfolding window using True by simp
      moreover have "1 \<le> a" "b \<le> ?n" "a \<le> b" "0 < limit" using False by (auto simp: a_def b_def)
      ultimately show ?thesis unfolding slice using True window_reverse [of b ?rs a limit] by simp
    next
      case asc: False
      then show ?thesis unfolding slice using fold_ascending [of limit "[]" a b ?rs] False by (simp only: window) simp
    qed
    have "length (range_slice opts ?rs) \<le> nat limit" unfolding slice by simp
    then have len: "\<not> limit < int (length (range_slice opts ?rs))" using False by linarith
    show ?thesis
      unfolding read_range_def hd using False seg out len
      by (cases "rg_descending opts")
        (auto simp: fields m(2) Let_def a_def [symmetric] b_def [symmetric] limit_def [symmetric] simp del: upt_Suc)
  qed
qed

end
