(* ===== verification/JournalLog.thy ===== *)
theory JournalLog
  imports JournalReads
begin

text \<open>
  The abstract journal: a list of records that only grows at its end, and what the operations of the
  journal promise of it.  A directory holds a list when it is stored in blocks that make it up.
\<close>

section \<open>The abstract log\<close>

definition next_record :: "host \<Rightarrow> journal \<Rightarrow> append_times \<Rightarrow> journal_input \<Rightarrow> json list \<Rightarrow> json" where
  "next_record host j t input rs = new_record host j t input (head_at [] [rs])"

definition log_append ::
  "host \<Rightarrow> journal \<Rightarrow> journal_limits \<Rightarrow> append_times \<Rightarrow> journal_input \<Rightarrow> (int \<times> string option) option \<Rightarrow> json list
     \<Rightarrow> (journal_error + json) \<times> json list" where
  \<comment> \<open>what an append is to do: one more record at the end, or an error and nothing\<close>
  "log_append host j l t input expected rs = (let r = next_record host j t input rs in
     if trim (ji_kind input) = [] then (Inl E_JOURNAL_RECORD_INVALID, rs)
     else if expected \<noteq> None \<and> expected \<noteq> Some (int (length rs), last_digest None rs) then (Inl E_JOURNAL_HEAD_MISMATCH, rs)
     else if lm_stream l \<le> int (length rs) then (Inl E_JOURNAL_LIMIT, rs)
     else if lm_record l < int (utf8_bytes (record_line r)) then (Inl E_JOURNAL_RECORD_TOO_LARGE, rs)
     else (Inr r, rs @ [canon r]))"

definition holds_log :: "host \<Rightarrow> journal \<Rightarrow> journal_limits \<Rightarrow> journal_dir \<Rightarrow> json list \<Rightarrow> bool" where
  "holds_log host j l d rs = (\<exists>upd blocks. stored host j l d upd blocks \<and> concat blocks = rs)"

definition shows_log :: "host \<Rightarrow> journal \<Rightarrow> journal_limits \<Rightarrow> journal_dir \<Rightarrow> json list \<Rightarrow> bool" where
  \<comment> \<open>the head counts these records, and the segments begin with them\<close>
  "shows_log host j l d rs = (\<exists>upd blocks. readers_view host j l d upd blocks \<and> concat blocks = rs)"

definition sound_input :: "host \<Rightarrow> append_times \<Rightarrow> journal_input \<Rightarrow> bool" where
  \<comment> \<open>clock readings in the range of dates, a payload whose numbers read back\<close>
  "sound_input host t input = (valid_time (at_record t) \<and> valid_time (at_head t) \<and> json_ok (h_num host) (ji_payload input))"

lemma holds_shows: "holds_log host j l d rs \<Longrightarrow> shows_log host j l d rs"
  unfolding holds_log_def shows_log_def using stored_readers_view by blast

lemma next_record_head: "new_record host j t input (head_at upd blocks) = next_record host j t input (concat blocks)"
  by (simp add: next_record_def new_record_def record_material_def head_at_def)

section \<open>Appending refines the abstract log\<close>

lemma append_log:
  assumes "holds_log host j l d rs" "sha_hex host" "sound_input host t input"
  shows "\<exists>rs'. log_append host j l t input expected rs = (fst (append host j None t input expected d), rs')
    \<and> holds_log host j l (snd (append host j None t input expected d)) rs'"
proof -
  obtain upd blocks where st: "stored host j l d upd blocks" and rs: "concat blocks = rs"
    using assms(1) by (auto simp: holds_log_def)
  have ne: "blocks \<noteq> []" using st by (simp add: stored_def good_blocks_def)
  let ?r = "next_record host j t input rs"
  note nr = next_record_head [of host j t input upd blocks, unfolded rs]
  show ?thesis
  proof (cases "trim (ji_kind input) = []")
    case True
    then show ?thesis using assms(1) by (simp add: append_def log_append_def)
  next
    case kind: False
    note ap = append_stored [OF st kind, of None t expected, unfolded rs nr]
    show ?thesis
    proof (cases "(expected \<noteq> None \<and> expected \<noteq> Some (int (length rs), last_digest None rs)) \<or> lm_stream l \<le> int (length rs)
        \<or> lm_record l < int (utf8_bytes (record_line ?r))")
      case True
      then show ?thesis using assms(1) kind unfolding ap log_append_def Let_def by auto
    next
      case False
      then have ok: "(expected \<noteq> None \<and> expected \<noteq> Some (int (length rs), last_digest None rs)) = False"
        "(lm_stream l \<le> int (length rs)) = False" "(lm_record l < int (utf8_bytes (record_line ?r))) = False" by blast+
      have i: "valid_time (at_record t)" "valid_time (at_head t)" "json_ok (h_num host) (ji_payload input)"
        using assms(3) by (simp_all add: sound_input_def)
      have "snd (append host j None t input expected d) = (write_segment (if rotates l blocks ?r then segment_name (length blocks + 1)
          else segment_name (length blocks)) (record_line ?r) d)
          \<lparr>jd_head := json_file (head_json (jn_stream j) (head_at (iso (at_head t)) (add_record l blocks (canon ?r))))\<rparr>"
        unfolding ap ok(1,2,3) if_False by (simp add: Let_def)
      then have "stored host j l (snd (append host j None t input expected d)) (iso (at_head t)) (add_record l blocks (canon ?r))"
        using stored_after [OF st assms(2) i, unfolded rs nr] False by simp
      then have "holds_log host j l (snd (append host j None t input expected d)) (rs @ [canon ?r])"
        unfolding holds_log_def using concat_add_record [OF ne, of l "canon ?r"] rs by blast
      moreover have "log_append host j l t input expected rs = (fst (append host j None t input expected d), rs @ [canon ?r])"
        unfolding ap log_append_def ok(1,2) if_False using kind ok(3) by (simp add: Let_def)
      ultimately show ?thesis by blast
    qed
  qed
qed

lemma init_log:
  assumes "open_journal sid opts = Inr j" "usable_limits (jn_limits j)" "valid_time now" "blank_stream j d"
  shows "holds_log host j (jn_limits j) (snd (init j now d)) []"
  unfolding holds_log_def init_def using init_stored(2) [OF assms, of host] by fastforce

section \<open>Reading\<close>

lemma read_range_log: "shows_log host j l d rs \<Longrightarrow> read_range host j opts d = Inr (range_slice opts rs)"
  unfolding shows_log_def using read_range_view by fastforce

end
