(* ===== verification/JournalVerified.thy ===== *)
theory JournalVerified
  imports JournalVerify JournalLog
begin

text \<open>
  Verification of a stored stream, and of one with the text of an interrupted append behind it.
\<close>

section \<open>Records\<close>

lemma committed_checks:
  assumes "validate_committed_record host sid (Some n) (Some prev) r = Inr r"
  shows "check_record host sid n prev r = None"
proof -
  note c = committed_fields [OF assms]
  have "jget r ''previous_digest'' = Some (digest_json prev)"
  proof (cases "n = 1")
    case True
    then show ?thesis using assms c(13) c(2) c(5)
      by (auto simp: validate_committed_record_def digest_json_def split: if_splits)
  next
    case False
    then have "hex_text (jget r ''previous_digest'')"
      using assms c(2) c(5) by (auto simp: validate_committed_record_def split: if_splits)
    then obtain s where "jget r ''previous_digest'' = Some (JStr s)"
      by (auto simp: hex_text_def jstr_Some_iff split: option.splits)
    with c(8) show ?thesis by (auto simp: rec_previous_def digest_json_def)
  qed
  with c show ?thesis by (simp add: check_record_def is_number_def)
qed

lemma no_chunk_stop: "n \<le> limit \<Longrightarrow> \<not> chunk_stops limit offset n"
  unfolding chunk_stops_def CHUNK_SIZE_def by simp

section \<open>Blocks\<close>

definition scanned_to :: "json list \<Rightarrow> int \<Rightarrow> string option \<Rightarrow> verify_state \<Rightarrow> bool" where
  \<comment> \<open>the scan has counted these records, so many of them in the active segment\<close>
  "scanned_to rs a lst st = (vs_sequence st = int (length rs) + 1 \<and> vs_previous st = last_digest None rs \<and> vs_total st = int (length rs)
     \<and> vs_bytes st = int (utf8_bytes (block_text rs)) \<and> vs_active_records st = a \<and> vs_last_segment st = lst \<and> vs_uncommitted st = None)"

lemma verify_record:
  assumes r: "readable host r" "validate_committed_record host sid (Some (vs_sequence st)) (Some (vs_previous st)) r = Inr r"
    and size: "int (utf8_bytes (record_line r)) \<le> lm_record l" "lm_record l \<le> lm_segment l"
    and line: "sc_line line = canonical_json r" "sc_newline line" "sc_length line = int (utf8_bytes (record_line r))" "\<not> sc_large line"
  shows "verify_line host sid l h seg is_last nbytes line st = count_record l h seg line r st"
proof -
  have "\<not> blank (sc_line line)" using readable_not_blank [OF r(1)] line by simp
  moreover have "json_parse (h_num host) (sc_line line) = Some r" using readable_parse [OF r(1)] line by simp
  moreover have "\<not> lm_segment l < sc_length line" using size line by simp
  ultimately show ?thesis
    using committed_checks [OF r(2)] size line unfolding verify_line_def by (simp add: Let_def)
qed

lemma verify_block:
  assumes "scanned_to rs a lst st" "chain host sid (int (length rs) + 1) (last_digest None rs) b"
    "int (length rs) + int (length b) \<le> hd_sequence h" "list_all (\<lambda>r. int (utf8_bytes (record_line r)) \<le> lm_record l) b"
    "lm_record l \<le> lm_segment l" "vs_seg_records st + int (length b) \<le> lm_segment_records l"
    "vs_seg_bytes st + int (utf8_bytes (block_text b)) \<le> lm_segment l"
  shows "\<exists>st'. verify_lines host sid l h seg is_last nbytes (scan_from (max (lm_record l) (lm_segment l)) off (map (\<lambda>r. (canonical_json r, True)) b @ ls) (block_text b @ t)) st
      = verify_lines host sid l h seg is_last nbytes (scan_from (max (lm_record l) (lm_segment l)) (off + int (utf8_bytes (block_text b))) ls t) st'
    \<and> scanned_to (rs @ b) (a + (if seg = hd_active h then int (length b) else 0)) (if b = [] then lst else Some seg) st'"
  using assms
proof (induction b arbitrary: rs a lst st off)
  case Nil
  then show ?case by (auto simp: scanned_to_def)
next
  case (Cons r b)
  let ?lim = "max (lm_record l) (lm_segment l)"
  have r: "readable host r" "validate_committed_record host sid (Some (vs_sequence st)) (Some (vs_previous st)) r = Inr r"
    and n: "vs_sequence st = int (length rs) + 1" "vs_total st = int (length rs)" "vs_uncommitted st = None"
    using Cons.prems(1,2) by (auto simp: scanned_to_def)
  have bytes: "int (utf8_bytes (record_line r)) = int (utf8_bytes (canonical_json r)) + 1" by (simp add: record_line_def)
  define line where "line = \<lparr>sc_line = canonical_json r, sc_newline = True, sc_length = int (utf8_bytes (canonical_json r)) + 1, sc_offset = off,
    sc_large = False, sc_rest = block_text (r # b) @ t\<rparr>"
  have fits: "int (utf8_bytes (record_line r)) \<le> lm_record l" using Cons.prems(4) by simp
  have scan: "scan_from ?lim off (map (\<lambda>r. (canonical_json r, True)) (r # b) @ ls) (block_text (r # b) @ t)
      = line # scan_from ?lim (off + int (utf8_bytes (record_line r))) (map (\<lambda>r. (canonical_json r, True)) b @ ls) (block_text b @ t)"
    using fits bytes no_chunk_stop [of "int (utf8_bytes (canonical_json r))" ?lim off] by (simp add: line_def Let_def add.assoc)
  have one: "verify_line host sid l h seg is_last nbytes line st = count_record l h seg line r st"
    using r fits Cons.prems(5) bytes by (intro verify_record) (simp_all add: line_def)
  define st1 where "st1 = (case count_record l h seg line r st of Inr s \<Rightarrow> s | Inl _ \<Rightarrow> st)"
  have count: "count_record l h seg line r st = Inr st1" and st1: "scanned_to (rs @ [r]) (a + (if seg = hd_active h then 1 else 0)) (Some seg) st1"
    and seg: "vs_seg_records st1 = vs_seg_records st + 1" "vs_seg_bytes st1 = vs_seg_bytes st + int (utf8_bytes (record_line r))"
    using Cons.prems(1,3,6,7) n bytes
    by (auto simp: count_record_def Let_def line_def st1_def scanned_to_def block_text_def)
  have ch: "chain host sid (int (length (rs @ [r])) + 1) (last_digest None (rs @ [r])) b" using Cons.prems(2) by (simp add: add.commute add.left_commute)
  have "\<exists>st'. verify_lines host sid l h seg is_last nbytes (scan_from ?lim (off + int (utf8_bytes (record_line r))) (map (\<lambda>r. (canonical_json r, True)) b @ ls) (block_text b @ t)) st1
      = verify_lines host sid l h seg is_last nbytes (scan_from ?lim (off + int (utf8_bytes (record_line r)) + int (utf8_bytes (block_text b))) ls t) st'
    \<and> scanned_to ((rs @ [r]) @ b) (a + (if seg = hd_active h then 1 else 0) + (if seg = hd_active h then int (length b) else 0)) (if b = [] then Some seg else Some seg) st'"
    using Cons.IH [OF st1 ch, of "off + int (utf8_bytes (record_line r))"] Cons.prems(3-7) seg by (simp add: block_text_def)
  then obtain st' where st': "verify_lines host sid l h seg is_last nbytes (scan_from ?lim (off + int (utf8_bytes (record_line r))) (map (\<lambda>r. (canonical_json r, True)) b @ ls) (block_text b @ t)) st1
      = verify_lines host sid l h seg is_last nbytes (scan_from ?lim (off + int (utf8_bytes (record_line r)) + int (utf8_bytes (block_text b))) ls t) st'"
    "scanned_to ((rs @ [r]) @ b) (a + (if seg = hd_active h then 1 else 0) + (if seg = hd_active h then int (length b) else 0)) (Some seg) st'"
    by auto
  have "off + int (utf8_bytes (record_line r)) + int (utf8_bytes (block_text b)) = off + int (utf8_bytes (block_text (r # b)))"
    by (simp add: record_line_def)
  moreover have "(rs @ [r]) @ b = rs @ r # b" "a + (if seg = hd_active h then 1 else 0) + (if seg = hd_active h then int (length b) else 0)
      = a + (if seg = hd_active h then int (length (r # b)) else 0)" by simp_all
  ultimately show ?case unfolding scan verify_lines.simps one count rbind_simps using st' by (intro exI [of _ st']) (simp only: list.distinct if_False)
qed

section \<open>Segments\<close>

lemma scan_lines_block: "list_all (readable host) b \<Longrightarrow> scan_lines (block_text b @ t) = map (\<lambda>r. (canonical_json r, True)) b @ scan_lines t"
proof (induction b)
  case (Cons r b)
  have "newline \<notin> set (canonical_json r)" using readable_chars [of host r] Cons.prems by auto
  with Cons show ?case by (simp add: scan_line)
qed simp

lemma verify_segment:
  assumes "scanned_to rs a lst st" "chain host sid (int (length rs) + 1) (last_digest None rs) b"
    "int (length rs) + int (length b) \<le> hd_sequence h" "block_ok l b" "lm_record l \<le> lm_segment l"
    "dget (jd_segments d) (segment_name k) = Some (block_text b @ t)" "k < 100000000"
    "names \<noteq> [] \<longrightarrow> t = []"
  shows "\<exists>st'. verify_segments host sid l h d k (segment_name k # names) st
      = rbind (verify_lines host sid l h (segment_name k) (names = []) (int (utf8_bytes (block_text b @ t)))
          (scan_from (max (lm_record l) (lm_segment l)) (int (utf8_bytes (block_text b))) (scan_lines t) t) st') (verify_segments host sid l h d (k + 1) names)
    \<and> scanned_to (rs @ b) (a + (if segment_name k = hd_active h then int (length b) else 0)) (if b = [] then lst else Some (segment_name k)) st'"
proof -
  let ?st = "st\<lparr>vs_seg_records := 0, vs_seg_bytes := 0\<rparr>" and ?lim = "max (lm_record l) (lm_segment l)"
  have s: "scanned_to rs a lst ?st" using assms(1) by (simp add: scanned_to_def)
  have ok: "int (length b) \<le> lm_segment_records l" "int (utf8_bytes (block_text b)) \<le> lm_segment l"
    "list_all (\<lambda>r. int (utf8_bytes (record_line r)) \<le> lm_record l) b" using assms(4) by (simp_all add: block_ok_def)
  have content: "segment_text d (segment_name k) = block_text b @ t" using assms(6) by (simp add: segment_text_def opt_default_def)
  have scan: "scan_segment_lines ?lim (block_text b @ t) = scan_from ?lim 0 (map (\<lambda>r. (canonical_json r, True)) b @ scan_lines t) (block_text b @ t)"
    using scan_lines_block [OF chain_readable [OF assms(2)]] by (simp add: scan_segment_lines_def)
  have small: "\<not> (names \<noteq> [] \<and> lm_segment l < int (utf8_bytes (block_text b @ t)))" using assms(8) ok(2) by auto
  have limits: "vs_seg_records ?st + int (length b) \<le> lm_segment_records l" "vs_seg_bytes ?st + int (utf8_bytes (block_text b)) \<le> lm_segment l"
    using ok by simp_all
  obtain st' where st': "verify_lines host sid l h (segment_name k) (names = []) (int (utf8_bytes (block_text b @ t)))
        (scan_from ?lim 0 (map (\<lambda>r. (canonical_json r, True)) b @ scan_lines t) (block_text b @ t)) ?st
      = verify_lines host sid l h (segment_name k) (names = []) (int (utf8_bytes (block_text b @ t)))
        (scan_from ?lim (0 + int (utf8_bytes (block_text b))) (scan_lines t) t) st'"
    "scanned_to (rs @ b) (a + (if segment_name k = hd_active h then int (length b) else 0)) (if b = [] then lst else Some (segment_name k)) st'"
    using verify_block [OF s assms(2,3) ok(3) assms(5) limits] by blast
  have "\<not> parse_segment (segment_name k) \<noteq> Some k" using parse_segment_name [OF assms(7)] by simp
  then show ?thesis
    unfolding verify_segments.simps content Let_def scan using st' small by (intro exI [of _ st']) (simp only: if_False add_0 simp_thms)
qed

lemma verify_blocks:
  assumes "scanned_to rs a lst st" "chain host sid (int (length rs) + 1) (last_digest None rs) (concat bs)"
    "int (length rs) + int (length (concat bs)) \<le> hd_sequence h" "list_all (block_ok l) bs" "lm_record l \<le> lm_segment l"
    "\<And>i. i < length bs \<Longrightarrow> dget (jd_segments d) (segment_name (k + i)) = Some (block_text (bs ! i))" "k + length bs \<le> 100000000"
    "[] \<notin> set bs" "hd_active h = segment_name m" "m < 100000000" "names \<noteq> []"
  shows "\<exists>st'. verify_segments host sid l h d k (map segment_name [k..<k + length bs] @ names) st = verify_segments host sid l h d (k + length bs) names st'
    \<and> scanned_to (rs @ concat bs) (a + (if k \<le> m \<and> m < k + length bs then int (length (bs ! (m - k))) else 0))
        (if bs = [] then lst else Some (segment_name (k + length bs - 1))) st'"
  using assms(1-8)
proof (induction bs arbitrary: rs a lst st k)
  case Nil
  then show ?case by (auto intro!: exI [of _ st])
next
  case (Cons b bs)
  have b: "b \<noteq> []" "block_ok l b" "chain host sid (int (length rs) + 1) (last_digest None rs) b" "int (length rs) + int (length b) \<le> hd_sequence h"
    using Cons.prems(2,3,4,8) by (auto simp: chain_append)
  have stored_text: "dget (jd_segments d) (segment_name k) = Some (block_text b @ [])" using Cons.prems(6) [of 0] by simp
  have k: "k < 100000000" using Cons.prems(7) by simp
  let ?names = "map segment_name [Suc k..<Suc k + length bs] @ names"
  obtain st1 where st1: "verify_segments host sid l h d k (segment_name k # ?names) st
      = rbind (verify_lines host sid l h (segment_name k) (?names = []) (int (utf8_bytes (block_text b @ [])))
          (scan_from (max (lm_record l) (lm_segment l)) (int (utf8_bytes (block_text b))) (scan_lines []) []) st1) (verify_segments host sid l h d (k + 1) ?names)"
    "scanned_to (rs @ b) (a + (if segment_name k = hd_active h then int (length b) else 0)) (if b = [] then lst else Some (segment_name k)) st1"
    using verify_segment [OF Cons.prems(1) b(3,4,2) Cons.prems(5) stored_text k, of ?names] assms(11) by blast
  have ch: "chain host sid (int (length (rs @ b)) + 1) (last_digest None (rs @ b)) (concat bs)"
    using Cons.prems(2) by (simp add: chain_append last_digest_def add_ac split: if_splits)
  obtain st' where st': "verify_segments host sid l h d (Suc k) ?names st1 = verify_segments host sid l h d (Suc k + length bs) names st'"
    "scanned_to ((rs @ b) @ concat bs) (a + (if segment_name k = hd_active h then int (length b) else 0)
        + (if Suc k \<le> m \<and> m < Suc k + length bs then int (length (bs ! (m - Suc k))) else 0))
        (if bs = [] then (if b = [] then lst else Some (segment_name k)) else Some (segment_name (Suc k + length bs - 1))) st'"
    using Cons.IH [OF st1(2) ch, of "Suc k"] Cons.prems(3-8) Cons.prems(6) [of "Suc i" for i] by force
  have active: "segment_name k = hd_active h \<longleftrightarrow> m = k" using segment_name_inject [of k m] k assms(9,10) by auto
  have count: "(if segment_name k = hd_active h then int (length b) else 0)
        + (if Suc k \<le> m \<and> m < Suc k + length bs then int (length (bs ! (m - Suc k))) else 0)
      = (if k \<le> m \<and> m < k + length (b # bs) then int (length ((b # bs) ! (m - k))) else 0)"
    unfolding active by (auto simp: nth_Cons split: nat.split) (auto simp: le_less Suc_diff_Suc diff_Suc split: nat.splits)
  have names: "map segment_name [k..<k + length (b # bs)] @ names = segment_name k # ?names" by (simp add: upt_conv_Cons del: upt_Suc)
  have name: "(if bs = [] then (if b = [] then lst else Some (segment_name k)) else Some (segment_name (Suc k + length bs - 1)))
      = (if b # bs = [] then lst else Some (segment_name (k + length (b # bs) - 1)))" using b(1) by simp
  show ?case
    unfolding names using st1(1) st' count name by (intro exI [of _ st']) (simp add: add.assoc)
qed

section \<open>The text of an interrupted append\<close>

definition torn_text :: "host \<Rightarrow> string \<Rightarrow> journal_limits \<Rightarrow> json list \<Rightarrow> string \<Rightarrow> bool" where
  \<comment> \<open>some of the line of the next record\<close>
  "torn_text host sid l rs t = (0 \<le> lm_record l \<and> (t = [] \<or> (\<exists>r k. readable host r
     \<and> validate_committed_record host sid (Some (int (length rs) + 1)) (Some (last_digest None rs)) r = Inr r
     \<and> int (utf8_bytes (record_line r)) \<le> lm_record l \<and> t = take k (record_line r))))"

lemma utf8_bytes_take: "utf8_bytes (take k s) \<le> utf8_bytes s"
  by (metis append_take_drop_id le_add1 utf8_bytes_append)

lemma torn_cases:
  assumes "torn_text host sid l rs t"
  obtains "newline \<notin> set t" "int (utf8_bytes t) \<le> lm_record l"
    | r where "t = record_line r" "readable host r" "int (utf8_bytes (record_line r)) \<le> lm_record l"
      "validate_committed_record host sid (Some (int (length rs) + 1)) (Some (last_digest None rs)) r = Inr r"
proof (cases "t = []")
  case True
  then show thesis using that(1) assms by (simp add: torn_text_def)
next
  case False
  then obtain r k where r: "readable host r" "validate_committed_record host sid (Some (int (length rs) + 1)) (Some (last_digest None rs)) r = Inr r"
      "int (utf8_bytes (record_line r)) \<le> lm_record l" and t: "t = take k (record_line r)"
    using assms by (auto simp: torn_text_def)
  show thesis
  proof (cases "k \<le> length (canonical_json r)")
    case True
    then have "t = take k (canonical_json r)" using t by (simp add: record_line_def)
    then have "newline \<notin> set t" using readable_chars [OF r(1)] set_take_subset [of k "canonical_json r"] by blast
    moreover have "int (utf8_bytes t) \<le> lm_record l" using r(3) t utf8_bytes_take [of k "record_line r"] by simp
    ultimately show thesis by (rule that(1))
  next
    case False
    then have "t = record_line r" using t by (simp add: record_line_def)
    with r show thesis by (intro that(2))
  qed
qed

lemma torn_bytes: "torn_text host sid l rs t \<Longrightarrow> int (utf8_bytes t) \<le> lm_record l"
  by (erule torn_cases) auto

lemma verify_torn_text:
  assumes "scanned_to rs a lst st" "hd_sequence h = int (length rs)" "torn_text host sid l rs t" "lm_record l \<le> lm_segment l"
  shows "if t \<noteq> [] \<and> newline \<notin> set t
    then verify_lines host sid l h seg True (off + int (utf8_bytes t)) (scan_from (max (lm_record l) (lm_segment l)) off (scan_lines t) t) st
        = Inl (incomplete_tail h (int (length rs)) seg off (int (utf8_bytes t)))
    else \<exists>st'. verify_lines host sid l h seg True (off + int (utf8_bytes t)) (scan_from (max (lm_record l) (lm_segment l)) off (scan_lines t) t) st = Inr st'
        \<and> (t = [] \<longrightarrow> st' = st) \<and> (t \<noteq> [] \<longrightarrow> vs_total st' = int (length rs) + 1 \<and> vs_uncommitted st' = Some (seg, off) \<and> vs_last_segment st' = lst)"
proof (cases rule: torn_cases [OF assms(3)])
  case 1
  show ?thesis
  proof (cases "t = []")
    case False
    have "vs_total st = int (length rs)" using assms(1) by (simp add: scanned_to_def)
    then show ?thesis using 1 False assms(2,4)
      by (simp add: scan_end Let_def verify_line_def)
  qed simp
next
  case (2 r)
  let ?lim = "max (lm_record l) (lm_segment l)"
  have nl: "newline \<notin> set (canonical_json r)" using readable_chars [OF 2(2)] by blast
  have st: "vs_sequence st = int (length rs) + 1" "vs_previous st = last_digest None rs" "vs_total st = int (length rs)" "vs_uncommitted st = None" "vs_last_segment st = lst"
    using assms(1) by (auto simp: scanned_to_def)
  define line where "line = \<lparr>sc_line = canonical_json r, sc_newline = True, sc_length = int (utf8_bytes (canonical_json r)) + 1, sc_offset = off,
    sc_large = False, sc_rest = t\<rparr>"
  have bytes: "int (utf8_bytes (record_line r)) = int (utf8_bytes (canonical_json r)) + 1" by (simp add: record_line_def)
  have lines: "scan_lines t = [(canonical_json r, True)]" using scan_line [OF nl, of "[]"] 2(1) by (simp add: record_line_def)
  have scan: "scan_from ?lim off (scan_lines t) t = [line]"
    unfolding lines using 2(3) bytes no_chunk_stop [of "int (utf8_bytes (canonical_json r))" ?lim off] by (simp add: line_def Let_def)
  have v: "validate_committed_record host sid (Some (vs_sequence st)) (Some (vs_previous st)) r = Inr r" using 2(4) st by simp
  have one: "verify_line host sid l h seg True (off + int (utf8_bytes t)) line st = count_record l h seg line r st"
    using 2(2) v 2(3) assms(4) bytes by (intro verify_record) (simp_all add: line_def)
  have t: "t \<noteq> []" "newline \<in> set t" using 2(1) by (simp_all add: record_line_def)
  show ?thesis unfolding scan verify_lines.simps one using st assms(2) t
    by (simp add: count_record_def Let_def line_def)
qed

section \<open>The verdict\<close>

definition cut_files :: "journal_dir \<Rightarrow> json list list \<Rightarrow> string \<Rightarrow> bool" where
  \<comment> \<open>the segments hold the blocks, the last one with some text behind its records\<close>
  "cut_files d blocks t = (list_segments d = map segment_name [1..<Suc (length blocks)]
     \<and> (\<forall>i < length blocks. dget (jd_segments d) (segment_name (Suc i)) = Some (block_text (blocks ! i) @ (if Suc i = length blocks then t else []))))"

definition spare :: "bool \<Rightarrow> json list list \<Rightarrow> json list list" where
  \<comment> \<open>with the segment a rotation opened\<close>
  "spare extra blocks = (if extra then blocks @ [[]] else blocks)"

definition cut_off :: "host \<Rightarrow> journal \<Rightarrow> journal_limits \<Rightarrow> journal_dir \<Rightarrow> string \<Rightarrow> json list list \<Rightarrow> bool \<Rightarrow> string \<Rightarrow> bool" where
  \<comment> \<open>a stored stream with the text \<open>t\<close> of an interrupted append behind it\<close>
  "cut_off host j l d upd blocks extra t = (opened j l d \<and> read_head (jn_stream j) d = Inr (Some (head_at upd blocks))
     \<and> good_blocks host (jn_stream j) l blocks \<and> cut_files d (spare extra blocks) t \<and> torn_text host (jn_stream j) l (concat blocks) t
     \<and> (extra \<longrightarrow> last blocks \<noteq> [] \<and> Suc (length blocks) < 100000000) \<and> (\<not> extra \<longrightarrow> int (utf8_bytes (block_text (last blocks) @ t)) \<le> lm_segment l))"

lemma spare_blocks:
  assumes g: "good_blocks host sid l blocks" and x: "extra \<longrightarrow> last blocks \<noteq> []"
  obtains bs b where "spare extra blocks = bs @ [b]" "[] \<notin> set bs" "concat (bs @ [b]) = concat blocks" "(if extra then b = [] \<and> bs = blocks else blocks = bs @ [b])"
    "list_all (block_ok l) bs" "block_ok l b \<or> b = []" "b = [] \<Longrightarrow> bs = [] \<or> extra"
proof -
  have ne: "blocks \<noteq> []" and nil: "[] \<notin> set blocks \<or> blocks = [[]]" and ok: "list_all (block_ok l) blocks" using g by (auto simp: good_blocks_def)
  show thesis
  proof (cases extra)
    case True
    then have "[] \<notin> set blocks" using nil x by auto
    then show thesis using True ok by (intro that [of blocks "[]"]) (simp_all add: spare_def)
  next
    case False
    obtain bs b where b: "blocks = bs @ [b]" using ne by (cases blocks rule: rev_cases) auto
    show thesis using False b nil ok by (intro that [of bs b]) (auto simp: spare_def)
  qed
qed

lemma good_blocks_one: "good_blocks host sid l blocks \<Longrightarrow> concat blocks = [] \<Longrightarrow> length blocks = 1"
  by (auto simp: good_blocks_def) (metis list.set_intros(1) neq_Nil_conv set_ConsD)

lemma verify_cut_off:
  assumes c: "cut_off host j l d upd blocks extra t"
  defines "n \<equiv> int (length (concat blocks))" and "last_seg \<equiv> segment_name (length (spare extra blocks))"
    and "kept \<equiv> int (utf8_bytes (block_text (last (spare extra blocks))))"
  shows "verify_stream host j d = (if t = [] \<and> \<not> extra then valid_stream (head_at upd blocks) n
    else incomplete_tail (head_at upd blocks) (n + (if newline \<in> set t then 1 else 0)) last_seg kept (int (utf8_bytes t)))"
proof -
  let ?h = "head_at upd blocks" and ?sid = "jn_stream j" and ?rs = "concat blocks" and ?lim = "max (lm_record l) (lm_segment l)"
  have op: "opened j l d" and hd: "read_head ?sid d = Inr (Some ?h)" and g: "good_blocks host ?sid l blocks" and fi: "cut_files d (spare extra blocks) t"
    and to: "torn_text host ?sid l ?rs t" and ex: "extra \<longrightarrow> last blocks \<noteq> []"
    and wide: "extra \<longrightarrow> Suc (length blocks) < 100000000"
    using c by (auto simp: cut_off_def)
  have me: "read_meta ?sid d = Inr (Some l)" and s: "sane_limits l" using op by (auto simp: opened_def)
  have lim: "lm_record l \<le> lm_segment l" "0 < lm_segment_records l" "0 < lm_record l" using s by (auto simp: sane_limits_def)
  note cnt = good_blocks_count [OF g s]
  have ch: "chain host ?sid 1 None ?rs" using g by (simp add: good_blocks_def)
  have room: "n \<le> lm_stream l" using g by (simp add: good_blocks_def n_def)
  obtain bs b where sp: "spare extra blocks = bs @ [b]" and bs: "[] \<notin> set bs" and cc: "concat (bs @ [b]) = ?rs"
    and shape: "if extra then b = [] \<and> bs = blocks else blocks = bs @ [b]" and oks: "list_all (block_ok l) bs" and okb: "block_ok l b \<or> b = []"
    and nil: "b = [] \<Longrightarrow> bs = [] \<or> extra"
    using spare_blocks [OF g ex] by metis
  have okb: "block_ok l b" using okb lim by (auto simp: block_ok_def)
  have h: "hd_sequence ?h = n" "hd_active ?h = segment_name (length blocks)" "hd_digest ?h = last_digest None ?rs" "hd_total ?h = n"
    "hd_bytes ?h = int (utf8_bytes (block_text ?rs))" "hd_active_records ?h = Some (int (length (last blocks)))"
    by (simp_all add: head_at_def n_def)
  have len: "Suc (length bs) < 100000000" using cnt shape wide by (auto split: if_splits)
  have names: "list_segments d = map segment_name [1..<1 + length bs] @ [segment_name (Suc (length bs))]"
    using fi sp by (simp add: cut_files_def)
  have stored_text: "dget (jd_segments d) (segment_name (1 + i)) = Some (block_text (bs ! i))" if "i < length bs" for i
    using fi that unfolding cut_files_def sp by (auto simp: nth_append)
  have fileb: "dget (jd_segments d) (segment_name (Suc (length bs))) = Some (block_text b @ t)"
    using fi unfolding cut_files_def sp by (auto simp: nth_append)
  have start: "scanned_to [] 0 None verify_start" by (simp add: scanned_to_def verify_start_def)
  have chs: "chain host ?sid (int (length []) + 1) (last_digest None []) (concat bs)" "chain host ?sid (int (length (concat bs)) + 1) (last_digest None (concat bs)) b"
    using ch unfolding cc [symmetric] by (simp_all add: chain_append add.commute)
  have le: "int (length []) + int (length (concat bs)) \<le> hd_sequence ?h" "int (length (concat bs)) + int (length b) \<le> hd_sequence ?h"
    unfolding h(1) n_def cc [symmetric] by simp_all
  have wide': "1 + length bs \<le> 100000000" "length blocks < 100000000" using len cnt by auto
  let ?a = "if 1 \<le> length blocks \<and> length blocks < 1 + length bs then int (length (bs ! (length blocks - 1))) else 0"
  obtain st1 where st1: "verify_segments host ?sid l ?h d 1 (map segment_name [1..<1 + length bs] @ [segment_name (Suc (length bs))]) verify_start
        = verify_segments host ?sid l ?h d (1 + length bs) [segment_name (Suc (length bs))] st1"
    "scanned_to (concat bs) ?a (if bs = [] then None else Some (segment_name (length bs))) st1"
    using verify_blocks [OF start chs(1) le(1) oks lim(1) stored_text wide'(1) bs h(2) wide'(2), of "[segment_name (Suc (length bs))]"]
    by (simp only: append_Nil add_0 diff_add_inverse) blast
  obtain st2 where st2: "verify_segments host ?sid l ?h d (Suc (length bs)) [segment_name (Suc (length bs))] st1
      = rbind (verify_lines host ?sid l ?h (segment_name (Suc (length bs))) ([] = ([] :: string list)) (int (utf8_bytes (block_text b @ t)))
          (scan_from ?lim (int (utf8_bytes (block_text b))) (scan_lines t) t) st2) (verify_segments host ?sid l ?h d (Suc (length bs) + 1) [])"
    "scanned_to (concat bs @ b) (?a + (if segment_name (Suc (length bs)) = hd_active ?h then int (length b) else 0))
      (if b = [] then (if bs = [] then None else Some (segment_name (length bs))) else Some (segment_name (Suc (length bs)))) st2"
    using verify_segment [OF st1(2) chs(2) le(2) okb lim(1) fileb len, of "[]"] by blast
  have active: "segment_name (Suc (length bs)) = hd_active ?h \<longleftrightarrow> \<not> extra"
    using shape segment_name_inject [of "Suc (length bs)" "length blocks"] len wide'(2) unfolding h(2) by (auto split: if_splits)
  have count: "?a + (if segment_name (Suc (length bs)) = hd_active ?h then int (length b) else 0) = int (length (last blocks))"
    unfolding active using shape cnt(1) by (auto simp: last_conv_nth Suc_le_eq split: if_splits)
  have lst: "(if b = [] then (if bs = [] then None else Some (segment_name (length bs))) else Some (segment_name (Suc (length bs))))
      = (if n = 0 then None else Some (segment_name (length blocks)))"
    using shape cc nil cnt(1) ex unfolding n_def by (auto split: if_splits)
  have sc: "scanned_to ?rs (int (length (last blocks))) (if n = 0 then None else Some (segment_name (length blocks))) st2"
    using st2(2) cc unfolding count lst by simp
  have segs: "verify_segments host ?sid l ?h d 1 (list_segments d) verify_start
      = rbind (verify_lines host ?sid l ?h last_seg True (kept + int (utf8_bytes t)) (scan_from ?lim kept (scan_lines t) t) st2) Inr"
    unfolding names using st1(1) st2(1) by (simp add: last_seg_def kept_def sp rbind_def split: sum.splits)
  have beyond: "beyond_active ?h (list_segments d) = (if extra then [last_seg] else [])"
  proof -
    have "length bs \<le> length blocks" using shape by (auto split: if_splits)
    then have "filter (\<lambda>s. length blocks < segment_index s) (map segment_name [1..<1 + length bs]) = []"
      using len by (auto simp: filter_empty_conv segment_index_name)
    moreover have "length blocks < Suc (length bs) \<longleftrightarrow> extra" using shape by (auto split: if_splits)
    moreover have "segment_index (hd_active ?h) = length blocks" using wide'(2) by (simp add: h segment_index_name)
    moreover have "last_seg = segment_name (Suc (length bs))" by (simp add: last_seg_def sp)
    ultimately show ?thesis unfolding beyond_active_def names filter_append using len
      by (simp add: segment_index_name del: upt_Suc)
  qed
  have seq: "hd_sequence ?h = int (length ?rs)" by (simp add: h n_def)
  have names_ne: "list_segments d \<noteq> []" using names by simp
  have vs: "verify_stream host j d = (case verify_segments host ?sid l ?h d 1 (list_segments d) verify_start of
      Inl v \<Rightarrow> v | Inr st \<Rightarrow> verify_head l ?h d (list_segments d) st)"
    using me hd lim(1) names_ne by (simp add: verify_stream_def Let_def)
  have tb: "int (utf8_bytes t) \<le> lm_record l" by (rule torn_bytes [OF to])
  have kept_text: "segment_text d last_seg = block_text b @ t" "kept = int (utf8_bytes (block_text b))"
    using fileb by (simp_all add: segment_text_def opt_default_def last_seg_def sp kept_def)
  have active_seg: "vs_last_segment st = (if n = 0 then None else Some (hd_active ?h)) \<Longrightarrow>
      (if 0 < hd_sequence ?h then vs_last_segment st else Some (segment_name 1)) = Some (hd_active ?h)" for st
    using h(1,2) good_blocks_one [OF g] unfolding n_def by auto
  show ?thesis
  proof (cases "t \<noteq> [] \<and> newline \<notin> set t")
    case True
    then show ?thesis
      using verify_torn_text [OF sc seq to lim(1), of last_seg kept] unfolding vs segs by (simp add: n_def)
  next
    case False
    then obtain st' where run: "verify_lines host ?sid l ?h last_seg True (kept + int (utf8_bytes t)) (scan_from ?lim kept (scan_lines t) t) st2 = Inr st'"
      and nil: "t = [] \<longrightarrow> st' = st2"
      and full: "t \<noteq> [] \<longrightarrow> vs_total st' = n + 1 \<and> vs_uncommitted st' = Some (last_seg, kept) \<and> vs_last_segment st' = (if n = 0 then None else Some (segment_name (length blocks)))"
      using verify_torn_text [OF sc seq to lim(1), of last_seg kept] unfolding n_def by auto
    have vh: "verify_stream host j d = verify_head l ?h d (list_segments d) st'" unfolding vs segs run by simp
    show ?thesis
    proof (cases "t = []")
      case True
      have st': "vs_total st' = n" "vs_previous st' = hd_digest ?h" "vs_bytes st' = hd_bytes ?h" "\<not> contradicts (hd_active_records ?h) (vs_active_records st')"
        "vs_last_segment st' = (if n = 0 then None else Some (hd_active ?h))"
        using sc nil True h by (simp_all add: scanned_to_def contradicts_def n_def)
      show ?thesis unfolding vh verify_head_def Let_def active_seg [OF st'(5)] using st' h room True beyond kept_text tb lim shape
        by (auto simp: n_def)
    next
      case t: False
      then have st': "vs_total st' = n + 1" "vs_uncommitted st' = Some (last_seg, kept)" "vs_last_segment st' = (if n = 0 then None else Some (hd_active ?h))"
        using full h by simp_all
      show ?thesis unfolding vh verify_head_def Let_def active_seg [OF st'(3)] using st' h t False kept_text tb lim
        by simp
    qed
  qed
qed

end
