(* ===== verification/JournalRepaired.thy ===== *)
theory JournalRepaired
  imports JournalRepair JournalVerified
begin

text \<open>
  What a cut-off append leaves: the committed records still read, no append goes on behind it, and a repair gives the
  stream back, also a repair that was itself cut off.
\<close>

section \<open>A cut-off append\<close>

definition cut_log :: "host \<Rightarrow> journal \<Rightarrow> journal_limits \<Rightarrow> journal_dir \<Rightarrow> json list \<Rightarrow> bool" where
  \<comment> \<open>the records, and something behind them\<close>
  "cut_log host j l d rs = (\<exists>upd blocks extra t. cut_off host j l d upd blocks extra t \<and> concat blocks = rs \<and> (t \<noteq> [] \<or> extra))"

lemma stored_cut_off: "stored host j l d upd blocks \<Longrightarrow> cut_off host j l d upd blocks False []"
  by (auto simp: stored_def cut_off_def cut_files_def files_hold_def spare_def torn_text_def opened_def sane_limits_def good_blocks_def
      block_ok_def list_all_iff)

lemma cut_off_stored: "cut_off host j l d upd blocks False [] \<Longrightarrow> stored host j l d upd blocks"
  by (auto simp: stored_def cut_off_def cut_files_def files_hold_def spare_def)


lemma write_cut_files:
  assumes "files_hold d blocks" "blocks \<noteq> []" "length blocks < 100000000"
  shows "cut_files (write_segment (segment_name (length blocks)) t d) (spare False blocks) t"
proof -
  obtain bs b where b: "blocks = bs @ [b]" using assms(2) by (cases blocks rule: rev_cases) auto
  have old: "dget (jd_segments d) (segment_name (length blocks)) = Some (block_text b)"
    using assms(1) b by (auto simp: files_hold_def nth_append)
  have names: "list_segments (write_segment (segment_name (length blocks)) t d) = list_segments d"
    by (rule list_segments_same) (simp add: old)
  have "segment_name (Suc i) = segment_name (length blocks) \<longleftrightarrow> Suc i = length blocks" if "i < length blocks" for i
    using segment_name_inject [of "Suc i" "length blocks"] that assms(3) by simp
  then show ?thesis
    using assms(1) old b unfolding cut_files_def files_hold_def names spare_def
    by (auto simp: write_segment_def segment_text_def opt_default_def nth_append)
qed

lemma write_cut_files_rotated:
  assumes "files_hold d blocks" "length blocks + 1 < 100000000"
  shows "cut_files (write_segment (segment_name (Suc (length blocks))) t d) (spare True blocks) t"
proof -
  have l: "list_segments d = map segment_name [1..<Suc (length blocks)]" using assms(1) by (simp add: files_hold_def)
  note names = list_segments_new [OF l assms(2)] and absent = segment_absent [OF l assms(2)]
  have other: "segment_name (Suc i) \<noteq> segment_name (Suc (length blocks))" if "i < length blocks" for i
    using segment_name_inject [of "Suc i" "Suc (length blocks)"] that assms(2) by simp
  show ?thesis
    using assms(1) other absent unfolding cut_files_def files_hold_def names spare_def
    by (auto simp: write_segment_def segment_text_def opt_default_def nth_append less_Suc_eq simp del: upt_Suc)
qed

lemma next_record_valid:
  assumes st: "stored host j l d upd blocks" and sha: "sha_hex host" and time: "valid_time (at_record t)"
    and payload: "json_ok (h_num host) (ji_payload input)" and room: "int (length (concat blocks)) < lm_stream l"
  defines "r \<equiv> canon (new_record host j t input (head_at upd blocks))"
  shows "readable host r"
    "validate_committed_record host (jn_stream j) (Some (int (length (concat blocks)) + 1)) (Some (last_digest None (concat blocks))) r = Inr r"
proof -
  have o: "opened j l d" and g: "good_blocks host (jn_stream j) l blocks" using st by (auto simp: stored_def)
  have s: "sane_limits l" using o by (simp add: opened_def)
  note h = head_at_fields [OF g s]
  have seq: "hd_sequence (head_at upd blocks) = int (length (concat blocks))" "hd_digest (head_at upd blocks) = last_digest None (concat blocks)"
    by (simp_all add: head_at_def)
  have safe: "safe_integer (hd_sequence (head_at upd blocks) + 1)" using room s by (simp add: seq safe_integer_def sane_limits_def)
  have pos: "0 \<le> hd_sequence (head_at upd blocks)" by (simp add: seq)
  have dg: "hex64 x" if "hd_digest (head_at upd blocks) = Some x" for x using h(5) that by blast
  note new = new_record_valid [where host = host and j = j and t = t and input = input and h = "head_at upd blocks",
      OF sha [unfolded sha_hex_def, rule_format] time payload safe pos h(4) dg, folded r_def]
  show "readable host r"
    "validate_committed_record host (jn_stream j) (Some (int (length (concat blocks)) + 1)) (Some (last_digest None (concat blocks))) r = Inr r"
    using new(1,2) by (simp_all add: seq)
qed

lemma append_torn:
  fixes k expected
  assumes "holds_log host j l d rs" "sha_hex host" "sound_input host t input"
  defines "d' \<equiv> snd (append host j (Some k) t input expected d)"
  shows "holds_log host j l d' rs \<or> cut_log host j l d' rs"
    "0 < k \<Longrightarrow> fst (append host j (Some k) t input expected d) = Inl E_INTERRUPTED \<Longrightarrow> cut_log host j l d' rs"
proof -
  let ?cut = "fst (append host j (Some k) t input expected d) = Inl E_INTERRUPTED"
  have "(holds_log host j l d' rs \<or> cut_log host j l d' rs) \<and> (0 < k \<and> ?cut \<longrightarrow> cut_log host j l d' rs)"
  proof -
  obtain upd blocks where st: "stored host j l d upd blocks" and rs: "concat blocks = rs"
    using assms(1) by (auto simp: holds_log_def)
  let ?r = "next_record host j t input rs"
  note nr = next_record_head [of host j t input upd blocks, unfolded rs]
  let ?seg = "if rotates l blocks ?r then segment_name (length blocks + 1) else segment_name (length blocks)"
  show ?thesis
  proof (cases ?cut)
    case False
    have "d' = d"
    proof (cases "trim (ji_kind input) = []")
      case kind: False
      show ?thesis using False unfolding d'_def append_stored [OF st kind] by (auto simp: Let_def split: if_splits)
    qed (simp add: d'_def append_def)
    then show ?thesis using assms(1) False by simp
  next
    case True
    then have kind: "trim (ji_kind input) \<noteq> []" by (auto simp: append_def)
    note ap = append_stored [OF st kind, of "Some k" t expected, unfolded rs nr]
    have room: "int (length rs) < lm_stream l" and size: "int (utf8_bytes (record_line ?r)) \<le> lm_record l"
      and d': "d' = write_segment ?seg (take k (record_line ?r)) d"
      using True unfolding d'_def ap by (auto simp: Let_def split: if_splits)
    have i: "valid_time (at_record t)" "json_ok (h_num host) (ji_payload input)" using assms(3) by (simp_all add: sound_input_def)
    have o: "opened j l d" and g: "good_blocks host (jn_stream j) l blocks" and f: "files_hold d blocks" and hd: "read_head (jn_stream j) d = Inr (Some (head_at upd blocks))"
      using st by (auto simp: stored_def)
    have s: "sane_limits l" using o by (simp add: opened_def)
    have ne: "blocks \<noteq> []" using g by (simp add: good_blocks_def)
    note new = next_record_valid [OF st assms(2) i room [folded rs], unfolded nr rs]
    note cnt = good_blocks_count [OF g s]
    have line: "record_line (canon ?r) = record_line ?r" by (rule record_line_canon)
    have torn: "torn_text host (jn_stream j) l (concat blocks) (take k (record_line ?r))"
      using new size s unfolding torn_text_def rs by (auto simp: line sane_limits_def intro!: disjI2 exI [of _ "canon ?r"] exI [of _ k])
    have op: "opened j l d'" "read_head (jn_stream j) d' = Inr (Some (head_at upd blocks))"
      unfolding d' using opened_frame(2) [OF o] hd by (simp_all add: read_head_def write_segment_def)
    have bytes: "int (utf8_bytes (take k (record_line ?r))) \<le> int (utf8_bytes (record_line ?r))" using utf8_bytes_take by simp
    have c: "cut_off host j l d' upd blocks (rotates l blocks ?r) (take k (record_line ?r))"
    proof (cases "rotates l blocks ?r")
      case True
      have wide: "length blocks + 1 < 100000000"
      proof -
        have "length (add_record l blocks (canon ?r)) = length blocks + 1" using True by (simp add: add_record_def rotates_canon)
        moreover have "good_blocks host (jn_stream j) l (add_record l blocks (canon ?r))"
          using new size room by (intro good_blocks_add [OF g s]) (simp_all add: line rs)
        ultimately show ?thesis using good_blocks_count(2) [OF _ s] by metis
      qed
      have "last blocks \<noteq> []" using True by (simp add: rotates_def)
      then show ?thesis using True wide op g torn write_cut_files_rotated [OF f wide] unfolding cut_off_def d' by simp
    next
      case False
      have "int (utf8_bytes (block_text (last blocks) @ take k (record_line ?r))) \<le> lm_segment l"
        using False bytes size s by (cases "last blocks = []") (auto simp: rotates_def sane_limits_def)
      then show ?thesis using False op g torn write_cut_files [OF f ne cnt(2)] unfolding cut_off_def d' by simp
    qed
    show ?thesis
    proof (cases "rotates l blocks ?r \<or> take k (record_line ?r) \<noteq> []")
      case True
      then show ?thesis using c rs unfolding cut_log_def by blast
    next
      case False
      then have none: "rotates l blocks ?r = False" "take k (record_line ?r) = []" by blast+
      then have "k = 0" by (auto simp: record_line_def)
      moreover have "stored host j l d' upd blocks" using c none cut_off_stored by metis
      ultimately show ?thesis using rs unfolding holds_log_def by blast
    qed
  qed
  qed
  then show "holds_log host j l d' rs \<or> cut_log host j l d' rs" "0 < k \<Longrightarrow> ?cut \<Longrightarrow> cut_log host j l d' rs" by blast+
qed

lemma cut_off_view:
  assumes "cut_off host j l d upd blocks extra t"
  shows "readers_view host j l d upd blocks"
proof -
  have o: "opened j l d" and hd: "read_head (jn_stream j) d = Inr (Some (head_at upd blocks))" and g: "good_blocks host (jn_stream j) l blocks"
    and f: "cut_files d (spare extra blocks) t" and to: "torn_text host (jn_stream j) l (concat blocks) t"
    and fit: "\<not> extra \<longrightarrow> int (utf8_bytes (block_text (last blocks) @ t)) \<le> lm_segment l"
    using assms by (auto simp: cut_off_def)
  have ne: "blocks \<noteq> []" using g by (simp add: good_blocks_def)
  have all: "list_all (readable host) (blocks ! i)" if "i < length blocks" for i
    using g that chain_readable [of host "jn_stream j" 1 None "concat blocks"] by (force simp: good_blocks_def list_all_iff in_set_conv_nth)
  have whole: "int (utf8_bytes (segment_text d (segment_name (Suc i)))) \<le> lm_segment l
      \<and> text_lines (segment_text d (segment_name (Suc i))) = map canonical_json (blocks ! i) @ [[]]"
    if i: "i < length blocks" and inner: "extra \<or> Suc i < length blocks" for i
  proof -
    have t: "segment_text d (segment_name (Suc i)) = block_text (blocks ! i)"
      using f i inner unfolding cut_files_def spare_def segment_text_def opt_default_def by (auto simp: nth_append)
    have "block_ok l (blocks ! i)" using g i by (simp add: good_blocks_def list_all_length)
    then show ?thesis using text_lines_block [OF all [OF i], of "[]"] by (simp add: t block_ok_def)
  qed
  have end_text: "int (utf8_bytes (segment_text d (segment_name (length blocks)))) \<le> lm_segment l
      \<and> (\<exists>rest. text_lines (segment_text d (segment_name (length blocks))) = map canonical_json (last blocks) @ rest)" if "\<not> extra"
  proof -
    have i: "length blocks - 1 < length blocks" using ne by (cases blocks) auto
    then have "dget (jd_segments d) (segment_name (Suc (length blocks - 1))) = Some (block_text (blocks ! (length blocks - 1)) @ t)"
      using f that unfolding cut_files_def spare_def by (auto simp del: One_nat_def)
    then have t: "segment_text d (segment_name (length blocks)) = block_text (last blocks) @ t"
      using ne by (simp add: segment_text_def opt_default_def last_conv_nth)
    have lst: "list_all (readable host) (last blocks)" using all [OF i] ne by (simp add: last_conv_nth)
    have "\<exists>rest. text_lines (block_text (last blocks) @ t) = map canonical_json (last blocks) @ rest"
    proof (cases rule: torn_cases [OF to])
      case 1
      then show ?thesis using text_lines_block [OF lst] by blast
    next
      case (2 r)
      then have "list_all (readable host) (last blocks @ [r])" using lst by simp
      from text_lines_block [OF this, of "[]"] show ?thesis using 2(1) by (auto simp: record_line_def)
    qed
    then show ?thesis using fit that by (simp add: t)
  qed
  have "shows_blocks l d blocks"
    unfolding shows_blocks_def
  proof (intro exI [of _ "length (spare extra blocks)"] conjI allI impI)
    show "list_segments d = map segment_name [1..<Suc (length (spare extra blocks))]" using f by (simp add: cut_files_def)
    fix i
    assume i: "i < length blocks"
    show "int (utf8_bytes (segment_text d (segment_name (Suc i)))) \<le> lm_segment l"
    proof (cases "extra \<or> Suc i < length blocks")
      case False
      then have "Suc i = length blocks" using i by simp
      then show ?thesis using end_text False by simp
    qed (use whole [OF i] in blast)
    show "\<exists>rest. text_lines (segment_text d (segment_name (Suc i))) = map canonical_json (blocks ! i) @ rest \<and> (Suc i < length blocks \<longrightarrow> rest = [[]])"
    proof (cases "extra \<or> Suc i < length blocks")
      case True
      then show ?thesis using whole [OF i] by blast
    next
      case False
      then have "Suc i = length blocks" using i by simp
      then show ?thesis using end_text False ne by (auto simp: last_conv_nth dest: arg_cong [where f = "\<lambda>n. n - 1"])
    qed
  qed (simp add: spare_def)
  then show ?thesis using o hd g by (simp add: readers_view_def)
qed

lemma cut_log_shows: "cut_log host j l d rs \<Longrightarrow> shows_log host j l d rs"
  unfolding cut_log_def shows_log_def using cut_off_view by blast

section \<open>No append behind it\<close>

lemma check_numbers_beyond:
  assumes "n = Suc active - i" "i \<le> Suc active" "active < 99999999"
  shows "check_numbers active i (map segment_name [i..<Suc (Suc active)]) = Inl E_JOURNAL_INCOMPLETE_TAIL"
  using assms
proof (induction n arbitrary: i)
  case 0
  then have "i = Suc active" by simp
  then show ?case using 0 by (simp add: parse_segment_name)
next
  case (Suc n)
  then have le: "i \<le> active" by simp
  then have names: "[i..<Suc (Suc active)] = i # [Suc i..<Suc (Suc active)]" by (simp add: upt_conv_Cons del: upt_Suc)
  have "check_numbers active (Suc i) (map segment_name [Suc i..<Suc (Suc active)]) = Inl E_JOURNAL_INCOMPLETE_TAIL"
    by (rule Suc.IH) (use Suc.prems le in simp_all)
  then show ?case using le Suc.prems unfolding names by (simp add: parse_segment_name del: upt_Suc)
qed

lemma last_newline: "newline \<notin> set t \<Longrightarrow> t \<noteq> [] \<Longrightarrow> last (s @ t) \<noteq> newline"
  by (metis last_appendR last_in_set)

lemma cut_off_tail:
  assumes c: "cut_off host j l d upd blocks extra t" and some: "t \<noteq> [] \<or> extra"
  shows "assert_no_incomplete_tail host (jn_stream j) (head_at upd blocks) l d = Inl E_JOURNAL_INCOMPLETE_TAIL"
proof -
  let ?h = "head_at upd blocks"
  have op: "opened j l d" and g: "good_blocks host (jn_stream j) l blocks" and f: "cut_files d (spare extra blocks) t"
    and to: "torn_text host (jn_stream j) l (concat blocks) t" and wide: "extra \<longrightarrow> Suc (length blocks) < 100000000"
    using c by (auto simp: cut_off_def)
  have s: "sane_limits l" using op by (simp add: opened_def)
  note cnt = good_blocks_count [OF g s]
  have p: "parse_segment (hd_active ?h) \<noteq> None" and idx: "segment_index (hd_active ?h) = length blocks"
    using cnt by (simp_all add: head_at_def parse_segment_name segment_index_name)
  show ?thesis
  proof (cases extra)
    case True
    have names: "list_segments d = map segment_name [1..<Suc (Suc (length blocks))]" using f True by (simp add: cut_files_def spare_def del: upt_Suc)
    have "check_numbers (length blocks) 1 (list_segments d) = Inl E_JOURNAL_INCOMPLETE_TAIL"
      unfolding names by (rule check_numbers_beyond) (use wide True cnt in auto)
    moreover have "list_segments d \<noteq> []" using names by simp
    ultimately have "check_segments ?h (list_segments d) = Inl E_JOURNAL_INCOMPLETE_TAIL" using idx by (simp add: check_segments_def)
    then show ?thesis using p by (simp add: assert_no_incomplete_tail_def)
  next
    case False
    then have t: "t \<noteq> []" using some by simp
    have names: "list_segments d = map segment_name [1..<Suc (length blocks)]" using f False by (simp add: cut_files_def spare_def del: upt_Suc)
    have chk: "check_segments ?h (list_segments d) = Inr ()" unfolding names by (rule check_segments_stored [OF cnt])
    have ne: "blocks \<noteq> []" using cnt by auto
    have "length blocks - 1 < length blocks" using cnt by simp
    then have "dget (jd_segments d) (segment_name (Suc (length blocks - 1))) = Some (block_text (blocks ! (length blocks - 1)) @ t)"
      using f False unfolding cut_files_def spare_def by (auto simp del: One_nat_def)
    then have content: "dget (jd_segments d) (hd_active ?h) = Some (block_text (last blocks) @ t)"
      using cnt ne by (simp add: head_at_def last_conv_nth)
    have lst: "list_all (readable host) (last blocks)"
      using g ne chain_readable [of host "jn_stream j" 1 None "concat blocks"] by (auto simp: good_blocks_def list_all_iff)
    show ?thesis
    proof (cases "hd_sequence ?h = 0 \<or> newline \<notin> set t")
      case True
      then show ?thesis using p content t last_newline [of t "block_text (last blocks)"]
        by (auto simp: assert_no_incomplete_tail_def chk Let_def simp del: last_append)
    next
      case False
      then obtain r where r: "t = record_line r" "readable host r" and v:
        "validate_committed_record host (jn_stream j) (Some (int (length (concat blocks)) + 1)) (Some (last_digest None (concat blocks))) r = Inr r"
        using torn_cases [OF to] by metis
      have line: "last_line (block_text (last blocks) @ t) = canonical_json r"
        using last_line_block [of host "last blocks" r] lst r by (simp add: record_line_def)
      have "jget r ''sequence'' = Some (JNum (hd_sequence ?h + 1))" using committed_fields(2) [OF v] by (simp add: head_at_def)
      then have "check_last_record host (jn_stream j) ?h (canonical_json r) = Inl E_JOURNAL_INCOMPLETE_TAIL"
        using readable_parse [OF r(2)] readable_not_blank [OF r(2)] drop_cr_readable [OF r(2)]
        by (simp add: check_last_record_def Let_def is_number_def number_above_def)
      then show ?thesis using p content t False line r(1)
        by (simp add: assert_no_incomplete_tail_def chk Let_def record_line_def)
    qed
  qed
qed

lemma append_refused:
  assumes "cut_log host j l d rs" "trim (ji_kind input) \<noteq> []"
  shows "append host j torn t input expected d = (Inl E_JOURNAL_INCOMPLETE_TAIL, d)"
proof -
  obtain upd blocks extra tt where c: "cut_off host j l d upd blocks extra tt" and some: "tt \<noteq> [] \<or> extra"
    using assms(1) by (auto simp: cut_log_def)
  have "read_head (jn_stream j) d = Inr (Some (head_at upd blocks))" "read_meta (jn_stream j) d = Inr (Some l)" "resolve_limits j d = Inr l"
    using c by (auto simp: cut_off_def opened_def)
  then show ?thesis using assms(2) cut_off_tail [OF c some] by (simp add: append_def append_record_def)
qed

section \<open>The plan of a repair\<close>

lemma cut_off_segment:
  assumes c: "cut_off host j l d upd blocks extra t"
  defines "seg \<equiv> segment_name (length (spare extra blocks))"
  shows "parse_segment seg = Some (length (spare extra blocks))"
    "dget (jd_segments d) seg = Some (block_text (last (spare extra blocks)) @ t)"
    "int (utf8_bytes (block_text (last (spare extra blocks)))) \<le> lm_segment l" "extra \<Longrightarrow> last (spare extra blocks) = []"
    "filter (past (Some (length (spare extra blocks))) (length blocks)) (list_segments d) = (if extra then [seg] else [])"
proof -
  have g: "good_blocks host (jn_stream j) l blocks" and f: "cut_files d (spare extra blocks) t" and op: "opened j l d"
    and wide: "extra \<longrightarrow> Suc (length blocks) < 100000000"
    using c by (auto simp: cut_off_def)
  have s: "sane_limits l" using op by (simp add: opened_def)
  note cnt = good_blocks_count [OF g s]
  let ?bs = "spare extra blocks"
  have n: "0 < length ?bs" "length ?bs < 100000000" using cnt wide by (auto simp: spare_def)
  then show "parse_segment seg = Some (length ?bs)" by (simp add: seg_def parse_segment_name)
  have i: "length ?bs - 1 < length ?bs" using n by simp
  then have "dget (jd_segments d) (segment_name (Suc (length ?bs - 1))) = Some (block_text (?bs ! (length ?bs - 1)) @ t)"
  proof -
    have eq: "Suc (length ?bs - 1) = length ?bs" using n by simp
    have "\<forall>i < length ?bs. dget (jd_segments d) (segment_name (Suc i)) = Some (block_text (?bs ! i) @ (if Suc i = length ?bs then t else []))"
      using f unfolding cut_files_def by (rule conjunct2)
    from this [rule_format, OF i] show ?thesis by (simp only: eq if_True refl)
  qed
  then show "dget (jd_segments d) seg = Some (block_text (last ?bs) @ t)" using n by (simp add: seg_def last_conv_nth)
  have ne: "blocks \<noteq> []" using cnt by auto
  then have "block_ok l (last blocks)" using g by (simp add: good_blocks_def list_all_iff)
  then show "int (utf8_bytes (block_text (last ?bs))) \<le> lm_segment l" using s by (auto simp: spare_def block_ok_def sane_limits_def)
  show "extra \<Longrightarrow> last ?bs = []" by (simp add: spare_def)
  have names: "list_segments d = map segment_name [1..<Suc (length ?bs)]" using f by (simp add: cut_files_def)
  have p: "past (Some (length ?bs)) (length blocks) (segment_name i) \<longleftrightarrow> length blocks < i" if "i < Suc (length ?bs)" for i
    using that n by (auto simp: past_def parse_segment_name)
  show "filter (past (Some (length ?bs)) (length blocks)) (list_segments d) = (if extra then [seg] else [])"
  proof (cases extra)
    case True
    have "[1..<Suc (length ?bs)] = [1..<Suc (length blocks)] @ [Suc (length blocks)]" using True by (simp add: spare_def)
    moreover have "filter (past (Some (length ?bs)) (length blocks)) (map segment_name [1..<Suc (length blocks)]) = []"
      using p True by (auto simp: filter_empty_conv spare_def)
    moreover have "past (Some (length ?bs)) (length blocks) (segment_name (Suc (length blocks)))" using p [of "Suc (length blocks)"] True by (simp add: spare_def)
    ultimately show ?thesis unfolding names using True by (simp add: seg_def spare_def)
  next
    case False
    then show ?thesis unfolding names using p by (auto simp: filter_empty_conv spare_def)
  qed
qed

lemma plan_cut_off:
  assumes c: "cut_off host j l d upd blocks extra t" and some: "t \<noteq> [] \<or> extra"
  defines "kept \<equiv> int (utf8_bytes (block_text (last (spare extra blocks))))"
  shows "plan_repair host j d = Inr \<lparr>rp_segment = segment_name (length (spare extra blocks)), rp_original = kept + int (utf8_bytes t), rp_repaired = kept,
    rp_head = head_at upd blocks, rp_names = list_segments d\<rparr>"
proof -
  let ?seg = "segment_name (length (spare extra blocks))"
  note sg = cut_off_segment [OF c]
  have op: "opened j l d" and hd: "read_head (jn_stream j) d = Inr (Some (head_at upd blocks))" and g: "good_blocks host (jn_stream j) l blocks"
    and to: "torn_text host (jn_stream j) l (concat blocks) t"
    using c by (auto simp: cut_off_def)
  have me: "read_meta (jn_stream j) d = Inr (Some l)" and s: "sane_limits l" using op by (auto simp: opened_def)
  have idx: "segment_index (hd_active (head_at upd blocks)) = length blocks" using good_blocks_count [OF g s] by (simp add: head_at_def segment_index_name)
  have tb: "int (utf8_bytes t) \<le> lm_record l" by (rule torn_bytes [OF to])
  have lim: "0 < lm_record l" "lm_record l \<le> lm_segment l" using s by (auto simp: sane_limits_def)
  have v: "vf_status (verify_stream host j d) = Incomplete_tail"
    "vf_error (verify_stream host j d) = Some \<lparr>ve_code = E_JOURNAL_INCOMPLETE_TAIL, ve_segment = Some ?seg, ve_sequence = None, ve_offset = Some kept\<rparr>"
    using verify_cut_off [OF c] some by (auto simp: incomplete_tail_def kept_def)
  have orphans: "\<not> list_ex (\<lambda>x. past (Some (length (spare extra blocks))) (length blocks) x
      \<and> lm_segment l + lm_record l < int (utf8_bytes (segment_text d x))) (list_segments d)"
  proof
    assume "list_ex (\<lambda>x. past (Some (length (spare extra blocks))) (length blocks) x
      \<and> lm_segment l + lm_record l < int (utf8_bytes (segment_text d x))) (list_segments d)"
    then obtain x where "x \<in> set (filter (past (Some (length (spare extra blocks))) (length blocks)) (list_segments d))"
      "lm_segment l + lm_record l < int (utf8_bytes (segment_text d x))"
      by (auto simp: list_ex_iff)
    then have "extra" "x = ?seg" unfolding sg(5) by (auto split: if_splits)
    then have "segment_text d x = t" using sg(2,4) by (simp add: segment_text_def opt_default_def)
    then show False using \<open>lm_segment l + lm_record l < int (utf8_bytes (segment_text d x))\<close> tb lim by simp
  qed
  have orig: "int (utf8_bytes (block_text (last (spare extra blocks)) @ t)) = kept + int (utf8_bytes t)" by (simp add: kept_def)
  have fits: "\<not> (kept + int (utf8_bytes t) - kept < 0 \<or> (if b then lm_segment l + lm_record l else lm_record l) < kept + int (utf8_bytes t) - kept
      \<or> lm_segment l + lm_record l < kept + int (utf8_bytes t))" for b
    using tb lim sg(3) by (simp add: kept_def)
  show ?thesis
    unfolding plan_repair_def Let_def v(1,2) using me hd sg(1,2) idx fits orphans orig by simp
qed

section \<open>The writes of a repair\<close>

lemma take_bytes_append: "take_bytes (int (utf8_bytes s) + 0) (s @ t) = s @ take_bytes 0 t" "take_bytes 0 t = []"
proof -
  show "take_bytes 0 t = []" for t by (cases t) auto
  show "take_bytes (int (utf8_bytes s) + 0) (s @ t) = s @ take_bytes 0 t" by (induction s) auto
qed

lemma take_bytes_prefix: "take_bytes (int (utf8_bytes s)) (s @ t) = s"
  using take_bytes_append(1) [of s t] by (simp add: take_bytes_append(2))

definition cut_plan :: "journal_dir \<Rightarrow> string \<Rightarrow> json list list \<Rightarrow> bool \<Rightarrow> string \<Rightarrow> repair_plan" where
  "cut_plan d upd blocks extra t = (let kept = int (utf8_bytes (block_text (last (spare extra blocks)))) in
     \<lparr>rp_segment = segment_name (length (spare extra blocks)), rp_original = kept + int (utf8_bytes t), rp_repaired = kept,
       rp_head = head_at upd blocks, rp_names = list_segments d\<rparr>)"

lemma cut_writes:
  fixes host j e d upd blocks extra t nonce
  assumes c: "cut_off host j l d upd blocks extra t"
  defines "p \<equiv> cut_plan d upd blocks extra t" and "seg \<equiv> segment_name (length (spare extra blocks))"
  shows "repair_writes host j e p nonce =
    [\<lambda>d. d\<lparr>jd_quarantine := dput (backup_name e seg nonce) (segment_text d seg) (jd_quarantine d)\<rparr>,
     put_receipt (intent_of e nonce) (repair_intent host j e p nonce), truncate_segment seg (int (utf8_bytes (block_text (last (spare extra blocks)))))]
    @ (if extra then [remove_segment seg, copy_orphan e seg, remove_segment seg] else [])
    @ [put_receipt (receipt_of e nonce) (seal_receipt host (repair_material j e p nonce)), \<lambda>d. d\<lparr>jd_receipts := ddel (intent_of e nonce) (jd_receipts d)\<rparr>]"
proof -
  note sg = cut_off_segment [OF c]
  have g: "good_blocks host (jn_stream j) l blocks" and op: "opened j l d" using c by (auto simp: cut_off_def)
  have s: "sane_limits l" using op by (simp add: opened_def)
  have idx: "segment_index (hd_active (head_at upd blocks)) = length blocks" using good_blocks_count [OF g s] by (simp add: head_at_def segment_index_name)
  have p: "rp_segment p = seg" "rp_repaired p = int (utf8_bytes (block_text (last (spare extra blocks))))" "rp_head p = head_at upd blocks" "rp_names p = list_segments d"
    by (simp_all add: p_def cut_plan_def seg_def Let_def)
  have len: "length blocks < length (spare extra blocks) \<longleftrightarrow> extra" by (simp add: spare_def)
  show ?thesis
    unfolding repair_writes_def Let_def p idx using sg(1,4,5) len by (cases extra) (simp_all add: seg_def)
qed

definition repair_phase :: "bool \<Rightarrow> nat \<Rightarrow> nat" where
  \<comment> \<open>0: nothing, 1: the backup, 2: the intent, 3: truncated, 4: the segments are done, 5: the receipt, 6: the intent is gone\<close>
  "repair_phase extra k = (if k \<le> 3 then (if k = 3 \<and> \<not> extra then 4 else k)
     else if extra then (if k \<le> 6 then 4 else if k = 7 then 5 else 6) else if k = 4 then 5 else 6)"

lemma run_cut_writes:
  fixes host j e d upd blocks extra t nonce k
  assumes c: "cut_off host j l d upd blocks extra t"
  defines "p \<equiv> cut_plan d upd blocks extra t" and "seg \<equiv> segment_name (length (spare extra blocks))" and "b \<equiv> last (spare extra blocks)"
    and "i \<equiv> repair_phase extra k"
  assumes d': "d' = run_writes (take k (repair_writes host j e p nonce)) d"
  shows "jd_meta d' = jd_meta d" "jd_head d' = jd_head d"
    "jd_segments d' = (if i \<le> 2 then jd_segments d else if i = 3 then dput seg [] (jd_segments d)
      else if extra then ddel seg (dput seg [] (jd_segments d)) else dput seg (block_text b) (jd_segments d))"
    "jd_receipts d' = (let r1 = dput (intent_of e nonce) (Some (repair_intent host j e p nonce)) (jd_receipts d);
        r2 = dput (receipt_of e nonce) (Some (seal_receipt host (repair_material j e p nonce))) r1
      in if i \<le> 1 then jd_receipts d else if i \<le> 4 then r1 else if i = 5 then r2 else ddel (intent_of e nonce) r2)"
    "jd_quarantine d' = (if i = 0 then jd_quarantine d else dput (backup_name e seg nonce) (block_text b @ t) (jd_quarantine d))"
proof -
  note sg = cut_off_segment [OF c]
  have cont: "segment_text d seg = block_text b @ t" "dget (jd_segments d) seg = Some (block_text b @ t)"
    using sg(2) by (simp_all add: segment_text_def opt_default_def seg_def b_def)
  have nil: "extra \<Longrightarrow> b = []" using sg(4) by (simp add: b_def)
  have gone: "ddel seg (ddel seg x) = ddel seg x" for x :: "string dir" by (simp add: ddel_def)
  note w = cut_writes [OF c, of e nonce, folded p_def seg_def b_def]
  have "jd_meta d' = jd_meta d \<and> jd_head d' = jd_head d \<and> jd_segments d' = (if i \<le> 2 then jd_segments d else if i = 3 then dput seg [] (jd_segments d)
      else if extra then ddel seg (dput seg [] (jd_segments d)) else dput seg (block_text b) (jd_segments d))
    \<and> jd_receipts d' = (let r1 = dput (intent_of e nonce) (Some (repair_intent host j e p nonce)) (jd_receipts d);
        r2 = dput (receipt_of e nonce) (Some (seal_receipt host (repair_material j e p nonce))) r1
      in if i \<le> 1 then jd_receipts d else if i \<le> 4 then r1 else if i = 5 then r2 else ddel (intent_of e nonce) r2)
    \<and> jd_quarantine d' = (if i = 0 then jd_quarantine d else dput (backup_name e seg nonce) (block_text b @ t) (jd_quarantine d))"
  proof (cases extra)
    case True
    consider "k = 0" | "k = 1" | "k = 2" | "k = 3" | "k = 4" | "k = 5" | "k = 6" | "k = 7" | "8 \<le> k" by linarith
    then show ?thesis
      unfolding d' w i_def using True nil cont gone
      by cases (simp_all add: run_writes_def repair_phase_def put_receipt_def truncate_segment_def remove_segment_def copy_orphan_def
          segment_text_def opt_default_def take_bytes_append(2) Let_def numeral_eq_Suc)
  next
    case False
    consider "k = 0" | "k = 1" | "k = 2" | "k = 3" | "k = 4" | "5 \<le> k" by linarith
    then show ?thesis
      unfolding d' w i_def using False cont gone
      by cases (simp_all add: run_writes_def repair_phase_def put_receipt_def truncate_segment_def remove_segment_def copy_orphan_def
          segment_text_def opt_default_def take_bytes_prefix Let_def numeral_eq_Suc)
  qed
  then show "jd_meta d' = jd_meta d" "jd_head d' = jd_head d"
    "jd_segments d' = (if i \<le> 2 then jd_segments d else if i = 3 then dput seg [] (jd_segments d)
      else if extra then ddel seg (dput seg [] (jd_segments d)) else dput seg (block_text b) (jd_segments d))"
    "jd_receipts d' = (let r1 = dput (intent_of e nonce) (Some (repair_intent host j e p nonce)) (jd_receipts d);
        r2 = dput (receipt_of e nonce) (Some (seal_receipt host (repair_material j e p nonce))) r1
      in if i \<le> 1 then jd_receipts d else if i \<le> 4 then r1 else if i = 5 then r2 else ddel (intent_of e nonce) r2)"
    "jd_quarantine d' = (if i = 0 then jd_quarantine d else dput (backup_name e seg nonce) (block_text b @ t) (jd_quarantine d))"
    by blast+
qed

section \<open>What each phase leaves\<close>

lemma read_head_same: "jd_head d' = jd_head d \<Longrightarrow> read_head sid d' = read_head sid d"
  by (simp add: read_head_def)

lemma read_meta_same: "jd_meta d' = jd_meta d \<Longrightarrow> read_meta sid d' = read_meta sid d"
  by (simp add: read_meta_def)

lemma opened_same: "jd_meta d' = jd_meta d \<Longrightarrow> jd_head d' = jd_head d \<Longrightarrow> opened j l d' = opened j l d"
  by (simp only: opened_def resolve_limits_def read_meta_same [of d' d] read_head_same [of d' d])

lemma list_segments_cong: "jd_segments d' = jd_segments d \<Longrightarrow> list_segments d' = list_segments d"
  by (simp add: list_segments_def)

lemma list_segments_dput: "dget (jd_segments d) seg \<noteq> None \<Longrightarrow> jd_segments d' = dput seg x (jd_segments d) \<Longrightarrow> list_segments d' = list_segments d"
  by (simp add: list_segments_def dnames_dput set_dnames)

lemma dnames_ddel: "dnames (ddel k d) = filter (\<lambda>x. x \<noteq> k) (dnames d)"
  by (induction d) (auto simp: dnames_def ddel_def)

lemma list_segments_ddel: "jd_segments d' = ddel seg (jd_segments d) \<Longrightarrow> list_segments d' = filter (\<lambda>x. x \<noteq> seg) (list_segments d)"
  by (simp add: list_segments_def dnames_ddel filter_sort conj_commute)

lemma cut_off_phase:
  assumes c: "cut_off host j l d upd blocks extra t" and same: "jd_meta d' = jd_meta d" "jd_head d' = jd_head d"
  defines "seg \<equiv> segment_name (length (spare extra blocks))" and "b \<equiv> last (spare extra blocks)"
  shows "jd_segments d' = jd_segments d \<Longrightarrow> cut_off host j l d' upd blocks extra t"
    "extra \<Longrightarrow> jd_segments d' = dput seg [] (jd_segments d) \<Longrightarrow> cut_off host j l d' upd blocks extra []"
    "extra \<Longrightarrow> jd_segments d' = ddel seg (dput seg [] (jd_segments d)) \<Longrightarrow> stored host j l d' upd blocks"
    "\<not> extra \<Longrightarrow> jd_segments d' = dput seg (block_text b) (jd_segments d) \<Longrightarrow> stored host j l d' upd blocks"
proof -
  note sg = cut_off_segment [OF c]
  have op: "opened j l d" and hd: "read_head (jn_stream j) d = Inr (Some (head_at upd blocks))" and g: "good_blocks host (jn_stream j) l blocks"
    and f: "cut_files d (spare extra blocks) t" and wide: "extra \<longrightarrow> last blocks \<noteq> [] \<and> Suc (length blocks) < 100000000"
    using c by (auto simp: cut_off_def)
  have s: "sane_limits l" using op by (simp add: opened_def)
  note cnt = good_blocks_count [OF g s]
  have op': "opened j l d'" and hd': "read_head (jn_stream j) d' = Inr (Some (head_at upd blocks))"
    using op hd opened_same [OF same] read_head_same [OF same(2)] by simp_all
  have inj: "segment_name (Suc i) = seg \<longleftrightarrow> Suc i = length (spare extra blocks)" if "i < length (spare extra blocks)" for i
    using segment_name_inject [of "Suc i" "length (spare extra blocks)"] that wide cnt by (auto simp: seg_def spare_def)
  show "jd_segments d' = jd_segments d \<Longrightarrow> cut_off host j l d' upd blocks extra t"
    using c op' hd' list_segments_cong [of d' d] by (simp add: cut_off_def cut_files_def)
  have there: "dget (jd_segments d) seg \<noteq> None" using sg(2) by (simp add: seg_def)
  show "cut_off host j l d' upd blocks extra []" if x: "extra" and d': "jd_segments d' = dput seg [] (jd_segments d)"
  proof -
    have "cut_files d' (spare extra blocks) []"
      using f inj list_segments_dput [OF there d'] x unfolding cut_files_def d' by (auto simp: spare_def nth_append)
    then show ?thesis using x op' hd' g wide s by (simp add: cut_off_def torn_text_def sane_limits_def)
  qed
  show "stored host j l d' upd blocks" if x: "extra" and d': "jd_segments d' = ddel seg (dput seg [] (jd_segments d))"
  proof -
    define d1 where "d1 = d\<lparr>jd_segments := dput seg [] (jd_segments d)\<rparr>"
    have "list_segments d1 = list_segments d" by (rule list_segments_dput [OF there]) (simp add: d1_def)
    then have l1: "list_segments d1 = map segment_name [1..<Suc (length blocks)] @ [seg]"
      using f x by (simp add: cut_files_def spare_def seg_def)
    have l2: "list_segments d' = filter (\<lambda>x. x \<noteq> seg) (list_segments d1)" by (rule list_segments_ddel) (simp add: d' d1_def)
    have l3: "list_segments d' = map segment_name [1..<Suc (length blocks)]"
    proof -
      have "\<forall>x \<in> set (map segment_name [1..<Suc (length blocks)]). x \<noteq> seg"
      proof
        fix x
        assume "x \<in> set (map segment_name [1..<Suc (length blocks)])"
        then obtain i where "x = segment_name i" "1 \<le> i" "i \<le> length blocks" by auto
        then show "x \<noteq> seg" using inj [of "i - 1"] x by (auto simp: spare_def)
      qed
      then show ?thesis unfolding l2 l1 filter_append by (simp add: filter_True del: upt_Suc)
    qed
    have "dget (jd_segments d') (segment_name (Suc i)) = Some (block_text (blocks ! i))" if i: "i < length blocks" for i
      using f inj [of i] x i unfolding cut_files_def d' by (auto simp: spare_def nth_append)
    then have "files_hold d' blocks" using l3 by (simp add: files_hold_def)
    then show ?thesis using op' hd' g by (simp add: stored_def)
  qed
  show "stored host j l d' upd blocks" if x: "\<not> extra" and d': "jd_segments d' = dput seg (block_text b) (jd_segments d)"
  proof -
    have ne: "blocks \<noteq> []" using cnt by auto
    have "dget (jd_segments d') (segment_name (Suc i)) = Some (block_text (blocks ! i))" if i: "i < length blocks" for i
    proof (cases "Suc i = length blocks")
      case True
      then have "i = length blocks - 1" by simp
      then have "blocks ! i = last blocks" using ne by (simp add: last_conv_nth)
      then show ?thesis using inj [of i] x i True unfolding d' by (simp add: spare_def b_def)
    next
      case False
      then show ?thesis using f inj [of i] x i unfolding cut_files_def d' by (auto simp: spare_def)
    qed
    then have "files_hold d' blocks" using f list_segments_dput [OF there d'] x by (simp add: files_hold_def cut_files_def spare_def)
    then show ?thesis using op' hd' g by (simp add: stored_def)
  qed
qed

section \<open>A repair that ends\<close>

definition no_pending :: "journal_dir \<Rightarrow> bool" where
  "no_pending d = (\<not> list_ex intent_name (dnames (jd_receipts d)))"

definition hex_nonce :: "repair_env \<Rightarrow> bool" where
  \<comment> \<open>six random bytes in hexadecimal\<close>
  "hex_nonce e = (\<forall>P. length (re_nonce e P) = 12 \<and> list_all (\<lambda>c. c \<noteq> CHR ''.'' \<and> c \<noteq> CHR ''/'') (re_nonce e P))"

lemma recover_nothing: "no_pending d \<Longrightarrow> recover_pending_repair_intents host j e d = d"
  by (simp add: no_pending_def recover_pending_repair_intents_def list_ex_iff filter_empty_conv)

lemma verify_nothing: "no_pending d \<Longrightarrow> verify host j e d = (verify_stream host j d, d)"
  by (simp add: no_pending_def verify_def)

lemma repair_cut_off:
  assumes c: "cut_off host j l d upd blocks extra t" and some: "t \<noteq> [] \<or> extra" and quiet: "no_pending d"
  defines "seg \<equiv> segment_name (length (spare extra blocks))" and "p \<equiv> cut_plan d upd blocks extra t"
  shows "repair_incomplete_tail host j e (Some k) d = (Inl E_INTERRUPTED, run_writes (take k (repair_writes host j e p (repair_nonce e seg d))) d)"
    "fst (repair_incomplete_tail host j e None d) = Inr (seal_receipt host (repair_material j e p (repair_nonce e seg d)))"
    "snd (repair_incomplete_tail host j e None d) = run_writes (take 8 (repair_writes host j e p (repair_nonce e seg d))) d"
proof -
  have p: "plan_repair host j d = Inr p" using plan_cut_off [OF c some] by (simp add: p_def cut_plan_def Let_def)
  have sg: "rp_segment p = seg" by (simp add: p_def cut_plan_def seg_def Let_def)
  have there: "dget (jd_segments d) seg \<noteq> None" using cut_off_segment(2) [OF c] by (simp add: seg_def)
  have whole: "take 8 (repair_writes host j e p nonce) = repair_writes host j e p nonce" for nonce
    unfolding cut_writes [OF c, of e nonce, folded p_def] by (cases extra) simp_all
  show "repair_incomplete_tail host j e (Some k) d = (Inl E_INTERRUPTED, run_writes (take k (repair_writes host j e p (repair_nonce e seg d))) d)"
    "fst (repair_incomplete_tail host j e None d) = Inr (seal_receipt host (repair_material j e p (repair_nonce e seg d)))"
    "snd (repair_incomplete_tail host j e None d) = run_writes (take 8 (repair_writes host j e p (repair_nonce e seg d))) d"
    using p there by (auto simp: repair_incomplete_tail_def recover_nothing [OF quiet] sg whole Let_def)
qed

lemma phase_stream:
  assumes c: "cut_off host j l d upd blocks extra t"
    and d': "d' = run_writes (take k (repair_writes host j e (cut_plan d upd blocks extra t) nonce)) d"
  shows "repair_phase extra k \<le> 2 \<Longrightarrow> cut_off host j l d' upd blocks extra t" "repair_phase extra k = 3 \<Longrightarrow> cut_off host j l d' upd blocks extra []"
    "4 \<le> repair_phase extra k \<Longrightarrow> stored host j l d' upd blocks"
proof -
  note w = run_cut_writes [OF c d']
  note ph = cut_off_phase [OF c w(1,2)]
  show "repair_phase extra k \<le> 2 \<Longrightarrow> cut_off host j l d' upd blocks extra t" using ph(1) w(3) by simp
  show "repair_phase extra k = 3 \<Longrightarrow> cut_off host j l d' upd blocks extra []"
  proof -
    assume i: "repair_phase extra k = 3"
    then have extra by (auto simp: repair_phase_def split: if_splits)
    with i show ?thesis using ph(2) w(3) by simp
  qed
  show "4 \<le> repair_phase extra k \<Longrightarrow> stored host j l d' upd blocks" using ph(3,4) w(3) by (cases extra) simp_all
qed

lemma receipt_not_intent: "receipt_of e nonce \<noteq> intent_of e nonce"
proof -
  have "length (receipt_of e nonce) \<noteq> length (intent_of e nonce)" by (simp add: receipt_of_def intent_of_def)
  then show ?thesis by metis
qed

lemma repaired:
  fixes e rc
  assumes c: "cut_off host j l d upd blocks extra t" and some: "t \<noteq> [] \<or> extra" and quiet: "no_pending d"
  defines "seg \<equiv> segment_name (length (spare extra blocks))"
  defines "nonce \<equiv> repair_nonce e seg d"
  shows "stored host j l (snd (repair_incomplete_tail host j e None d)) upd blocks"
    "dget (jd_quarantine (snd (repair_incomplete_tail host j e None d))) (backup_name e seg nonce) = Some (segment_text d seg)"
    "fst (repair_incomplete_tail host j e None d) = Inr rc
      \<Longrightarrow> dget (jd_receipts (snd (repair_incomplete_tail host j e None d))) (receipt_of e nonce) = Some (Some rc)"
proof -
  note r = repair_cut_off [OF c some quiet, of e, folded seg_def nonce_def]
  have ph: "repair_phase extra 8 = 6" by (simp add: repair_phase_def)
  note w = run_cut_writes [OF c r(3), folded seg_def]
  show "stored host j l (snd (repair_incomplete_tail host j e None d)) upd blocks" using phase_stream(3) [OF c r(3)] ph by simp
  show "dget (jd_quarantine (snd (repair_incomplete_tail host j e None d))) (backup_name e seg nonce) = Some (segment_text d seg)"
    using w(5) ph cut_off_segment(2) [OF c] by (simp add: segment_text_def opt_default_def seg_def)
  show "fst (repair_incomplete_tail host j e None d) = Inr rc
      \<Longrightarrow> dget (jd_receipts (snd (repair_incomplete_tail host j e None d))) (receipt_of e nonce) = Some (Some rc)"
    using w(4) ph r(2) receipt_not_intent by (simp add: Let_def)
qed

section \<open>A repair cut off\<close>

lemma names_kinds:
  assumes "hex_nonce e"
  shows "intent_name (intent_of e (re_nonce e P))" "\<not> intent_name (receipt_of e (re_nonce e P))"
proof -
  let ?n = "re_nonce e P"
  show "intent_name (intent_of e ?n)" unfolding intent_name_def ends_with_def starts_with_def intent_of_def by simp
  have len: "length ?n = 12" and dots: "CHR ''.'' \<notin> set ?n" using assms by (auto simp: hex_nonce_def list_all_iff)
  have "length (rev ?n) = Suc (Suc (Suc (Suc (Suc (Suc (Suc 5))))))" using len by simp
  then obtain c1 c2 c3 c4 c5 c6 c7 r where n: "rev ?n = c1 # c2 # c3 # c4 # c5 # c6 # c7 # r" unfolding length_Suc_conv by blast
  have "c7 \<in> set (rev ?n)" unfolding n by simp
  then have "c7 \<noteq> CHR ''.''" using dots by auto
  then have "\<not> ends_with ''.intent.json'' (receipt_of e ?n)"
    unfolding ends_with_def starts_with_def receipt_of_def by (simp add: n)
  then show "\<not> intent_name (receipt_of e ?n)" by (simp add: intent_name_def)
qed

lemma only_pending:
  fixes seg v rc
  assumes quiet: "no_pending d" and hex: "hex_nonce e" and i: "2 \<le> i" "i \<le> (5 :: nat)"
  defines "nonce \<equiv> repair_nonce e seg d"
  assumes r: "jd_receipts d1 = (let r1 = dput (intent_of e nonce) (Some v) (jd_receipts d); r2 = dput (receipt_of e nonce) (Some rc) r1
      in if i \<le> 1 then jd_receipts d else if i \<le> 4 then r1 else if i = 5 then r2 else ddel (intent_of e nonce) r2)"
  shows "filter intent_name (dnames (jd_receipts d1)) = [intent_of e nonce]" "dget (jd_receipts d1) (intent_of e nonce) = Some (Some v)"
proof -
  note kinds = names_kinds [OF hex, of "\<lambda>n. dget (jd_quarantine d) (backup_name e seg n) \<noteq> None
     \<or> dget (jd_receipts d) (receipt_of e n) \<noteq> None \<or> dget (jd_receipts d) (intent_of e n) \<noteq> None", folded repair_nonce_def, folded nonce_def]
  have nil: "filter intent_name (dnames (jd_receipts d)) = []" using quiet by (simp add: no_pending_def list_ex_iff filter_empty_conv)
  then have absent: "intent_of e nonce \<notin> set (dnames (jd_receipts d))" using kinds(1) by (auto simp: filter_empty_conv)
  show "filter intent_name (dnames (jd_receipts d1)) = [intent_of e nonce]"
    using i nil absent kinds unfolding r by (auto simp: Let_def dnames_dput)
  show "dget (jd_receipts d1) (intent_of e nonce) = Some (Some v)"
    using i unfolding r by (auto simp: Let_def receipt_not_intent [symmetric])
qed

lemma intent_members:
  fixes host j e d upd blocks extra t nonce
  defines "v \<equiv> repair_intent host j e (cut_plan d upd blocks extra t) nonce"
  shows "jget v ''store_kind'' = Some (JStr ''journal_repair_intent'')" "jget v ''stream_id'' = Some (JStr (jn_stream j))"
    "jget v ''segment'' = Some (JStr (segment_name (length (spare extra blocks))))" "jget v ''repaired_at'' = Some (jiso (re_repaired e))"
    "jget v ''repaired_bytes'' = Some (JNum (int (utf8_bytes (block_text (last (spare extra blocks))))))"
    "\<exists>sha. jget v ''receipt_sha256'' = Some (JStr sha)" "jget v ''final_receipt_path'' = Some (JStr (receipt_path e (receipt_of e nonce)))"
  unfolding v_def repair_intent_def seal_receipt_def repair_material_def receipt_material_def cut_plan_def Let_def
  by (simp_all add: jget_def)

lemma no_orphans:
  assumes "files_hold d blocks" "length blocks < 100000000" "length blocks \<le> k"
  shows "quarantine_orphans e (Some k) (length blocks) (list_segments d) d' = d'"
proof -
  have "\<not> past (Some k) (length blocks) (segment_name i)" if "1 \<le> i" "i \<le> length blocks" for i
    using that assms(2,3) by (simp add: past_def parse_segment_name)
  then have "filter (past (Some k) (length blocks)) (list_segments d) = []"
    using assms(1) by (auto simp: files_hold_def filter_empty_conv simp del: upt_Suc)
  then show ?thesis by (simp add: quarantine_orphans_def)
qed

lemma intent_numbers:
  fixes host j e p nonce
  defines "v \<equiv> repair_intent host j e p nonce"
  shows "jget v ''original_bytes'' = Some (JNum (rp_original p))" "jget v ''truncated_bytes'' = Some (JNum (rp_original p - rp_repaired p))"
    "jget v ''repaired_bytes'' = Some (JNum (rp_repaired p))" "jget v ''repaired_at'' = Some (jiso (re_repaired e))"
    "jget v ''backup_file'' = Some (JStr (quarantine_path e (backup_name e (rp_segment p) nonce)))"
    "jget v ''head_sequence'' = Some (JNum (hd_sequence (rp_head p)))" "jget v ''head_digest'' = Some (digest_json (hd_digest (rp_head p)))"
  unfolding v_def repair_intent_def seal_receipt_def repair_material_def receipt_material_def
  by (simp_all add: jget_def)

lemma nullish_simps [simp]: "nullish d (Some (JStr s)) = JStr s" "nullish d (Some (JNum n)) = JNum n" "nullish d (Some (jiso t)) = jiso t"
  "nullish JNull (Some (digest_json x)) = digest_json x"
  by (simp_all add: nullish_def jiso_def digest_json_def split: option.splits)

lemma intent_material:
  fixes host j e e' p nonce
  defines "v \<equiv> repair_intent host j e p nonce"
  shows "receipt_material (JStr (jn_stream j)) (nullish (jiso (re_repaired e')) (jget v ''repaired_at'')) (JStr (rp_segment p))
      (nullish (JNum 0) (jget v ''original_bytes'')) (nullish JNull (jget v ''repaired_bytes'')) (nullish (JNum 0) (jget v ''truncated_bytes''))
      (nullish (JStr []) (jget v ''backup_file'')) (nullish (JNum 0) (jget v ''head_sequence'')) (nullish JNull (jget v ''head_digest''))
    = repair_material j e p nonce"
  unfolding v_def intent_numbers nullish_simps repair_material_def by (rule refl)

lemma receipt_file_path: "CHR ''/'' \<notin> set f \<Longrightarrow> f \<noteq> [] \<Longrightarrow> receipt_file e (receipt_path e f) = Some f"
  by (simp add: receipt_file_def receipt_path_def Let_def starts_with_def)

lemma dec_int_plain: "CHR ''/'' \<notin> set (dec_int i)"
proof -
  have "\<not> is_digit (CHR ''/'')" by (simp add: is_digit_def)
  then have "CHR ''/'' \<notin> set (dec_nat n)" for n using dec_nat_digits [of n] by (metis in_set_conv_nth list_all_length)
  then show ?thesis by (simp add: dec_int_def)
qed

lemma receipt_of_plain: "hex_nonce e \<Longrightarrow> CHR ''/'' \<notin> set (receipt_of e (re_nonce e P)) \<and> receipt_of e (re_nonce e P) \<noteq> []"
  using dec_int_plain by (simp add: hex_nonce_def receipt_of_def list_all_iff) blast

lemma finish_cut:
  fixes host j e e' d upd blocks extra t P da name
  defines "nonce \<equiv> re_nonce e P" and "p \<equiv> cut_plan d upd blocks extra t" and "seg \<equiv> segment_name (length (spare extra blocks))"
  defines "v \<equiv> repair_intent host j e p nonce"
  defines "da' \<equiv> (if extra then remove_segment seg da else da)"
  assumes hex: "hex_nonce e" and path: "re_path e' = re_path e" and st: "stored host j l da' upd blocks" and wide: "length (spare extra blocks) < 100000000"
    and b: "extra \<longrightarrow> last (spare extra blocks) = []"
  defines "db \<equiv> finish_intent host j e' v name seg (receipt_path e (receipt_of e nonce)) (length blocks) da"
  shows "stored host j l db upd blocks"
    "name \<noteq> receipt_of e nonce \<Longrightarrow> dget (jd_receipts da) (receipt_of e nonce) \<in> {None, Some (Some (seal_receipt host (repair_material j e p nonce)))}
      \<Longrightarrow> dget (jd_receipts db) (receipt_of e nonce) = Some (Some (seal_receipt host (repair_material j e p nonce)))"
proof -
  have f: "files_hold da' blocks" and g: "good_blocks host (jn_stream j) l blocks" and op: "opened j l da'" and hd: "read_head (jn_stream j) da' = Inr (Some (head_at upd blocks))"
    using st by (auto simp: stored_def)
  have le: "length blocks \<le> length (spare extra blocks)" by (simp add: spare_def)
  have sg: "rp_segment p = seg" by (simp add: p_def cut_plan_def seg_def Let_def)
  have target: "parse_segment seg = Some (length (spare extra blocks))" using wide by (simp add: seg_def parse_segment_name)
  note mem = intent_members [of host j e d upd blocks extra t nonce, folded p_def v_def]
  have more: "(case Some (length (spare extra blocks)) of Some k \<Rightarrow> length blocks < k | None \<Rightarrow> False) \<and> jget v ''repaired_bytes'' = Some (JNum 0) \<longleftrightarrow> extra"
    using b mem(5) by (auto simp: spare_def)
  have orph: "quarantine_orphans e' (Some (length (spare extra blocks))) (length blocks) (list_segments da') da' = da'"
    by (rule no_orphans [OF f]) (use wide le in auto)
  have rf: "receipt_file e' (receipt_path e (receipt_of e nonce)) = Some (receipt_of e nonce)"
    using receipt_file_path [of "receipt_of e nonce" e'] receipt_of_plain [OF hex, of P] path by (simp add: receipt_path_def nonce_def)
  have db: "db = (let d3 = (if dget (jd_receipts da') (receipt_of e nonce) = None
      then da'\<lparr>jd_receipts := dput (receipt_of e nonce) (Some (seal_receipt host (repair_material j e p nonce))) (jd_receipts da')\<rparr> else da')
      in d3\<lparr>jd_receipts := ddel name (jd_receipts d3)\<rparr>)"
    unfolding db_def finish_intent_def target more Let_def da'_def [symmetric] orph rf
    using intent_material [where host = host and j = j and e = e and e' = e' and p = p and nonce = nonce, folded v_def, unfolded sg] by simp
  have same: "jd_meta db = jd_meta da'" "jd_head db = jd_head da'" "jd_segments db = jd_segments da'" unfolding db Let_def by simp_all
  have "files_hold db blocks" using f list_segments_cong [OF same(3)] by (simp add: files_hold_def same)
  then show "stored host j l db upd blocks"
    using op hd g opened_same [OF same(1,2)] read_head_same [OF same(2)] by (simp add: stored_def)
  have "jd_receipts da' = jd_receipts da" by (simp add: da'_def remove_segment_def)
  then show "name \<noteq> receipt_of e nonce \<Longrightarrow> dget (jd_receipts da) (receipt_of e nonce) \<in> {None, Some (Some (seal_receipt host (repair_material j e p nonce)))}
      \<Longrightarrow> dget (jd_receipts db) (receipt_of e nonce) = Some (Some (seal_receipt host (repair_material j e p nonce)))"
    unfolding db Let_def by auto
qed

lemma dput_same: "dget s k = Some x \<Longrightarrow> dput k x s = s"
  by (induction s) (auto simp: dget_Cons)

lemma ddel_absent: "dget s k = None \<Longrightarrow> ddel k s = s"
  by (induction s) (auto simp: dget_Cons ddel_def)

lemma verify_one_intent:
  assumes "filter intent_name (dnames (jd_receipts d)) = [f]"
  shows "snd (verify host j e d) = recover_intent host j e f d"
proof -
  have "list_ex intent_name (dnames (jd_receipts d))" using assms by (metis filter_False list.distinct(1) list_ex_iff)
  then show ?thesis by (simp add: verify_def recover_pending_repair_intents_def assms Let_def)
qed

lemma recover_cut:
  fixes host j e e' d upd blocks extra t nonce da
  defines "p \<equiv> cut_plan d upd blocks extra t" and "seg \<equiv> segment_name (length (spare extra blocks))"
  defines "v \<equiv> repair_intent host j e p nonce"
  assumes v: "dget (jd_receipts da) f = Some (Some v)" and hd: "read_head (jn_stream j) da = Inr (Some (head_at u bs))" and n: "length bs < 100000000"
  shows "recover_intent host j e' f da = (if truncation_done host (jget v ''repaired_bytes'') seg da
      then finish_intent host j e' v f seg (receipt_path e (receipt_of e nonce)) (length bs) da else da)"
proof -
  note mem = intent_members [of host j e d upd blocks extra t nonce, folded p_def v_def]
  obtain sha where sha: "jget v ''receipt_sha256'' = Some (JStr sha)" using mem(6) by blast
  have "segment_index (hd_active (head_at u bs)) = length bs" using n by (simp add: head_at_def segment_index_name)
  then show ?thesis unfolding recover_intent_def v hd using mem(1,2,3,5,7) sha by (simp add: seg_def is_number_def)
qed

lemma remove_stored:
  assumes c: "cut_off host j l d upd blocks True []"
  shows "stored host j l (remove_segment (segment_name (length (spare True blocks))) d) upd blocks"
proof -
  have "dget (jd_segments d) (segment_name (length (spare True blocks))) = Some []"
    using cut_off_segment(2,4) [OF c] by simp
  then have "dput (segment_name (length (spare True blocks))) [] (jd_segments d) = jd_segments d" by (rule dput_same)
  then show ?thesis by (intro cut_off_phase(3) [OF c]) (simp_all add: remove_segment_def)
qed

definition fresh_draw :: "repair_env \<Rightarrow> journal_dir \<Rightarrow> bool" where
  \<comment> \<open>the nonce a repair draws makes names that are not in use\<close>
  "fresh_draw e d = (\<forall>seg. dget (jd_quarantine d) (backup_name e seg (repair_nonce e seg d)) = None
     \<and> dget (jd_receipts d) (receipt_of e (repair_nonce e seg d)) = None)"

lemma interrupted:
  fixes k rc
  assumes c: "cut_off host j l d upd blocks extra t" and some: "t \<noteq> [] \<or> extra" and quiet: "no_pending d" and hex: "hex_nonce e" and path: "re_path e' = re_path e"
    and fresh: "fresh_draw e d"
  defines "d2 \<equiv> snd (verify host j e' (snd (repair_incomplete_tail host j e (Some k) d)))"
  shows "stored host j l d2 upd blocks \<or> k \<le> 2 \<and> cut_off host j l d2 upd blocks extra t"
    "3 \<le> k \<Longrightarrow> fst (repair_incomplete_tail host j e None d) = Inr rc \<Longrightarrow> \<exists>f. dget (jd_receipts d2) f = Some (Some rc)"
proof -
  let ?bs = "spare extra blocks" and ?seg = "segment_name (length (spare extra blocks))"
  define nonce where "nonce = repair_nonce e ?seg d"
  define p where "p = cut_plan d upd blocks extra t"
  define v where "v = repair_intent host j e p nonce"
  define i where "i = repair_phase extra k"
  define d1 where "d1 = snd (repair_incomplete_tail host j e (Some k) d)"
  note r = repair_cut_off [OF c some quiet, of e, folded p_def nonce_def]
  have d1: "d1 = run_writes (take k (repair_writes host j e p nonce)) d" unfolding d1_def r(1) by simp
  note w = run_cut_writes [OF c d1 [unfolded p_def], folded p_def v_def i_def]
  note ph = phase_stream [OF c d1 [unfolded p_def], folded i_def]
  have i6: "i \<le> 6" "k \<le> 2 \<longleftrightarrow> i \<le> 2" "i = 3 \<Longrightarrow> extra" by (auto simp: i_def repair_phase_def split: if_splits)
  have g: "good_blocks host (jn_stream j) l blocks" and op: "opened j l d" and wide: "extra \<longrightarrow> Suc (length blocks) < 100000000"
    and hd: "read_head (jn_stream j) d1 = Inr (Some (head_at upd blocks))"
    using c w(2) read_head_same [of d1 d] by (auto simp: cut_off_def)
  have s: "sane_limits l" using op by (simp add: opened_def)
  have n: "length blocks < 100000000" "length ?bs < 100000000" using good_blocks_count [OF g s] wide by (auto simp: spare_def)
  have b: "extra \<longrightarrow> last ?bs = []" by (simp add: spare_def)
  have rc: "fst (repair_incomplete_tail host j e None d) = Inr rc \<Longrightarrow> rc = seal_receipt host (repair_material j e p nonce)" using r(2) by simp
  have nonce: "\<exists>P. nonce = re_nonce e P" by (auto simp: nonce_def repair_nonce_def)
  note kinds = names_kinds [OF hex]
  consider "i \<le> 1" | "i = 6" | "2 \<le> i" "i \<le> 5" using i6 by linarith
  then have "(stored host j l d2 upd blocks \<or> k \<le> 2 \<and> cut_off host j l d2 upd blocks extra t)
    \<and> (3 \<le> k \<longrightarrow> dget (jd_receipts d2) (receipt_of e nonce) = Some (Some (seal_receipt host (repair_material j e p nonce))))"
  proof cases
    case 1
    then have "no_pending d1" using quiet w(4) by (simp add: no_pending_def)
    then have "d2 = d1" by (simp add: d2_def d1_def verify_nothing)
    then show ?thesis using 1 ph(1) i6 by auto
  next
    case 2
    have "filter intent_name (dnames (jd_receipts d1)) = []"
      using quiet nonce kinds unfolding w(4) 2 by (auto simp: Let_def dnames_ddel dnames_dput no_pending_def list_ex_iff filter_empty_conv)
    then have "no_pending d1" by (simp add: no_pending_def list_ex_iff filter_empty_conv)
    then have "d2 = d1" by (simp add: d2_def d1_def verify_nothing)
    then show ?thesis using 2 ph(3) w(4) receipt_not_intent by (simp add: Let_def)
  next
    case 3
    note one = only_pending [OF quiet hex 3, of d1 ?seg, folded nonce_def, OF w(4)]
    have d2: "d2 = recover_intent host j e' (intent_of e nonce) d1"
      unfolding d2_def d1_def [symmetric] by (rule verify_one_intent [OF one(1)])
    note rec = recover_cut [OF one(2) [unfolded v_def p_def] hd n(1), of e', folded p_def v_def]
    have receipt: "dget (jd_receipts d1) (receipt_of e nonce) \<in> {None, Some (Some (seal_receipt host (repair_material j e p nonce)))}"
      using 3 fresh receipt_not_intent unfolding w(4) by (auto simp: Let_def fresh_draw_def nonce_def)
    obtain P where P: "nonce = re_nonce e P" using nonce by blast
    note fin = finish_cut [where host = host and j = j and l = l and extra = extra and blocks = blocks and upd = upd and d = d and t = t
        and P = P and da = d1 and name = "intent_of e nonce", OF hex path, folded P, folded p_def, folded v_def]
    show ?thesis
    proof (cases "truncation_done host (jget v ''repaired_bytes'') ?seg d1")
      case False
      then have "d2 = d1" using d2 rec by simp
      moreover have "i \<le> 2"
      proof (rule ccontr)
        assume "\<not> i \<le> 2"
        then have "truncation_done host (jget v ''repaired_bytes'') ?seg d1"
          using 3 b i6(3) intent_members(5) [of host j e d upd blocks extra t nonce, folded p_def v_def]
          unfolding truncation_done_def w(3) by (cases extra) auto
        with False show False by simp
      qed
      ultimately show ?thesis using ph(1) i6(2) by auto
    next
      case True
      let ?d1' = "if extra then remove_segment ?seg d1 else d1"
      have d2: "d2 = finish_intent host j e' v (intent_of e nonce) ?seg (receipt_path e (receipt_of e nonce)) (length blocks) d1"
        using d2 rec True by simp
      have "stored host j l ?d1' upd blocks"
      proof (cases "4 \<le> i")
        case True
        have "extra \<Longrightarrow> remove_segment ?seg d1 = d1" using True w(3) ddel_absent [of "jd_segments d1" ?seg] by (simp add: remove_segment_def)
        then show ?thesis using ph(3) True by simp
      next
        case False
        have "extra \<and> cut_off host j l d1 upd blocks extra []"
        proof (cases "i = 3")
          case False
          then have "i = 2" using 3 \<open>\<not> 4 \<le> i\<close> by simp
          then have segs: "jd_segments d1 = jd_segments d" and cd: "cut_off host j l d1 upd blocks extra t" using w(3) ph(1) by simp_all
          have "int (utf8_bytes t) \<le> 0"
            using True cut_off_segment(2) [OF cd] intent_members(5) [of host j e d upd blocks extra t nonce, folded p_def v_def]
            by (auto simp: truncation_done_def number_above_def)
          then have "t = []" by (cases t) (auto split: if_splits)
          then show ?thesis using some cd by simp
        qed (use ph(2) i6(3) in simp)
        then show ?thesis using remove_stored by (cases extra) auto
      qed
      from fin [OF this n(2) b] show ?thesis using receipt receipt_not_intent d2 by metis
    qed
  qed
  then show "stored host j l d2 upd blocks \<or> k \<le> 2 \<and> cut_off host j l d2 upd blocks extra t"
    "3 \<le> k \<Longrightarrow> fst (repair_incomplete_tail host j e None d) = Inr rc \<Longrightarrow> \<exists>f. dget (jd_receipts d2) f = Some (Some rc)"
    using rc by blast+
qed

section \<open>A pending intent and an append\<close>

text \<open>
  The completion of a pending repair takes every segment behind the repaired one for an orphan.  When the repair was cut
  off after the truncation and an append then opened a new segment, the next verification removes that segment,
  although the head counts its record.
\<close>

lemma pending_intent_removes_committed:
  assumes c: "cut_off host j l d upd blocks False t" and some: "t \<noteq> []" and quiet: "no_pending d" and hex: "hex_nonce e"
    and sha: "sha_hex host" and input: "sound_input host ti input"
    and d1: "d1 = snd (repair_incomplete_tail host j e (Some 3) d)"
    and ap: "append host j None ti input expected d1 = (Inr r, d2)" and new: "list_segments d2 \<noteq> list_segments d1"
    and d3: "d3 = snd (verify host j e' d2)"
  shows "holds_log host j l d2 (concat blocks @ [canon r])"
    "read_head (jn_stream j) d3 = read_head (jn_stream j) d2" "dget (jd_segments d3) (segment_name (length blocks + 1)) = None"
proof -
  let ?seg = "segment_name (length (spare False blocks))"
  define nonce where "nonce = repair_nonce e ?seg d"
  define p where "p = cut_plan d upd blocks False t"
  define v where "v = repair_intent host j e p nonce"
  have some': "t \<noteq> [] \<or> False" using some by simp
  note r = repair_cut_off [OF c some' quiet, of e, folded p_def nonce_def]
  have run: "d1 = run_writes (take 3 (repair_writes host j e p nonce)) d" unfolding d1 r(1) by simp
  have phase: "repair_phase False 3 = 4" by (simp add: repair_phase_def)
  note w = run_cut_writes [OF c run [unfolded p_def], unfolded phase, folded p_def v_def]
  have st: "stored host j l d1 upd blocks" using phase_stream(3) [OF c run [unfolded p_def]] phase by simp
  have ne: "blocks \<noteq> []" and f: "files_hold d1 blocks" and op: "opened j l d1" and g: "good_blocks host (jn_stream j) l blocks"
    using st by (auto simp: stored_def good_blocks_def)
  have s: "sane_limits l" using op by (simp add: opened_def)
  have kind: "trim (ji_kind input) \<noteq> []" using ap by (auto simp: append_def)
  let ?r = "new_record host j ti input (head_at upd blocks)"
  note as = append_stored [OF st kind, of None ti expected]
  have ok: "r = ?r" "int (length (concat blocks)) < lm_stream l" "int (utf8_bytes (record_line ?r)) \<le> lm_record l"
    and d2: "d2 = (write_segment (if rotates l blocks ?r then segment_name (length blocks + 1) else segment_name (length blocks)) (record_line ?r) d1)
      \<lparr>jd_head := json_file (head_json (jn_stream j) (head_at (iso (at_head ti)) (add_record l blocks (canon ?r))))\<rparr>"
    using ap unfolding as by (auto simp: Let_def split: if_splits)
  have time: "valid_time (at_record ti)" "valid_time (at_head ti)" "json_ok (h_num host) (ji_payload input)" using input by (simp_all add: sound_input_def)
  have st2: "stored host j l d2 (iso (at_head ti)) (add_record l blocks (canon ?r))"
    unfolding d2 by (rule stored_after [OF st sha time ok(2,3)])
  show "holds_log host j l d2 (concat blocks @ [canon r])"
    using st2 concat_add_record [OF ne] unfolding holds_log_def ok(1) by blast
  have rot: "rotates l blocks ?r"
  proof (rule ccontr)
    assume "\<not> rotates l blocks ?r"
    then have segs: "jd_segments d2 = jd_segments (write_segment (segment_name (length blocks)) (record_line ?r) d1)" unfolding d2 by simp
    have "dget (jd_segments d1) (segment_name (length blocks)) \<noteq> None" using last_block_text [OF f ne] by simp
    then have "list_segments d2 = list_segments d1" using list_segments_same [of d1 "segment_name (length blocks)" "record_line ?r"] list_segments_cong [OF segs] by simp
    then show False using new by simp
  qed
  have add: "add_record l blocks (canon ?r) = blocks @ [[canon ?r]]" using rot by (simp add: add_record_def rotates_canon)
  have f2: "files_hold d2 (blocks @ [[canon ?r]])" and hd2: "read_head (jn_stream j) d2 = Inr (Some (head_at (iso (at_head ti)) (blocks @ [[canon ?r]])))"
    and g2: "good_blocks host (jn_stream j) l (blocks @ [[canon ?r]])"
    using st2 unfolding add by (auto simp: stored_def)
  have n: "length (blocks @ [[canon ?r]]) < 100000000" using good_blocks_count(2) [OF g2 s] .
  have rcv: "jd_receipts d2 = jd_receipts d1" unfolding d2 by (simp add: write_segment_def)
  have two: "(2::nat) \<le> 4" "(4::nat) \<le> 5" by simp_all
  note one = only_pending [OF quiet hex two, of d2 ?seg, folded nonce_def, OF w(4) [folded rcv]]
  have d3': "d3 = recover_intent host j e' (intent_of e nonce) d2"
    unfolding d3 by (rule verify_one_intent [OF one(1)])
  note rec = recover_cut [OF one(2) [unfolded v_def p_def] hd2 n, of e', folded p_def v_def]
  have seg: "?seg = segment_name (length blocks)" by (simp add: spare_def)
  have "dget (jd_segments d2) (segment_name (Suc (length blocks - 1))) = Some (block_text ((blocks @ [[canon ?r]]) ! (length blocks - 1)))"
    using f2 ne unfolding files_hold_def by (metis One_nat_def Suc_pred diff_less length_append_singleton length_greater_0_conv less_SucI zero_less_Suc)
  then have cont: "dget (jd_segments d2) (segment_name (length blocks)) = Some (block_text (last blocks))"
    using ne by (simp add: last_conv_nth nth_append)
  have rb: "jget v ''repaired_bytes'' = Some (JNum (int (utf8_bytes (block_text (last blocks)))))"
    using intent_members(5) [of host j e d upd blocks False t nonce, folded p_def v_def] by (simp add: spare_def)
  have cut_short: "truncation_done host (jget v ''repaired_bytes'') ?seg d2"
    unfolding truncation_done_def seg rb cont by simp
  have target: "parse_segment (segment_name (length blocks)) = Some (length blocks)" using n by (simp add: parse_segment_name)
  have names: "list_segments d2 = map segment_name [1..<Suc (length blocks)] @ [segment_name (Suc (length blocks))]"
    using f2 by (simp add: files_hold_def)
  have orphans: "filter (past (Some (length blocks)) (length (blocks @ [[canon ?r]]))) (list_segments d2) = [segment_name (Suc (length blocks))]"
    unfolding names using n by (auto simp: filter_empty_conv past_def parse_segment_name simp del: upt_Suc)
  have fin: "d3 = finish_intent host j e' v (intent_of e nonce) (segment_name (length blocks)) (receipt_path e (receipt_of e nonce)) (length (blocks @ [[canon ?r]])) d2"
    using d3' rec cut_short seg by simp
  have q: "quarantine_orphans e' (Some (length blocks)) (length (blocks @ [[canon ?r]])) (list_segments d2) d2
      = remove_segment (segment_name (Suc (length blocks))) (copy_orphan e' (segment_name (Suc (length blocks))) d2)"
    unfolding quarantine_orphans_def orphans by simp
  have not_more: "(length (blocks @ [[canon ?r]]) < length blocks \<and> jget v ''repaired_bytes'' = Some (JNum 0)) = False" by simp
  have keep: "jd_segments d3 = ddel (segment_name (Suc (length blocks))) (jd_segments d2)" "jd_head d3 = jd_head d2"
    unfolding fin finish_intent_def target Let_def option.case not_more if_False q
    by (auto simp: remove_segment_def copy_orphan_def split: option.splits)
  show "read_head (jn_stream j) d3 = read_head (jn_stream j) d2" by (rule read_head_same [OF keep(2)])
  show "dget (jd_segments d3) (segment_name (length blocks + 1)) = None" using keep(1) by simp
qed

text \<open>
  A repair of a segment opened by a rotation that is cut off after the truncation cannot be run again as it is: the
  second repair first completes the pending one, which removes the segment, and then fails to copy it.
\<close>

lemma repair_again_fails:
  assumes c: "cut_off host j l d upd blocks True t" and quiet: "no_pending d" and hex: "hex_nonce e" and path: "re_path e' = re_path e"
    and d1: "d1 = snd (repair_incomplete_tail host j e (Some 3) d)"
  shows "fst (repair_incomplete_tail host j e' None d1) = Inl E_ENOENT"
    "stored host j l (snd (repair_incomplete_tail host j e' None d1)) upd blocks"
proof -
  let ?seg = "segment_name (length (spare True blocks))"
  define nonce where "nonce = repair_nonce e ?seg d"
  define p where "p = cut_plan d upd blocks True t"
  define v where "v = repair_intent host j e p nonce"
  have some: "t \<noteq> [] \<or> True" by simp
  note r = repair_cut_off [OF c some quiet, of e, folded p_def nonce_def]
  have run: "d1 = run_writes (take 3 (repair_writes host j e p nonce)) d" unfolding d1 r(1) by simp
  have phase: "repair_phase True 3 = 3" by (simp add: repair_phase_def)
  note w = run_cut_writes [OF c run [unfolded p_def], unfolded phase, folded p_def v_def]
  have c1: "cut_off host j l d1 upd blocks True []" using phase_stream(2) [OF c run [unfolded p_def]] phase by simp
  have g: "good_blocks host (jn_stream j) l blocks" and op: "opened j l d1" and hd: "read_head (jn_stream j) d1 = Inr (Some (head_at upd blocks))"
    and wide: "Suc (length blocks) < 100000000"
    using c1 by (auto simp: cut_off_def)
  have n: "length blocks < 100000000" "length (spare True blocks) < 100000000" using wide by (simp_all add: spare_def)
  have b: "True \<longrightarrow> last (spare True blocks) = []" by (simp add: spare_def)
  have two: "(2::nat) \<le> 3" "(3::nat) \<le> 5" by simp_all
  note one = only_pending [OF quiet hex two, of d1 ?seg, folded nonce_def, OF w(4)]
  obtain P where P: "nonce = re_nonce e P" by (auto simp: nonce_def repair_nonce_def)
  note fin = finish_cut [where host = host and j = j and l = l and extra = True and blocks = blocks and upd = upd and d = d and t = t
    and P = P and da = d1 and name = "intent_of e nonce", OF hex path, folded P, folded p_def, folded v_def]
  have st: "stored host j l (if True then remove_segment ?seg d1 else d1) upd blocks" using remove_stored [OF c1] by simp
  note st2 = fin(1) [OF st n(2) b]
  have gone: "truncation_done host (jget v ''repaired_bytes'') ?seg d1"
    using cut_off_segment(2,4) [OF c1] b intent_members(5) [of host j e d upd blocks True t nonce, folded p_def v_def]
    by (simp add: truncation_done_def)
  note rec = recover_cut [OF one(2) [unfolded v_def p_def] hd n(1), of e', folded p_def v_def]
  define d2 where "d2 = recover_pending_repair_intents host j e' d1"
  have d2: "d2 = finish_intent host j e' v (intent_of e nonce) ?seg (receipt_path e (receipt_of e nonce)) (length blocks) d1"
    unfolding d2_def recover_pending_repair_intents_def one(1) using rec gone by simp
  have st3: "stored host j l d2 upd blocks" using st2 d2 by simp
  then have "list_segments d2 = map segment_name [1..<Suc (length blocks)]" by (simp add: stored_def files_hold_def)
  from segment_absent [OF this] have absent: "dget (jd_segments d2) ?seg = None" using wide by (simp add: spare_def)
  have some1: "[] \<noteq> ([] :: string) \<or> True" by simp
  have "repair_incomplete_tail host j e' None d1 = (Inl E_ENOENT, d2)"
    unfolding repair_incomplete_tail_def plan_cut_off [OF c1 some1] using absent by (simp add: d2_def [symmetric] Let_def)
  then show "fst (repair_incomplete_tail host j e' None d1) = Inl E_ENOENT"
    "stored host j l (snd (repair_incomplete_tail host j e' None d1)) upd blocks"
    using st3 by simp_all
qed

end
