(* ===== verification/JournalTamper.thy ===== *)
theory JournalTamper
  imports JournalReads
begin

text \<open>
  The head fixes the stream: what a full read returns from any directory, however its segments were
  written, is determined by the digest in the head, unless the digest function collides.
\<close>

section \<open>Values that are read\<close>

definition sane_numbers :: "(string \<Rightarrow> json) \<Rightarrow> bool" where
  \<comment> \<open>the value of a number prints as a text that has this value\<close>
  "sane_numbers num = (\<forall>t v. read_number num t = Some v \<longrightarrow> json_ok num v)"

lemma read_ok:
  "sane_numbers num \<Longrightarrow> read_value num n s = Some (v, r) \<Longrightarrow> json_ok num v"
  "sane_numbers num \<Longrightarrow> read_items num m t = Some (vs, r') \<Longrightarrow> list_all (json_ok num) vs"
  "sane_numbers num \<Longrightarrow> read_members num l u = Some (fs, r'') \<Longrightarrow> list_all (\<lambda>(k, v). json_ok num v) fs"
proof (induction num n s and num m t and num l u arbitrary: v r and vs r' and fs r'' rule: read_value_read_items_read_members.induct)
  case (2 num n s)
  then show ?case
    by (auto simp: sane_numbers_def split: list.splits if_splits)
next
  case (4 num n s)
  then show ?case by (auto split: option.splits list.splits if_splits)
next
  case (6 num n s)
  then show ?case by (auto split: option.splits list.splits if_splits)
qed simp_all

lemma parse_ok: "sane_numbers num \<Longrightarrow> json_parse num s = Some v \<Longrightarrow> json_ok num v"
  using read_ok(1) by (auto simp: json_parse_def simp del: read_value.simps split: option.splits if_splits)

section \<open>Values with the same members\<close>

lemma sorted_members_cong:
  assumes "\<And>k. map_of (rev ps) k = map_of (rev qs) k"
  shows "sorted_members ps = sorted_members qs"
proof -
  have "k \<in> set (map fst ps) \<longleftrightarrow> k \<in> set (map fst qs)" for k
    using assms [of k] map_of_eq_None_iff [of "rev ps" k] map_of_eq_None_iff [of "rev qs" k] by auto
  then have "set (map fst ps) = set (map fst qs)" by blast
  then have "sort (remdups (map fst ps)) = sort (remdups (map fst qs))"
    by (intro sorted_distinct_set_unique) auto
  then show ?thesis by (simp add: sorted_members_def assms)
qed

lemma canon_members_eq:
  assumes "\<And>k. jget (canon (JObj fs)) k = jget (canon (JObj gs)) k"
  shows "canon (JObj fs) = canon (JObj gs)"
proof -
  have "map_of (rev (sorted_members (canon_members fs))) k = map_of (rev (sorted_members (canon_members gs))) k" for k
    using assms [of k] by (simp add: jget_def)
  then have "sorted_members (canon_members fs) = sorted_members (canon_members gs)"
    by (intro sorted_members_cong) (simp add: map_of_sorted_members)
  then show ?thesis by simp
qed

lemma jget_drop_member: "jget (drop_member k v) k' = (if k' = k then None else jget v k')"
proof (cases v)
  case (JObj fs)
  have "map_of (filter (\<lambda>(k', _). k' \<noteq> k) qs) k' = (if k' = k then None else map_of qs k')" for qs :: "(string \<times> json) list"
    by (induction qs) auto
  then show ?thesis by (simp add: JObj jget_def drop_member_def rev_filter)
qed (simp_all add: jget_def drop_member_def)

lemma drop_member_ok: "json_ok num v \<Longrightarrow> json_ok num (drop_member k v)"
  by (cases v) (auto simp: drop_member_def list_all_iff)

lemma same_material:
  assumes "json_ok num v" "json_ok num w" "is_jobj v" "is_jobj w" "jget v ''digest'' = jget w ''digest''"
    "canonical_json (drop_member ''digest'' v) = canonical_json (drop_member ''digest'' w)"
  shows "canon v = canon w"
proof -
  have "canon (drop_member ''digest'' v) = canon (drop_member ''digest'' w)"
    using assms(6) canonical_inject [OF drop_member_ok [OF assms(1)] drop_member_ok [OF assms(2)]] by simp
  then have d: "jget (canon (drop_member ''digest'' v)) k = jget (canon (drop_member ''digest'' w)) k" for k by simp
  have "jget (canon v) k = jget (canon w) k" for k
    using d [of k] assms(5) by (cases "k = ''digest''") (simp_all add: jget_canon jget_drop_member)
  moreover obtain fs gs where "v = JObj fs" "w = JObj gs"
    using assms(3,4) by (cases v; cases w) (auto simp: is_jobj_def)
  ultimately show ?thesis using canon_members_eq by blast
qed

section \<open>What a read has checked\<close>

fun linked :: "host \<Rightarrow> string \<Rightarrow> int \<Rightarrow> string option \<Rightarrow> json list \<Rightarrow> bool" where
  "linked host sid n prev [] = True"
| "linked host sid n prev (r # rs) = (json_ok (h_num host) r \<and> validate_committed_record host sid (Some n) (Some prev) r = Inr r
     \<and> linked host sid (n + 1) (Some (rec_digest r)) rs)"

lemma linked_append: "linked host sid n prev (xs @ ys) \<longleftrightarrow> linked host sid n prev xs \<and> linked host sid (n + int (length xs)) (last_digest prev xs) ys"
  by (induction xs arbitrary: n prev) (simp_all add: add.assoc)

lemma range_lines_linked:
  assumes "range_lines host sid h keep lines st = Inr st'" "sane_numbers (h_num host)"
  obtains vs where "linked host sid (rs_sequence st) (rs_previous st) vs"
    "st' = \<lparr>rs_count = rs_count st + int (length vs), rs_sequence = rs_sequence st + int (length vs),
      rs_previous = last_digest (rs_previous st) vs, rs_matched = fold keep vs (rs_matched st)\<rparr>"
proof -
  have "\<exists>vs. linked host sid (rs_sequence st) (rs_previous st) vs \<and>
    st' = \<lparr>rs_count = rs_count st + int (length vs), rs_sequence = rs_sequence st + int (length vs),
      rs_previous = last_digest (rs_previous st) vs, rs_matched = fold keep vs (rs_matched st)\<rparr>"
    using assms(1)
  proof (induction lines arbitrary: st)
    case Nil
    then show ?case by (intro exI [of _ "[]"]) simp
  next
    case (Cons line lines)
    have stop: ?case if "st' = st" using that by (intro exI [of _ "[]"]) simp
    show ?case
    proof (cases "hd_sequence h \<le> rs_count st \<or> blank line")
      case True
      then have "st' = st" using Cons.prems by (auto split: if_splits)
      then show ?thesis by (rule stop)
    next
      case False
      then obtain v where v: "json_parse (h_num host) line = Some v" using Cons.prems by (auto split: option.splits)
      obtain v' where v': "validate_committed_record host sid (Some (rs_sequence st)) (Some (rs_previous st)) v = Inr v'"
        using Cons.prems False v by (auto simp: rbind_Inr_iff)
      note c = committed_fields [OF v']
      let ?st = "\<lparr>rs_count = rs_count st + 1, rs_sequence = rec_sequence v + 1, rs_previous = Some (rec_digest v), rs_matched = keep v (rs_matched st)\<rparr>"
      have "range_lines host sid h keep lines ?st = Inr st'"
        using Cons.prems False v v' c(1) by simp
      then obtain vs where vs: "linked host sid (rs_sequence ?st) (rs_previous ?st) vs"
        "st' = \<lparr>rs_count = rs_count ?st + int (length vs), rs_sequence = rs_sequence ?st + int (length vs),
           rs_previous = last_digest (rs_previous ?st) vs, rs_matched = fold keep vs (rs_matched ?st)\<rparr>"
        using Cons.IH by blast
      show ?thesis
        using vs v' c(1,3) parse_ok [OF assms(2) v] by (intro exI [of _ "v # vs"]) simp
    qed
  qed
  with that show thesis by blast
qed

lemma range_segments_linked:
  assumes "range_segments host j d h keep names st = Inr st'" "sane_numbers (h_num host)"
  shows "\<exists>vs. linked host (jn_stream j) (rs_sequence st) (rs_previous st) vs \<and>
    st' = \<lparr>rs_count = rs_count st + int (length vs), rs_sequence = rs_sequence st + int (length vs),
      rs_previous = last_digest (rs_previous st) vs, rs_matched = fold keep vs (rs_matched st)\<rparr>"
  using assms(1)
proof (induction names arbitrary: st)
  case Nil
  then show ?case by (intro exI [of _ "[]"]) simp
next
  case (Cons name names)
  show ?case
  proof (cases "hd_sequence h \<le> rs_count st")
    case True
    with Cons.prems show ?thesis by (intro exI [of _ "[]"]) simp
  next
    case False
    obtain st1 where st1: "range_lines host (jn_stream j) h keep (text_lines (segment_text d name)) st = Inr st1"
      "range_segments host j d h keep names st1 = Inr st'"
      using Cons.prems False by (auto simp: rbind_Inr_iff)
    obtain xs where xs: "linked host (jn_stream j) (rs_sequence st) (rs_previous st) xs"
      "st1 = \<lparr>rs_count = rs_count st + int (length xs), rs_sequence = rs_sequence st + int (length xs),
        rs_previous = last_digest (rs_previous st) xs, rs_matched = fold keep xs (rs_matched st)\<rparr>"
      by (rule range_lines_linked [OF st1(1) assms(2)])
    obtain ys where ys: "linked host (jn_stream j) (rs_sequence st1) (rs_previous st1) ys"
      "st' = \<lparr>rs_count = rs_count st1 + int (length ys), rs_sequence = rs_sequence st1 + int (length ys),
        rs_previous = last_digest (rs_previous st1) ys, rs_matched = fold keep ys (rs_matched st1)\<rparr>"
      using Cons.IH [OF st1(2)] by blast
    have "last_digest (last_digest (rs_previous st) xs) ys = last_digest (rs_previous st) (xs @ ys)"
      by (simp add: last_digest_def)
    with xs ys show ?thesis by (intro exI [of _ "xs @ ys"]) (simp add: linked_append add.assoc)
  qed
qed

section \<open>Agreement\<close>

definition collision :: "host \<Rightarrow> json list \<Rightarrow> json list \<Rightarrow> bool" where
  \<comment> \<open>two records of the same number, different without their digests, with the same digest\<close>
  "collision host xs ys = list_ex (\<lambda>(x, y). canonical_json (drop_member ''digest'' x) \<noteq> canonical_json (drop_member ''digest'' y)
     \<and> record_digest host x = record_digest host y) (zip xs ys)"

lemma committed_object: "validate_committed_record host sid n p r = Inr r' \<Longrightarrow> is_jobj r"
  by (cases r) (auto simp: validate_committed_record_def jget_def is_jobj_def jsafe_int_def split: option.splits)

lemma jstr_canon: "jstr (map_option canon v) = jstr v"
proof (cases v)
  case (Some w)
  then show ?thesis by (cases w) (simp_all add: jstr_def)
qed simp

lemma linked_agree:
  assumes "linked host sid n prev xs" "linked host sid n prev' ys" "length xs = length ys" "last_digest prev xs = last_digest prev' ys"
    "prev = None \<longleftrightarrow> prev' = None" "\<not> collision host xs ys"
  shows "map canon xs = map canon ys \<and> (xs \<noteq> [] \<longrightarrow> prev = prev')"
  using assms
proof (induction xs arbitrary: n prev prev' ys)
  case (Cons x xs)
  obtain y zs where ys: "ys = y # zs" using Cons.prems(3) by (cases ys) auto
  have x: "json_ok (h_num host) x" "validate_committed_record host sid (Some n) (Some prev) x = Inr x"
    and y: "json_ok (h_num host) y" "validate_committed_record host sid (Some n) (Some prev') y = Inr y"
    using Cons.prems(1,2) ys by simp_all
  have ih: "map canon xs = map canon zs \<and> (xs \<noteq> [] \<longrightarrow> Some (rec_digest x) = Some (rec_digest y))"
    by (rule Cons.IH [of "n + 1"]) (use Cons.prems ys in \<open>simp_all add: collision_def\<close>)
  have dg: "rec_digest x = rec_digest y"
    using ih Cons.prems(3,4) ys by (cases "xs = []") auto
  note cx = committed_fields [OF x(2)] and cy = committed_fields [OF y(2)]
  have "h_sha host (canonical_json (drop_member ''digest'' x)) = h_sha host (canonical_json (drop_member ''digest'' y))"
    using dg cx(11) cy(11) by (simp add: record_digest_def)
  then have "canonical_json (drop_member ''digest'' x) = canonical_json (drop_member ''digest'' y)"
    using Cons.prems(6) ys by (auto simp: collision_def record_digest_def)
  then have c: "canon x = canon y"
    by (intro same_material [OF x(1) y(1) committed_object [OF x(2)] committed_object [OF y(2)]]) (simp_all add: cx(9) cy(9) dg)
  have p: "rec_previous x = rec_previous y"
  proof -
    have "map_option canon (jget x ''previous_digest'') = map_option canon (jget y ''previous_digest'')"
      using c jget_canon by metis
    then show ?thesis unfolding rec_previous_def by (metis jstr_canon)
  qed
  then have "prev = prev'" using cx(8) cy(8) by simp
  with c ih ys show ?case by simp
qed simp

definition read_all :: range_options where
  "read_all = \<lparr>rg_from = None, rg_to = None, rg_limit = None, rg_descending = False\<rparr>"

lemma read_head_fields:
  assumes "read_head sid d = Inr (Some h)"
  shows "0 \<le> hd_sequence h" "safe_integer (hd_sequence h)" "hd_sequence h = 0 \<longleftrightarrow> hd_digest h = None"
proof -
  have n: "0 \<le> n \<and> safe_integer n" if "natural x = Some n" for x n
    using that by (auto simp: natural_def jsafe_int_Some_iff split: option.splits if_splits)
  have g: "n = 0 \<longleftrightarrow> dg = None" if "head_digest_of n x = Some dg" for n x dg
    using that unfolding head_digest_of_def by (cases "n = 0"; cases "jstr x") (simp_all split: if_splits, metis option.distinct(1))
  obtain v where v: "read_metadata (jd_head d) = Inr (Some v)"
    using assms by (auto simp: read_head_def rbind_Inr_iff split: option.splits)
  have "\<exists>n x dg. hd_sequence h = n \<and> hd_digest h = dg \<and> natural (jget v ''head_sequence'') = Some n \<and> head_digest_of n x = Some dg"
    using assms unfolding read_head_def v by (simp split: if_splits option.splits) (metis journal_head.select_convs(1,2))
  with n g show "0 \<le> hd_sequence h" "safe_integer (hd_sequence h)" "hd_sequence h = 0 \<longleftrightarrow> hd_digest h = None" by blast+
qed

lemma range_lines_count:
  "range_lines host sid h keep lines st = Inr st' \<Longrightarrow> rs_count st \<le> hd_sequence h \<Longrightarrow> rs_count st' \<le> hd_sequence h"
proof (induction lines arbitrary: st)
  case (Cons line lines)
  then show ?case by (auto simp: rbind_Inr_iff split: if_splits option.splits)
qed simp

lemma range_segments_count:
  "range_segments host j d h keep names st = Inr st' \<Longrightarrow> rs_count st \<le> hd_sequence h \<Longrightarrow> rs_count st' \<le> hd_sequence h"
proof (induction names arbitrary: st)
  case (Cons name names)
  then show ?case using range_lines_count by (auto simp: rbind_Inr_iff split: if_splits)
qed simp

lemma linked_sequences: "linked host sid n prev rs \<Longrightarrow> i < length rs \<Longrightarrow> rec_sequence (rs ! i) = n + int i"
proof (induction rs arbitrary: n prev i)
  case (Cons r rs)
  have "rec_sequence r = n" using committed_fields(3) [of host sid n prev r r] Cons.prems(1) by simp
  with Cons show ?case by (cases i) auto
qed simp

lemma read_all_linked:
  assumes hd: "read_head (jn_stream j) d = Inr (Some h)" and read: "read_range host j read_all d = Inr rs" and num: "sane_numbers (h_num host)"
  shows "linked host (jn_stream j) 1 None rs \<and> int (length rs) = hd_sequence h \<and> last_digest None rs = hd_digest h"
proof (cases "hd_sequence h = 0")
  case True
  then show ?thesis using hd read read_head_fields [OF hd] by (simp add: read_range_def)
next
  case False
  note h = read_head_fields [OF hd]
  let ?keep = "match_record False 1 (hd_sequence h) 9007199254740991" and ?st = "\<lparr>rs_count = 0, rs_sequence = 1, rs_previous = None, rs_matched = []\<rparr>"
  obtain st where st: "range_segments host j d h ?keep (list_segments d) ?st = Inr st"
    and ok: "hd_sequence h \<le> rs_count st" "rs_previous st = hd_digest h"
    and rs: "rs = (if 9007199254740991 < int (length (rs_matched st)) then take (nat 9007199254740991) (rs_matched st) else rs_matched st)"
    using hd read False h(1)
    by (auto simp: read_range_def read_all_def opt_default_def Let_def rbind_Inr_iff split: if_splits)
  obtain vs where vs: "linked host (jn_stream j) 1 None vs" "rs_count st = int (length vs)" "rs_previous st = last_digest None vs"
    "rs_matched st = fold ?keep vs []"
    using range_segments_linked [OF st num] by auto
  have len: "int (length vs) = hd_sequence h" using range_segments_count [OF st] ok(1) vs(2) h(1) by simp
  have "fold ?keep vs [] = take (nat 9007199254740991) (filter (\<lambda>r. 1 \<le> rec_sequence r \<and> rec_sequence r \<le> hd_sequence h) vs)"
    by (subst fold_ascending) simp_all
  also have "filter (\<lambda>r. 1 \<le> rec_sequence r \<and> rec_sequence r \<le> hd_sequence h) vs = vs"
    using filter_window [of vs rec_sequence 1 1 "hd_sequence h"] linked_sequences [OF vs(1)] len by simp
  also have "take (nat 9007199254740991) vs = vs" using len h(2) by (simp add: safe_integer_def)
  finally have "rs = vs" using rs len h(2) vs(4) by (simp add: safe_integer_def split: if_splits)
  with vs len ok(2) show ?thesis by simp
qed

lemma same_head_same_stream:
  assumes "sane_numbers (h_num host)" "read_head (jn_stream j) d = Inr (Some h)" "read_head (jn_stream j) d' = Inr (Some h')"
    "hd_sequence h = hd_sequence h'" "hd_digest h = hd_digest h'"
    "read_range host j read_all d = Inr rs" "read_range host j read_all d' = Inr rs'"
  shows "map canon rs = map canon rs' \<or> collision host rs rs'"
proof -
  note a = read_all_linked [OF assms(2,6,1)] and b = read_all_linked [OF assms(3,7,1)]
  have "length rs = length rs'" using a b assms(4) by linarith
  then have "map canon rs = map canon rs'" if "\<not> collision host rs rs'"
    using linked_agree [of host "jn_stream j" 1 None rs None rs'] a b assms(5) that by simp
  then show ?thesis by blast
qed

end
