(* ===== verification/JournalProperties.thy ===== *)
theory JournalProperties
  imports JournalRepaired JournalTamper
begin

text \<open>
  The properties of the journal, with a small stream as their witness.
\<close>

section \<open>A small stream\<close>

definition demo_host :: host where
  "demo_host = \<lparr>h_sha = (\<lambda>_. replicate 64 (CHR ''a'')), h_num = (\<lambda>_. JNull), h_above = (\<lambda>_ _. False)\<rparr>"

definition demo_journal :: journal where
  "demo_journal = \<lparr>jn_stream = ''s'', jn_options = \<lparr>jo_record = Some 500, jo_segment = Some 560, jo_segment_records = None, jo_stream = Some 10, jo_redact = True\<rparr>,
     jn_limits = \<lparr>lm_record = 500, lm_segment = 560, lm_segment_records = 5000, lm_stream = 10\<rparr>\<rparr>"

definition demo_env :: repair_env where
  "demo_env = \<lparr>re_path = ''/s'', re_time = 0, re_repaired = 0, re_intent = 0, re_nonce = (\<lambda>_. ''0123456789ab'')\<rparr>"

definition demo_times :: append_times where
  "demo_times = \<lparr>at_init = 0, at_record = 0, at_head = 0\<rparr>"

definition demo_input :: journal_input where
  "demo_input = \<lparr>ji_kind = ''k'', ji_payload = JNull, ji_at = None\<rparr>"

definition demo_dir :: journal_dir where
  "demo_dir = snd (init demo_journal 0 \<lparr>jd_meta = NoFile, jd_head = NoFile, jd_segments = [], jd_receipts = [], jd_quarantine = []\<rparr>)"

definition demo_cut :: journal_dir where
  "demo_cut = snd (append demo_host demo_journal (Some 5) demo_times demo_input None demo_dir)"

abbreviation demo_limits :: journal_limits where
  "demo_limits \<equiv> jn_limits demo_journal"

lemma demo_sha: "sha_hex demo_host"
  by (simp add: sha_hex_def demo_host_def hex64_def list_all_iff is_digit_def Let_def)

lemma demo_sound: "sound_input demo_host demo_times demo_input"
  by (simp add: sound_input_def demo_times_def demo_input_def valid_time_def)

lemma demo_open: "open_journal ''s'' (jn_options demo_journal) = Inr demo_journal"
proof -
  have "assert_safe_stream_id ''s'' = Inr ''s''"
    by (simp add: assert_safe_stream_id_def is_absolute_def starts_with_def segments_def key_of_length_def is_alnum_def)
  then show ?thesis
    by (simp add: open_journal_def demo_journal_def bad_limit_def opt_default_def safe_integer_def Let_def DEFAULT_MAX_SEGMENT_RECORDS_def)
qed

lemma demo_stored: "stored demo_host demo_journal demo_limits demo_dir (iso 0) [[]]"
  unfolding demo_dir_def init_def
  by (rule init_stored(2) [OF demo_open])
    (simp_all add: usable_limits_def demo_journal_def valid_time_def blank_stream_def can_recover_partial_init_def)

lemma demo_holds: "holds_log demo_host demo_journal demo_limits demo_dir []"
  unfolding holds_log_def using demo_stored by fastforce

lemma demo_time: "iso 0 = ''1970-01-01T00:00:00.000Z''"
  by code_simp

lemma demo_redact: "redact default_limits JNull = JNull"
  by code_simp

definition demo_record :: json where
  "demo_record = JObj [(''schema_version'', JNum 1), (''stream_id'', JStr ''s''), (''sequence'', JNum 1), (''kind'', JStr ''k''), (''payload'', JNull),
     (''at'', JStr ''1970-01-01T00:00:00.000Z''), (''previous_digest'', JNull), (''digest'', JStr (replicate 64 (CHR ''a'')))]"

lemma demo_next: "new_record demo_host demo_journal demo_times demo_input (head_at upd [[]]) = demo_record"
  by (simp add: new_record_def record_material_def demo_host_def demo_journal_def demo_times_def demo_input_def head_at_def demo_time
      demo_redact digest_json_def Let_def demo_record_def)

lemma demo_size: "int (utf8_bytes (record_line demo_record)) \<le> 500"
  by code_simp

lemma demo_interrupted: "fst (append demo_host demo_journal (Some 5) demo_times demo_input None demo_dir) = Inl E_INTERRUPTED"
proof -
  have kind: "trim (ji_kind demo_input) \<noteq> []" by (simp add: demo_input_def trim_def ltrim_def is_ws_def)
  show ?thesis using demo_size unfolding append_stored [OF demo_stored kind] demo_next
    by (simp add: demo_journal_def Let_def)
qed

lemma demo_cut_log: "cut_log demo_host demo_journal demo_limits demo_cut []"
  unfolding demo_cut_def by (rule append_torn(2) [OF demo_holds demo_sha demo_sound _ demo_interrupted]) simp

lemma init_aside: "jd_receipts (snd (init_unlocked j now d)) = jd_receipts d" "jd_quarantine (snd (init_unlocked j now d)) = jd_quarantine d"
  by (simp_all add: init_unlocked_def Let_def split: sum.splits option.splits)

lemma append_aside: "jd_receipts (snd (append host j torn t input expected d)) = jd_receipts d"
  "jd_quarantine (snd (append host j torn t input expected d)) = jd_quarantine d"
  using init_aside [of j "at_init t" d]
  by (auto simp: append_def write_segment_def split: sum.splits option.splits prod.splits)

lemma demo_quiet: "no_pending demo_cut"
  by (simp add: no_pending_def demo_cut_def append_aside demo_dir_def init_def init_aside dnames_def)

lemma demo_hex: "hex_nonce demo_env"
  by (simp add: hex_nonce_def demo_env_def)

lemma demo_fresh: "fresh_draw demo_env demo_cut"
  by (simp add: fresh_draw_def demo_cut_def append_aside demo_dir_def init_def init_aside)

section \<open>Properties\<close>

text \<open>C10: An append refines the abstract log.  On a directory that holds a list of records, it either fails with the
  error the specification names (a blank kind, a head fence that does not match, a full stream, a record too large) and the
  directory still holds the list, or returns the new record, and the directory then holds the list with that record behind it;
  the segment files, their rotation, the head and its byte and record counts are hidden behind the list.\<close>

theorem append_refines:
  assumes "holds_log host j l d rs" "sha_hex host" "sound_input host t input"
  shows "\<exists>rs'. log_append host j l t input expected rs = (fst (append host j None t input expected d), rs')
    \<and> holds_log host j l (snd (append host j None t input expected d)) rs'"
  by (rule append_log [OF assms])

theorem append_refines_witness:
  "\<exists>rs'. log_append demo_host demo_journal demo_limits demo_times demo_input (Some (0, None)) []
      = (fst (append demo_host demo_journal None demo_times demo_input (Some (0, None)) demo_dir), rs')
    \<and> holds_log demo_host demo_journal demo_limits (snd (append demo_host demo_journal None demo_times demo_input (Some (0, None)) demo_dir)) rs'"
  by (rule append_refines [OF demo_holds demo_sha demo_sound])

text \<open>C15: A range read returns exactly the slice of the committed records that the options name, in the order asked for:
  the window between the two sequence numbers, cut to the limit from the end that is read first.  This also holds
  while text of an interrupted append lies behind the records.\<close>

theorem range_reads_slice:
  assumes "holds_log host j l d rs \<or> cut_log host j l d rs"
  shows "read_range host j opts d = Inr (range_slice opts rs)"
  using assms holds_shows cut_log_shows read_range_log by blast

theorem range_reads_slice_witness: "read_range demo_host demo_journal read_all demo_cut = Inr (range_slice read_all [])"
  using range_reads_slice [of demo_host demo_journal demo_limits demo_cut "[]"] demo_cut_log by blast

text \<open>C0: An append that ends after any number of characters of its line were written loses no committed record and
  adds none: the directory holds the same list, possibly with the torn text behind it, and as long as that text is
  there every further append is refused with \<^verbatim>\<open>E_JOURNAL_INCOMPLETE_TAIL\<close> and leaves the directory as it is.\<close>

theorem torn_append_commits_nothing:
  assumes "holds_log host j l d rs" "sha_hex host" "sound_input host t input"
  shows "holds_log host j l (snd (append host j (Some k) t input expected d)) rs
    \<or> cut_log host j l (snd (append host j (Some k) t input expected d)) rs
      \<and> (\<forall>torn t' input' expected'. trim (ji_kind input') \<noteq> [] \<longrightarrow>
          append host j torn t' input' expected' (snd (append host j (Some k) t input expected d))
            = (Inl E_JOURNAL_INCOMPLETE_TAIL, snd (append host j (Some k) t input expected d)))"
  using append_torn(1) [OF assms] append_refused by blast

theorem torn_append_commits_nothing_witness:
  "holds_log demo_host demo_journal demo_limits demo_cut []
    \<or> cut_log demo_host demo_journal demo_limits demo_cut []
      \<and> (\<forall>torn t' input' expected'. trim (ji_kind input') \<noteq> [] \<longrightarrow>
          append demo_host demo_journal torn t' input' expected' demo_cut = (Inl E_JOURNAL_INCOMPLETE_TAIL, demo_cut))"
  unfolding demo_cut_def by (rule torn_append_commits_nothing [OF demo_holds demo_sha demo_sound])

text \<open>C0: The verdict of a verification is right: a directory that holds a list of records is \<^verbatim>\<open>valid\<close> with
  as many records as the list, and one with a torn append behind them is an \<^verbatim>\<open>incomplete_tail\<close> that is reported as
  repairable; neither is ever called corrupt.\<close>

theorem verify_verdict:
  assumes "holds_log host j l d rs \<or> cut_log host j l d rs"
  shows "vf_status (verify_stream host j d) = (if holds_log host j l d rs then Valid else Incomplete_tail)
    \<and> vf_repairable (verify_stream host j d) = (\<not> holds_log host j l d rs)
    \<and> (holds_log host j l d rs \<longrightarrow> vf_total (verify_stream host j d) = int (length rs))"
proof (cases "holds_log host j l d rs")
  case True
  then obtain upd blocks where st: "stored host j l d upd blocks" "concat blocks = rs" by (auto simp: holds_log_def)
  have "verify_stream host j d = valid_stream (head_at upd blocks) (int (length rs))"
    using verify_cut_off [OF stored_cut_off [OF st(1)]] st(2) by simp
  with True show ?thesis by (simp add: valid_stream_def)
next
  case False
  then obtain upd blocks extra t where "cut_off host j l d upd blocks extra t" "t \<noteq> [] \<or> extra" using assms by (auto simp: cut_log_def)
  with verify_cut_off [OF this(1)] False show ?thesis by (auto simp: incomplete_tail_def)
qed

theorem verify_verdict_witness: "vf_status (verify_stream demo_host demo_journal demo_dir) = Valid \<and> vf_total (verify_stream demo_host demo_journal demo_dir) = 0"
  using verify_verdict [of demo_host demo_journal demo_limits demo_dir "[]"] demo_holds by simp





text \<open>C14: The head fixes the whole stream: when two directories of one stream have heads with the same sequence and digest and both are
  read from the first record to the last without an error, the reads return the same records up to the order of their members,
  or two of the returned records, one from each and of the same number, are a collision of the digest.\<close>

theorem head_fixes_stream:
  assumes "sane_numbers (h_num host)"
    and "read_head (jn_stream j) d = Inr (Some h)" "read_head (jn_stream j) d' = Inr (Some h')"
    and "hd_sequence h = hd_sequence h'" "hd_digest h = hd_digest h'"
    and "read_range host j read_all d = Inr rs" "read_range host j read_all d' = Inr rs'"
  shows "map canon rs = map canon rs' \<or> collision host rs rs'"
  by (rule same_head_same_stream [OF assms])

lemma demo_numbers: "sane_numbers (h_num demo_host)"
  by (auto simp: sane_numbers_def demo_host_def read_number_def split: if_splits)

definition demo_one :: journal_dir where
  "demo_one = snd (append demo_host demo_journal None demo_times demo_input None demo_dir)"

definition demo_one_cut :: journal_dir where
  "demo_one_cut = snd (append demo_host demo_journal (Some 5) demo_times demo_input None demo_one)"

lemma demo_one_holds: "holds_log demo_host demo_journal demo_limits demo_one [canon demo_record]"
proof -
  have kind: "trim (ji_kind demo_input) \<noteq> []" by (simp add: demo_input_def trim_def ltrim_def is_ws_def)
  have "next_record demo_host demo_journal demo_times demo_input [] = demo_record"
    using demo_next [of "[]"] by (simp add: next_record_def)
  then have "log_append demo_host demo_journal demo_limits demo_times demo_input None [] = (Inr demo_record, [canon demo_record])"
    using demo_size kind by (simp add: log_append_def Let_def demo_journal_def)
  then show ?thesis using append_log [OF demo_holds demo_sha demo_sound, of None] by (simp add: demo_one_def)
qed

theorem head_fixes_stream_witness:
  "\<exists>rs rs'. read_range demo_host demo_journal read_all demo_one = Inr rs \<and> read_range demo_host demo_journal read_all demo_one_cut = Inr rs'
    \<and> rs \<noteq> [] \<and> (map canon rs = map canon rs' \<or> collision demo_host rs rs')"
proof -
  obtain h where h: "read_head (jn_stream demo_journal) demo_one = Inr (Some h)"
    using demo_one_holds by (auto simp: holds_log_def stored_def)
  have "holds_log demo_host demo_journal demo_limits demo_one_cut [canon demo_record] \<or> cut_log demo_host demo_journal demo_limits demo_one_cut [canon demo_record]"
    unfolding demo_one_cut_def by (rule append_torn(1) [OF demo_one_holds demo_sha demo_sound])
  then have shown: "shows_log demo_host demo_journal demo_limits demo_one_cut [canon demo_record]" using holds_shows cut_log_shows by blast
  have "jd_head demo_one_cut = jd_head demo_one"
  proof -
    obtain upd blocks where st: "stored demo_host demo_journal demo_limits demo_one upd blocks" using demo_one_holds by (auto simp: holds_log_def)
    have kind: "trim (ji_kind demo_input) \<noteq> []" by (simp add: demo_input_def trim_def ltrim_def is_ws_def)
    show ?thesis unfolding demo_one_cut_def append_stored [OF st kind] by (simp add: Let_def write_segment_def)
  qed
  then have h': "read_head (jn_stream demo_journal) demo_one_cut = Inr (Some h)" using h read_head_same by metis
  have r: "read_range demo_host demo_journal read_all demo_one = Inr [canon demo_record]"
    "read_range demo_host demo_journal read_all demo_one_cut = Inr [canon demo_record]"
    using read_range_log [OF holds_shows [OF demo_one_holds], of read_all] read_range_log [OF shown, of read_all]
    by (simp_all add: range_slice_def read_all_def opt_default_def)
  show ?thesis using head_fixes_stream [OF demo_numbers h h' refl refl r] r by blast
qed

text \<open>The canonical text of a record reads back as the record, its members sorted and each kept once with its last value, for every value
  whose numbers are safe integers or texts the host reads as themselves.\<close>

theorem canonical_round_trip:
  assumes "json_ok num v"
  shows "json_parse num (canonical_json v) = Some (canon v)"
  by (rule canonical_parse [OF assms])

theorem canonical_round_trip_witness:
  "json_parse JFrac (canonical_json (JObj [(''b'', JArr [JNum (- 3), JStr ''x''])])) = Some (canon (JObj [(''b'', JArr [JNum (- 3), JStr ''x''])]))"
  by (rule canonical_round_trip) (simp add: safe_integer_def)

end
