(* ===== verification/CliSchema.thy ===== *)
theory CliSchema
  imports JsonText
begin

text \<open>
  The vocabulary of the command line grammar (\<^verbatim>\<open>src/cli/parser.ts\<close>): the schemas of options,
  positionals, actions and commands, the patterns they name, and the errors of the parser with
  their codes.  An absent member of a schema is \<open>None\<close>, \<open>False\<close> or the empty list, as the
  parser reads it.  The table of commands is in \<open>CliCommands\<close>.
\<close>

section \<open>Schemas\<close>

datatype option_kind = FlagOption | StringOption | IntegerOption | JsonOption

datatype state_access = AccessNone | ReadExisting | WriteExisting | WriteEnsure

datatype json_domain = ObjectDomain | TeamWorkers | UlwWorkers | GateList | LeaseCredential

datatype token_pattern =
    SAFE_KEY_PATTERN | TEAM_ID_PATTERN | SHA256_PATTERN | NON_BLANK_PATTERN
  | SAFE_TEAM_WORKER_ID_PATTERN | SAFE_ULW_WORKER_ID_PATTERN

fun pattern_test :: "token_pattern \<Rightarrow> string \<Rightarrow> bool" where
  \<comment> \<open>\<^verbatim>\<open>pattern.test(s)\<close>\<close>
  "pattern_test SAFE_KEY_PATTERN s = key_of_length 127 s"
| "pattern_test TEAM_ID_PATTERN s = key_of_length 63 s"
| "pattern_test SHA256_PATTERN s = hex64 s"
| "pattern_test NON_BLANK_PATTERN s = list_ex (\<lambda>c. \<not> is_ws c) s"
| "pattern_test SAFE_TEAM_WORKER_ID_PATTERN s = key_of_length 31 s"
| "pattern_test SAFE_ULW_WORKER_ID_PATTERN s = key_of_length 63 s"

datatype arg_value =
    Switch               \<comment> \<open>\<^verbatim>\<open>true\<close>\<close>
  | TextArg string
  | IntArg int
  | JsonArg json
  | ManyArgs "arg_value list"

record positional_schema =
  ps_name :: string
  ps_required :: bool
  ps_multiple :: bool
  ps_pattern :: "token_pattern option"
  ps_max_bytes :: "nat option"
  ps_min_length :: "nat option"
  ps_max_length :: "nat option"
  ps_absolute :: bool

record option_schema =
  os_name :: string
  os_kind :: option_kind
  os_aliases :: "string list"
  os_multiple :: bool
  os_required :: bool
  os_min :: "int option"
  os_max :: "int option"
  os_enum :: "string list option"
  os_max_bytes :: "nat option"
  os_min_length :: "nat option"
  os_max_length :: "nat option"
  os_absolute :: bool
  os_default :: "arg_value option"
  os_access :: "state_access option"
  os_pattern :: "token_pattern option"
  os_domain :: "json_domain option"

record action_schema =
  as_options :: "option_schema list"
  as_positionals :: "positional_schema list"
  as_exclusive :: "string list list"
  as_exactly_one :: "string list list"
  as_all_or_none :: "string list list"
  as_access :: "state_access option"

record command_schema = action_schema +
  cs_actions :: "(string \<times> action_schema) list option"
  cs_require_action :: bool
  cs_default_action :: "string option"

definition opt :: "string \<Rightarrow> option_kind \<Rightarrow> option_schema" where
  \<comment> \<open>\<^verbatim>\<open>{ name, kind }\<close>\<close>
  "opt name kind = \<lparr>os_name = name, os_kind = kind, os_aliases = [], os_multiple = False, os_required = False,
     os_min = None, os_max = None, os_enum = None, os_max_bytes = None, os_min_length = None,
     os_max_length = None, os_absolute = False, os_default = None, os_access = None, os_pattern = None,
     os_domain = None\<rparr>"

definition positional :: "string \<Rightarrow> positional_schema" where
  \<comment> \<open>\<^verbatim>\<open>{ name }\<close>\<close>
  "positional name = \<lparr>ps_name = name, ps_required = False, ps_multiple = False, ps_pattern = None,
     ps_max_bytes = None, ps_min_length = None, ps_max_length = None, ps_absolute = False\<rparr>"

definition no_args :: action_schema where
  \<comment> \<open>\<^verbatim>\<open>{}\<close>\<close>
  "no_args = \<lparr>as_options = [], as_positionals = [], as_exclusive = [], as_exactly_one = [], as_all_or_none = [],
     as_access = None\<rparr>"

definition no_command :: command_schema where
  \<comment> \<open>\<^verbatim>\<open>{}\<close>\<close>
  "no_command = action_schema.extend no_args (command_schema.fields None False None)"

definition MAX_CLI_TOKENS :: nat where "MAX_CLI_TOKENS = 256"
definition MAX_CLI_BYTES :: nat where "MAX_CLI_BYTES = 256 * 1024"
definition MAX_OPTION_VALUE_BYTES :: nat where "MAX_OPTION_VALUE_BYTES = 64 * 1024"

definition objectJson :: "string \<Rightarrow> bool \<Rightarrow> json option \<Rightarrow> option_schema" where
  "objectJson name required dflt = (opt name JsonOption)\<lparr>os_required := required,
     os_default := map_option JsonArg dflt, os_domain := Some ObjectDomain\<rparr>"

definition workersJson :: "json_domain \<Rightarrow> option_schema" where
  "workersJson domain = (opt ''--workers-json'' JsonOption)\<lparr>os_required := True, os_domain := Some domain\<rparr>"

definition gatesJson :: option_schema where
  "gatesJson = (opt ''--gates-json'' JsonOption)\<lparr>os_domain := Some GateList\<rparr>"

section \<open>Errors\<close>

datatype cli_error =
    E_CLI_TOO_MANY_TOKENS
  | E_CLI_TOO_LARGE
  | E_CLI_INVALID string
  | E_ACTION_INVALID string string
  | E_ACTION_REQUIRED string
  | E_OPTION_REQUIRED string
  | E_OPTION_UNKNOWN string
  | E_OPTION_DUPLICATE string
  | E_OPTION_FLAG_VALUE string
  | E_OPTION_TOO_LARGE string
  | E_OPTION_LENGTH_INVALID string
  | E_OPTION_FORMAT_INVALID string
  | E_OPTION_ENUM_INVALID string
  | E_OPTIONS_MUTUALLY_EXCLUSIVE "string list"
  | E_OPTION_COMBINATION_REQUIRED "string list"
  | E_INTEGER_INVALID string
  | E_INTEGER_UNSAFE string
  | E_INTEGER_RANGE string
  | E_JSON_INVALID string
  | E_JSON_DOMAIN_INVALID string
  | E_SCHEMA_INVALID string
  | E_POSITIONAL_REQUIRED string
  | E_POSITIONAL_TOO_LARGE string
  | E_POSITIONAL_LENGTH_INVALID string
  | E_POSITIONAL_FORMAT_INVALID string
  | E_POSITIONAL_UNEXPECTED string

end
