(* ===== verification/CliCommands.thy ===== *)
theory CliCommands
  imports CliSchema
begin

text \<open>
  \<^verbatim>\<open>COMMAND_SCHEMAS\<close> of \<^verbatim>\<open>src/cli/parser.ts\<close>: one definition per command, in the
  order of the table, with every option, positional, group and state access the source gives.
\<close>

section \<open>Commands\<close>

definition help_command :: command_schema where
  "help_command = no_command\<lparr>as_access := Some AccessNone,
    as_positionals := [positional ''command'',
                        positional ''action'']\<rparr>"

definition version_command :: command_schema where
  "version_command = no_command\<lparr>as_access := Some AccessNone\<rparr>"

definition setup_command :: command_schema where
  "setup_command = no_command\<lparr>as_access := Some AccessNone,
    as_options := [opt ''--source'' StringOption,
                    opt ''--archive'' StringOption,
                    opt ''--checksums'' StringOption,
                    opt ''--tag'' StringOption,
                    opt ''--latest'' FlagOption,
                    opt ''--state-root'' StringOption,
                    (opt ''--init-project-state'' FlagOption)\<lparr>os_access := Some WriteEnsure\<rparr>,
                    opt ''--dry-run'' FlagOption]\<rparr>"

definition update_command :: command_schema where
  "update_command = no_command\<lparr>as_access := Some AccessNone,
    as_options := [opt ''--source'' StringOption,
                    opt ''--archive'' StringOption,
                    opt ''--checksums'' StringOption,
                    opt ''--tag'' StringOption,
                    opt ''--latest'' FlagOption,
                    opt ''--state-root'' StringOption,
                    (opt ''--init-project-state'' FlagOption)\<lparr>os_access := Some WriteEnsure\<rparr>,
                    opt ''--dry-run'' FlagOption]\<rparr>"

definition install_command :: command_schema where
  "install_command = no_command\<lparr>as_access := Some AccessNone,
    cs_require_action := True,
    cs_actions := Some [
      (''status'', no_args\<lparr>as_options := [opt ''--state-root'' StringOption]\<rparr>),
      (''list'', no_args\<lparr>as_options := [opt ''--state-root'' StringOption]\<rparr>),
      (''verify'', no_args\<lparr>as_options := [opt ''--state-root'' StringOption,
                        opt ''--all'' FlagOption]\<rparr>),
      (''prune'', no_args\<lparr>as_options := [opt ''--state-root'' StringOption,
                        opt ''--dry-run'' FlagOption,
                        opt ''--apply'' FlagOption,
                        (opt ''--keep'' IntegerOption)\<lparr>os_min := Some 0, os_default := Some (IntArg 2)\<rparr>],
        as_exclusive := [[''--dry-run'', ''--apply'']]\<rparr>),
      (''repair'', no_args\<lparr>as_options := [opt ''--state-root'' StringOption]\<rparr>)]\<rparr>"

definition rollback_command :: command_schema where
  "rollback_command = no_command\<lparr>as_access := Some AccessNone,
    as_options := [opt ''--receipt'' StringOption,
                    opt ''--state-root'' StringOption,
                    opt ''--dry-run'' FlagOption]\<rparr>"

definition doctor_command :: command_schema where
  "doctor_command = no_command\<lparr>as_access := Some AccessNone,
    as_options := [(opt ''--repair-owner'' FlagOption)\<lparr>os_access := Some WriteExisting\<rparr>,
                    (opt ''--repair-journals'' FlagOption)\<lparr>os_access := Some WriteExisting\<rparr>]\<rparr>"

definition uninstall_command :: command_schema where
  "uninstall_command = no_command\<lparr>as_access := Some AccessNone,
    as_options := [opt ''--receipt'' StringOption,
                    opt ''--state-root'' StringOption,
                    opt ''--purge-project-state'' FlagOption]\<rparr>"

definition plugin_command :: command_schema where
  "plugin_command = no_command\<lparr>as_access := Some AccessNone,
    cs_require_action := True,
    cs_actions := Some [
      (''status'', no_args\<lparr>as_options := [opt ''--json'' FlagOption,
                        opt ''--state-root'' StringOption]\<rparr>),
      (''doctor'', no_args\<lparr>as_options := [opt ''--live'' FlagOption,
                        opt ''--json'' FlagOption,
                        opt ''--state-root'' StringOption]\<rparr>)]\<rparr>"

definition components_command :: command_schema where
  "components_command = no_command\<lparr>as_access := Some AccessNone,
    cs_require_action := True,
    cs_actions := Some [
      (''list'', no_args\<lparr>as_options := [opt ''--resolved'' FlagOption,
                        opt ''--json'' FlagOption,
                        opt ''--state-root'' StringOption]\<rparr>)]\<rparr>"

definition aliases_command :: command_schema where
  "aliases_command = no_command\<lparr>as_access := Some AccessNone,
    cs_require_action := True,
    cs_actions := Some [
      (''explain'', no_args\<lparr>as_options := [opt ''--json'' FlagOption],
        as_positionals := [(positional ''name'')\<lparr>ps_required := True, ps_min_length := Some 1\<rparr>]\<rparr>)]\<rparr>"

definition agents_command :: command_schema where
  "agents_command = no_command\<lparr>as_access := Some AccessNone,
    cs_require_action := True,
    cs_actions := Some [
      (''list'', no_args\<lparr>as_options := [(opt ''--source'' StringOption)\<lparr>os_enum := Some [''omc'', ''omx'', ''omo'', ''omcu'', ''custom'', ''all'']\<rparr>,
                        opt ''--json'' FlagOption]\<rparr>),
      (''show'', no_args\<lparr>as_options := [opt ''--profile'' StringOption,
                        opt ''--json'' FlagOption],
        as_positionals := [(positional ''role'')\<lparr>ps_required := True, ps_min_length := Some 1\<rparr>]\<rparr>),
      (''invoke'', no_args\<lparr>as_options := [(opt ''--prompt'' StringOption)\<lparr>os_required := True, os_pattern := Some NON_BLANK_PATTERN\<rparr>,
                        (opt ''--runtime'' StringOption)\<lparr>os_enum := Some [''local'', ''cloud''], os_default := Some (TextArg ''local'')\<rparr>,
                        opt ''--background'' FlagOption,
                        opt ''--profile'' StringOption,
                        opt ''--json'' FlagOption],
        as_positionals := [(positional ''role'')\<lparr>ps_required := True, ps_min_length := Some 1\<rparr>]\<rparr>)]\<rparr>"

definition route_command :: command_schema where
  "route_command = no_command\<lparr>as_access := Some AccessNone,
    cs_require_action := True,
    cs_actions := Some [
      (''explain'', no_args\<lparr>as_options := [(opt ''--agent'' StringOption)\<lparr>os_required := True\<rparr>,
                        opt ''--category'' StringOption,
                        opt ''--profile'' StringOption,
                        opt ''--model'' StringOption,
                        (opt ''--runtime'' StringOption)\<lparr>os_enum := Some [''local'', ''cloud'']\<rparr>,
                        opt ''--json'' FlagOption]\<rparr>)]\<rparr>"

definition models_command :: command_schema where
  "models_command = no_command\<lparr>as_access := Some AccessNone,
    cs_require_action := True,
    cs_actions := Some [
      (''list'', no_args\<lparr>as_options := [(opt ''--runtime'' StringOption)\<lparr>os_enum := Some [''local'', ''cloud'']\<rparr>,
                        opt ''--json'' FlagOption,
                        opt ''--refresh'' FlagOption,
                        opt ''--state-root'' StringOption]\<rparr>)]\<rparr>"

definition providers_command :: command_schema where
  "providers_command = no_command\<lparr>as_access := Some AccessNone,
    cs_require_action := True,
    cs_actions := Some [
      (''status'', no_args\<lparr>as_options := [opt ''--json'' FlagOption],
        as_positionals := [positional ''provider'']\<rparr>)]\<rparr>"

definition hooks_command :: command_schema where
  "hooks_command = no_command\<lparr>as_access := Some AccessNone,
    cs_require_action := True,
    cs_actions := Some [
      (''list'', no_args\<lparr>as_options := [opt ''--event'' StringOption,
                        opt ''--json'' FlagOption]\<rparr>),
      (''show'', no_args\<lparr>as_options := [opt ''--json'' FlagOption],
        as_positionals := [(positional ''id'')\<lparr>ps_required := True, ps_min_length := Some 1\<rparr>]\<rparr>),
      (''doctor'', no_args\<lparr>as_options := [opt ''--live'' FlagOption,
                        opt ''--json'' FlagOption]\<rparr>),
      (''trace'', no_args\<lparr>as_options := [opt ''--run'' StringOption,
                        opt ''--json'' FlagOption]\<rparr>),
      (''test'', no_args\<lparr>as_options := [opt ''--fixture'' StringOption,
                        opt ''--json'' FlagOption],
        as_positionals := [(positional ''event'')\<lparr>ps_required := True, ps_min_length := Some 1\<rparr>]\<rparr>),
      (''generate'', no_args\<lparr>as_options := [opt ''--check'' FlagOption,
                        (opt ''--target'' StringOption)\<lparr>os_enum := Some [''plugin'', ''project'']\<rparr>,
                        opt ''--json'' FlagOption]\<rparr>)]\<rparr>"

definition capabilities_command :: command_schema where
  "capabilities_command = no_command\<lparr>as_access := Some AccessNone,
    cs_require_action := True,
    cs_actions := Some [
      (''discover'', no_args),
      (''native-status'', no_args),
      (''cursor-components'', no_args\<lparr>as_options := [opt ''--live'' FlagOption,
                        opt ''--json'' FlagOption]\<rparr>)]\<rparr>"

definition native_status_command :: command_schema where
  "native_status_command = no_command\<lparr>as_access := Some AccessNone\<rparr>"

definition mcp_server_command :: command_schema where
  "mcp_server_command = no_command\<lparr>as_access := Some WriteEnsure\<rparr>"

definition mcp_command :: command_schema where
  "mcp_command = no_command\<lparr>as_access := Some AccessNone,
    cs_require_action := True,
    cs_actions := Some [
      (''status'', no_args\<lparr>as_options := [opt ''--file'' StringOption,
                        opt ''--receipt'' StringOption,
                        opt ''--no-probe'' FlagOption]\<rparr>),
      (''install'', no_args\<lparr>as_options := [opt ''--file'' StringOption,
                        opt ''--receipt'' StringOption,
                        opt ''--dry-run'' FlagOption,
                        opt ''--replace'' FlagOption]\<rparr>),
      (''uninstall'', no_args\<lparr>as_options := [opt ''--file'' StringOption,
                        opt ''--receipt'' StringOption,
                        opt ''--dry-run'' FlagOption]\<rparr>)]\<rparr>"

definition mcp_install_command :: command_schema where
  "mcp_install_command = no_command\<lparr>as_access := Some AccessNone,
    as_options := [opt ''--file'' StringOption,
                    opt ''--receipt'' StringOption,
                    opt ''--dry-run'' FlagOption,
                    opt ''--replace'' FlagOption]\<rparr>"

definition session_command :: command_schema where
  "session_command = no_command\<lparr>as_access := Some AccessNone,
    cs_require_action := True,
    cs_actions := Some [
      (''create'', no_args),
      (''list'', no_args),
      (''resume'', no_args\<lparr>as_options := [(opt ''--id'' StringOption)\<lparr>os_required := True, os_pattern := Some SAFE_KEY_PATTERN\<rparr>,
                        (opt ''--prompt'' StringOption)\<lparr>os_pattern := Some NON_BLANK_PATTERN\<rparr>]\<rparr>),
      (''continue'', no_args\<lparr>as_options := [(opt ''--prompt'' StringOption)\<lparr>os_pattern := Some NON_BLANK_PATTERN\<rparr>]\<rparr>)]\<rparr>"

definition resume_command :: command_schema where
  "resume_command = no_command\<lparr>as_access := Some AccessNone,
    as_options := [(opt ''--id'' StringOption)\<lparr>os_required := True, os_pattern := Some SAFE_KEY_PATTERN\<rparr>,
                    (opt ''--prompt'' StringOption)\<lparr>os_pattern := Some NON_BLANK_PATTERN\<rparr>]\<rparr>"

definition state_command :: command_schema where
  "state_command = no_command\<lparr>cs_require_action := True,
    cs_actions := Some [
      (''create'', no_args\<lparr>as_access := Some WriteEnsure,
        as_options := [(opt ''--id'' StringOption)\<lparr>os_required := True, os_pattern := Some SAFE_KEY_PATTERN\<rparr>,
                        (opt ''--objective'' StringOption)\<lparr>os_required := True, os_pattern := Some NON_BLANK_PATTERN, os_max_length := Some 16384\<rparr>]\<rparr>),
      (''status'', no_args\<lparr>as_access := Some ReadExisting,
        as_options := [(opt ''--id'' StringOption)\<lparr>os_required := True, os_pattern := Some SAFE_KEY_PATTERN\<rparr>]\<rparr>),
      (''transition'', no_args\<lparr>as_access := Some WriteEnsure,
        as_options := [(opt ''--id'' StringOption)\<lparr>os_required := True, os_pattern := Some SAFE_KEY_PATTERN\<rparr>,
                        (opt ''--revision'' IntegerOption)\<lparr>os_required := True, os_min := Some 0\<rparr>,
                        (opt ''--status'' StringOption)\<lparr>os_required := True, os_enum := Some [''active'', ''complete'', ''failed'', ''cancelled'']\<rparr>]\<rparr>),
      (''verify'', no_args\<lparr>as_access := Some WriteEnsure,
        as_options := [(opt ''--id'' StringOption)\<lparr>os_required := True, os_pattern := Some SAFE_KEY_PATTERN\<rparr>,
                        (opt ''--revision'' IntegerOption)\<lparr>os_required := True, os_min := Some 0\<rparr>,
                        (opt ''--evidence-sha256'' StringOption)\<lparr>os_required := True, os_pattern := Some SHA256_PATTERN\<rparr>]\<rparr>),
      (''event'', no_args\<lparr>as_access := Some WriteEnsure,
        as_options := [(opt ''--id'' StringOption)\<lparr>os_required := True, os_pattern := Some SAFE_KEY_PATTERN\<rparr>,
                        (opt ''--type'' StringOption)\<lparr>os_required := True, os_pattern := Some SAFE_KEY_PATTERN\<rparr>,
                        objectJson ''--payload-json'' False (Some (JObj []))]\<rparr>)]\<rparr>"

definition run_command :: command_schema where
  "run_command = no_command\<lparr>cs_require_action := True,
    cs_actions := Some [
      (''create'', no_args\<lparr>as_access := Some WriteEnsure,
        as_options := [(opt ''--id'' StringOption)\<lparr>os_required := True, os_pattern := Some SAFE_KEY_PATTERN\<rparr>,
                        (opt ''--objective'' StringOption)\<lparr>os_required := True, os_pattern := Some NON_BLANK_PATTERN, os_max_length := Some 16384\<rparr>]\<rparr>),
      (''status'', no_args\<lparr>as_access := Some ReadExisting,
        as_options := [(opt ''--id'' StringOption)\<lparr>os_required := True, os_pattern := Some SAFE_KEY_PATTERN\<rparr>]\<rparr>),
      (''transition'', no_args\<lparr>as_access := Some WriteEnsure,
        as_options := [(opt ''--id'' StringOption)\<lparr>os_required := True, os_pattern := Some SAFE_KEY_PATTERN\<rparr>,
                        (opt ''--revision'' IntegerOption)\<lparr>os_required := True, os_min := Some 0\<rparr>,
                        (opt ''--status'' StringOption)\<lparr>os_required := True, os_enum := Some [''active'', ''complete'', ''failed'', ''cancelled'']\<rparr>]\<rparr>),
      (''verify'', no_args\<lparr>as_access := Some WriteEnsure,
        as_options := [(opt ''--id'' StringOption)\<lparr>os_required := True, os_pattern := Some SAFE_KEY_PATTERN\<rparr>,
                        (opt ''--revision'' IntegerOption)\<lparr>os_required := True, os_min := Some 0\<rparr>,
                        (opt ''--evidence-sha256'' StringOption)\<lparr>os_required := True, os_pattern := Some SHA256_PATTERN\<rparr>]\<rparr>),
      (''event'', no_args\<lparr>as_access := Some WriteEnsure,
        as_options := [(opt ''--id'' StringOption)\<lparr>os_required := True, os_pattern := Some SAFE_KEY_PATTERN\<rparr>,
                        (opt ''--type'' StringOption)\<lparr>os_required := True, os_pattern := Some SAFE_KEY_PATTERN\<rparr>,
                        objectJson ''--payload-json'' False (Some (JObj []))]\<rparr>)]\<rparr>"

definition lease_command :: command_schema where
  "lease_command = no_command\<lparr>cs_require_action := True,
    cs_actions := Some [
      (''status'', no_args\<lparr>as_access := Some ReadExisting,
        as_options := [(opt ''--run'' StringOption)\<lparr>os_required := True, os_pattern := Some SAFE_KEY_PATTERN\<rparr>,
                        (opt ''--name'' StringOption)\<lparr>os_required := True, os_pattern := Some SAFE_KEY_PATTERN\<rparr>]\<rparr>),
      (''acquire'', no_args\<lparr>as_access := Some WriteEnsure,
        as_options := [(opt ''--run'' StringOption)\<lparr>os_required := True, os_pattern := Some SAFE_KEY_PATTERN\<rparr>,
                        (opt ''--name'' StringOption)\<lparr>os_required := True, os_pattern := Some SAFE_KEY_PATTERN\<rparr>,
                        (opt ''--owner'' StringOption)\<lparr>os_required := True, os_pattern := Some SAFE_KEY_PATTERN\<rparr>,
                        (opt ''--ttl-ms'' IntegerOption)\<lparr>os_min := Some 1000, os_max := Some 86400000, os_default := Some (IntArg 30000)\<rparr>]\<rparr>),
      (''release'', no_args\<lparr>as_access := Some WriteEnsure,
        as_options := [(opt ''--run'' StringOption)\<lparr>os_required := True, os_pattern := Some SAFE_KEY_PATTERN\<rparr>,
                        (opt ''--name'' StringOption)\<lparr>os_required := True, os_pattern := Some SAFE_KEY_PATTERN\<rparr>,
                        (opt ''--owner'' StringOption)\<lparr>os_required := True, os_pattern := Some SAFE_KEY_PATTERN\<rparr>,
                        (opt ''--generation'' IntegerOption)\<lparr>os_required := True, os_min := Some 1\<rparr>]\<rparr>)]\<rparr>"

definition cancel_command :: command_schema where
  "cancel_command = no_command\<lparr>as_access := Some WriteEnsure,
    as_options := [(opt ''--id'' StringOption)\<lparr>os_required := True, os_pattern := Some SAFE_KEY_PATTERN\<rparr>]\<rparr>"

definition recover_command :: command_schema where
  "recover_command = no_command\<lparr>cs_actions := Some [
      (''show'', no_args\<lparr>as_access := Some ReadExisting,
        as_options := [(opt ''--id'' StringOption)\<lparr>os_required := True, os_pattern := Some SAFE_KEY_PATTERN\<rparr>,
                        opt ''--summary'' FlagOption]\<rparr>),
      (''create'', no_args\<lparr>as_access := Some WriteEnsure,
        as_options := [(opt ''--transcript'' StringOption)\<lparr>os_absolute := True\<rparr>,
                        (opt ''--project-jsonl'' StringOption)\<lparr>os_absolute := True\<rparr>,
                        (opt ''--id'' StringOption)\<lparr>os_pattern := Some SAFE_KEY_PATTERN\<rparr>,
                        opt ''--summary'' FlagOption],
        as_exactly_one := [[''--transcript'', ''--project-jsonl'']]\<rparr>)],
    cs_default_action := Some ''create''\<rparr>"

definition compact_command :: command_schema where
  "compact_command = no_command\<lparr>cs_require_action := True,
    cs_actions := Some [
      (''checkpoint'', no_args\<lparr>as_access := Some WriteEnsure,
        as_options := [(opt ''--id'' StringOption)\<lparr>os_required := True, os_pattern := Some SAFE_KEY_PATTERN\<rparr>,
                        (opt ''--generation'' IntegerOption)\<lparr>os_required := True, os_min := Some 0\<rparr>,
                        objectJson ''--payload-json'' True None]\<rparr>),
      (''show'', no_args\<lparr>as_access := Some ReadExisting,
        as_options := [(opt ''--id'' StringOption)\<lparr>os_required := True, os_pattern := Some SAFE_KEY_PATTERN\<rparr>]\<rparr>),
      (''render'', no_args\<lparr>as_access := Some ReadExisting,
        as_options := [(opt ''--id'' StringOption)\<lparr>os_required := True, os_pattern := Some SAFE_KEY_PATTERN\<rparr>,
                        (opt ''--generation'' IntegerOption)\<lparr>os_required := True, os_min := Some 0\<rparr>]\<rparr>)]\<rparr>"

definition memory_command :: command_schema where
  "memory_command = no_command\<lparr>cs_require_action := True,
    cs_actions := Some [
      (''put'', no_args\<lparr>as_access := Some WriteEnsure,
        as_options := [(opt ''--text'' StringOption)\<lparr>os_required := True, os_pattern := Some NON_BLANK_PATTERN, os_max_bytes := Some 65536\<rparr>,
                        (opt ''--id'' StringOption)\<lparr>os_pattern := Some SAFE_KEY_PATTERN\<rparr>,
                        objectJson ''--metadata-json'' False (Some (JObj []))]\<rparr>),
      (''list'', no_args\<lparr>as_access := Some ReadExisting\<rparr>),
      (''show'', no_args\<lparr>as_access := Some ReadExisting,
        as_options := [(opt ''--id'' StringOption)\<lparr>os_required := True, os_pattern := Some SAFE_KEY_PATTERN\<rparr>]\<rparr>),
      (''search'', no_args\<lparr>as_access := Some ReadExisting,
        as_options := [(opt ''--query'' StringOption)\<lparr>os_required := True, os_pattern := Some NON_BLANK_PATTERN, os_max_length := Some 1024\<rparr>,
                        (opt ''--limit'' IntegerOption)\<lparr>os_min := Some 1, os_max := Some 100, os_default := Some (IntArg 20)\<rparr>]\<rparr>),
      (''export'', no_args\<lparr>as_access := Some ReadExisting\<rparr>),
      (''import'', no_args\<lparr>as_access := Some WriteEnsure,
        as_options := [(opt ''--file'' StringOption)\<lparr>os_required := True\<rparr>,
                        (opt ''--conflict'' StringOption)\<lparr>os_enum := Some [''reject'', ''skip'', ''replace'', ''newer-wins''], os_default := Some (TextArg ''reject'')\<rparr>,
                        (opt ''--dry-run'' FlagOption)\<lparr>os_access := Some ReadExisting\<rparr>]\<rparr>),
      (''delete'', no_args\<lparr>as_access := Some WriteEnsure,
        as_options := [(opt ''--id'' StringOption)\<lparr>os_required := True, os_pattern := Some SAFE_KEY_PATTERN\<rparr>,
                        (opt ''--expected-updated-at'' StringOption)\<lparr>os_pattern := Some NON_BLANK_PATTERN\<rparr>]\<rparr>),
      (''doctor'', no_args\<lparr>as_access := Some WriteEnsure,
        as_options := [opt ''--repair'' FlagOption]\<rparr>),
      (''rescan'', no_args\<lparr>as_access := Some WriteEnsure\<rparr>)]\<rparr>"

definition notify_command :: command_schema where
  "notify_command = no_command\<lparr>cs_require_action := True,
    cs_actions := Some [
      (''status'', no_args\<lparr>as_access := Some ReadExisting\<rparr>),
      (''configure'', no_args\<lparr>as_access := Some WriteEnsure,
        as_options := [(opt ''--generation'' IntegerOption)\<lparr>os_required := True, os_min := Some 0\<rparr>,
                        opt ''--enable'' FlagOption,
                        (opt ''--destination'' StringOption)\<lparr>os_pattern := Some NON_BLANK_PATTERN, os_max_length := Some 2048\<rparr>],
        as_all_or_none := [[''--enable'', ''--destination'']]\<rparr>),
      (''enqueue'', no_args\<lparr>as_access := Some WriteEnsure,
        as_options := [objectJson ''--payload-json'' True None,
                        (opt ''--id'' StringOption)\<lparr>os_pattern := Some SAFE_KEY_PATTERN\<rparr>]\<rparr>),
      (''show'', no_args\<lparr>as_access := Some ReadExisting,
        as_options := [(opt ''--id'' StringOption)\<lparr>os_required := True, os_pattern := Some SAFE_KEY_PATTERN\<rparr>]\<rparr>),
      (''dispatch'', no_args\<lparr>as_access := Some WriteEnsure,
        as_options := [(opt ''--id'' StringOption)\<lparr>os_required := True, os_pattern := Some SAFE_KEY_PATTERN\<rparr>,
                        (opt ''--generation'' IntegerOption)\<lparr>os_required := True, os_min := Some 0\<rparr>,
                        (opt ''--nonce'' StringOption)\<lparr>os_required := True, os_min_length := Some 16\<rparr>]\<rparr>)]\<rparr>"

definition tracker_command :: command_schema where
  "tracker_command = no_command\<lparr>cs_require_action := True,
    cs_actions := Some [
      (''record'', no_args\<lparr>as_access := Some WriteEnsure,
        as_options := [(opt ''--id'' StringOption)\<lparr>os_required := True, os_pattern := Some SAFE_KEY_PATTERN\<rparr>,
                        (opt ''--phase'' StringOption)\<lparr>os_required := True, os_enum := Some [''created'', ''started'', ''checkpointed'', ''completed'', ''failed'', ''cancelled'']\<rparr>,
                        objectJson ''--detail-json'' False (Some (JObj []))]\<rparr>),
      (''history'', no_args\<lparr>as_access := Some ReadExisting,
        as_options := [(opt ''--id'' StringOption)\<lparr>os_required := True, os_pattern := Some SAFE_KEY_PATTERN\<rparr>]\<rparr>)]\<rparr>"

definition wiki_command :: command_schema where
  "wiki_command = no_command\<lparr>cs_require_action := True,
    cs_actions := Some [
      (''render'', no_args\<lparr>as_access := Some WriteEnsure,
        as_options := [(opt ''--slug'' StringOption)\<lparr>os_required := True, os_pattern := Some SAFE_KEY_PATTERN\<rparr>,
                        (opt ''--tracker'' StringOption)\<lparr>os_required := True, os_pattern := Some SAFE_KEY_PATTERN\<rparr>,
                        (opt ''--generation'' IntegerOption)\<lparr>os_required := True, os_min := Some 0\<rparr>,
                        (opt ''--title'' StringOption)\<lparr>os_required := True, os_pattern := Some NON_BLANK_PATTERN, os_max_length := Some 512\<rparr>]\<rparr>),
      (''show'', no_args\<lparr>as_access := Some ReadExisting,
        as_options := [(opt ''--slug'' StringOption)\<lparr>os_required := True, os_pattern := Some SAFE_KEY_PATTERN\<rparr>]\<rparr>)]\<rparr>"

definition workflow_command :: command_schema where
  "workflow_command = no_command\<lparr>cs_require_action := True,
    cs_actions := Some [
      (''install'', no_args\<lparr>as_access := Some WriteEnsure,
        as_options := [(opt ''--file'' StringOption)\<lparr>os_required := True\<rparr>]\<rparr>),
      (''list'', no_args\<lparr>as_access := Some ReadExisting\<rparr>),
      (''show'', no_args\<lparr>as_access := Some ReadExisting,
        as_options := [(opt ''--name'' StringOption)\<lparr>os_required := True, os_pattern := Some SAFE_KEY_PATTERN\<rparr>,
                        (opt ''--version'' StringOption)\<lparr>os_default := Some (TextArg ''1''), os_pattern := Some SAFE_KEY_PATTERN\<rparr>]\<rparr>),
      (''plan'', no_args\<lparr>as_access := Some WriteEnsure,
        as_options := [(opt ''--name'' StringOption)\<lparr>os_required := True, os_pattern := Some SAFE_KEY_PATTERN\<rparr>,
                        (opt ''--version'' StringOption)\<lparr>os_default := Some (TextArg ''1''), os_pattern := Some SAFE_KEY_PATTERN\<rparr>,
                        (opt ''--id'' StringOption)\<lparr>os_required := True, os_pattern := Some SAFE_KEY_PATTERN\<rparr>,
                        (opt ''--objective'' StringOption)\<lparr>os_pattern := Some NON_BLANK_PATTERN, os_max_length := Some 16384\<rparr>,
                        (opt ''--prompt'' StringOption)\<lparr>os_pattern := Some NON_BLANK_PATTERN, os_max_length := Some 16384\<rparr>],
        as_positionals := [(positional ''objective'')\<lparr>ps_pattern := Some NON_BLANK_PATTERN, ps_max_length := Some 16384\<rparr>],
        as_exactly_one := [[''--objective'', ''--prompt'', ''objective'']]\<rparr>),
      (''run'', no_args\<lparr>as_access := Some WriteEnsure,
        as_options := [(opt ''--id'' StringOption)\<lparr>os_required := True, os_pattern := Some SAFE_KEY_PATTERN\<rparr>]\<rparr>),
      (''status'', no_args\<lparr>as_access := Some ReadExisting,
        as_options := [(opt ''--id'' StringOption)\<lparr>os_required := True, os_pattern := Some SAFE_KEY_PATTERN\<rparr>]\<rparr>),
      (''replay'', no_args\<lparr>as_access := Some ReadExisting,
        as_options := [(opt ''--id'' StringOption)\<lparr>os_required := True, os_pattern := Some SAFE_KEY_PATTERN\<rparr>]\<rparr>),
      (''lease-status'', no_args\<lparr>as_access := Some ReadExisting,
        as_options := [(opt ''--id'' StringOption)\<lparr>os_required := True, os_pattern := Some SAFE_KEY_PATTERN\<rparr>]\<rparr>),
      (''lease-reconcile'', no_args\<lparr>as_access := Some WriteExisting,
        as_options := [(opt ''--id'' StringOption)\<lparr>os_required := True, os_pattern := Some SAFE_KEY_PATTERN\<rparr>,
                        (opt ''--revision'' IntegerOption)\<lparr>os_required := True, os_min := Some 1\<rparr>,
                        (opt ''--credential-json'' JsonOption)\<lparr>os_required := True, os_domain := Some LeaseCredential\<rparr>]\<rparr>)]\<rparr>"

definition team_command :: command_schema where
  "team_command = no_command\<lparr>cs_require_action := True,
    cs_actions := Some [
      (''start'', no_args\<lparr>as_access := Some WriteEnsure,
        as_options := [(opt ''--id'' StringOption)\<lparr>os_required := True, os_pattern := Some TEAM_ID_PATTERN\<rparr>,
                        workersJson TeamWorkers,
                        opt ''--native'' FlagOption,
                        (opt ''--runtime'' StringOption)\<lparr>os_enum := Some [''local'', ''cloud'']\<rparr>]\<rparr>),
      (''run'', no_args\<lparr>as_access := Some WriteEnsure,
        as_options := [(opt ''--id'' StringOption)\<lparr>os_required := True, os_pattern := Some TEAM_ID_PATTERN\<rparr>,
                        workersJson TeamWorkers,
                        opt ''--native'' FlagOption,
                        (opt ''--runtime'' StringOption)\<lparr>os_enum := Some [''local'', ''cloud'']\<rparr>]\<rparr>),
      (''status'', no_args\<lparr>as_access := Some ReadExisting,
        as_options := [(opt ''--id'' StringOption)\<lparr>os_required := True, os_pattern := Some TEAM_ID_PATTERN\<rparr>,
                        opt ''--native'' FlagOption]\<rparr>),
      (''collect'', no_args\<lparr>as_access := Some ReadExisting,
        as_options := [(opt ''--id'' StringOption)\<lparr>os_required := True, os_pattern := Some TEAM_ID_PATTERN\<rparr>,
                        opt ''--native'' FlagOption]\<rparr>),
      (''stop'', no_args\<lparr>as_access := Some WriteEnsure,
        as_options := [(opt ''--id'' StringOption)\<lparr>os_required := True, os_pattern := Some TEAM_ID_PATTERN\<rparr>,
                        opt ''--native'' FlagOption]\<rparr>),
      (''monitor'', no_args\<lparr>as_access := Some ReadExisting,
        as_options := [(opt ''--id'' StringOption)\<lparr>os_required := True, os_pattern := Some TEAM_ID_PATTERN\<rparr>]\<rparr>),
      (''resume'', no_args\<lparr>as_access := Some WriteExisting,
        as_options := [(opt ''--id'' StringOption)\<lparr>os_required := True, os_pattern := Some TEAM_ID_PATTERN\<rparr>]\<rparr>),
      (''shutdown'', no_args\<lparr>as_access := Some WriteExisting,
        as_options := [(opt ''--id'' StringOption)\<lparr>os_required := True, os_pattern := Some TEAM_ID_PATTERN\<rparr>]\<rparr>),
      (''api'', no_args\<lparr>as_access := Some WriteEnsure,
        as_options := [opt ''--op'' StringOption,
                        objectJson ''--input'' False (Some (JObj [])),
                        opt ''--supervisor'' FlagOption,
                        (opt ''--help'' FlagOption)\<lparr>os_aliases := [''-h'']\<rparr>],
        as_positionals := [positional ''operation''],
        as_exactly_one := [[''--op'', ''operation'']]\<rparr>)]\<rparr>"

definition task_command :: command_schema where
  "task_command = no_command\<lparr>cs_require_action := True,
    cs_actions := Some [
      (''start'', no_args\<lparr>as_access := Some WriteEnsure,
        as_options := [(opt ''--agent'' StringOption)\<lparr>os_required := True\<rparr>,
                        (opt ''--runtime'' StringOption)\<lparr>os_enum := Some [''local'', ''cloud''], os_default := Some (TextArg ''local'')\<rparr>,
                        (opt ''--prompt'' StringOption)\<lparr>os_required := True\<rparr>,
                        opt ''--background'' FlagOption,
                        (opt ''--id'' StringOption)\<lparr>os_pattern := Some SAFE_KEY_PATTERN\<rparr>,
                        opt ''--worktree'' StringOption,
                        (opt ''--workflow'' StringOption)\<lparr>os_pattern := Some SAFE_KEY_PATTERN\<rparr>]\<rparr>),
      (''list'', no_args\<lparr>as_access := Some ReadExisting,
        as_options := [(opt ''--workflow'' StringOption)\<lparr>os_pattern := Some SAFE_KEY_PATTERN\<rparr>,
                        opt ''--status'' StringOption]\<rparr>),
      (''status'', no_args\<lparr>as_access := Some ReadExisting,
        as_options := [(opt ''--id'' StringOption)\<lparr>os_pattern := Some SAFE_KEY_PATTERN\<rparr>],
        as_positionals := [(positional ''id'')\<lparr>ps_pattern := Some SAFE_KEY_PATTERN\<rparr>],
        as_exactly_one := [[''--id'', ''id'']]\<rparr>),
      (''output'', no_args\<lparr>as_access := Some ReadExisting,
        as_options := [(opt ''--id'' StringOption)\<lparr>os_pattern := Some SAFE_KEY_PATTERN\<rparr>],
        as_positionals := [(positional ''id'')\<lparr>ps_pattern := Some SAFE_KEY_PATTERN\<rparr>],
        as_exactly_one := [[''--id'', ''id'']]\<rparr>),
      (''cancel'', no_args\<lparr>as_access := Some WriteExisting,
        as_options := [(opt ''--id'' StringOption)\<lparr>os_pattern := Some SAFE_KEY_PATTERN\<rparr>],
        as_positionals := [(positional ''id'')\<lparr>ps_pattern := Some SAFE_KEY_PATTERN\<rparr>],
        as_exactly_one := [[''--id'', ''id'']]\<rparr>),
      (''resume'', no_args\<lparr>as_access := Some WriteExisting,
        as_options := [(opt ''--id'' StringOption)\<lparr>os_pattern := Some SAFE_KEY_PATTERN\<rparr>],
        as_positionals := [(positional ''id'')\<lparr>ps_pattern := Some SAFE_KEY_PATTERN\<rparr>],
        as_exactly_one := [[''--id'', ''id'']]\<rparr>)]\<rparr>"

definition dag_command :: command_schema where
  "dag_command = no_command\<lparr>cs_require_action := True,
    cs_actions := Some [
      (''run'', no_args\<lparr>as_access := Some WriteEnsure,
        as_options := [(opt ''--file'' StringOption)\<lparr>os_required := True\<rparr>,
                        opt ''--canvas'' FlagOption,
                        opt ''--workspace'' StringOption,
                        (opt ''--max-concurrency'' IntegerOption)\<lparr>os_min := Some 1\<rparr>]\<rparr>)]\<rparr>"

definition automation_command :: command_schema where
  "automation_command = no_command\<lparr>cs_require_action := True,
    cs_actions := Some [
      (''plan'', no_args\<lparr>as_access := Some WriteEnsure,
        as_options := [(opt ''--name'' StringOption)\<lparr>os_required := True\<rparr>,
                        opt ''--cron'' StringOption,
                        opt ''--event'' StringOption,
                        (opt ''--prompt'' StringOption)\<lparr>os_required := True\<rparr>,
                        (opt ''--agent'' StringOption)\<lparr>os_default := Some (TextArg ''omcu-worker'')\<rparr>,
                        (opt ''--runtime'' StringOption)\<lparr>os_enum := Some [''local'', ''cloud''], os_default := Some (TextArg ''local'')\<rparr>,
                        (opt ''--id'' StringOption)\<lparr>os_pattern := Some SAFE_KEY_PATTERN\<rparr>]\<rparr>),
      (''status'', no_args\<lparr>as_access := Some ReadExisting,
        as_options := [(opt ''--id'' StringOption)\<lparr>os_pattern := Some SAFE_KEY_PATTERN\<rparr>]\<rparr>),
      (''install'', no_args\<lparr>as_access := Some WriteEnsure,
        as_options := [(opt ''--id'' StringOption)\<lparr>os_required := True, os_pattern := Some SAFE_KEY_PATTERN\<rparr>,
                        opt ''--allow-fallback'' FlagOption]\<rparr>),
      (''remove'', no_args\<lparr>as_access := Some WriteEnsure,
        as_options := [(opt ''--id'' StringOption)\<lparr>os_required := True, os_pattern := Some SAFE_KEY_PATTERN\<rparr>]\<rparr>)]\<rparr>"

definition persist_command :: command_schema where
  "persist_command = no_command\<lparr>cs_actions := Some [
      (''start'', no_args\<lparr>as_access := Some WriteEnsure,
        as_options := [(opt ''--goal'' StringOption)\<lparr>os_required := True, os_pattern := Some NON_BLANK_PATTERN, os_max_length := Some 8192\<rparr>,
                        (opt ''--max-loops'' IntegerOption)\<lparr>os_min := Some 1, os_max := Some 500, os_default := Some (IntArg 25)\<rparr>,
                        (opt ''--deadline-min'' IntegerOption)\<lparr>os_min := Some 1, os_max := Some 1440, os_default := Some (IntArg 120)\<rparr>]\<rparr>),
      (''stop'', no_args\<lparr>as_access := Some WriteEnsure\<rparr>),
      (''done'', no_args\<lparr>as_access := Some WriteEnsure\<rparr>),
      (''status'', no_args\<lparr>as_access := Some ReadExisting\<rparr>),
      (''decide'', no_args\<lparr>as_access := Some WriteExisting,
        as_options := [opt ''--input'' JsonOption]\<rparr>)],
    cs_default_action := Some ''status''\<rparr>"

definition ralplan_command :: command_schema where
  "ralplan_command = no_command\<lparr>as_access := Some AccessNone,
    as_options := [(opt ''--objective'' StringOption)\<lparr>os_pattern := Some NON_BLANK_PATTERN\<rparr>,
                    (opt ''--prompt'' StringOption)\<lparr>os_pattern := Some NON_BLANK_PATTERN\<rparr>,
                    (opt ''--rounds'' IntegerOption)\<lparr>os_min := Some 1, os_max := Some 10, os_default := Some (IntArg 3)\<rparr>],
    as_positionals := [(positional ''objective'')\<lparr>ps_pattern := Some NON_BLANK_PATTERN\<rparr>],
    as_exactly_one := [[''--objective'', ''--prompt'', ''objective'']]\<rparr>"

definition ralph_command :: command_schema where
  "ralph_command = no_command\<lparr>as_access := Some AccessNone,
    as_options := [(opt ''--objective'' StringOption)\<lparr>os_pattern := Some NON_BLANK_PATTERN\<rparr>,
                    (opt ''--prompt'' StringOption)\<lparr>os_pattern := Some NON_BLANK_PATTERN\<rparr>,
                    (opt ''--iterations'' IntegerOption)\<lparr>os_min := Some 1, os_max := Some 100, os_default := Some (IntArg 5)\<rparr>],
    as_positionals := [(positional ''objective'')\<lparr>ps_pattern := Some NON_BLANK_PATTERN\<rparr>],
    as_exactly_one := [[''--objective'', ''--prompt'', ''objective'']]\<rparr>"

definition ulw_command :: command_schema where
  "ulw_command = no_command\<lparr>as_access := Some AccessNone,
    as_options := [(opt ''--id'' StringOption)\<lparr>os_required := True, os_pattern := Some SAFE_KEY_PATTERN\<rparr>,
                    workersJson UlwWorkers]\<rparr>"

definition autopilot_command :: command_schema where
  "autopilot_command = no_command\<lparr>as_access := Some AccessNone,
    as_options := [(opt ''--objective'' StringOption)\<lparr>os_pattern := Some NON_BLANK_PATTERN\<rparr>,
                    (opt ''--prompt'' StringOption)\<lparr>os_pattern := Some NON_BLANK_PATTERN\<rparr>,
                    gatesJson],
    as_positionals := [(positional ''objective'')\<lparr>ps_pattern := Some NON_BLANK_PATTERN\<rparr>],
    as_exactly_one := [[''--objective'', ''--prompt'', ''--gates-json'', ''objective'']]\<rparr>"

definition pipeline_command :: command_schema where
  "pipeline_command = no_command\<lparr>as_access := Some AccessNone,
    as_options := [(opt ''--objective'' StringOption)\<lparr>os_pattern := Some NON_BLANK_PATTERN\<rparr>,
                    (opt ''--prompt'' StringOption)\<lparr>os_pattern := Some NON_BLANK_PATTERN\<rparr>,
                    gatesJson],
    as_positionals := [(positional ''objective'')\<lparr>ps_pattern := Some NON_BLANK_PATTERN\<rparr>],
    as_exactly_one := [[''--objective'', ''--prompt'', ''--gates-json'', ''objective'']]\<rparr>"

definition review_command :: command_schema where
  "review_command = no_command\<lparr>as_access := Some AccessNone,
    as_options := [(opt ''--objective'' StringOption)\<lparr>os_pattern := Some NON_BLANK_PATTERN\<rparr>,
                    (opt ''--prompt'' StringOption)\<lparr>os_pattern := Some NON_BLANK_PATTERN\<rparr>,
                    (opt ''--format'' StringOption)\<lparr>os_enum := Some [''json'', ''stream-json''], os_default := Some (TextArg ''json'')\<rparr>],
    as_positionals := [(positional ''objective'')\<lparr>ps_pattern := Some NON_BLANK_PATTERN\<rparr>],
    as_exactly_one := [[''--objective'', ''--prompt'', ''objective'']]\<rparr>"

definition qa_command :: command_schema where
  "qa_command = no_command\<lparr>as_access := Some AccessNone,
    as_options := [(opt ''--objective'' StringOption)\<lparr>os_pattern := Some NON_BLANK_PATTERN\<rparr>,
                    (opt ''--prompt'' StringOption)\<lparr>os_pattern := Some NON_BLANK_PATTERN\<rparr>,
                    (opt ''--format'' StringOption)\<lparr>os_enum := Some [''json'', ''stream-json''], os_default := Some (TextArg ''json'')\<rparr>],
    as_positionals := [(positional ''objective'')\<lparr>ps_pattern := Some NON_BLANK_PATTERN\<rparr>],
    as_exactly_one := [[''--objective'', ''--prompt'', ''objective'']]\<rparr>"

definition accept_command :: command_schema where
  "accept_command = no_command\<lparr>as_access := Some AccessNone,
    as_options := [(opt ''--objective'' StringOption)\<lparr>os_pattern := Some NON_BLANK_PATTERN\<rparr>,
                    (opt ''--prompt'' StringOption)\<lparr>os_pattern := Some NON_BLANK_PATTERN\<rparr>,
                    (opt ''--format'' StringOption)\<lparr>os_enum := Some [''json'', ''stream-json''], os_default := Some (TextArg ''json'')\<rparr>],
    as_positionals := [(positional ''objective'')\<lparr>ps_pattern := Some NON_BLANK_PATTERN\<rparr>],
    as_exactly_one := [[''--objective'', ''--prompt'', ''objective'']]\<rparr>"

definition integrate_command :: command_schema where
  "integrate_command = no_command\<lparr>as_access := Some AccessNone,
    as_options := [(opt ''--objective'' StringOption)\<lparr>os_pattern := Some NON_BLANK_PATTERN\<rparr>,
                    (opt ''--prompt'' StringOption)\<lparr>os_pattern := Some NON_BLANK_PATTERN\<rparr>,
                    (opt ''--format'' StringOption)\<lparr>os_enum := Some [''json'', ''stream-json''], os_default := Some (TextArg ''json'')\<rparr>],
    as_positionals := [(positional ''objective'')\<lparr>ps_pattern := Some NON_BLANK_PATTERN\<rparr>],
    as_exactly_one := [[''--objective'', ''--prompt'', ''objective'']]\<rparr>"

definition ask_command :: command_schema where
  "ask_command = no_command\<lparr>as_access := Some AccessNone,
    as_options := [(opt ''--objective'' StringOption)\<lparr>os_pattern := Some NON_BLANK_PATTERN\<rparr>,
                    (opt ''--prompt'' StringOption)\<lparr>os_pattern := Some NON_BLANK_PATTERN\<rparr>,
                    (opt ''--compare'' StringOption)\<lparr>os_pattern := Some NON_BLANK_PATTERN\<rparr>,
                    (opt ''--model'' StringOption)\<lparr>os_pattern := Some NON_BLANK_PATTERN\<rparr>,
                    (opt ''--timeout'' IntegerOption)\<lparr>os_min := Some 1\<rparr>,
                    opt ''--json'' FlagOption,
                    (opt ''--format'' StringOption)\<lparr>os_enum := Some [''json'', ''stream-json'', ''text''], os_default := Some (TextArg ''json'')\<rparr>],
    as_positionals := [(positional ''provider'')\<lparr>ps_pattern := Some NON_BLANK_PATTERN\<rparr>,
                        (positional ''objective'')\<lparr>ps_pattern := Some NON_BLANK_PATTERN\<rparr>]\<rparr>"

section \<open>The table\<close>

definition COMMAND_SCHEMAS :: "(string \<times> command_schema) list" where
  "COMMAND_SCHEMAS = [
    (''help'', help_command), (''version'', version_command), (''setup'', setup_command),
    (''update'', update_command), (''install'', install_command), (''rollback'', rollback_command),
    (''doctor'', doctor_command), (''uninstall'', uninstall_command), (''plugin'', plugin_command),
    (''components'', components_command), (''aliases'', aliases_command), (''agents'', agents_command),
    (''route'', route_command), (''models'', models_command), (''providers'', providers_command),
    (''hooks'', hooks_command), (''capabilities'', capabilities_command), (''native-status'', native_status_command),
    (''mcp-server'', mcp_server_command), (''mcp'', mcp_command), (''mcp-install'', mcp_install_command),
    (''session'', session_command), (''resume'', resume_command), (''state'', state_command),
    (''run'', run_command), (''lease'', lease_command), (''cancel'', cancel_command),
    (''recover'', recover_command), (''compact'', compact_command), (''memory'', memory_command),
    (''notify'', notify_command), (''tracker'', tracker_command), (''wiki'', wiki_command),
    (''workflow'', workflow_command), (''team'', team_command), (''task'', task_command),
    (''dag'', dag_command), (''automation'', automation_command), (''persist'', persist_command),
    (''ralplan'', ralplan_command), (''ralph'', ralph_command), (''ulw'', ulw_command),
    (''autopilot'', autopilot_command), (''pipeline'', pipeline_command), (''review'', review_command),
    (''qa'', qa_command), (''accept'', accept_command), (''integrate'', integrate_command),
    (''ask'', ask_command)]"

end
