(* ===== verification/CliArgs.thy ===== *)
theory CliArgs
  imports CliCommands Dates Paths
begin

text \<open>
  Reading the arguments of a command against its schema (\<^verbatim>\<open>src/cli/parser.ts\<close>,
  \<^verbatim>\<open>tokenizeArgs\<close> to \<^verbatim>\<open>argumentPresent\<close>).  The flags of the tokenizer and the values are
  association lists in the order of the \<^verbatim>\<open>Map\<close> and the object of the source; an entry whose
  value is \<^verbatim>\<open>undefined\<close> is left out, which every reader treats the same.  The host gives
  the value of a JSON number that is no safe integer and tells whether \<^verbatim>\<open>Date.parse\<close> reads a text.
\<close>

record cli_host =
  ch_num :: "string \<Rightarrow> json"
  ch_date :: "string \<Rightarrow> bool" \<comment> \<open>\<^verbatim>\<open>Number.isFinite(Date.parse(s))\<close>\<close>

section \<open>Tokens\<close>

datatype flag_value = Present | Given "string list"  \<comment> \<open>\<^verbatim>\<open>true\<close> or the values\<close>

record tokenized_args =
  ta_flags :: "(string \<times> flag_value) list"
  ta_positionals :: "string list"
  ta_raw :: "string list"
  ta_duplicates :: "string list"

definition assert_argv_bounds :: "string list \<Rightarrow> cli_error + unit" where
  "assert_argv_bounds args = (if length args > MAX_CLI_TOKENS then Inl E_CLI_TOO_MANY_TOKENS
     else if sum_list (map utf8_bytes args) > MAX_CLI_BYTES then Inl E_CLI_TOO_LARGE else Inr ())"

definition record_flag :: "string \<Rightarrow> string option \<Rightarrow> tokenized_args \<Rightarrow> tokenized_args" where
  \<comment> \<open>\<open>None\<close> records \<^verbatim>\<open>true\<close>\<close>
  "record_flag name value t = (case dget (ta_flags t) name of
     None \<Rightarrow> t\<lparr>ta_flags := dput name (case value of None \<Rightarrow> Present | Some v \<Rightarrow> Given [v]) (ta_flags t)\<rparr>
   | Some existing \<Rightarrow> t\<lparr>ta_duplicates := name # ta_duplicates t,
       ta_flags := dput name (case value of None \<Rightarrow> Present
         | Some v \<Rightarrow> (case existing of Present \<Rightarrow> Given [v] | Given vs \<Rightarrow> Given (vs @ [v]))) (ta_flags t)\<rparr>)"

definition joined :: "string \<Rightarrow> bool" where
  \<comment> \<open>\<^verbatim>\<open>--key=value\<close>\<close>
  "joined token = (starts_with ''--'' token \<and> CHR ''='' \<in> set token \<and> length token > 3)"

definition flag_like :: "string \<Rightarrow> bool" where
  "flag_like token = (starts_with ''--'' token \<or> (starts_with ''-'' token \<and> length token = 2))"

definition before_eq :: "string \<Rightarrow> string" where
  "before_eq token = takeWhile (\<lambda>c. c \<noteq> CHR ''='') token"

definition after_eq :: "string \<Rightarrow> string" where
  "after_eq token = tl (dropWhile (\<lambda>c. c \<noteq> CHR ''='') token)"

fun tokenize_from :: "string list \<Rightarrow> string list \<Rightarrow> tokenized_args \<Rightarrow> cli_error + tokenized_args" where
  \<comment> \<open>the loop over the tokens; \<open>known\<close> are the options that take a value\<close>
  "tokenize_from known [] t = Inr t"
| "tokenize_from known (token # rest) t =
     (if token = ''--'' then Inr (t\<lparr>ta_positionals := ta_positionals t @ rest\<rparr>)
      else if joined token then tokenize_from known rest (record_flag (before_eq token) (Some (after_eq token)) t)
      else if flag_like token then
        (case rest of
           [] \<Rightarrow> if token \<in> set known then Inl (E_OPTION_REQUIRED token) else tokenize_from known rest (record_flag token None t)
         | nxt # rest' \<Rightarrow>
             if token \<in> set known then
               (if nxt = ''--'' then Inl (E_OPTION_REQUIRED token) else tokenize_from known rest' (record_flag token (Some nxt) t))
             else if nxt \<noteq> ''--'' \<and> \<not> starts_with ''-'' nxt then tokenize_from known rest' (record_flag token (Some nxt) t)
             else tokenize_from known rest (record_flag token None t))
      else tokenize_from known rest (t\<lparr>ta_positionals := ta_positionals t @ [token]\<rparr>))"

definition tokenize_args :: "string list \<Rightarrow> string list \<Rightarrow> cli_error + tokenized_args" where
  "tokenize_args args known = rbind (assert_argv_bounds args) (\<lambda>_.
     tokenize_from known args \<lparr>ta_flags = [], ta_positionals = [], ta_raw = args, ta_duplicates = []\<rparr>)"

section \<open>JSON domains\<close>

definition has_exact_keys :: "json \<Rightarrow> string list \<Rightarrow> bool" where
  "has_exact_keys v expected = (case v of
     JObj fs \<Rightarrow> length (js_set (map fst fs)) = length expected \<and> list_all (\<lambda>k. k \<in> fst ` set fs) expected
   | _ \<Rightarrow> False)"

definition non_blank_string :: "nat \<Rightarrow> json option \<Rightarrow> bool" where
  \<comment> \<open>\<^verbatim>\<open>nonBlankString(value, max)\<close>\<close>
  "non_blank_string lim v = (case jstr v of None \<Rightarrow> False | Some s \<Rightarrow> \<not> blank s \<and> utf8_bytes s \<le> lim)"

definition non_blank_strings :: "json option \<Rightarrow> bool" where
  \<comment> \<open>\<^verbatim>\<open>stringArray(value, true)\<close>\<close>
  "non_blank_strings v = (case v of Some (JArr xs) \<Rightarrow> xs \<noteq> [] \<and> list_all (\<lambda>x. non_blank_string 4096 (Some x)) xs | _ \<Rightarrow> False)"

definition is_canonical_owned_path :: "string \<Rightarrow> bool" where
  "is_canonical_owned_path owned = (owned \<noteq> [] \<and> \<not> is_absolute owned
     \<and> ''..'' \<notin> set (split_by (\<lambda>c. c = CHR ''/'' \<or> c = CHR 0x5C) owned) \<and> normalize owned = owned \<and> owned \<noteq> ''.''
     \<and> CHR 0x5C \<notin> set owned \<and> \<not> ends_with ''/'' owned)"

definition json_strings :: "json option \<Rightarrow> string list" where
  \<comment> \<open>the entries of an array of strings\<close>
  "json_strings v = (case v of Some (JArr xs) \<Rightarrow> List.map_filter (\<lambda>x. jstr (Some x)) xs | _ \<Rightarrow> [])"

definition json_text :: "json option \<Rightarrow> string" where
  "json_text v = opt_default [] (jstr v)"

fun claim_owned :: "string \<Rightarrow> string list \<Rightarrow> (string \<times> string) list \<Rightarrow> (string \<times> string) list option" where
  \<comment> \<open>the loop over \<^verbatim>\<open>worker.owned_paths\<close>, \<open>None\<close> when it throws\<close>
  "claim_owned wid [] claims = Some claims"
| "claim_owned wid (p # ps) claims = (let key = to_lower p in
     if \<not> is_canonical_owned_path p then None
     else if list_ex (\<lambda>(existing, holder). holder \<noteq> wid \<and> paths_overlap key existing) claims then None
     else claim_owned wid ps (dput key wid claims))"

definition worker_ok :: "token_pattern \<Rightarrow> string list \<Rightarrow> json \<Rightarrow> bool" where
  \<comment> \<open>the condition of the loop over the workers, with the identifiers seen\<close>
  "worker_ok id_pattern ids worker = (is_jobj worker
     \<and> (case jstr (jget worker ''id'') of None \<Rightarrow> False | Some i \<Rightarrow> pattern_test id_pattern i \<and> i \<notin> set ids)
     \<and> non_blank_string 32768 (jget worker ''objective'') \<and> non_blank_strings (jget worker ''owned_paths'')
     \<and> opt_all (\<lambda>cwd. non_blank_string 4096 (Some cwd) \<and> is_absolute (json_text (Some cwd))) (jget worker ''cwd''))"

fun workers_ok :: "token_pattern \<Rightarrow> string list \<Rightarrow> (string \<times> string) list \<Rightarrow> json list \<Rightarrow> bool" where
  "workers_ok id_pattern ids claims [] = True"
| "workers_ok id_pattern ids claims (w # ws) = (worker_ok id_pattern ids w \<and>
     (let i = json_text (jget w ''id'') in
      case claim_owned i (json_strings (jget w ''owned_paths'')) claims of
        None \<Rightarrow> False | Some claims' \<Rightarrow> workers_ok id_pattern (i # ids) claims' ws))"

definition gate_phases :: "string list" where
  "gate_phases = [''plan'', ''execute'', ''review'', ''qa'', ''acceptance'']"

definition null_or_sha256 :: "json option \<Rightarrow> bool" where
  "null_or_sha256 v = (v = Some JNull \<or> (case jstr v of None \<Rightarrow> False | Some s \<Rightarrow> pattern_test SHA256_PATTERN s))"

definition gate_ok :: "string list \<Rightarrow> json \<Rightarrow> bool" where
  "gate_ok seen g = (is_jobj g
     \<and> (case jstr (jget g ''gate'') of None \<Rightarrow> False | Some p \<Rightarrow> p \<in> set gate_phases \<and> p \<notin> set seen)
     \<and> jbool (jget g ''passed'') \<noteq> None \<and> jget g ''verified'' = Some (JBool False)
     \<and> jget g ''verification_authority'' = Some (JStr ''omcu-cli-only'')
     \<and> null_or_sha256 (jget g ''evidence_sha256''))"

fun gates_ok :: "string list \<Rightarrow> json list \<Rightarrow> bool" where
  "gates_ok seen [] = True"
| "gates_ok seen (g # gs) = (gate_ok seen g \<and> gates_ok (json_text (jget g ''gate'') # seen) gs)"

definition safe_key_member :: "json \<Rightarrow> string \<Rightarrow> bool" where
  "safe_key_member v k = (non_blank_string 128 (jget v k) \<and> pattern_test SAFE_KEY_PATTERN (json_text (jget v k)))"

definition int_above :: "int \<Rightarrow> json option \<Rightarrow> bool" where
  \<comment> \<open>\<^verbatim>\<open>Number.isSafeInteger(v) && v > n\<close>\<close>
  "int_above n v = (case jsafe_int v of None \<Rightarrow> False | Some i \<Rightarrow> n < i)"

definition lease_credential_ok :: "cli_host \<Rightarrow> json \<Rightarrow> bool" where
  "lease_credential_ok host v = (is_jobj v \<and> safe_key_member v ''run_id'' \<and> safe_key_member v ''task_id''
     \<and> safe_key_member v ''owner_id'' \<and> int_above 1 (jget v ''owner_pid'') \<and> int_above 0 (jget v ''generation'')
     \<and> (case jstr (jget v ''owner_start_identity_sha256'') of None \<Rightarrow> False | Some s \<Rightarrow> pattern_test SHA256_PATTERN s)
     \<and> jbool (jget v ''owner_start_identity_proven'') \<noteq> None \<and> null_or_sha256 (jget v ''owner_nonce_sha256'')
     \<and> non_blank_string 128 (jget v ''acquired_at'') \<and> ch_date host (json_text (jget v ''acquired_at''))
     \<and> jget v ''expected_status'' = Some (JStr ''ambiguous'') \<and> non_blank_string 1024 (jget v ''expected_reason'')
     \<and> jget v ''operator_confirmation'' = Some (JStr ''owner-dead-side-effects-reviewed'')
     \<and> has_exact_keys v [''run_id'', ''task_id'', ''owner_id'', ''owner_pid'', ''owner_start_identity_sha256'',
          ''owner_start_identity_proven'', ''owner_nonce_sha256'', ''generation'', ''acquired_at'',
          ''expected_status'', ''expected_reason'', ''operator_confirmation''])"

definition domain_ok :: "cli_host \<Rightarrow> json_domain \<Rightarrow> json \<Rightarrow> bool" where
  "domain_ok host d v = (case d of
     ObjectDomain \<Rightarrow> is_jobj v
   | TeamWorkers \<Rightarrow> (case v of JArr ws \<Rightarrow> ws \<noteq> [] \<and> length ws \<le> 8 \<and> workers_ok SAFE_TEAM_WORKER_ID_PATTERN [] [] ws | _ \<Rightarrow> False)
   | UlwWorkers \<Rightarrow> (case v of JArr ws \<Rightarrow> ws \<noteq> [] \<and> length ws \<le> 16 \<and> workers_ok SAFE_ULW_WORKER_ID_PATTERN [] [] ws | _ \<Rightarrow> False)
   | GateList \<Rightarrow> (case v of JArr gs \<Rightarrow> gs \<noteq> [] \<and> length gs \<le> length gate_phases \<and> gates_ok [] gs | _ \<Rightarrow> False)
   | LeaseCredential \<Rightarrow> lease_credential_ok host v)"

definition decode_json_domain :: "cli_host \<Rightarrow> option_schema \<Rightarrow> json \<Rightarrow> cli_error + json" where
  "decode_json_domain host spec v = (case os_domain spec of None \<Rightarrow> Inr v
     | Some d \<Rightarrow> if domain_ok host d v then Inr v else Inl (E_JSON_DOMAIN_INVALID (os_name spec)))"

section \<open>Option values\<close>

definition below :: "nat option \<Rightarrow> nat \<Rightarrow> bool" where
  \<comment> \<open>\<^verbatim>\<open>min !== undefined && n < min\<close>\<close>
  "below lim n = (case lim of None \<Rightarrow> False | Some k \<Rightarrow> n < k)"

definition above :: "nat option \<Rightarrow> nat \<Rightarrow> bool" where
  "above lim n = (case lim of None \<Rightarrow> False | Some k \<Rightarrow> k < n)"

definition integer_text :: "string \<Rightarrow> bool" where
  \<comment> \<open>\<^verbatim>\<open>/^-?\d+$/\<close>\<close>
  "integer_text s = (unsigned s \<noteq> [] \<and> list_all is_digit (unsigned s))"

definition parse_option_value :: "cli_host \<Rightarrow> option_schema \<Rightarrow> string \<Rightarrow> cli_error + arg_value" where
  \<comment> \<open>\<^verbatim>\<open>Number(raw)\<close> of a text beyond the safe integers is no safe integer either; \<^verbatim>\<open>-0\<close> is \<open>0\<close>\<close>
  "parse_option_value host spec raw =
     (if utf8_bytes raw > opt_default MAX_OPTION_VALUE_BYTES (os_max_bytes spec) then Inl (E_OPTION_TOO_LARGE (os_name spec))
      else case os_kind spec of
        StringOption \<Rightarrow>
          if below (os_min_length spec) (length raw) \<or> above (os_max_length spec) (length raw) then Inl (E_OPTION_LENGTH_INVALID (os_name spec))
          else if os_absolute spec \<and> \<not> is_absolute raw then Inl (E_OPTION_FORMAT_INVALID (os_name spec))
          else if \<not> opt_all (\<lambda>p. pattern_test p raw) (os_pattern spec) then Inl (E_OPTION_FORMAT_INVALID (os_name spec))
          else if \<not> opt_all (\<lambda>xs. raw \<in> set xs) (os_enum spec) then Inl (E_OPTION_ENUM_INVALID (os_name spec))
          else Inr (TextArg raw)
      | IntegerOption \<Rightarrow>
          if \<not> integer_text raw then Inl (E_INTEGER_INVALID (os_name spec))
          else if \<not> safe_integer (integer_value raw) then Inl (E_INTEGER_UNSAFE (os_name spec))
          else if \<not> opt_all (\<lambda>m. m \<le> integer_value raw) (os_min spec) then Inl (E_INTEGER_RANGE (os_name spec))
          else if \<not> opt_all (\<lambda>m. integer_value raw \<le> m) (os_max spec) then Inl (E_INTEGER_RANGE (os_name spec))
          else Inr (IntArg (integer_value raw))
      | _ \<Rightarrow> (case json_parse (ch_num host) raw of None \<Rightarrow> Inl (E_JSON_INVALID (os_name spec))
          | Some v \<Rightarrow> rbind (decode_json_domain host spec v) (\<lambda>x. Inr (JsonArg x))))"

fun parse_option_values :: "cli_host \<Rightarrow> option_schema \<Rightarrow> string list \<Rightarrow> cli_error + arg_value list" where
  "parse_option_values host spec [] = Inr []"
| "parse_option_values host spec (r # rs) = rbind (parse_option_value host spec r) (\<lambda>v.
     rbind (parse_option_values host spec rs) (\<lambda>vs. Inr (v # vs)))"

section \<open>Positionals\<close>

datatype named_value = OneArg string | RestArgs "string list"

definition check_positional :: "positional_schema \<Rightarrow> string \<Rightarrow> cli_error + unit" where
  "check_positional ps v =
     (if utf8_bytes v > opt_default MAX_OPTION_VALUE_BYTES (ps_max_bytes ps) then Inl (E_POSITIONAL_TOO_LARGE (ps_name ps))
      else if below (ps_min_length ps) (length v) \<or> above (ps_max_length ps) (length v) then Inl (E_POSITIONAL_LENGTH_INVALID (ps_name ps))
      else if ps_absolute ps \<and> \<not> is_absolute v then Inl (E_POSITIONAL_FORMAT_INVALID (ps_name ps))
      else if \<not> opt_all (\<lambda>p. pattern_test p v) (ps_pattern ps) then Inl (E_POSITIONAL_FORMAT_INVALID (ps_name ps))
      else Inr ())"

fun read_positionals :: "positional_schema list \<Rightarrow> string list \<Rightarrow> named_value dir \<Rightarrow> cli_error + named_value dir" where
  \<comment> \<open>the loop over the schemas with the positionals from \<^verbatim>\<open>offset\<close> on\<close>
  "read_positionals [] [] r = Inr r"
| "read_positionals [] (w # ws) r = Inl (E_POSITIONAL_UNEXPECTED w)"
| "read_positionals (ps # pss) ws r =
     (if ps_multiple ps then
        (if pss \<noteq> [] then Inl (E_SCHEMA_INVALID (ps_name ps))
         else if ps_required ps \<and> ws = [] then Inl (E_POSITIONAL_REQUIRED (ps_name ps))
         else read_positionals pss [] (dput (ps_name ps) (RestArgs ws) r))
      else (case ws of
          [] \<Rightarrow> if ps_required ps then Inl (E_POSITIONAL_REQUIRED (ps_name ps)) else read_positionals pss [] (ddel (ps_name ps) r)
        | v # ws' \<Rightarrow> rbind (check_positional ps v) (\<lambda>_. read_positionals pss ws' (dput (ps_name ps) (OneArg v) r))))"

definition validate_positionals :: "string list \<Rightarrow> positional_schema list \<Rightarrow> cli_error + named_value dir" where
  "validate_positionals positionals schemas = read_positionals schemas positionals []"

section \<open>Validation\<close>

record validated_args = tokenized_args +
  va_values :: "arg_value dir"
  va_named :: "named_value dir"

definition by_name :: "option_schema list \<Rightarrow> string \<Rightarrow> option_schema option" where
  \<comment> \<open>a later option of the same name or alias replaces an earlier one\<close>
  "by_name options name = find (\<lambda>o'. os_name o' = name \<or> name \<in> set (os_aliases o')) (rev options)"

definition value_names :: "option_schema list \<Rightarrow> string list" where
  "value_names options = concat (map (\<lambda>o'. os_name o' # os_aliases o') (filter (\<lambda>o'. os_kind o' \<noteq> FlagOption) options))"

fun read_flags :: "cli_host \<Rightarrow> option_schema list \<Rightarrow> string list \<Rightarrow> (string \<times> flag_value) list \<Rightarrow> string list \<Rightarrow> arg_value dir
    \<Rightarrow> cli_error + arg_value dir" where
  \<comment> \<open>the loop over the flags; \<open>seen\<close> is \<^verbatim>\<open>seenCanonical\<close>\<close>
  "read_flags host options dups [] seen values = Inr values"
| "read_flags host options dups ((name, value) # fs) seen values = (case by_name options name of
     None \<Rightarrow> Inl (E_OPTION_UNKNOWN name)
   | Some spec \<Rightarrow>
       if os_name spec \<in> set seen \<and> \<not> os_multiple spec then Inl (E_OPTION_DUPLICATE (os_name spec))
       else if name \<in> set dups \<and> \<not> os_multiple spec then Inl (E_OPTION_DUPLICATE name)
       else if \<not> os_multiple spec \<and> (case value of Given vs \<Rightarrow> length vs > 1 | Present \<Rightarrow> False) then Inl (E_OPTION_DUPLICATE name)
       else if os_kind spec = FlagOption then
         (if value \<noteq> Present then Inl (E_OPTION_FLAG_VALUE name)
          else read_flags host options dups fs (os_name spec # seen) (dput (os_name spec) Switch values))
       else rbind (parse_option_values host spec (case value of Present \<Rightarrow> [] | Given vs \<Rightarrow> vs)) (\<lambda>parsed.
         read_flags host options dups fs (os_name spec # seen)
           (if os_multiple spec then dput (os_name spec) (ManyArgs parsed) values
            else case parsed of [] \<Rightarrow> ddel (os_name spec) values | v # _ \<Rightarrow> dput (os_name spec) v values)))"

definition is_given :: "(string \<times> flag_value) list \<Rightarrow> option_schema \<Rightarrow> bool" where
  "is_given flags spec = list_ex (\<lambda>n. dget flags n \<noteq> None) (os_name spec # os_aliases spec)"

fun fill_defaults :: "(string \<times> flag_value) list \<Rightarrow> option_schema list \<Rightarrow> arg_value dir \<Rightarrow> cli_error + arg_value dir" where
  "fill_defaults flags [] values = Inr values"
| "fill_defaults flags (o' # os) values =
     (if \<not> is_given flags o' \<and> os_required o' then Inl (E_OPTION_REQUIRED (os_name o'))
      else fill_defaults flags os (if is_given flags o' then values
        else case os_default o' of None \<Rightarrow> values | Some d \<Rightarrow> dput (os_name o') d values))"

definition argument_present :: "arg_value dir \<Rightarrow> named_value dir \<Rightarrow> string \<Rightarrow> bool" where
  "argument_present values named name = (if starts_with ''-'' name
     then (case dget values name of None \<Rightarrow> False | Some (ManyArgs vs) \<Rightarrow> vs \<noteq> [] | Some (JsonArg (JArr xs)) \<Rightarrow> xs \<noteq> [] | _ \<Rightarrow> True)
     else (case dget named name of None \<Rightarrow> False | Some (RestArgs ws) \<Rightarrow> ws \<noteq> [] | _ \<Rightarrow> True))"

definition count_present :: "arg_value dir \<Rightarrow> named_value dir \<Rightarrow> string list \<Rightarrow> nat" where
  "count_present values named names = length (filter (argument_present values named) names)"

definition check_group_rules :: "'a action_schema_scheme \<Rightarrow> arg_value dir \<Rightarrow> named_value dir \<Rightarrow> cli_error + unit" where
  "check_group_rules schema values named =
     (case find (\<lambda>g. count_present values named g > 1) (as_exclusive schema) of
        Some g \<Rightarrow> Inl (E_OPTIONS_MUTUALLY_EXCLUSIVE g)
      | None \<Rightarrow> (case find (\<lambda>g. count_present values named g \<noteq> 1) (as_exactly_one schema) of
          Some g \<Rightarrow> Inl (E_OPTION_COMBINATION_REQUIRED g)
        | None \<Rightarrow> (case find (\<lambda>g. count_present values named g \<noteq> 0 \<and> count_present values named g \<noteq> length g) (as_all_or_none schema) of
            Some g \<Rightarrow> Inl (E_OPTION_COMBINATION_REQUIRED g)
          | None \<Rightarrow> Inr ())))"

definition validate_args_against_schema :: "cli_host \<Rightarrow> string list \<Rightarrow> 'a action_schema_scheme \<Rightarrow> cli_error + validated_args" where
  "validate_args_against_schema host args schema = (let options = as_options schema in
     rbind (tokenize_args args (value_names options)) (\<lambda>tokens.
     rbind (read_flags host options (ta_duplicates tokens) (ta_flags tokens) [] []) (\<lambda>read.
     rbind (fill_defaults (ta_flags tokens) options read) (\<lambda>values.
     rbind (validate_positionals (ta_positionals tokens) (as_positionals schema)) (\<lambda>named.
     rbind (check_group_rules schema values named) (\<lambda>_.
     Inr (tokenized_args.extend tokens (validated_args.fields values named))))))))"

end
