(* ===== verification/CliGrammar.thy ===== *)
theory CliGrammar
  imports CliArgs
begin

text \<open>
  The grammar of an argument list: a sequence of items, each one token or an option with its value,
  and behind a \<^verbatim>\<open>--\<close> only positionals.  \<open>validate_iff\<close> says that the tokenizer and the validation of
  \<open>CliArgs\<close> accept exactly the lines of this grammar whose options the schema declares, each at
  most once, with values it admits, and what they make of such a line.
\<close>

section \<open>Items\<close>

datatype cli_item =
    Flag string             \<comment> \<open>\<^verbatim>\<open>--name\<close> or \<^verbatim>\<open>-n\<close>\<close>
  | Spaced string string    \<comment> \<open>\<^verbatim>\<open>--name value\<close>\<close>
  | Joined string string    \<comment> \<open>\<^verbatim>\<open>--name=value\<close>\<close>
  | Word string

fun item_tokens :: "cli_item \<Rightarrow> string list" where
  "item_tokens (Flag n) = [n]"
| "item_tokens (Spaced n v) = [n, v]"
| "item_tokens (Joined n v) = [n @ ''='' @ v]"
| "item_tokens (Word w) = [w]"

definition line :: "cli_item list \<Rightarrow> string list option \<Rightarrow> string list" where
  "line items rest = concat (map item_tokens items) @ (case rest of None \<Rightarrow> [] | Some ws \<Rightarrow> ''--'' # ws)"

lemma line_simps [simp]:
  "line [] None = []" "line [] (Some ws) = ''--'' # ws"
  "line (x # xs) rest = item_tokens x @ line xs rest"
  by (simp_all add: line_def)

definition option_name :: "string \<Rightarrow> bool" where
  "option_name n = (n \<noteq> ''--'' \<and> \<not> joined n \<and> flag_like n)"

fun item_ok :: "string list \<Rightarrow> string list \<Rightarrow> cli_item \<Rightarrow> bool" where
  \<comment> \<open>\<open>known\<close> are the options with a value, \<open>behind\<close> the tokens after the item\<close>
  "item_ok known behind (Flag n) = (option_name n \<and> n \<notin> set known
     \<and> (behind = [] \<or> hd behind = ''--'' \<or> starts_with ''-'' (hd behind)))"
| "item_ok known behind (Spaced n v) = (option_name n \<and> v \<noteq> ''--'' \<and> (n \<in> set known \<or> \<not> starts_with ''-'' v))"
| "item_ok known behind (Joined n v) = (joined (n @ ''='' @ v) \<and> CHR ''='' \<notin> set n)"
| "item_ok known behind (Word w) = (w \<noteq> ''--'' \<and> \<not> flag_like w)"

fun lexed :: "string list \<Rightarrow> cli_item list \<Rightarrow> string list option \<Rightarrow> bool" where
  "lexed known [] rest = True"
| "lexed known (x # xs) rest = (item_ok known (line xs rest) x \<and> lexed known xs rest)"

fun record_item :: "cli_item \<Rightarrow> tokenized_args \<Rightarrow> tokenized_args" where
  "record_item (Flag n) t = record_flag n None t"
| "record_item (Spaced n v) t = record_flag n (Some v) t"
| "record_item (Joined n v) t = record_flag n (Some v) t"
| "record_item (Word w) t = t\<lparr>ta_positionals := ta_positionals t @ [w]\<rparr>"

definition recorded :: "cli_item list \<Rightarrow> string list option \<Rightarrow> tokenized_args \<Rightarrow> tokenized_args" where
  "recorded items rest t = (let t' = fold record_item items t in
     t'\<lparr>ta_positionals := ta_positionals t' @ opt_default [] rest\<rparr>)"

lemma recorded_simps [simp]:
  "recorded [] None t = t"
  "recorded [] (Some ws) t = t\<lparr>ta_positionals := ta_positionals t @ ws\<rparr>"
  "recorded (x # xs) rest t = recorded xs rest (record_item x t)"
  by (simp_all add: recorded_def Let_def)

lemma eq_parts:
  assumes "CHR ''='' \<notin> set n"
  shows "before_eq (n @ ''='' @ v) = n" "after_eq (n @ ''='' @ v) = v"
  using assms unfolding before_eq_def after_eq_def
  by (induction n) auto

lemma joined_split:
  assumes "joined s"
  shows "s = before_eq s @ ''='' @ after_eq s" "CHR ''='' \<notin> set (before_eq s)"
proof -
  have "CHR ''='' \<in> set s" using assms by (simp add: joined_def)
  then have "s = takeWhile (\<lambda>c. c \<noteq> CHR ''='') s @ CHR ''='' # tl (dropWhile (\<lambda>c. c \<noteq> CHR ''='') s)"
    by (induction s) auto
  then show "s = before_eq s @ ''='' @ after_eq s" by (simp add: before_eq_def after_eq_def)
  show "CHR ''='' \<notin> set (before_eq s)" using set_takeWhileD by (fastforce simp: before_eq_def)
qed

lemma flag_like_dashes: "flag_like ''--''"
  by (simp add: flag_like_def starts_with_def)

lemma joined_not_dashes: "joined s \<Longrightarrow> s \<noteq> ''--''"
  by (auto simp: joined_def)

lemma joined_flag_like: "joined s \<Longrightarrow> flag_like s"
  by (simp add: joined_def flag_like_def)

lemma tokenize_line:
  assumes "lexed known items rest"
  shows "tokenize_from known (line items rest) t = Inr (recorded items rest t)"
  using assms
proof (induction items arbitrary: t)
  case Nil
  then show ?case by (cases rest) simp_all
next
  case (Cons x xs)
  note IH = Cons.IH
  have l: "lexed known xs rest" and ok: "item_ok known (line xs rest) x" using Cons.prems by simp_all
  show ?case
  proof (cases x)
    case (Flag n)
    then have n: "n \<noteq> ''--''" "\<not> joined n" "flag_like n" "n \<notin> set known" using ok by (auto simp: option_name_def)
    show ?thesis
    proof (cases "line xs rest")
      case Nil
      then show ?thesis using n IH [OF l] Flag by simp
    next
      case (Cons nxt more)
      then have "nxt = ''--'' \<or> starts_with ''-'' nxt" using ok Flag by simp
      then show ?thesis using n IH [OF l, of "record_flag n None t"] Flag Cons
        by (cases "nxt = ''--''") (simp_all add: Cons)
    qed
  next
    case (Spaced n v)
    then show ?thesis using ok IH [OF l] by (auto simp: option_name_def)
  next
    case (Joined n v)
    then have "joined (n @ ''='' @ v)" "CHR ''='' \<notin> set n" using ok by simp_all
    then show ?thesis using IH [OF l] Joined joined_not_dashes [of "n @ ''='' @ v"] eq_parts [of n v] by simp
  next
    case (Word w)
    then have "w \<noteq> ''--''" "\<not> joined w" "\<not> flag_like w" using ok joined_flag_like by auto
    then show ?thesis using IH [OF l] Word by simp
  qed
qed

lemma tokenize_items:
  assumes "tokenize_from known args t = Inr t'"
  shows "\<exists>items rest. args = line items rest \<and> lexed known items rest \<and> t' = recorded items rest t"
  using assms
proof (induction known args t rule: tokenize_from.induct)
  case (1 known t)
  have "[] = line [] None \<and> lexed known [] None \<and> t' = recorded [] None t" using 1 by simp
  then show ?case by blast
next
  case (2 known token rest t)
  note prems = "2.prems" and IH = "2.IH"
  have add: "\<exists>items q. token # tokens @ more = line items q \<and> lexed known items q \<and> t' = recorded items q t"
    if x: "item_tokens x = token # tokens" and ok: "item_ok known more x"
      and ih: "\<exists>items q. more = line items q \<and> lexed known items q \<and> t' = recorded items q (record_item x t)"
    for x tokens more
  proof -
    from ih obtain items q where i: "more = line items q" "lexed known items q" "t' = recorded items q (record_item x t)" by blast
    then have "token # tokens @ more = line (x # items) q \<and> lexed known (x # items) q \<and> t' = recorded (x # items) q t"
      using x ok by simp
    then show ?thesis by blast
  qed
  consider (stop) "token = ''--''" | (join) "token \<noteq> ''--''" "joined token"
    | (flag) "token \<noteq> ''--''" "\<not> joined token" "flag_like token"
    | (word) "token \<noteq> ''--''" "\<not> joined token" "\<not> flag_like token" by blast
  then show ?case
  proof cases
    case stop
    have "token # rest = line [] (Some rest) \<and> lexed known [] (Some rest) \<and> t' = recorded [] (Some rest) t"
      using prems stop by simp
    then show ?thesis by blast
  next
    case join
    then have "tokenize_from known rest (record_flag (before_eq token) (Some (after_eq token)) t) = Inr t'"
      using prems by simp
    from add [of "Joined (before_eq token) (after_eq token)" "[]" rest] IH(1) [OF join this] join joined_split [OF join(2)]
    show ?thesis by simp
  next
    case word
    then have "tokenize_from known rest (t\<lparr>ta_positionals := ta_positionals t @ [token]\<rparr>) = Inr t'"
      using prems by simp
    from add [of "Word token" "[]" rest] IH(6) [OF word this] word show ?thesis by simp
  next
    case flag
    then have name: "option_name token" by (simp add: option_name_def)
    show ?thesis
    proof (cases rest)
      case Nil
      then have r: "token \<notin> set known" "tokenize_from known rest (record_flag token None t) = Inr t'"
        using prems flag by (auto split: if_splits)
      from add [of "Flag token" "[]" rest] IH(2) [OF flag Nil r] name r Nil show ?thesis by simp
    next
      case (Cons nxt rest')
      show ?thesis
      proof (cases "token \<in> set known")
        case True
        then have r: "nxt \<noteq> ''--''" "tokenize_from known rest' (record_flag token (Some nxt) t) = Inr t'"
          using prems flag Cons by (auto split: if_splits)
        from add [of "Spaced token nxt" "[nxt]" rest'] IH(3) [OF flag Cons True r] name r True Cons show ?thesis by simp
      next
        case False
        show ?thesis
        proof (cases "nxt \<noteq> ''--'' \<and> \<not> starts_with ''-'' nxt")
          case True
          then have r: "tokenize_from known rest' (record_flag token (Some nxt) t) = Inr t'"
            using prems flag Cons False by simp
          from add [of "Spaced token nxt" "[nxt]" rest'] IH(4) [OF flag Cons False True r] name True Cons show ?thesis by simp
        next
          case dash: False
          have "tokenize_from known (token # rest) t = tokenize_from known rest (record_flag token None t)"
            unfolding tokenize_from.simps(2) [of known token rest t] using flag False dash
            by (auto simp: Cons simp del: tokenize_from.simps)
          then have r: "tokenize_from known rest (record_flag token None t) = Inr t'" using prems by simp
          from add [of "Flag token" "[]" rest] IH(5) [OF flag Cons False dash r] name False dash Cons show ?thesis by auto
        qed
      qed
    qed
  qed
qed

lemma tokenize_from_iff:
  "tokenize_from known args t = Inr t' \<longleftrightarrow>
     (\<exists>items rest. args = line items rest \<and> lexed known items rest \<and> t' = recorded items rest t)"
  using tokenize_items tokenize_line by fastforce

section \<open>Entries\<close>

fun item_entry :: "cli_item \<Rightarrow> (string \<times> flag_value) list" where
  "item_entry (Flag n) = [(n, Present)]"
| "item_entry (Spaced n v) = [(n, Given [v])]"
| "item_entry (Joined n v) = [(n, Given [v])]"
| "item_entry (Word w) = []"

definition entries :: "cli_item list \<Rightarrow> (string \<times> flag_value) list" where
  "entries items = concat (map item_entry items)"

definition item_words :: "cli_item list \<Rightarrow> string list" where
  "item_words items = concat (map (\<lambda>x. case x of Word w \<Rightarrow> [w] | _ \<Rightarrow> []) items)"

lemma entries_simps [simp]: "entries [] = []" "entries (xs @ ys) = entries xs @ entries ys"
  "entries [x] = item_entry x"
  by (simp_all add: entries_def)

lemma item_words_simps [simp]: "item_words [] = []" "item_words (xs @ ys) = item_words xs @ item_words ys"
  "item_words [x] = (case x of Word w \<Rightarrow> [w] | _ \<Rightarrow> [])"
  by (simp_all add: item_words_def)

lemma dput_fresh: "k \<notin> set (dnames d) \<Longrightarrow> dput k v d = d @ [(k, v)]"
  by (induction k v d rule: dput.induct) (auto simp: dnames_def)

lemma dget_fresh: "dget d k = None \<longleftrightarrow> k \<notin> set (dnames d)"
  using set_dnames [of k d] by simp

lemma record_flag_new:
  "dget (ta_flags t) n = None \<Longrightarrow> record_flag n fv t
     = t\<lparr>ta_flags := ta_flags t @ [(n, case fv of None \<Rightarrow> Present | Some v \<Rightarrow> Given [v])]\<rparr>"
  using dget_fresh [of "ta_flags t" n] by (simp add: record_flag_def dput_fresh)

lemma record_flag_again:
  "dget (ta_flags t) n \<noteq> None \<Longrightarrow> set (ta_duplicates (record_flag n fv t)) = insert n (set (ta_duplicates t))"
  "set (dnames (ta_flags (record_flag n fv t))) = insert n (set (dnames (ta_flags t)))"
  "set (ta_duplicates t) \<subseteq> set (ta_duplicates (record_flag n fv t))"
  by (auto simp: record_flag_def split: option.split)

lemma record_flag_frame [simp]:
  "ta_positionals (record_flag n fv t) = ta_positionals t" "ta_raw (record_flag n fv t) = ta_raw t"
  by (simp_all add: record_flag_def split: option.split)

lemma record_item_frame:
  "ta_raw (record_item x t) = ta_raw t"
  "ta_positionals (record_item x t) = ta_positionals t @ (case x of Word w \<Rightarrow> [w] | _ \<Rightarrow> [])"
  by (cases x; simp)+

lemma record_item_entry:
  assumes "item_entry x = [(n, fv)]"
  shows "record_item x t = record_flag n (case fv of Present \<Rightarrow> None | Given vs \<Rightarrow> Some (hd vs)) t"
    and "fv = Present \<or> (\<exists>v. fv = Given [v])"
  using assms by (cases x; auto)+

lemma fold_items:
  fixes args :: "string list"
  defines "start \<equiv> \<lparr>ta_flags = [], ta_positionals = [], ta_raw = args, ta_duplicates = []\<rparr>"
  shows "ta_raw (fold record_item items start) = args \<and> ta_positionals (fold record_item items start) = item_words items
    \<and> (if distinct (map fst (entries items))
       then ta_flags (fold record_item items start) = entries items \<and> ta_duplicates (fold record_item items start) = []
       else ta_duplicates (fold record_item items start) \<noteq> []
         \<and> set (ta_duplicates (fold record_item items start)) \<subseteq> set (dnames (ta_flags (fold record_item items start))))
    \<and> set (dnames (ta_flags (fold record_item items start))) = fst ` set (entries items)"
proof (induction items rule: rev_induct)
  case Nil
  then show ?case by (simp add: start_def dnames_def)
next
  case (snoc x xs)
  define t where "t = fold record_item xs start"
  have t: "fold record_item (xs @ [x]) start = record_item x t" by (simp add: t_def)
  note IH = snoc.IH [folded t_def]
  show ?case
  proof (cases "item_entry x")
    case Nil
    then obtain w where x: "x = Word w" by (cases x) simp_all
    show ?thesis unfolding t using IH by (auto simp: x)
  next
    case (Cons e es)
    then obtain n fv where e: "item_entry x = [(n, fv)]" by (cases x) simp_all
    define a where "a = (case fv of Present \<Rightarrow> None | Given vs \<Rightarrow> Some (hd vs))"
    have r: "record_item x t = record_flag n a t" using record_item_entry(1) [OF e] by (simp add: a_def)
    have fv: "(case a of None \<Rightarrow> Present | Some v \<Rightarrow> Given [v]) = fv"
      using record_item_entry(2) [OF e] by (auto simp: a_def)
    have words: "item_words (xs @ [x]) = item_words xs" using e by (cases x) simp_all
    have names: "set (dnames (ta_flags (record_item x t))) = fst ` set (entries (xs @ [x]))"
      unfolding r record_flag_again(2) using IH e by simp
    show ?thesis
    proof (cases "n \<in> fst ` set (entries xs)")
      case True
      then have "dget (ta_flags t) n \<noteq> None" using IH by (simp add: dget_fresh)
      then have "ta_duplicates (record_item x t) \<noteq> []
          \<and> set (ta_duplicates (record_item x t)) \<subseteq> insert n (set (ta_duplicates t))"
        unfolding r using record_flag_again(1) [of t n a] by (metis empty_iff empty_set insert_iff subset_refl)
      moreover have "set (ta_duplicates t) \<subseteq> set (dnames (ta_flags t))" using IH by (auto split: if_splits)
      ultimately have d: "ta_duplicates (record_item x t) \<noteq> []"
        "set (ta_duplicates (record_item x t)) \<subseteq> set (dnames (ta_flags (record_item x t)))"
        unfolding r record_flag_again(2) by blast+
      have "\<not> distinct (map fst (entries (xs @ [x])))" using True e by auto
      with d names words IH show ?thesis unfolding t by (simp add: r)
    next
      case False
      then have new: "record_item x t = t\<lparr>ta_flags := ta_flags t @ [(n, fv)]\<rparr>"
        unfolding r using IH record_flag_new [of t n a] by (simp add: dget_fresh fv)
      have "distinct (map fst (entries (xs @ [x]))) \<longleftrightarrow> distinct (map fst (entries xs))" using False e by simp
      with IH words e show ?thesis unfolding t new by (auto simp: dnames_def)
    qed
  qed
qed

section \<open>Values\<close>

fun entry_value :: "cli_host \<Rightarrow> option_schema list \<Rightarrow> string \<times> flag_value \<Rightarrow> (string \<times> arg_value) option" where
  \<comment> \<open>what an option as written means under the schema, \<open>None\<close> when the schema refuses it\<close>
  "entry_value host options (name, fv) = (case by_name options name of
     None \<Rightarrow> None
   | Some spec \<Rightarrow> (case fv of
       Present \<Rightarrow> if os_kind spec = FlagOption then Some (os_name spec, Switch) else None
     | Given [v] \<Rightarrow> if os_kind spec = FlagOption then None
         else (case parse_option_value host spec v of Inl _ \<Rightarrow> None | Inr x \<Rightarrow> Some (os_name spec, x))
     | _ \<Rightarrow> None))"

definition single_options :: "option_schema list \<Rightarrow> bool" where
  \<comment> \<open>no option may be repeated, and no two have a name or an alias in common\<close>
  "single_options options = (list_all (\<lambda>o'. \<not> os_multiple o') options
     \<and> distinct (concat (map (\<lambda>o'. os_name o' # os_aliases o') options)))"

lemma by_name_Some:
  assumes "by_name options n = Some spec"
  shows "spec \<in> set options" "n \<in> set (os_name spec # os_aliases spec)"
  using assms unfolding by_name_def by (auto simp: find_Some_iff) (metis length_rev nth_mem set_rev)+

lemma by_name_value:
  assumes "by_name options n = Some spec" "n \<notin> set (value_names options)"
  shows "os_kind spec = FlagOption"
  using by_name_Some [OF assms(1)] assms(2) by (auto simp: value_names_def)

lemma read_flags_iff:
  assumes "list_all (\<lambda>o'. \<not> os_multiple o') options"
    and "\<forall>(n, fv) \<in> set es. (\<exists>v. fv = Given [v]) \<or> (fv = Present \<and> n \<notin> set (value_names options))"
    and "set (dnames values) \<subseteq> set seen"
  shows "read_flags host options [] es seen values = Inr r \<longleftrightarrow>
    (\<exists>vals. map (entry_value host options) es = map Some vals \<and> distinct (map fst vals)
       \<and> fst ` set vals \<inter> set seen = {} \<and> r = values @ vals)"
  using assms(2,3)
proof (induction es arbitrary: seen "values")
  case Nil
  then show ?case by auto
next
  case (Cons e es)
  obtain n fv where e: "e = (n, fv)" by (cases e)
  show ?case
  proof (cases "by_name options n")
    case None
    then show ?thesis by (auto simp: e Cons_eq_map_conv)
  next
    case (Some spec)
    have single: "\<not> os_multiple spec" using by_name_Some(1) [OF Some] assms(1) by (auto simp: list_all_iff)
    have step: "(read_flags host options [] es (os_name spec # seen) (dput (os_name spec) x values) = Inr r) =
        (\<exists>vals. map (entry_value host options) es = map Some vals \<and> distinct (os_name spec # map fst vals)
          \<and> fst ` set vals \<inter> set seen = {} \<and> r = values @ (os_name spec, x) # vals)"
      if "os_name spec \<notin> set seen" for x
    proof -
      have "os_name spec \<notin> set (dnames values)" using that Cons.prems(2) by blast
      then have "dput (os_name spec) x values = values @ [(os_name spec, x)]" by (rule dput_fresh)
      moreover have "set (dnames (dput (os_name spec) x values)) \<subseteq> set (os_name spec # seen)" using Cons.prems(2) by auto
      ultimately show ?thesis using Cons.IH [of "dput (os_name spec) x values" "os_name spec # seen"] Cons.prems(1) by auto
    qed
    have ex: "(\<exists>vals. map (entry_value host options) (e # es) = map Some vals \<and> distinct (map fst vals)
         \<and> fst ` set vals \<inter> set seen = {} \<and> r = values @ vals) \<longleftrightarrow>
       (\<exists>x vals. entry_value host options e = Some (os_name spec, x) \<and> os_name spec \<notin> set seen
          \<and> map (entry_value host options) es = map Some vals \<and> distinct (os_name spec # map fst vals)
          \<and> fst ` set vals \<inter> set seen = {} \<and> r = values @ (os_name spec, x) # vals)" (is "?l = ?r")
    proof
      assume ?l
      then obtain vals where v: "map (entry_value host options) (e # es) = map Some vals" "distinct (map fst vals)"
        "fst ` set vals \<inter> set seen = {}" "r = values @ vals" by blast
      then obtain p vals' where p: "vals = p # vals'" by (cases vals) auto
      have "fst p = os_name spec" using v(1) unfolding p e
        by (auto simp: Some split: flag_value.splits list.splits if_splits sum.splits)
      then obtain x where x: "p = (os_name spec, x)" by (metis prod.collapse)
      from v show ?r unfolding p x by (intro exI [of _ x] exI [of _ vals']) auto
    next
      assume ?r
      then obtain x vals where "entry_value host options e = Some (os_name spec, x)" "os_name spec \<notin> set seen"
        "map (entry_value host options) es = map Some vals" "distinct (os_name spec # map fst vals)"
        "fst ` set vals \<inter> set seen = {}" "r = values @ (os_name spec, x) # vals" by blast
      then show ?l by (intro exI [of _ "(os_name spec, x) # vals"]) auto
    qed
    show ?thesis
    proof (cases "os_name spec \<in> set seen")
      case True
      then show ?thesis unfolding ex by (simp add: e Some single)
    next
      case False
      show ?thesis
      proof (cases fv)
        case Present
        then have "os_kind spec = FlagOption" using Cons.prems(1) by_name_value [OF Some] by (simp add: e)
        then show ?thesis unfolding ex using step [OF False, of Switch] by (simp add: e Some single False Present)
      next
        case (Given vs)
        then obtain v where v: "vs = [v]" using Cons.prems(1) by (auto simp: e)
        show ?thesis
        proof (cases "os_kind spec = FlagOption")
          case True
          then show ?thesis unfolding ex by (simp add: e Some single False Given v)
        next
          case kind: False
          show ?thesis
          proof (cases "parse_option_value host spec v")
            case (Inl err)
            then show ?thesis unfolding ex using kind by (simp add: e Some single False Given v)
          next
            case (Inr x)
            then show ?thesis unfolding ex using kind step [OF False, of x] by (simp add: e Some single False Given v)
          qed
        qed
      qed
    qed
  qed
qed

section \<open>Defaults\<close>

definition defaults_of :: "(string \<times> flag_value) list \<Rightarrow> option_schema list \<Rightarrow> arg_value dir" where
  \<comment> \<open>the defaults of the options that are not given\<close>
  "defaults_of es options = concat (map (\<lambda>o'. if is_given es o' then []
     else case os_default o' of None \<Rightarrow> [] | Some d \<Rightarrow> [(os_name o', d)]) options)"

lemma is_given_iff: "is_given es o' \<longleftrightarrow> (\<exists>n \<in> set (os_name o' # os_aliases o'). n \<in> fst ` set es)"
  by (auto simp: is_given_def list_ex_iff dget_def map_of_eq_None_iff)

lemma fill_defaults_iff:
  assumes "distinct (map os_name options)" "\<forall>o' \<in> set options. \<not> is_given es o' \<longrightarrow> os_name o' \<notin> set (dnames vals)"
  shows "fill_defaults es options vals = Inr r \<longleftrightarrow>
    (\<forall>o' \<in> set options. os_required o' \<longrightarrow> is_given es o') \<and> r = vals @ defaults_of es options"
  using assms
proof (induction options arbitrary: vals)
  case Nil
  then show ?case by (auto simp: defaults_of_def)
next
  case (Cons o' os)
  define new where "new = (if is_given es o' then [] else case os_default o' of None \<Rightarrow> [] | Some d \<Rightarrow> [(os_name o', d)])"
  have new: "(if is_given es o' then vals else case os_default o' of None \<Rightarrow> vals | Some d \<Rightarrow> dput (os_name o') d vals) = vals @ new"
    using Cons.prems(2) by (auto simp: new_def dput_fresh split: option.split)
  have "set (dnames (vals @ new)) \<subseteq> insert (os_name o') (set (dnames vals))"
    by (auto simp: new_def dnames_def split: option.split)
  moreover have "os_name p \<noteq> os_name o'" if "p \<in> set os" for p
    using Cons.prems(1) imageI [OF that, of os_name] by auto
  ultimately have "\<forall>p \<in> set os. \<not> is_given es p \<longrightarrow> os_name p \<notin> set (dnames (vals @ new))"
    using Cons.prems(2) by (meson insertE list.set_intros(2) subsetD)
  then have IH: "fill_defaults es os (vals @ new) = Inr r \<longleftrightarrow>
      (\<forall>p \<in> set os. os_required p \<longrightarrow> is_given es p) \<and> r = (vals @ new) @ defaults_of es os"
    using Cons.IH [of "vals @ new"] Cons.prems(1) by simp
  have "defaults_of es (o' # os) = new @ defaults_of es os" by (simp add: defaults_of_def new_def)
  then show ?case using IH by (auto simp: new)
qed

lemma single_names:
  assumes "single_options options"
  shows "distinct (map os_name options)" "list_all (\<lambda>o'. \<not> os_multiple o') options"
proof -
  have "distinct (concat (map (\<lambda>o'. os_name o' # os_aliases o') options)) \<Longrightarrow> distinct (map os_name options)"
    by (induction options) auto
  with assms show "distinct (map os_name options)" "list_all (\<lambda>o'. \<not> os_multiple o') options"
    by (auto simp: single_options_def)
qed

lemma entry_value_name:
  "entry_value host options (n, fv) = Some p \<Longrightarrow> \<exists>spec. by_name options n = Some spec \<and> fst p = os_name spec"
  by (auto split: option.splits flag_value.splits if_splits list.splits sum.splits)

lemma entry_values_names:
  assumes "map (entry_value host options) es = map Some vals"
  shows "map fst vals = map (\<lambda>(n, _). os_name (the (by_name options n))) es"
  using assms
proof (induction es arbitrary: vals)
  case (Cons e es)
  then obtain p vals' where p: "vals = p # vals'" by (cases vals) auto
  obtain n fv where e: "e = (n, fv)" by (cases e)
  from Cons p show ?case using entry_value_name [of host options n fv p] by (auto simp: e)
qed simp

lemma distinct_written:
  assumes "map (entry_value host options) es = map Some vals" "distinct (map fst vals)"
  shows "distinct (map fst es)"
proof -
  have "map fst vals = map (\<lambda>n. os_name (the (by_name options n))) (map fst es)"
    by (simp add: entry_values_names [OF assms(1)] case_prod_unfold)
  with assms(2) show ?thesis using distinct_map by metis
qed

lemma not_given_absent:
  assumes "single_options options" "map (entry_value host options) es = map Some vals"
    "o' \<in> set options" "\<not> is_given es o'"
  shows "os_name o' \<notin> set (dnames vals)"
proof
  assume "os_name o' \<in> set (dnames vals)"
  then obtain p where p: "p \<in> set vals" "fst p = os_name o'" by (auto simp: dnames_def)
  then have "Some p \<in> set (map (entry_value host options) es)" by (simp add: assms(2))
  then obtain n fv where n: "(n, fv) \<in> set es" "entry_value host options (n, fv) = Some p" by (metis (mono_tags) imageE list.set_map surj_pair)
  obtain spec where spec: "by_name options n = Some spec" "fst p = os_name spec" using entry_value_name [OF n(2)] by blast
  then have "spec = o'" using p(2) assms(3) by_name_Some(1) [OF spec(1)] single_names(1) [OF assms(1)]
    by (metis distinct_map inj_onD)
  then have "is_given es o'" using by_name_Some(2) [OF spec(1)] n(1) unfolding is_given_iff by force
  with assms(4) show False ..
qed

section \<open>What is accepted\<close>

definition accepted_line :: "cli_host \<Rightarrow> 'a action_schema_scheme \<Rightarrow> cli_item list \<Rightarrow> string list option
    \<Rightarrow> arg_value dir \<Rightarrow> named_value dir \<Rightarrow> bool" where
  "accepted_line host schema items rest vals named = (let options = as_options schema in
     lexed (value_names options) items rest
     \<and> map (entry_value host options) (entries items) = map Some vals \<and> distinct (map fst vals)
     \<and> (\<forall>o' \<in> set options. os_required o' \<longrightarrow> is_given (entries items) o')
     \<and> validate_positionals (item_words items @ opt_default [] rest) (as_positionals schema) = Inr named
     \<and> check_group_rules schema (vals @ defaults_of (entries items) options) named = Inr ())"

definition line_result :: "option_schema list \<Rightarrow> cli_item list \<Rightarrow> string list option \<Rightarrow> arg_value dir \<Rightarrow> named_value dir
    \<Rightarrow> validated_args" where
  "line_result options items rest vals named = \<lparr>ta_flags = entries items,
     ta_positionals = item_words items @ opt_default [] rest, ta_raw = line items rest, ta_duplicates = [],
     va_values = vals @ defaults_of (entries items) options, va_named = named\<rparr>"

lemma entries_shape:
  assumes "lexed known items rest" "(n, fv) \<in> set (entries items)"
  shows "(\<exists>v. fv = Given [v]) \<or> (fv = Present \<and> n \<notin> set known)"
  using assms
proof (induction items)
  case (Cons x xs)
  have "entries (x # xs) = item_entry x @ entries xs" by (simp add: entries_def)
  with Cons show ?case by (cases x) auto
qed simp

lemma dups_refused:
  assumes "list_all (\<lambda>o'. \<not> os_multiple o') options" "(n, fv) \<in> set es" "n \<in> set dups"
  shows "read_flags host options dups es seen vals \<noteq> Inr r"
  using assms(2)
proof (induction es arbitrary: seen vals)
  case (Cons e es)
  obtain n' fv' where e: "e = (n', fv')" by (cases e)
  show ?case
  proof (cases "by_name options n'")
    case (Some spec)
    then have "\<not> os_multiple spec" using by_name_Some(1) assms(1) by (auto simp: list_all_iff)
    moreover have "n' \<notin> set dups \<Longrightarrow> (n, fv) \<in> set es" using Cons.prems assms(3) by (auto simp: e)
    ultimately show ?thesis using Cons.IH by (auto simp: e Some rbind_Inr_iff)
  qed (simp add: e)
qed simp

lemma validate_line:
  assumes single: "single_options (as_options schema)" and lex: "lexed (value_names (as_options schema)) items rest"
    and bounds: "assert_argv_bounds (line items rest) = Inr ()"
  shows "validate_args_against_schema host (line items rest) schema = Inr v \<longleftrightarrow>
    (\<exists>vals named. accepted_line host schema items rest vals named \<and> v = line_result (as_options schema) items rest vals named)"
proof -
  define start where "start = \<lparr>ta_flags = [], ta_positionals = [], ta_raw = line items rest, ta_duplicates = []\<rparr>"
  define t where "t = recorded items rest start"
  define options where "options = as_options schema"
  have tok: "tokenize_args (line items rest) (value_names options) = Inr t"
    using tokenize_line [OF lex] bounds by (simp add: tokenize_args_def t_def start_def options_def)
  have parts: "ta_raw t = line items rest" "ta_positionals t = item_words items @ opt_default [] rest"
    "ta_flags t = ta_flags (fold record_item items start)" "ta_duplicates t = ta_duplicates (fold record_item items start)"
    using fold_items [of items "line items rest"] by (simp_all add: t_def recorded_def Let_def start_def)
  have flags: "if distinct (map fst (entries items)) then ta_flags t = entries items \<and> ta_duplicates t = []
      else ta_duplicates t \<noteq> [] \<and> set (ta_duplicates t) \<subseteq> set (dnames (ta_flags t))"
    unfolding parts(3,4) start_def using fold_items [of items "line items rest"] by blast
  show ?thesis
  proof (cases "distinct (map fst (entries items))")
    case False
    then obtain n where "n \<in> set (ta_duplicates t)" "n \<in> set (dnames (ta_flags t))"
      using flags by (metis list.set_intros(1) neq_Nil_conv subsetD)
    then obtain fv where fv: "(n, fv) \<in> set (ta_flags t)" "n \<in> set (ta_duplicates t)" by (auto simp: dnames_def)
    have "validate_args_against_schema host (line items rest) schema \<noteq> Inr v"
      using dups_refused [OF single_names(2) [OF single [folded options_def]] fv]
      by (auto simp: validate_args_against_schema_def tok rbind_Inr_iff simp flip: options_def)
    moreover have "\<not> accepted_line host schema items rest vals named" for vals named
      using False distinct_written by (auto simp: accepted_line_def Let_def)
    ultimately show ?thesis by blast
  next
    case True
    then have f: "ta_flags t = entries items" "ta_duplicates t = []" using flags by auto
    have t_eq: "tokenized_args.extend t (validated_args.fields vals named) =
        \<lparr>ta_flags = entries items, ta_positionals = item_words items @ opt_default [] rest, ta_raw = line items rest,
          ta_duplicates = [], va_values = vals, va_named = named\<rparr>" for vals named
      using f parts(1,2) by (simp add: tokenized_args.defs validated_args.defs)
    have "\<forall>(n, fv) \<in> set (entries items). (\<exists>v. fv = Given [v]) \<or> (fv = Present \<and> n \<notin> set (value_names options))"
      using entries_shape [OF lex] by (auto simp: options_def)
    from read_flags_iff [OF single_names(2) [OF single [folded options_def]] this, of "[]" "[]"]
    have read: "read_flags host options [] (entries items) [] [] = Inr r \<longleftrightarrow>
        map (entry_value host options) (entries items) = map Some r \<and> distinct (map fst r)" for r
      by (auto simp: dnames_def)
    have fill: "fill_defaults (entries items) options vals = Inr r \<longleftrightarrow>
        (\<forall>o' \<in> set options. os_required o' \<longrightarrow> is_given (entries items) o') \<and> r = vals @ defaults_of (entries items) options"
      if "map (entry_value host options) (entries items) = map Some vals" for vals r
      using single_names(1) [OF single [folded options_def]] not_given_absent [OF single [folded options_def] that]
      by (intro fill_defaults_iff) auto
    show ?thesis
      unfolding validate_args_against_schema_def accepted_line_def line_result_def Let_def options_def [symmetric]
      using lex [folded options_def] by (auto simp: tok f rbind_Inr_iff read fill parts(2) t_eq)
  qed
qed

lemma validate_iff:
  assumes "single_options (as_options schema)"
  shows "validate_args_against_schema host args schema = Inr v \<longleftrightarrow> assert_argv_bounds args = Inr () \<and>
    (\<exists>items rest vals named. args = line items rest \<and> accepted_line host schema items rest vals named
       \<and> v = line_result (as_options schema) items rest vals named)" (is "?l = ?r")
proof
  assume l: ?l
  then obtain t where "tokenize_args args (value_names (as_options schema)) = Inr t"
    by (auto simp: validate_args_against_schema_def rbind_Inr_iff Let_def)
  then have b: "assert_argv_bounds args = Inr ()" and
    "\<exists>t'. tokenize_from (value_names (as_options schema)) args t' = Inr t" by (auto simp: tokenize_args_def rbind_Inr_iff)
  then obtain items rest where i: "args = line items rest" "lexed (value_names (as_options schema)) items rest"
    using tokenize_from_iff by metis
  with l b validate_line [OF assms i(2)] show ?r by metis
next
  assume ?r
  then show ?l using validate_line [OF assms] by (auto simp: accepted_line_def Let_def)
qed

end
