(* ===== verification/CliParse.thy ===== *)
theory CliParse
  imports CliArgs
begin

text \<open>
  The command line itself (\<^verbatim>\<open>src/cli/parser.ts\<close>, \<^verbatim>\<open>parseCli\<close> to
  \<^verbatim>\<open>jsonOption\<close>, and \<^verbatim>\<open>nearestCommand\<close>): choice of command and action, requests for
  help, the state access of a command, the usage text and the options read from raw arguments.
  The state access of a team operation is that of \<^verbatim>\<open>src/team/api-interop.ts\<close>.
\<close>

section \<open>Names\<close>

definition COMMAND_NAMES :: "string list" where
  "COMMAND_NAMES = map fst COMMAND_SCHEMAS"

definition min3 :: "nat \<Rightarrow> nat \<Rightarrow> nat \<Rightarrow> nat" where
  "min3 a b c = min a (min b c)"

fun edit_row :: "char \<Rightarrow> string \<Rightarrow> nat list \<Rightarrow> nat \<Rightarrow> nat list" where
  \<comment> \<open>the inner loop: \<open>previous\<close> from the index before, and the last number of the current row\<close>
  "edit_row l [] previous here = []"
| "edit_row l (r # right) previous here = (case previous of
     diagonal # above' \<Rightarrow> (let n = min3 (hd above' + 1) (here + 1) (diagonal + (if l = r then 0 else 1))
       in n # edit_row l right above' n)
   | [] \<Rightarrow> [])"

fun edit_rows :: "string \<Rightarrow> string \<Rightarrow> nat \<Rightarrow> nat list \<Rightarrow> nat list" where
  \<comment> \<open>the outer loop, at the index \<open>i\<close> of the left text\<close>
  "edit_rows [] right i previous = previous"
| "edit_rows (l # left) right i previous = edit_rows left right (i + 1) (i # edit_row l right previous i)"

definition edit_distance :: "string \<Rightarrow> string \<Rightarrow> nat" where
  "edit_distance left right = last (edit_rows left right 1 [0..<length right + 1])"

definition locale_before :: "string \<Rightarrow> string \<Rightarrow> bool" where
  \<comment> \<open>\<^verbatim>\<open>a.localeCompare(b) < 0\<close> on lower-case letters and hyphens\<close>
  "locale_before a b = ord.lexordp (\<lambda>x y. (of_char x :: nat) < of_char y) a b"

fun nearest_from :: "string \<Rightarrow> nat \<Rightarrow> string list \<Rightarrow> (string \<times> nat) option \<Rightarrow> (string \<times> nat) option" where
  "nearest_from token maximum [] nearest = nearest"
| "nearest_from token maximum (c # cs) nearest = (let d = edit_distance (to_lower token) (to_lower c) in
     nearest_from token maximum cs
       (if d \<le> maximum \<and> (case nearest of None \<Rightarrow> True | Some (c', d') \<Rightarrow> d < d' \<or> (d = d' \<and> locale_before c c'))
        then Some (c, d) else nearest))"

definition nearest_command :: "string \<Rightarrow> nat \<Rightarrow> (string \<times> nat) option" where
  "nearest_command token maximum = (if starts_with ''-'' token \<or> token = [] then None
     else nearest_from token maximum COMMAND_NAMES None)"

section \<open>State access\<close>

definition TEAM_API_OPERATIONS :: "string list" where
  "TEAM_API_OPERATIONS = [''send-message'', ''mailbox-list'', ''mailbox-mark-delivered'', ''create-task'', ''list-tasks'',
     ''claim-task'', ''renew-task-claim'', ''reclaim-task'', ''transition-task-status'', ''release-task-claim'',
     ''reopen-task'', ''get-summary'', ''write-worker-inbox'']"

definition resolve_team_api_operation :: "string \<Rightarrow> string option" where
  "resolve_team_api_operation name = (let normalized = map (\<lambda>c. if c = CHR ''_'' then CHR ''-'' else c) (to_lower (trim name)) in
     if normalized \<in> set TEAM_API_OPERATIONS then Some normalized else None)"

definition team_api_operation_state_access :: "string \<Rightarrow> state_access" where
  "team_api_operation_state_access name = (case resolve_team_api_operation name of
     Some operation \<Rightarrow> if operation \<in> {''mailbox-list'', ''list-tasks'', ''get-summary''} then ReadExisting else WriteEnsure
   | None \<Rightarrow> WriteEnsure)"

definition team_api_state_access :: "validated_args \<Rightarrow> state_access" where
  "team_api_state_access v = (case dget (va_values v) ''--op'' of
     Some (TextArg s) \<Rightarrow> team_api_operation_state_access s
   | Some _ \<Rightarrow> WriteEnsure
   | None \<Rightarrow> (case dget (va_named v) ''operation'' of
       Some (OneArg s) \<Rightarrow> team_api_operation_state_access s | _ \<Rightarrow> WriteEnsure))"

definition resolved_state_access :: "'a action_schema_scheme \<Rightarrow> validated_args \<Rightarrow> state_access option \<Rightarrow> state_access" where
  "resolved_state_access schema v inherited =
     (case List.find (\<lambda>o'. dget (va_values v) (os_name o') \<noteq> None \<and> os_access o' \<noteq> None) (as_options schema) of
        Some o' \<Rightarrow> the (os_access o')
      | None \<Rightarrow> (case as_access schema of Some a \<Rightarrow> a | None \<Rightarrow> opt_default AccessNone inherited))"

section \<open>The command line\<close>

record parsed_command =
  pc_command :: string
  pc_action :: "string option"
  pc_args :: "string list"
  pc_options :: "arg_value dir"
  pc_positionals :: "string list"
  pc_access :: state_access

definition parsed_result :: "string \<Rightarrow> string option \<Rightarrow> string list \<Rightarrow> validated_args \<Rightarrow> state_access \<Rightarrow> parsed_command" where
  "parsed_result command action args v access = \<lparr>pc_command = command, pc_action = action, pc_args = args,
     pc_options = va_values v, pc_positionals = ta_positionals v, pc_access = access\<rparr>"

definition is_help_request :: "string list \<Rightarrow> bool" where
  "is_help_request args = (args = [''--help''] \<or> args = [''-h''])"

definition help_result :: "cli_host \<Rightarrow> string list \<Rightarrow> cli_error + parsed_command" where
  "help_result host target = rbind (validate_args_against_schema host target help_command) (\<lambda>v.
     Inr (parsed_result ''help'' None target v AccessNone))"

definition actions_of :: "command_schema \<Rightarrow> (string \<times> action_schema) list" where
  \<comment> \<open>\<^verbatim>\<open>schema.actions ?? {}\<close>\<close>
  "actions_of schema = opt_default [] (cs_actions schema)"

definition command_of :: "string \<Rightarrow> cli_error + command_schema" where
  "command_of command = (case map_of COMMAND_SCHEMAS command of None \<Rightarrow> Inl (E_CLI_INVALID command) | Some schema \<Rightarrow> Inr schema)"

definition action_of :: "string \<Rightarrow> command_schema \<Rightarrow> string \<Rightarrow> cli_error + action_schema" where
  "action_of command schema action = (case map_of (actions_of schema) action of
     None \<Rightarrow> Inl (E_ACTION_INVALID command action) | Some a \<Rightarrow> Inr a)"

definition validate_help_target :: "string list \<Rightarrow> cli_error + unit" where
  "validate_help_target target = (case target of [] \<Rightarrow> Inr ()
     | command # rest \<Rightarrow> rbind (command_of command) (\<lambda>schema.
         case rest of [] \<Rightarrow> Inr () | action # _ \<Rightarrow> rbind (action_of command schema action) (\<lambda>_. Inr ())))"

definition parse_action :: "cli_host \<Rightarrow> string \<Rightarrow> command_schema \<Rightarrow> string option \<Rightarrow> string list \<Rightarrow> cli_error + parsed_command" where
  \<comment> \<open>from the lookup of \<^verbatim>\<open>actionSchema\<close> on\<close>
  "parse_action host command schema action args = (let action_schema = Option.bind action (map_of (actions_of schema)) in
     if command = ''team'' \<and> action = Some ''api'' \<and> action_schema \<noteq> None \<and> is_help_request args then
       rbind (validate_args_against_schema host [''help''] (the action_schema)) (\<lambda>v.
         Inr (parsed_result command action args v AccessNone))
     else if action \<noteq> None \<and> action_schema \<noteq> None \<and> is_help_request args then help_result host [command, the action]
     else let selected = opt_default (action_schema.truncate schema) action_schema in
       rbind (validate_args_against_schema host args selected) (\<lambda>v.
         Inr (parsed_result command action args v
           (if command = ''team'' \<and> action = Some ''api'' then team_api_state_access v
            else resolved_state_access selected v (as_access schema)))))"

definition parse_with_actions :: "cli_host \<Rightarrow> string \<Rightarrow> command_schema \<Rightarrow> string list \<Rightarrow> cli_error + parsed_command" where
  \<comment> \<open>a command that declares actions, with the tokens behind it\<close>
  "parse_with_actions host command schema args =
     (if (args = [] \<or> starts_with ''-'' (hd args)) \<and> is_help_request args then help_result host [command]
      else if args \<noteq> [] \<and> \<not> starts_with ''-'' (hd args) then
        rbind (action_of command schema (hd args)) (\<lambda>_. parse_action host command schema (Some (hd args)) (tl args))
      else case cs_default_action schema of
        Some action \<Rightarrow> parse_action host command schema (Some action) args
      | None \<Rightarrow> if cs_require_action schema then Inl (E_ACTION_REQUIRED command) else parse_action host command schema None args)"

definition parse_command :: "cli_host \<Rightarrow> string \<Rightarrow> string list \<Rightarrow> cli_error + parsed_command" where
  \<comment> \<open>from the destructuring of \<^verbatim>\<open>argv\<close> on\<close>
  "parse_command host command args = rbind (command_of command) (\<lambda>schema.
     if cs_actions schema = None then
       (if is_help_request args then help_result host [command]
        else rbind (validate_args_against_schema host args schema) (\<lambda>v.
          Inr (parsed_result command None args v (resolved_state_access schema v None))))
     else parse_with_actions host command schema args)"

definition parse_cli :: "cli_host \<Rightarrow> string list \<Rightarrow> cli_error + parsed_command" where
  "parse_cli host argv = rbind (assert_argv_bounds argv) (\<lambda>_.
     if argv = [] \<or> argv = [''help''] \<or> argv = [''--help''] \<or> argv = [''-h''] then help_result host []
     else if argv = [''version''] \<or> argv = [''--version''] \<or> argv = [''-v''] then
       rbind (validate_args_against_schema host [] version_command) (\<lambda>v. Inr (parsed_result ''version'' None [] v AccessNone))
     else if hd argv = ''help'' then rbind (validate_help_target (tl argv)) (\<lambda>_. help_result host (tl argv))
     else parse_command host (hd argv) (tl argv))"

definition parsed_positionals :: "cli_host \<Rightarrow> string \<Rightarrow> string option \<Rightarrow> string list \<Rightarrow> cli_error + string list" where
  "parsed_positionals host command action args = rbind (command_of command) (\<lambda>schema.
     rbind (case action of None \<Rightarrow> Inr (action_schema.truncate schema) | Some a \<Rightarrow> action_of command schema a) (\<lambda>selected.
     rbind (validate_args_against_schema host args selected) (\<lambda>v. Inr (ta_positionals v))))"

definition is_known_command :: "string \<Rightarrow> bool" where
  "is_known_command token = (map_of COMMAND_SCHEMAS token \<noteq> None
     \<or> token \<in> {''help'', ''--help'', ''-h'', ''version'', ''--version'', ''-v''})"

section \<open>Options of raw arguments\<close>

fun collect_option_values :: "string \<Rightarrow> string list \<Rightarrow> string list" where
  "collect_option_values name [] = []"
| "collect_option_values name (token # rest) =
     (if token = ''--'' then []
      else if starts_with (name @ ''='') token then drop (length name + 1) token # collect_option_values name rest
      else if token = name then (case rest of
          [] \<Rightarrow> collect_option_values name []
        | nxt # rest' \<Rightarrow> if nxt = ''--'' then collect_option_values name rest else nxt # collect_option_values name rest')
      else collect_option_values name rest)"

fun has_flag :: "string \<Rightarrow> string list \<Rightarrow> bool" where
  "has_flag name [] = False"
| "has_flag name (token # rest) = (token \<noteq> ''--'' \<and> (token = name \<or> starts_with (name @ ''='') token \<or> has_flag name rest))"

definition option_arg :: "string list \<Rightarrow> string \<Rightarrow> cli_error + string option" where
  "option_arg args name = (case collect_option_values name args of
     [] \<Rightarrow> Inr None | [v] \<Rightarrow> Inr (Some v) | _ \<Rightarrow> Inl (E_OPTION_DUPLICATE name))"

definition required_option :: "string list \<Rightarrow> string \<Rightarrow> cli_error + string" where
  "required_option args name = rbind (option_arg args name) (\<lambda>v. case v of None \<Rightarrow> Inl (E_OPTION_REQUIRED name) | Some s \<Rightarrow> Inr s)"

definition integer_option :: "string list \<Rightarrow> string \<Rightarrow> int option \<Rightarrow> cli_error + int" where
  "integer_option args name fallback = rbind (option_arg args name) (\<lambda>raw. case raw of
     None \<Rightarrow> (case fallback of Some n \<Rightarrow> Inr n | None \<Rightarrow> Inl (E_OPTION_REQUIRED name))
   | Some s \<Rightarrow> if \<not> integer_text s then Inl (E_INTEGER_INVALID name)
       else if \<not> safe_integer (integer_value s) then Inl (E_INTEGER_UNSAFE name) else Inr (integer_value s))"

definition json_option :: "cli_host \<Rightarrow> string list \<Rightarrow> string \<Rightarrow> json option \<Rightarrow> cli_error + json" where
  "json_option host args name fallback = rbind (option_arg args name) (\<lambda>raw. case raw of
     None \<Rightarrow> (case fallback of Some v \<Rightarrow> Inr v | None \<Rightarrow> Inl (E_OPTION_REQUIRED name))
   | Some s \<Rightarrow> if utf8_bytes s > MAX_OPTION_VALUE_BYTES then Inl (E_OPTION_TOO_LARGE name)
       else case json_parse (ch_num host) s of None \<Rightarrow> Inl (E_JSON_INVALID name) | Some v \<Rightarrow> Inr v)"

section \<open>Usage\<close>

definition kind_name :: "option_kind \<Rightarrow> string" where
  "kind_name k = (case k of FlagOption \<Rightarrow> ''flag'' | StringOption \<Rightarrow> ''string'' | IntegerOption \<Rightarrow> ''integer'' | JsonOption \<Rightarrow> ''json'')"

definition lines_of :: "string list \<Rightarrow> string" where
  \<comment> \<open>\<^verbatim>\<open>join('\n')\<close>\<close>
  "lines_of xs = join [CHR 0x0A] xs"

definition sorted_names :: "string list \<Rightarrow> string list" where
  \<comment> \<open>\<^verbatim>\<open>sort()\<close>: by code units\<close>
  "sorted_names xs = map fst (sorted_members (map (\<lambda>x. (x, ())) xs))"

definition option_usage :: "option_schema \<Rightarrow> string" where
  "option_usage o' = (let u = os_name o' @ (if os_kind o' = FlagOption then [] else '' <'' @ kind_name (os_kind o') @ ''>'')
     in if os_required o' then u else ''['' @ u @ '']'')"

definition positional_usage :: "positional_schema \<Rightarrow> string" where
  "positional_usage ps = (let u = ''<'' @ ps_name ps @ (if ps_multiple ps then ''...'' else []) @ ''>''
     in if ps_required ps then u else ''['' @ u @ '']'')"

definition arg_text :: "arg_value \<Rightarrow> string" where
  \<comment> \<open>\<^verbatim>\<open>JSON.stringify\<close> of a default\<close>
  "arg_text v = (case v of Switch \<Rightarrow> ''true'' | TextArg s \<Rightarrow> quote s | IntArg i \<Rightarrow> dec_int i | JsonArg j \<Rightarrow> stringify j | ManyArgs _ \<Rightarrow> [])"

definition option_line :: "option_schema \<Rightarrow> string" where
  "option_line o' = ''  '' @ os_name o' @ (if os_aliases o' = [] then [] else '', '' @ join '', '' (os_aliases o')) @ ''  '' @
     join '', '' ([kind_name (os_kind o')] @ (if os_required o' then [''required''] else [])
       @ (case os_enum o' of None \<Rightarrow> [] | Some xs \<Rightarrow> [''one of '' @ join ''|'' xs])
       @ (case os_min o' of None \<Rightarrow> [] | Some n \<Rightarrow> [''min '' @ dec_int n])
       @ (case os_max o' of None \<Rightarrow> [] | Some n \<Rightarrow> [''max '' @ dec_int n])
       @ (case os_default o' of None \<Rightarrow> [] | Some d \<Rightarrow> [''default '' @ arg_text d]))"

definition names_block :: "string \<Rightarrow> string list \<Rightarrow> string" where
  \<comment> \<open>a heading and the sorted names, one a line\<close>
  "names_block title names = title @ [CHR 0x0A] @ lines_of (map (\<lambda>n. ''  '' @ n) (sorted_names names)) @ [CHR 0x0A]"

definition usage_text :: "string list \<Rightarrow> (string \<times> action_schema) list option \<Rightarrow> 'a action_schema_scheme \<Rightarrow> string" where
  "usage_text path actions schema = ''Usage: '' @ join '' '' ([join '' '' (''omcu'' # path)]
       @ map option_usage (as_options schema) @ map positional_usage (as_positionals schema)) @ [CHR 0x0A]
     @ (case actions of None \<Rightarrow> [] | Some acts \<Rightarrow> CHR 0x0A # names_block ''Actions:'' (map fst acts))
     @ (if as_options schema = [] then [] else [CHR 0x0A] @ ''Options:'' @ [CHR 0x0A]
          @ lines_of (map option_line (as_options schema)) @ [CHR 0x0A])"

definition render_command_help :: "string list \<Rightarrow> cli_error + string" where
  "render_command_help target = (case target of
     [] \<Rightarrow> Inr (names_block ''Commands:'' COMMAND_NAMES)
   | command # rest \<Rightarrow> rbind (command_of command) (\<lambda>schema. (case rest of
         [] \<Rightarrow> Inr (usage_text [command] (cs_actions schema) schema)
       | action # _ \<Rightarrow> rbind (action_of command schema action) (\<lambda>a. Inr (usage_text [command, action] None a)))))"

end
