(* ===== verification/CliNearest.thy ===== *)
theory CliNearest
  imports CliParse
begin

text \<open>
  The distance behind the suggestion for a mistyped command.  The specification is an edit script:
  keep, replace, delete or insert one character at a time.  \<open>edit_distance_least\<close> shows that the
  table the code fills row by row ends with the least number of edits.
\<close>

section \<open>Edit scripts\<close>

inductive script :: "nat \<Rightarrow> string \<Rightarrow> string \<Rightarrow> bool" where
  stop: "script 0 [] []"
| keep: "script k s t \<Longrightarrow> script k (c # s) (c # t)"
| change: "script k s t \<Longrightarrow> script (Suc k) (c # s) (d # t)"
| delete: "script k s t \<Longrightarrow> script (Suc k) (c # s) t"
| insert: "script k s t \<Longrightarrow> script (Suc k) s (d # t)"

inductive_cases script_NilE: "script k [] t"
inductive_cases script_Nil2E: "script k s []"
inductive_cases script_ConsE: "script k (c # s) (d # t)"

lemma script_snoc:
  assumes "script k s t"
  shows "script k (s @ [c]) (t @ [c])" "script (Suc k) (s @ [c]) (t @ [d])"
    "script (Suc k) (s @ [c]) t" "script (Suc k) s (t @ [d])"
proof -
  have base: "script (Suc 0) [c] [d]" "script (Suc 0) [c] []" "script (Suc 0) [] [d]" "script 0 [c] [c]"
    by (simp_all add: script.intros)
  show "script k (s @ [c]) (t @ [c])"
    using assms by (induction) (auto intro: script.intros)
  show "script (Suc k) (s @ [c]) (t @ [d])" "script (Suc k) (s @ [c]) t" "script (Suc k) s (t @ [d])"
    using assms by (induction) (auto intro: script.intros base)
qed

lemma script_rev: "script k s t \<Longrightarrow> script k (rev s) (rev t)"
  by (induction rule: script.induct) (auto intro: script_snoc script.stop)

fun levenshtein :: "string \<Rightarrow> string \<Rightarrow> nat" where
  "levenshtein [] t = length t"
| "levenshtein s [] = length s"
| "levenshtein (c # s) (d # t) = min3 (levenshtein s (d # t) + 1) (levenshtein (c # s) t + 1)
     (levenshtein s t + (if c = d then 0 else 1))"

lemma script_delete_all: "script (length s) s []"
  by (induction s) (auto intro: script.intros)

lemma script_insert_all: "script (length t) [] t"
  by (induction t) (auto intro: script.intros)

lemma levenshtein_script: "script (levenshtein s t) s t"
proof (induction s t rule: levenshtein.induct)
  case (3 c s d t)
  have least: "min3 x y z \<in> {x, y, z}" for x y z :: nat by (auto simp: min3_def min_def)
  have "levenshtein (c # s) (d # t) \<in> {levenshtein s (d # t) + 1, levenshtein (c # s) t + 1,
      levenshtein s t + (if c = d then 0 else 1)}" unfolding levenshtein.simps(3) by (rule least)
  then consider "levenshtein (c # s) (d # t) = Suc (levenshtein s (d # t))"
    | "levenshtein (c # s) (d # t) = Suc (levenshtein (c # s) t)"
    | "levenshtein (c # s) (d # t) = levenshtein s t" "c = d"
    | "levenshtein (c # s) (d # t) = Suc (levenshtein s t)"
    by (cases "c = d") (auto simp del: levenshtein.simps)
  then show ?case
  proof cases
    case 1 then show ?thesis using 3(1) by (metis script.delete)
  next
    case 2 then show ?thesis using 3(2) by (metis script.insert)
  next
    case 3 then show ?thesis using "3.IH"(3) by (metis script.keep)
  next
    case 4 then show ?thesis using "3.IH"(3) by (metis script.change)
  qed
next
  case (2 c s)
  then show ?case using script_delete_all [of "c # s"] by simp
qed (simp add: script_insert_all)

lemma levenshtein_Nil2 [simp]: "levenshtein s [] = length s"
  by (cases s) simp_all

lemma levenshtein_step:
  "levenshtein (c # s) t \<le> Suc (levenshtein s t)" "levenshtein s (d # t) \<le> Suc (levenshtein s t)"
proof -
  show "levenshtein (c # s) t \<le> Suc (levenshtein s t)" by (cases t) (simp_all add: min3_def)
  show "levenshtein s (d # t) \<le> Suc (levenshtein s t)" by (cases s) (simp_all add: min3_def)
qed

lemma levenshtein_least: "script k s t \<Longrightarrow> levenshtein s t \<le> k"
proof (induction rule: script.induct)
  case (keep k s t c)
  then show ?case by (simp add: min3_def)
next
  case (change k s t c d)
  then show ?case by (auto simp: min3_def min_le_iff_disj)
next
  case (delete k s t c)
  then show ?case using levenshtein_step(1) [of c s t] by linarith
next
  case (insert k s t d)
  then show ?case using levenshtein_step(2) [of s d t] by linarith
qed simp

section \<open>The rows of the table\<close>

definition dist :: "string \<Rightarrow> string \<Rightarrow> nat" where
  "dist s t = levenshtein (rev s) (rev t)"

lemma dist_simps [simp]:
  "dist [] t = length t" "dist s [] = length s"
  "dist (s @ [c]) (t @ [d]) = min3 (dist s (t @ [d]) + 1) (dist (s @ [c]) t + 1) (dist s t + (if c = d then 0 else 1))"
  by (simp_all add: dist_def)

fun row_from :: "string \<Rightarrow> string \<Rightarrow> string \<Rightarrow> nat list" where
  \<comment> \<open>the distances of \<open>s\<close> to \<open>p\<close> and to its extensions by the characters that follow\<close>
  "row_from s p [] = [dist s p]"
| "row_from s p (d # r) = dist s p # row_from s (p @ [d]) r"

lemma row_from_hd [simp]: "hd (row_from s p r) = dist s p" "row_from s p r \<noteq> []"
  by (cases r; simp)+

lemma row_from_last: "last (row_from s p r) = dist s (p @ r)"
  by (induction s p r rule: row_from.induct) simp_all

lemma row_from_start: "row_from [] p r = [length p..<length p + length r + 1]"
  by (induction "[] :: string" p r rule: row_from.induct) (simp_all add: upt_rec del: upt_Suc)

lemma edit_row_next: "edit_row c r (row_from s p r) (dist (s @ [c]) p) = tl (row_from (s @ [c]) p r)"
proof (induction r arbitrary: p)
  case (Cons d r)
  have "min3 (dist s (p @ [d]) + 1) (dist (s @ [c]) p + 1) (dist s p + (if c = d then 0 else 1)) = dist (s @ [c]) (p @ [d])"
    by simp
  then have "edit_row c (d # r) (row_from s p (d # r)) (dist (s @ [c]) p)
      = dist (s @ [c]) (p @ [d]) # tl (row_from (s @ [c]) (p @ [d]) r)"
    using Cons.IH [of "p @ [d]"] by (simp add: Let_def del: dist_simps)
  then show ?case by (cases r) simp_all
qed simp

lemma edit_rows_last: "edit_rows left right (length s + 1) (row_from s [] right) = row_from (s @ left) [] right"
proof (induction left arbitrary: s)
  case (Cons c left)
  have "dist (s @ [c]) [] # edit_row c right (row_from s [] right) (dist (s @ [c]) []) = row_from (s @ [c]) [] right"
    unfolding edit_row_next by (cases right) simp_all
  then show ?case using Cons.IH [of "s @ [c]"] by simp
qed simp

lemma edit_distance_levenshtein: "edit_distance left right = levenshtein (rev left) (rev right)"
proof -
  have "[0..<length right + 1] = row_from [] [] right" by (simp add: row_from_start)
  then show ?thesis using edit_rows_last [of left right "[]"] by (simp add: edit_distance_def row_from_last dist_def)
qed

lemma edit_distance_least:
  "script (edit_distance left right) left right" "script k left right \<Longrightarrow> edit_distance left right \<le> k"
  using script_rev [OF levenshtein_script [of "rev left" "rev right"]] levenshtein_least [OF script_rev]
  by (simp_all add: edit_distance_levenshtein)

section \<open>The suggestion\<close>

lemma nearest_from_spec:
  assumes "nearest_from token m cs near = result"
    and "\<forall>c d. near = Some (c, d) \<longrightarrow> d = edit_distance (to_lower token) (to_lower c) \<and> d \<le> m"
  shows "(case result of
      None \<Rightarrow> near = None \<and> (\<forall>c \<in> set cs. m < edit_distance (to_lower token) (to_lower c))
    | Some (c, d) \<Rightarrow> d = edit_distance (to_lower token) (to_lower c) \<and> d \<le> m \<and> (c \<in> set cs \<or> near = Some (c, d))
        \<and> (\<forall>c' \<in> set cs. d \<le> edit_distance (to_lower token) (to_lower c')) \<and> (\<forall>c' d'. near = Some (c', d') \<longrightarrow> d \<le> d'))"
  using assms
proof (induction cs arbitrary: near)
  case Nil
  then show ?case by (cases near) auto
next
  case (Cons c cs)
  define d where "d = edit_distance (to_lower token) (to_lower c)"
  define take_it where "take_it \<longleftrightarrow> d \<le> m \<and> (case near of None \<Rightarrow> True | Some (c', d') \<Rightarrow> d < d' \<or> (d = d' \<and> locale_before c c'))"
  have res: "nearest_from token m cs (if take_it then Some (c, d) else near) = result"
    using Cons.prems(1) unfolding nearest_from.simps(2) Let_def take_it_def d_def .
  note IH = Cons.IH [OF res]
  show ?case
  proof (cases take_it)
    case True
    then have "d \<le> m" and near: "\<forall>c' d'. near = Some (c', d') \<longrightarrow> d \<le> d'"
      by (auto simp: take_it_def split: option.splits)
    with True IH d_def show ?thesis by (fastforce split: option.splits)
  next
    case False
    then have "near = None \<and> m < d \<or> (\<exists>c' d'. near = Some (c', d') \<and> (d' \<le> d \<or> m < d))"
      by (auto simp: take_it_def split: option.splits)
    with False IH Cons.prems(2) d_def show ?thesis by (fastforce split: option.splits)
  qed
qed

end
