(* ===== verification/CliProperties.thy ===== *)
theory CliProperties
  imports CliGrammar CliNearest
begin

text \<open>
  The properties of the command line: the table of commands is well formed, the accepted lines are
  those of the grammar, the options handed to the handlers have the declared types and bounds, and
  the suggested command is the nearest one.
\<close>

section \<open>The table\<close>

definition default_ok :: "option_schema \<Rightarrow> bool" where
  \<comment> \<open>a default has the type of its option and lies within its bounds and choices\<close>
  "default_ok o' = (case os_default o' of None \<Rightarrow> True
     | Some d \<Rightarrow> (case d of
         TextArg s \<Rightarrow> os_kind o' = StringOption \<and> opt_all (\<lambda>xs. s \<in> set xs) (os_enum o') \<and> opt_all (\<lambda>p. pattern_test p s) (os_pattern o')
           \<and> \<not> below (os_min_length o') (length s) \<and> \<not> above (os_max_length o') (length s) \<and> \<not> os_absolute o'
       | IntArg i \<Rightarrow> os_kind o' = IntegerOption \<and> safe_integer i \<and> opt_all (\<lambda>m. m \<le> i) (os_min o') \<and> opt_all (\<lambda>m. i \<le> m) (os_max o')
       | JsonArg j \<Rightarrow> os_kind o' = JsonOption \<and> os_domain o' = Some ObjectDomain \<and> is_jobj j
       | _ \<Rightarrow> False))"

definition argument_names :: "action_schema \<Rightarrow> string list" where
  \<comment> \<open>the options without a default and the positionals: what a group can ask for\<close>
  "argument_names sc = map os_name (filter (\<lambda>o'. os_default o' = None) (as_options sc)) @ map ps_name (as_positionals sc)"

definition schema_ok :: "action_schema \<Rightarrow> bool" where
  "schema_ok sc = (single_options (as_options sc) \<and> list_all default_ok (as_options sc)
     \<and> list_all (\<lambda>o'. os_default o' = None \<or> \<not> os_required o') (as_options sc)
     \<and> distinct (map ps_name (as_positionals sc)) \<and> list_all (\<lambda>ps. \<not> ps_multiple ps) (as_positionals sc)
     \<and> list_all (list_all (\<lambda>n. n \<in> set (argument_names sc))) (as_exclusive sc @ as_exactly_one sc @ as_all_or_none sc))"

definition schemas_of :: "command_schema \<Rightarrow> action_schema list" where
  "schemas_of c = action_schema.truncate c # map snd (actions_of c)"

definition actions_ok :: "command_schema \<Rightarrow> bool" where
  \<comment> \<open>the default action is declared, and no action looks like an option\<close>
  "actions_ok c = (opt_all (\<lambda>a. a \<in> set (map fst (actions_of c))) (cs_default_action c)
     \<and> list_all (\<lambda>(a, _). \<not> starts_with ''-'' a) (actions_of c))"

lemmas schema_eval = schemas_of_def actions_of_def no_command_def no_args_def opt_def positional_def action_schema.defs
  command_schema.defs schema_ok_def single_options_def default_ok_def argument_names_def objectJson_def workersJson_def gatesJson_def

lemmas command_defs =
  help_command_def version_command_def setup_command_def update_command_def install_command_def
  rollback_command_def doctor_command_def uninstall_command_def plugin_command_def components_command_def
  aliases_command_def agents_command_def route_command_def models_command_def providers_command_def
  hooks_command_def capabilities_command_def native_status_command_def mcp_server_command_def mcp_command_def
  mcp_install_command_def session_command_def resume_command_def state_command_def run_command_def
  lease_command_def cancel_command_def recover_command_def compact_command_def memory_command_def
  notify_command_def tracker_command_def wiki_command_def workflow_command_def team_command_def task_command_def
  dag_command_def automation_command_def persist_command_def ralplan_command_def ralph_command_def
  ulw_command_def autopilot_command_def pipeline_command_def review_command_def qa_command_def
  accept_command_def integrate_command_def ask_command_def

lemma version_default: "key_of_length 127 ''1''"
  by code_simp

lemma commands_ok: "list_all (\<lambda>(_, c). list_all schema_ok (schemas_of c) \<and> actions_ok c) COMMAND_SCHEMAS"
  by (simp add: COMMAND_SCHEMAS_def actions_ok_def starts_with_def command_defs schema_eval below_def above_def safe_integer_def is_jobj_def version_default
      del: set_map set_filter set_append)

lemma canonical_agrees: "is_canonical_owned_path p \<longleftrightarrow> canonicalize_owned_path p = Some p"
  by (auto simp: is_canonical_owned_path_def canonicalize_owned_path_def)

section \<open>The chosen schema\<close>

definition selects :: "string \<Rightarrow> string option \<Rightarrow> action_schema \<Rightarrow> bool" where
  \<comment> \<open>the schema of a command, or of one of its actions\<close>
  "selects command action sc = (\<exists>cs. map_of COMMAND_SCHEMAS command = Some cs \<and>
     (case action of None \<Rightarrow> sc = action_schema.truncate cs | Some a \<Rightarrow> map_of (actions_of cs) a = Some sc))"

lemma command_of_iff: "command_of c = Inr cs \<longleftrightarrow> map_of COMMAND_SCHEMAS c = Some cs"
  by (simp add: command_of_def split: option.split)

lemma action_of_iff: "action_of c cs a = Inr sc \<longleftrightarrow> map_of (actions_of cs) a = Some sc"
  by (simp add: action_of_def split: option.split)

lemma selects_ok: "selects command action sc \<Longrightarrow> schema_ok sc"
proof -
  assume "selects command action sc"
  then obtain cs where cs: "map_of COMMAND_SCHEMAS command = Some cs"
    "case action of None \<Rightarrow> sc = action_schema.truncate cs | Some a \<Rightarrow> map_of (actions_of cs) a = Some sc"
    by (auto simp: selects_def)
  then have "list_all schema_ok (schemas_of cs)" using commands_ok map_of_SomeD by (fastforce simp: list_all_iff)
  moreover have "sc \<in> set (schemas_of cs)"
  proof (cases action)
    case (Some a)
    then have "(a, sc) \<in> set (actions_of cs)" using cs(2) by (simp add: map_of_SomeD)
    then show ?thesis by (force simp: schemas_of_def)
  qed (use cs(2) in \<open>simp add: schemas_of_def\<close>)
  ultimately show ?thesis by (simp add: list_all_iff)
qed

lemma command_actions_ok: "map_of COMMAND_SCHEMAS command = Some cs \<Longrightarrow> actions_ok cs"
  using commands_ok map_of_SomeD by (fastforce simp: list_all_iff)

lemma truncate_members [simp]:
  "as_options (action_schema.truncate cs) = as_options cs" "as_positionals (action_schema.truncate cs) = as_positionals cs"
  "as_exclusive (action_schema.truncate cs) = as_exclusive cs" "as_exactly_one (action_schema.truncate cs) = as_exactly_one cs"
  "as_all_or_none (action_schema.truncate cs) = as_all_or_none cs" "as_access (action_schema.truncate cs) = as_access cs"
  by (simp_all add: action_schema.defs)

lemma validate_truncate [simp]:
  "validate_args_against_schema host args (action_schema.truncate cs) = validate_args_against_schema host args cs"
proof -
  have "check_group_rules (action_schema.truncate cs) = check_group_rules cs" by (intro ext) (unfold check_group_rules_def truncate_members, rule refl)
  then show ?thesis unfolding validate_args_against_schema_def truncate_members by simp
qed

lemma help_selected: "selects ''help'' None (action_schema.truncate help_command)"
  "selects ''version'' None (action_schema.truncate version_command)"
  by (simp_all add: selects_def COMMAND_SCHEMAS_def)

definition reads_with :: "cli_host \<Rightarrow> parsed_command \<Rightarrow> bool" where
  \<comment> \<open>the options and positionals are what the validation against the chosen schema reads\<close>
  "reads_with host p = (\<exists>sc args v. selects (pc_command p) (pc_action p) sc
     \<and> validate_args_against_schema host args sc = Inr v \<and> pc_options p = va_values v \<and> pc_positionals p = ta_positionals v)"

lemma reads_result:
  assumes "selects c a sc" "validate_args_against_schema host args sc = Inr v"
  shows "reads_with host (parsed_result c a args' v access)"
  unfolding reads_with_def using assms by (intro exI [of _ sc] exI [of _ args] exI [of _ v]) (simp add: parsed_result_def)

lemma reads_command:
  assumes "map_of COMMAND_SCHEMAS c = Some cs" "validate_args_against_schema host args cs = Inr v"
  shows "reads_with host (parsed_result c None args' v access)"
  using assms by (intro reads_result [of _ _ "action_schema.truncate cs" _ args]) (simp_all add: selects_def)

lemma reads_action:
  assumes "map_of COMMAND_SCHEMAS c = Some cs" "map_of (actions_of cs) a = Some sc"
    "validate_args_against_schema host args sc = Inr v"
  shows "reads_with host (parsed_result c (Some a) args' v access)"
  using assms by (intro reads_result [of _ _ sc _ args]) (simp_all add: selects_def)

lemma reads_help: "help_result host target = Inr p \<Longrightarrow> reads_with host p"
  using reads_result [OF help_selected(1)] by (auto simp: help_result_def rbind_Inr_iff)

lemma parse_action_reads:
  assumes "parse_action host c cs a args = Inr p" "map_of COMMAND_SCHEMAS c = Some cs"
    "opt_all (\<lambda>x. map_of (actions_of cs) x \<noteq> None) a"
  shows "reads_with host p"
proof (cases a)
  case None
  with assms show ?thesis by (auto simp: parse_action_def rbind_Inr_iff Let_def intro: reads_command)
next
  case (Some x)
  then obtain sc where "map_of (actions_of cs) x = Some sc" using assms(3) by auto
  with assms Some show ?thesis
    by (auto simp: parse_action_def rbind_Inr_iff Let_def split: if_splits intro: reads_action reads_help)
qed

lemma parse_command_reads:
  assumes "parse_command host c args = Inr p"
  shows "reads_with host p"
proof -
  obtain cs where cs: "map_of COMMAND_SCHEMAS c = Some cs" and
    p: "(if cs_actions cs = None then if is_help_request args then help_result host [c]
         else rbind (validate_args_against_schema host args cs) (\<lambda>v. Inr (parsed_result c None args v (resolved_state_access cs v None)))
       else parse_with_actions host c cs args) = Inr p"
    using assms by (auto simp: parse_command_def rbind_Inr_iff command_of_iff)
  have "opt_all (\<lambda>x. map_of (actions_of cs) x \<noteq> None) (cs_default_action cs)"
    using command_actions_ok [OF cs] by (auto simp: actions_ok_def opt_all_iff map_of_eq_None_iff)
  then show ?thesis using p cs
    by (auto simp: parse_with_actions_def rbind_Inr_iff action_of_iff intro: reads_help reads_command parse_action_reads
        split: if_splits option.splits)
qed

lemma parse_cli_reads:
  assumes "parse_cli host argv = Inr p"
  shows "reads_with host p"
proof -
  define A B where "A \<longleftrightarrow> argv = [] \<or> argv = [''help''] \<or> argv = [''--help''] \<or> argv = [''-h'']"
    and "B \<longleftrightarrow> argv = [''version''] \<or> argv = [''--version''] \<or> argv = [''-v'']"
  have p: "(if A then help_result host []
     else if B then rbind (validate_args_against_schema host [] version_command) (\<lambda>v. Inr (parsed_result ''version'' None [] v AccessNone))
     else if hd argv = ''help'' then rbind (validate_help_target (tl argv)) (\<lambda>_. help_result host (tl argv))
     else parse_command host (hd argv) (tl argv)) = Inr p"
    using assms unfolding parse_cli_def A_def [symmetric] B_def [symmetric] rbind_Inr_iff [of "assert_argv_bounds argv"] by blast
  consider "A" | "\<not> A" "B" | "\<not> A" "\<not> B" "hd argv = ''help''" | "\<not> A" "\<not> B" "hd argv \<noteq> ''help''" by blast
  then show ?thesis
  proof cases
    case 2
    with p obtain v where "validate_args_against_schema host [] version_command = Inr v"
      "p = parsed_result ''version'' None [] v AccessNone" by (auto simp: rbind_Inr_iff)
    then show ?thesis using reads_result [OF help_selected(2)] by simp
  qed (use p in \<open>auto simp: rbind_Inr_iff intro: reads_help parse_command_reads\<close>)
qed

section \<open>Types and bounds of the options\<close>

definition conforms :: "cli_host \<Rightarrow> option_schema \<Rightarrow> arg_value \<Rightarrow> bool" where
  \<comment> \<open>the declared type of an option with its lengths, choices, pattern, bounds and domain\<close>
  "conforms host o' v = (case v of
     Switch \<Rightarrow> os_kind o' = FlagOption
   | TextArg s \<Rightarrow> os_kind o' = StringOption \<and> \<not> below (os_min_length o') (length s) \<and> \<not> above (os_max_length o') (length s)
       \<and> (os_absolute o' \<longrightarrow> is_absolute s) \<and> opt_all (\<lambda>p. pattern_test p s) (os_pattern o') \<and> opt_all (\<lambda>xs. s \<in> set xs) (os_enum o')
   | IntArg i \<Rightarrow> os_kind o' = IntegerOption \<and> safe_integer i \<and> opt_all (\<lambda>m. m \<le> i) (os_min o') \<and> opt_all (\<lambda>m. i \<le> m) (os_max o')
   | JsonArg j \<Rightarrow> os_kind o' = JsonOption \<and> opt_all (\<lambda>d. domain_ok host d j) (os_domain o')
   | ManyArgs _ \<Rightarrow> False)"

lemma decode_conforms: "decode_json_domain host o' v = Inr x \<Longrightarrow> opt_all (\<lambda>d. domain_ok host d x) (os_domain o')"
  by (auto simp: decode_json_domain_def split: option.splits if_splits)

lemma parse_conforms:
  assumes "parse_option_value host o' raw = Inr v" "os_kind o' \<noteq> FlagOption"
  shows "conforms host o' v"
proof (cases "os_kind o'")
  case StringOption
  with assms show ?thesis by (auto simp: parse_option_value_def conforms_def split: if_splits)
next
  case IntegerOption
  with assms show ?thesis by (auto simp: parse_option_value_def conforms_def split: if_splits)
next
  case JsonOption
  with assms show ?thesis
    by (auto simp: parse_option_value_def conforms_def rbind_Inr_iff decode_conforms split: if_splits option.splits)
qed (use assms in simp)

lemma default_conforms: "default_ok o' \<Longrightarrow> os_default o' = Some d \<Longrightarrow> conforms host o' d"
  by (cases d) (auto simp: default_ok_def conforms_def domain_ok_def)

lemma entry_conforms:
  assumes "entry_value host options (n, fv) = Some (k, v)"
  shows "\<exists>o' \<in> set options. os_name o' = k \<and> conforms host o' v"
proof -
  obtain spec where spec: "by_name options n = Some spec" using assms by (auto split: option.splits)
  have "os_name spec = k \<and> conforms host spec v"
  proof (cases "os_kind spec = FlagOption")
    case True
    then show ?thesis using assms by (auto simp: spec conforms_def split: flag_value.splits list.splits)
  next
    case False
    then show ?thesis using assms parse_conforms by (auto simp: spec split: flag_value.splits list.splits sum.splits)
  qed
  then show ?thesis using by_name_Some(1) [OF spec] by blast
qed

lemma line_values_conform:
  assumes "schema_ok sc" "accepted_line host sc items rest vals named"
    and "(k, v) \<in> set (va_values (line_result (as_options sc) items rest vals named))"
  shows "\<exists>o' \<in> set (as_options sc). os_name o' = k \<and> conforms host o' v"
proof -
  consider "(k, v) \<in> set vals" | "(k, v) \<in> set (defaults_of (entries items) (as_options sc))"
    using assms(3) by (auto simp: line_result_def)
  then show ?thesis
  proof cases
    case 1
    have "map (entry_value host (as_options sc)) (entries items) = map Some vals"
      using assms(2) by (simp add: accepted_line_def Let_def)
    then have "Some (k, v) \<in> entry_value host (as_options sc) ` set (entries items)"
      using 1 by (metis imageI list.set_map)
    then obtain n fv where "entry_value host (as_options sc) (n, fv) = Some (k, v)" by force
    then show ?thesis by (rule entry_conforms)
  next
    case 2
    then obtain o' where "o' \<in> set (as_options sc)" "os_default o' = Some v" "os_name o' = k"
      by (auto simp: defaults_of_def split: if_splits option.splits)
    moreover have "default_ok o'" using assms(1) calculation(1) by (simp add: schema_ok_def list_all_iff)
    ultimately show ?thesis using default_conforms by blast
  qed
qed

lemma in_dir: "(k, v) \<in> set d \<Longrightarrow> dget d k \<noteq> None"
  unfolding dget_def map_of_eq_None_iff by force

lemma option_by_written_name:
  assumes "distinct (concat (map (\<lambda>o'. os_name o' # os_aliases o') options))" "p \<in> set options" "q \<in> set options"
    and "n \<in> set (os_name p # os_aliases p)" "n \<in> set (os_name q # os_aliases q)"
  shows "p = q"
  using assms by (induction options) auto

lemma line_values_complete:
  assumes "schema_ok sc" "accepted_line host sc items rest vals named" "o' \<in> set (as_options sc)"
    and "os_required o' \<or> os_default o' \<noteq> None"
  shows "dget (va_values (line_result (as_options sc) items rest vals named)) (os_name o') \<noteq> None"
proof (cases "is_given (entries items) o'")
  case False
  then obtain d where d: "os_default o' = Some d" using assms(2-4) by (auto simp: accepted_line_def Let_def)
  have "(os_name o', d) \<in> set (defaults_of (entries items) (as_options sc))"
    using False d assms(3) by (auto simp: defaults_of_def intro!: bexI [of _ o'])
  then show ?thesis by (intro in_dir [of _ d]) (simp add: line_result_def)
next
  case True
  have single: "single_options (as_options sc)" using assms(1) by (simp add: schema_ok_def)
  have vals: "map (entry_value host (as_options sc)) (entries items) = map Some vals"
    using assms(2) by (simp add: accepted_line_def Let_def)
  obtain n fv where n: "n \<in> set (os_name o' # os_aliases o')" "(n, fv) \<in> set (entries items)"
    using True unfolding is_given_iff by force
  then have "entry_value host (as_options sc) (n, fv) \<in> Some ` set vals" using vals by (metis imageI list.set_map)
  then obtain p where p: "entry_value host (as_options sc) (n, fv) = Some p" "p \<in> set vals" by blast
  obtain spec where spec: "by_name (as_options sc) n = Some spec" "fst p = os_name spec" using entry_value_name [OF p(1)] by blast
  have "spec = o'"
    by (rule option_by_written_name [OF _ by_name_Some(1) [OF spec(1)] assms(3) by_name_Some(2) [OF spec(1)] n(1)])
      (use single in \<open>simp add: single_options_def\<close>)
  then show ?thesis using p(2) spec(2) by (intro in_dir [of _ "snd p"]) (cases p, simp add: line_result_def)
qed

text \<open>C18: What the handlers get. The options of every accepted command line belong to the schema of
  its command and action, each with the declared type, within its lengths, choices, pattern and
  bounds and of its JSON domain, defaults included; and every required or defaulted option is there.\<close>

theorem parsed_options_typed:
  assumes "parse_cli host argv = Inr p"
  shows "\<exists>sc. selects (pc_command p) (pc_action p) sc
    \<and> (\<forall>(k, v) \<in> set (pc_options p). \<exists>o' \<in> set (as_options sc). os_name o' = k \<and> conforms host o' v)
    \<and> (\<forall>o' \<in> set (as_options sc). os_required o' \<or> os_default o' \<noteq> None \<longrightarrow> dget (pc_options p) (os_name o') \<noteq> None)"
proof -
  obtain sc args v where sc: "selects (pc_command p) (pc_action p) sc"
    and v: "validate_args_against_schema host args sc = Inr v" "pc_options p = va_values v"
    using parse_cli_reads [OF assms] by (auto simp: reads_with_def)
  have ok: "schema_ok sc" using sc by (rule selects_ok)
  then have "single_options (as_options sc)" by (simp add: schema_ok_def)
  from v(1) [unfolded validate_iff [OF this]] obtain items rest vals named where
    a: "accepted_line host sc items rest vals named" "v = line_result (as_options sc) items rest vals named" by blast
  show ?thesis unfolding v(2) a(2)
    using sc line_values_conform [OF ok a(1)] line_values_complete [OF ok a(1)] by blast
qed

section \<open>Examples\<close>

lemmas cli_eval = assert_argv_bounds_def MAX_CLI_TOKENS_def MAX_CLI_BYTES_def MAX_OPTION_VALUE_BYTES_def
  utf8_bytes_def joined_def flag_like_def starts_with_def before_eq_def after_eq_def record_flag_def dget_def
  validate_args_against_schema_def tokenize_args_def value_names_def by_name_def parse_option_value_def below_def
  above_def integer_text_def unsigned_def integer_value_def undec_nat_def is_digit_def is_alnum_def key_of_length_def
  is_key_char_def is_given_def validate_positionals_def check_positional_def check_group_rules_def count_present_def
  argument_present_def safe_integer_def no_command_def no_args_def opt_def positional_def action_schema.defs
  command_schema.defs tokenized_args.defs validated_args.defs parse_cli_def parse_command_def is_help_request_def
  parse_with_actions_def parse_action_def action_of_def actions_of_def parsed_result_def resolved_state_access_def Let_def

definition ex_host :: cli_host where
  "ex_host = \<lparr>ch_num = JFrac, ch_date = (\<lambda>_. True)\<rparr>"

definition ex_acquire :: "string list" where
  "ex_acquire = [''--run'', ''r'', ''--name=n'', ''--owner'', ''o'']"

lemma ex_commands: "command_of ''lease'' = Inr lease_command" "command_of ''aliases'' = Inr aliases_command"
  by (simp_all add: command_of_def COMMAND_SCHEMAS_def)

lemma ex_parsed:
  "parse_cli ex_host (''lease'' # ''acquire'' # ex_acquire) = Inr \<lparr>pc_command = ''lease'', pc_action = Some ''acquire'',
     pc_args = ex_acquire, pc_options = [(''--run'', TextArg ''r''), (''--name'', TextArg ''n''), (''--owner'', TextArg ''o''),
       (''--ttl-ms'', IntArg 30000)], pc_positionals = [], pc_access = WriteEnsure\<rparr>"
  by (simp add: cli_eval ex_acquire_def ex_commands lease_command_def del: set_map set_filter set_append set_concat)

lemma usage_order_refused:
  "(\<exists>rest. render_command_help [''aliases'', ''explain''] = Inr (''Usage: omcu aliases explain [--json] <name>'' @ rest))
   \<and> parse_cli ex_host [''aliases'', ''explain'', ''--json'', ''autopilot''] = Inl (E_OPTION_FLAG_VALUE ''--json'')"
proof
  show "\<exists>rest. render_command_help [''aliases'', ''explain''] = Inr (''Usage: omcu aliases explain [--json] <name>'' @ rest)"
    by (simp add: render_command_help_def ex_commands aliases_command_def usage_text_def option_usage_def positional_usage_def cli_eval)
  show "parse_cli ex_host [''aliases'', ''explain'', ''--json'', ''autopilot''] = Inl (E_OPTION_FLAG_VALUE ''--json'')"
    by (simp add: cli_eval ex_commands aliases_command_def del: set_map set_filter set_append set_concat)
qed

theorem parsed_options_typed_witness:
  "\<exists>sc. selects ''lease'' (Some ''acquire'') sc \<and> (\<exists>o' \<in> set (as_options sc). os_name o' = ''--ttl-ms'' \<and> conforms ex_host o' (IntArg 30000))"
  using parsed_options_typed [OF ex_parsed] by auto

section \<open>The grammar\<close>

definition command_path :: "string list \<Rightarrow> string \<Rightarrow> string option \<Rightarrow> action_schema \<Rightarrow> bool" where
  \<comment> \<open>the tokens that choose a schema: a command without actions, or a command and its action\<close>
  "command_path path c a sc = (selects c a sc \<and> c \<noteq> ''help'' \<and> path = c # (case a of None \<Rightarrow> [] | Some x \<Rightarrow> [x])
     \<and> (a = None \<longrightarrow> (\<exists>cs. map_of COMMAND_SCHEMAS c = Some cs \<and> cs_actions cs = None)))"

lemma bounds_suffix: "assert_argv_bounds (xs @ ys) = Inr () \<Longrightarrow> assert_argv_bounds ys = Inr ()"
  by (auto simp: assert_argv_bounds_def split: if_splits)

lemma no_such_command:
  "map_of COMMAND_SCHEMAS ''--help'' = None" "map_of COMMAND_SCHEMAS ''-h'' = None"
  "map_of COMMAND_SCHEMAS ''--version'' = None" "map_of COMMAND_SCHEMAS ''-v'' = None"
  "map_of COMMAND_SCHEMAS ''version'' = Some version_command" "cs_actions version_command = None"
  by (simp_all add: COMMAND_SCHEMAS_def version_command_def no_command_def command_schema.defs action_schema.defs)

lemma parsed_result_members [simp]:
  "pc_command (parsed_result c a args v acc) = c" "pc_action (parsed_result c a args v acc) = a"
  "pc_options (parsed_result c a args v acc) = va_values v" "pc_positionals (parsed_result c a args v acc) = ta_positionals v"
  by (simp_all add: parsed_result_def)

lemma result_iff:
  "(\<exists>p. rbind b (\<lambda>_. rbind w (\<lambda>v. Inr (parsed_result c a args v (acc v)))) = Inr p
     \<and> pc_command p = c \<and> pc_action p = a \<and> pc_options p = opts \<and> pc_positionals p = ps)
   \<longleftrightarrow> b = Inr () \<and> (\<exists>v. w = Inr v \<and> opts = va_values v \<and> ps = ta_positionals v)"
  by (cases b; cases w) auto

lemma parse_cli_command:
  assumes "map_of COMMAND_SCHEMAS c = Some cs" "c \<noteq> ''help''" "c # args \<noteq> [''version'']"
  shows "parse_cli host (c # args) = rbind (assert_argv_bounds (c # args)) (\<lambda>_. parse_command host c args)"
proof -
  have "c \<notin> {''--help'', ''-h'', ''--version'', ''-v''}" using assms(1) no_such_command by auto
  then have route: "\<not> (c # args = [] \<or> c # args = [''help''] \<or> c # args = [''--help''] \<or> c # args = [''-h''])"
    "\<not> (c # args = [''version''] \<or> c # args = [''--version''] \<or> c # args = [''-v''])" "hd (c # args) \<noteq> ''help''"
    using assms(2,3) by auto
  show ?thesis unfolding parse_cli_def if_not_P [OF route(1)] if_not_P [OF route(2)] if_not_P [OF route(3)] by simp
qed

lemma parse_path:
  assumes "command_path path c a sc" "\<not> is_help_request args"
  shows "(\<exists>p. parse_cli host (path @ args) = Inr p \<and> pc_command p = c \<and> pc_action p = a \<and> pc_options p = opts \<and> pc_positionals p = ps)
    \<longleftrightarrow> assert_argv_bounds (path @ args) = Inr ()
      \<and> (\<exists>v. validate_args_against_schema host args sc = Inr v \<and> opts = va_values v \<and> ps = ta_positionals v)"
proof -
  obtain cs where cs: "map_of COMMAND_SCHEMAS c = Some cs" "c \<noteq> ''help''"
    and a: "case a of None \<Rightarrow> sc = action_schema.truncate cs \<and> cs_actions cs = None \<and> path = [c]
      | Some x \<Rightarrow> map_of (actions_of cs) x = Some sc \<and> path = [c, x]"
    using assms(1) by (auto simp: command_path_def selects_def split: option.splits)
  have "\<exists>acc. parse_cli host (path @ args) = rbind (assert_argv_bounds (path @ args)) (\<lambda>_.
      rbind (validate_args_against_schema host args sc) (\<lambda>v. Inr (parsed_result c a args v (acc v))))"
  proof (cases a)
    case None
    then have n: "sc = action_schema.truncate cs" "cs_actions cs = None" "path = [c]" using a by auto
    show ?thesis
    proof (cases "c # args = [''version'']")
      case True
      then have "cs = version_command" using cs(1) no_such_command(5) by simp
      with True n show ?thesis by (intro exI [of _ "\<lambda>_. AccessNone"]) (simp add: parse_cli_def None)
    next
      case False
      from parse_cli_command [OF cs False, of host] assms(2) cs n None show ?thesis
        by (intro exI [of _ "\<lambda>v. resolved_state_access cs v None"]) (simp add: parse_command_def command_of_def)
    qed
  next
    case (Some x)
    then have x: "map_of (actions_of cs) x = Some sc" "path = [c, x]" using a by auto
    have "cs_actions cs \<noteq> None" using x(1) by (cases "cs_actions cs") (simp_all add: actions_of_def)
    moreover have "\<not> starts_with ''-'' x"
      using command_actions_ok [OF cs(1)] map_of_SomeD [OF x(1)] by (auto simp: actions_ok_def list_all_iff)
    ultimately have "parse_command host c (x # args) = parse_action host c cs (Some x) args"
      using cs(1) x(1) by (auto simp: parse_command_def command_of_def parse_with_actions_def action_of_def)
    moreover have selected: "opt_default (action_schema.truncate cs) (Option.bind (Some x) (map_of (actions_of cs))) = sc"
      using x(1) by simp
    have "parse_action host c cs (Some x) args = rbind (validate_args_against_schema host args sc) (\<lambda>v.
        Inr (parsed_result c (Some x) args v (if c = ''team'' \<and> Some x = Some ''api'' then team_api_state_access v
          else resolved_state_access sc v (as_access cs))))"
      unfolding parse_action_def Let_def selected using assms(2) x(1) by simp
    ultimately show ?thesis using parse_cli_command [OF cs, of "x # args" host] x(2)
      unfolding Some append_Cons append_Nil by auto
  qed
  then obtain acc where parsed: "parse_cli host (path @ args) = rbind (assert_argv_bounds (path @ args)) (\<lambda>_.
      rbind (validate_args_against_schema host args sc) (\<lambda>v. Inr (parsed_result c a args v (acc v))))" by blast
  show ?thesis unfolding parsed by (rule result_iff)
qed

text \<open>C17: The accepted command lines. Behind a command and its action (help requests apart) the parser
  accepts, with given options and positionals, exactly the lines of the grammar within the size
  bounds: each option declared, written once under whatever name, with a value its schema admits, the
  required ones given, the positionals valid, the group rules kept. The options are those values in
  the order written and the defaults behind them.\<close>

theorem command_line_grammar:
  assumes "command_path path c a sc" "\<not> is_help_request args"
  shows "(\<exists>p. parse_cli host (path @ args) = Inr p \<and> pc_command p = c \<and> pc_action p = a \<and> pc_options p = opts \<and> pc_positionals p = ps)
    \<longleftrightarrow> assert_argv_bounds (path @ args) = Inr ()
      \<and> (\<exists>items rest vals named. args = line items rest \<and> accepted_line host sc items rest vals named
           \<and> opts = vals @ defaults_of (entries items) (as_options sc) \<and> ps = item_words items @ opt_default [] rest)"
    (is "?l \<longleftrightarrow> ?b \<and> ?r")
proof -
  have single: "single_options (as_options sc)" using assms(1) selects_ok by (auto simp: command_path_def schema_ok_def)
  have members: "va_values (line_result os items rest vals named) = vals @ defaults_of (entries items) os"
    "ta_positionals (line_result os items rest vals named) = item_words items @ opt_default [] rest" for os items rest vals named
    by (simp_all add: line_result_def)
  have "?l \<longleftrightarrow> ?b \<and> assert_argv_bounds args = Inr () \<and> ?r"
    unfolding parse_path [OF assms] validate_iff [OF single] by (metis members)
  then show ?thesis using bounds_suffix by metis
qed

theorem command_line_grammar_witness:
  "\<exists>(sc :: action_schema) items rest vals named. ex_acquire = line items rest \<and> accepted_line ex_host sc items rest vals named
     \<and> item_words items @ opt_default [] rest = []"
proof -
  obtain sc where sc: "map_of (actions_of lease_command) ''acquire'' = Some sc"
    by (simp add: actions_of_def lease_command_def no_command_def command_schema.defs action_schema.defs)
  have "map_of COMMAND_SCHEMAS ''lease'' = Some lease_command" by (simp add: COMMAND_SCHEMAS_def)
  with sc have path: "command_path [''lease'', ''acquire''] ''lease'' (Some ''acquire'') sc"
    by (simp add: command_path_def selects_def)
  have "\<not> is_help_request ex_acquire" by (simp add: is_help_request_def ex_acquire_def)
  note grammar = command_line_grammar [OF path this, of ex_host "[(''--run'', TextArg ''r''), (''--name'', TextArg ''n''),
      (''--owner'', TextArg ''o''), (''--ttl-ms'', IntArg 30000)]" "[]"]
  have "\<exists>p. parse_cli ex_host ([''lease'', ''acquire''] @ ex_acquire) = Inr p \<and> pc_command p = ''lease''
      \<and> pc_action p = Some ''acquire'' \<and> pc_options p = [(''--run'', TextArg ''r''), (''--name'', TextArg ''n''),
      (''--owner'', TextArg ''o''), (''--ttl-ms'', IntArg 30000)] \<and> pc_positionals p = []"
    by (simp add: ex_parsed)
  then obtain items rest vals named where "ex_acquire = line items rest" "accepted_line ex_host sc items rest vals named"
    "[] = item_words items @ opt_default [] rest" unfolding grammar by blast
  then show ?thesis by metis
qed

section \<open>The suggestion\<close>

lemma nearest_command_cases:
  assumes "\<not> starts_with ''-'' token" "token \<noteq> []"
  shows "case nearest_command token m of
      None \<Rightarrow> \<forall>c \<in> set COMMAND_NAMES. m < edit_distance (to_lower token) (to_lower c)
    | Some (c, d) \<Rightarrow> d = edit_distance (to_lower token) (to_lower c) \<and> d \<le> m \<and> c \<in> set COMMAND_NAMES
        \<and> (\<forall>c' \<in> set COMMAND_NAMES. d \<le> edit_distance (to_lower token) (to_lower c'))"
  using nearest_from_spec [of token m COMMAND_NAMES None "nearest_command token m"] assms
  by (auto simp: nearest_command_def split: option.splits)

text \<open>C19: The suggestion for a mistyped command. A suggested command is at most the given number of
  one-character edits away from the token, compared in lower case, and no command is nearer; without a
  suggestion no command is within that number of edits.\<close>

theorem nearest_command_nearest:
  assumes "\<not> starts_with ''-'' token" "token \<noteq> []"
  shows "case nearest_command token m of
      None \<Rightarrow> \<not> (\<exists>c \<in> set COMMAND_NAMES. \<exists>k \<le> m. script k (to_lower token) (to_lower c))
    | Some (c, d) \<Rightarrow> c \<in> set COMMAND_NAMES \<and> d \<le> m \<and> script d (to_lower token) (to_lower c)
        \<and> \<not> (\<exists>c' \<in> set COMMAND_NAMES. \<exists>k < d. script k (to_lower token) (to_lower c'))"
proof (cases "nearest_command token m")
  case None
  then have "\<forall>c \<in> set COMMAND_NAMES. m < edit_distance (to_lower token) (to_lower c)"
    using nearest_command_cases [OF assms, of m] by simp
  then show ?thesis using edit_distance_least(2) unfolding None option.case by (meson leD le_trans)
next
  case (Some near)
  obtain c d where near: "near = (c, d)" by (cases near)
  then have d: "d = edit_distance (to_lower token) (to_lower c)" "d \<le> m" "c \<in> set COMMAND_NAMES"
    "\<forall>c' \<in> set COMMAND_NAMES. d \<le> edit_distance (to_lower token) (to_lower c')"
    using nearest_command_cases [OF assms, of m, unfolded Some near option.case prod.case] by blast+
  have "script d (to_lower token) (to_lower c)" unfolding d(1) by (rule edit_distance_least(1))
  moreover have "\<not> (\<exists>c' \<in> set COMMAND_NAMES. \<exists>k < d. script k (to_lower token) (to_lower c'))"
    using d(4) edit_distance_least(2) by (meson leD le_trans)
  ultimately show ?thesis unfolding Some near using d(2,3) by simp
qed

theorem nearest_command_nearest_witness:
  "case nearest_command ''teem'' 2 of
      None \<Rightarrow> False
    | Some (c, d) \<Rightarrow> c \<in> set COMMAND_NAMES \<and> d \<le> 2 \<and> script d (to_lower ''teem'') (to_lower c)"
proof -
  have n: "\<not> starts_with ''-'' ''teem''" "''teem'' \<noteq> []" by (simp_all add: starts_with_def)
  have "script (Suc 0) ''teem'' ''team''"
    by (intro script.keep script.change script.stop)
  moreover have "to_lower ''teem'' = ''teem''" "to_lower ''team'' = ''team''" by code_simp+
  moreover have "''team'' \<in> set COMMAND_NAMES" by (simp add: COMMAND_NAMES_def COMMAND_SCHEMAS_def)
  ultimately have "\<exists>c \<in> set COMMAND_NAMES. \<exists>k \<le> 2. script k (to_lower ''teem'') (to_lower c)"
    by (intro bexI [of _ "''team''"] exI [of _ "Suc 0"]) simp_all
  then show ?thesis using nearest_command_nearest [OF n, of 2] by (auto split: option.splits)
qed

end
