(* ===== verification/Spec2Isabelle.thy ===== *)
theory Spec2Isabelle
  imports TeamDeps RunProperties Policy DagRunProofs PersistProperties
    CatalogProperties Routing JournalProperties CliProperties
begin

text \<open>
  A verification library for the coordination core of the command line tool.
\<close>

end
